(* ===== verification/Hub_Prelude.thy ===== *)
theory Hub_Prelude
  imports Main "HOL-Library.AList" "HOL-Library.Char_ord" "HOL-Library.List_Lexorder"
    "HOL-Library.Sublist"
begin

text \<open>
  The prelude: the lemma collections of the development, the types every component names
  (Go strings and byte slices are both lists of 8-bit characters), association lists as the
  model of those Go maps that the program iterates over or counts, and generic lemmas on
  lists, maps and descending sorted lists that several components share.
\<close>

section \<open>Shared types and collections\<close>

text \<open>Go's \<open>string\<close> and \<open>[]byte\<close>: both are sequences of bytes, so both are
  \<^typ>\<open>string\<close> here. A Go map that is only ever looked up and updated pointwise is a
  partial function; one the code ranges over is an association list with distinct keys.\<close>

type_synonym bytes = string
type_synonym ref = string
type_synonym ('k, 'v) gomap = "('k \<times> 'v) list"

named_theorems hub_defs \<open>unfoldings of operations, used together in the proofs of a component\<close>
named_theorems go_simps \<open>evaluation rules of the library functions the program calls\<close>

abbreviation ord_of :: "char \<Rightarrow> int" where
  "ord_of c \<equiv> of_char c"

lemma of_char_bounds: "0 \<le> ord_of c" "ord_of c < 256"
proof -
  have "ord_of c mod 256 = ord_of c" by simp
  then show "0 \<le> ord_of c" "ord_of c < 256"
    using pos_mod_bound [of 256 "ord_of c"] pos_mod_sign [of 256 "ord_of c"] by simp_all
qed

section \<open>Go maps that are iterated: association lists\<close>

definition mget :: "('k, 'v) gomap \<Rightarrow> 'k \<Rightarrow> 'v option" where
  "mget m k = map_of m k"

definition mput :: "'k \<Rightarrow> 'v \<Rightarrow> ('k, 'v) gomap \<Rightarrow> ('k, 'v) gomap" where
  "mput k v m = AList.update k v m"

definition mdel :: "'k \<Rightarrow> ('k, 'v) gomap \<Rightarrow> ('k, 'v) gomap" where
  "mdel k m = AList.delete k m"

definition mkeys :: "('k, 'v) gomap \<Rightarrow> 'k list" where
  "mkeys m = map fst m"

definition mvals :: "('k, 'v) gomap \<Rightarrow> 'v list" where
  "mvals m = map snd m"

text \<open>What Go guarantees of a map: one entry per key.\<close>

definition mwf :: "('k, 'v) gomap \<Rightarrow> bool" where
  "mwf m \<longleftrightarrow> distinct (map fst m)"

lemma mget_empty [simp]: "mget [] k = None"
  by (simp add: mget_def)

lemma mget_put [simp]: "mget (mput k v m) k' = (if k' = k then Some v else mget m k')"
  by (simp add: mget_def mput_def update_conv)

lemma mget_del [simp]: "mget (mdel k m) k' = (if k' = k then None else mget m k')"
  by (simp add: mget_def mdel_def delete_conv)

lemma mwf_empty [simp]: "mwf []"
  by (simp add: mwf_def)

lemma mwf_put [simp, intro]: "mwf m \<Longrightarrow> mwf (mput k v m)"
  by (simp add: mwf_def mput_def distinct_update)

lemma mwf_del [simp, intro]: "mwf m \<Longrightarrow> mwf (mdel k m)"
  by (simp add: mwf_def mdel_def distinct_delete)

lemma mget_in_vals: "mget m k = Some v \<Longrightarrow> v \<in> set (mvals m)"
  by (force simp: mget_def mvals_def dest: map_of_SomeD)

lemma mget_iff_in: "mwf m \<Longrightarrow> mget m k = Some v \<longleftrightarrow> (k, v) \<in> set m"
  by (simp add: mwf_def mget_def)

lemma in_mvals_iff: "mwf m \<Longrightarrow> v \<in> set (mvals m) \<longleftrightarrow> (\<exists>k. mget m k = Some v)"
  by (force simp: mvals_def mget_iff_in)

lemma in_mkeys_iff: "k \<in> set (mkeys m) \<longleftrightarrow> mget m k \<noteq> None"
  by (auto simp: mkeys_def mget_def map_of_eq_None_iff)

lemma mget_filter_vals:
  "mwf m \<Longrightarrow> mget (filter (\<lambda>e. P (snd e)) m) k
     = (case mget m k of Some v \<Rightarrow> if P v then Some v else None | None \<Rightarrow> None)"
proof (induction m)
  case Nil
  then show ?case by simp
next
  case (Cons e m)
  obtain k' v' where e: "e = (k', v')" by (cases e)
  from Cons.prems e have wf: "mwf m" and notin: "k' \<notin> fst ` set m"
    by (auto simp: mwf_def)
  then have none: "mget m k' = None"
    by (simp add: mget_def map_of_eq_None_iff)
  show ?case
  proof (cases "k = k'")
    case True
    with Cons.IH [OF wf] none e show ?thesis by (auto simp: mget_def)
  next
    case False
    with Cons.IH [OF wf] e show ?thesis by (auto simp: mget_def split: option.splits)
  qed
qed

lemma mwf_filter: "mwf m \<Longrightarrow> mwf (filter P m)"
  by (induction m) (auto simp: mwf_def)

lemma mwf_card_keys: "mwf m \<Longrightarrow> card (set (mkeys m)) = length m"
  unfolding mwf_def mkeys_def by (simp only: distinct_card length_map)

lemma mwf_distinct_keys: "mwf m \<Longrightarrow> distinct (mkeys m)"
  by (simp add: mwf_def mkeys_def)

section \<open>Pointwise updates of partial functions\<close>

text \<open>A lookup that falls back to the zero value of an absent key, as indexing a Go map of
  slices does.\<close>

definition get_list :: "('k \<Rightarrow> 'v list option) \<Rightarrow> 'k \<Rightarrow> 'v list" where
  "get_list m k = (case m k of Some vs \<Rightarrow> vs | None \<Rightarrow> [])"

lemma get_list_upd [simp]:
  "get_list (m(k \<mapsto> vs)) k' = (if k' = k then vs else get_list m k')"
  by (simp add: get_list_def)

lemma get_list_empty [simp]: "get_list Map.empty k = []"
  by (simp add: get_list_def)

lemma fold_id_if: "(\<And>x. x \<in> set xs \<Longrightarrow> f x s = s) \<Longrightarrow> fold f xs s = s"
  by (induction xs) auto

text \<open>An invariant of every step is an invariant of a fold.\<close>

lemma fold_invariant_rule:
  "P s \<Longrightarrow> (\<And>x s. x \<in> set xs \<Longrightarrow> P s \<Longrightarrow> P (f x s)) \<Longrightarrow> P (fold f xs s)"
  by (induction xs arbitrary: s) auto

section \<open>Lists sorted by a strict order\<close>

lemma sorted_wrt_irrefl_distinct:
  assumes "sorted_wrt R xs" and "\<And>x. \<not> R x x"
  shows "distinct xs"
  using assms by (induction xs) auto

lemma sorted_wrt_drop: "sorted_wrt R xs \<Longrightarrow> sorted_wrt R (drop n xs)"
  by (metis append_take_drop_id sorted_wrt_append)

lemma sorted_wrt_take: "sorted_wrt R xs \<Longrightarrow> sorted_wrt R (take n xs)"
  by (metis append_take_drop_id sorted_wrt_append)

text \<open>The \<open>dropWhile\<close> of a list sorted by \<open>R\<close> past an element \<open>x\<close> of it keeps exactly the
  elements after \<open>x\<close>.\<close>

lemma dropWhile_sorted_split:
  assumes "sorted_wrt R (xs @ x # ys)"
    and "\<And>y. R x y \<Longrightarrow> P y" and "\<And>y. R y x \<Longrightarrow> \<not> P y" and "\<not> P x"
  shows "dropWhile (\<lambda>y. \<not> P y) (xs @ x # ys) = ys"
proof -
  have "\<And>y. y \<in> set xs \<Longrightarrow> \<not> P y"
    using assms(1,3) by (auto simp: sorted_wrt_append)
  moreover have "ys = [] \<or> P (hd ys)"
    using assms(1,2) by (cases ys) (auto simp: sorted_wrt_append)
  ultimately show ?thesis
    using assms(4) by (cases ys) (auto simp: dropWhile_append)
qed

end
