(* ===== verification/Go_Strings.thy ===== *)
theory Go_Strings
  imports Hub_Prelude
begin

text \<open>
  The functions of Go's packages \<open>strings\<close>, \<open>strconv\<close> and \<open>unicode/utf8\<close> that the program
  calls, over bytes. Everything here is executable; the two case tables of \<open>unicode\<close> beyond
  ASCII are a parameter of \<open>to_lower\<close>.
\<close>

section \<open>Prefixes, suffixes and searching\<close>

definition has_prefix :: "string \<Rightarrow> string \<Rightarrow> bool" where
  "has_prefix s p \<longleftrightarrow> prefix p s"

definition trim_prefix :: "string \<Rightarrow> string \<Rightarrow> string" where
  "trim_prefix s p = (if has_prefix s p then drop (length p) s else s)"

definition has_suffix :: "string \<Rightarrow> string \<Rightarrow> bool" where
  "has_suffix s p \<longleftrightarrow> suffix p s"

definition trim_suffix :: "string \<Rightarrow> string \<Rightarrow> string" where
  "trim_suffix s p = (if has_suffix s p then take (length s - length p) s else s)"

lemma has_prefix_append [simp]: "has_prefix (p @ s) p"
  by (simp add: has_prefix_def)

lemma trim_prefix_append [simp]: "trim_prefix (p @ s) p = s"
  by (simp add: trim_prefix_def)

lemma has_suffix_append [simp]: "has_suffix (s @ p) p"
  by (simp add: has_suffix_def suffix_def)

lemma trim_suffix_append [simp]: "trim_suffix (s @ p) p = s"
  by (simp add: trim_suffix_def)

lemma has_suffixE: "has_suffix s p \<Longrightarrow> (\<And>t. s = t @ p \<Longrightarrow> Q) \<Longrightarrow> Q"
  by (auto simp: has_suffix_def suffix_def)

text \<open>\<open>strings.IndexByte\<close> and the first and last occurrence of a byte, \<open>None\<close> for Go's -1.\<close>

fun index_byte :: "string \<Rightarrow> char \<Rightarrow> nat option" where
  "index_byte [] c = None"
| "index_byte (x # xs) c = (if x = c then Some 0 else map_option Suc (index_byte xs c))"

definition last_index_byte :: "string \<Rightarrow> char \<Rightarrow> nat option" where
  "last_index_byte s c = map_option (\<lambda>i. length s - 1 - i) (index_byte (rev s) c)"

text \<open>\<open>strings.Index\<close> for a substring.\<close>

fun index_str :: "string \<Rightarrow> string \<Rightarrow> nat option" where
  "index_str s p = (if has_prefix s p then Some 0
     else case s of [] \<Rightarrow> None | _ # s' \<Rightarrow> map_option Suc (index_str s' p))"

declare index_str.simps [simp del]

definition contains_byte :: "string \<Rightarrow> char \<Rightarrow> bool" where
  "contains_byte s c \<longleftrightarrow> c \<in> set s"

lemma index_byte_Some:
  "index_byte s c = Some i \<Longrightarrow> i < length s \<and> s ! i = c \<and> c \<notin> set (take i s)"
  by (induction s arbitrary: i) (auto split: if_splits)

lemma index_byte_None [simp]: "index_byte s c = None \<longleftrightarrow> c \<notin> set s"
  by (induction s) auto

section \<open>Splitting and joining\<close>

fun split_on :: "char \<Rightarrow> string \<Rightarrow> string list" where
  "split_on c [] = [[]]"
| "split_on c (x # xs) =
     (if x = c then [] # split_on c xs
      else case split_on c xs of [] \<Rightarrow> [[x]] | p # ps \<Rightarrow> (x # p) # ps)"

lemma split_on_nonempty [simp]: "split_on c s \<noteq> []"
  by (induction s) (auto split: list.splits)

lemma split_on_no_sep: "c \<notin> set s \<Longrightarrow> split_on c s = [s]"
  by (induction s) auto

lemma split_on_parts: "p \<in> set (split_on c s) \<Longrightarrow> c \<notin> set p"
proof (induction s arbitrary: p)
  case Nil
  then show ?case by simp
next
  case (Cons x xs)
  then show ?case by (cases "split_on c xs") (auto split: if_splits)
qed

text \<open>\<open>strings.SplitN(s, c, 2)[0]\<close> and \<open>strings.Cut\<close>.\<close>

definition before_byte :: "char \<Rightarrow> string \<Rightarrow> string" where
  "before_byte c s = takeWhile (\<lambda>x. x \<noteq> c) s"

definition cut_byte :: "char \<Rightarrow> string \<Rightarrow> (string \<times> string) option" where
  "cut_byte c s = (case index_byte s c of
       Some i \<Rightarrow> Some (take i s, drop (Suc i) s) | None \<Rightarrow> None)"

fun join_with :: "string \<Rightarrow> string list \<Rightarrow> string" where
  "join_with sep [] = []"
| "join_with sep [x] = x"
| "join_with sep (x # y # ys) = x @ sep @ join_with sep (y # ys)"

section \<open>Trimming white space\<close>

text \<open>The UTF-8 encodings of the characters \<open>unicode.IsSpace\<close> accepts: the six ASCII ones,
  U+0085, U+00A0, U+1680, U+2000 to U+200A, U+2028, U+2029, U+202F, U+205F and U+3000.\<close>

definition space_seqs :: "string list" where
  "space_seqs = [[CHR 0x20], [CHR 0x09], [CHR 0x0A], [CHR 0x0B], [CHR 0x0C], [CHR 0x0D],
     [CHR 0xC2, CHR 0x85], [CHR 0xC2, CHR 0xA0], [CHR 0xE1, CHR 0x9A, CHR 0x80],
     [CHR 0xE2, CHR 0x80, CHR 0x80], [CHR 0xE2, CHR 0x80, CHR 0x81],
     [CHR 0xE2, CHR 0x80, CHR 0x82], [CHR 0xE2, CHR 0x80, CHR 0x83],
     [CHR 0xE2, CHR 0x80, CHR 0x84], [CHR 0xE2, CHR 0x80, CHR 0x85],
     [CHR 0xE2, CHR 0x80, CHR 0x86], [CHR 0xE2, CHR 0x80, CHR 0x87],
     [CHR 0xE2, CHR 0x80, CHR 0x88], [CHR 0xE2, CHR 0x80, CHR 0x89],
     [CHR 0xE2, CHR 0x80, CHR 0x8A], [CHR 0xE2, CHR 0x80, CHR 0xA8],
     [CHR 0xE2, CHR 0x80, CHR 0xA9], [CHR 0xE2, CHR 0x80, CHR 0xAF],
     [CHR 0xE2, CHR 0x81, CHR 0x9F], [CHR 0xE3, CHR 0x80, CHR 0x80]]"

definition space_width :: "string \<Rightarrow> nat" where
  "space_width s = (case find (\<lambda>w. has_prefix s w) space_seqs of Some w \<Rightarrow> length w | None \<Rightarrow> 0)"

definition space_width_right :: "string \<Rightarrow> nat" where
  "space_width_right s =
     (case find (\<lambda>w. has_suffix s w) space_seqs of Some w \<Rightarrow> length w | None \<Rightarrow> 0)"

function trim_left :: "string \<Rightarrow> string" where
  "trim_left s = (let n = space_width s in
     if n = 0 \<or> s = [] then s else trim_left (drop n s))"
  by pat_completeness auto
termination
  by (relation "measure length") auto

function trim_right :: "string \<Rightarrow> string" where
  "trim_right s = (let n = space_width_right s in
     if n = 0 \<or> s = [] then s else trim_right (take (length s - n) s))"
  by pat_completeness auto
termination
  by (relation "measure length") auto

declare trim_left.simps [simp del] trim_right.simps [simp del]

definition trim_space :: "string \<Rightarrow> string" where
  "trim_space s = trim_right (trim_left s)"

section \<open>Decimal numbers: \<open>strconv.Itoa\<close> and \<open>strconv.Atoi\<close>\<close>

definition is_digit :: "char \<Rightarrow> bool" where
  "is_digit c \<longleftrightarrow> 48 \<le> ord_of c \<and> ord_of c \<le> 57"

definition digit_val :: "char \<Rightarrow> int" where
  "digit_val c = ord_of c - 48"

definition digit_char :: "int \<Rightarrow> char" where
  "digit_char d = char_of (48 + d)"

text \<open>The decimal digits of a number that is not negative.\<close>

function dec_str :: "int \<Rightarrow> string" where
  "dec_str n = (if n < 10 then [digit_char n] else dec_str (n div 10) @ [digit_char (n mod 10)])"
  by pat_completeness auto
termination
  by (relation "measure nat") auto

declare dec_str.simps [simp del]

definition itoa :: "int \<Rightarrow> string" where
  "itoa i = (if i < 0 then CHR ''-'' # dec_str (- i) else dec_str i)"

definition dec_val :: "string \<Rightarrow> int" where
  "dec_val s = foldl (\<lambda>a c. 10 * a + digit_val c) 0 s"

definition int64_min :: int where "int64_min = - (2 ^ 63)"

definition int64_max :: int where "int64_max = 2 ^ 63 - 1"

definition atoi :: "string \<Rightarrow> int option" where
  "atoi s =
     (let (neg, ds) = (case s of
            [] \<Rightarrow> (False, [])
          | c # r \<Rightarrow> if c = CHR ''-'' then (True, r) else if c = CHR ''+'' then (False, r) else (False, s))
      in if ds = [] \<or> \<not> list_all is_digit ds then None
         else let v = (if neg then - dec_val ds else dec_val ds)
              in if int64_min \<le> v \<and> v \<le> int64_max then Some v else None)"

lemma digit_val_char [simp]: "0 \<le> d \<Longrightarrow> d < 10 \<Longrightarrow> digit_val (digit_char d) = d"
  by (simp add: digit_val_def digit_char_def)

lemma is_digit_char [simp]: "0 \<le> d \<Longrightarrow> d < 10 \<Longrightarrow> is_digit (digit_char d)"
  by (simp add: is_digit_def digit_char_def)

lemma dec_val_snoc: "dec_val (s @ [c]) = 10 * dec_val s + digit_val c"
  by (simp add: dec_val_def)

lemma dec_val_dec_str [simp]: "0 \<le> n \<Longrightarrow> dec_val (dec_str n) = n"
proof (induction n rule: dec_str.induct)
  case (1 n)
  show ?case
  proof (cases "n < 10")
    case True
    with 1 show ?thesis by (simp add: dec_str.simps [of n] dec_val_def)
  next
    case False
    with 1 show ?thesis by (simp add: dec_str.simps [of n] dec_val_snoc)
  qed
qed

lemma dec_str_digits: "0 \<le> n \<Longrightarrow> list_all is_digit (dec_str n)"
proof (induction n rule: dec_str.induct)
  case (1 n)
  then show ?case by (cases "n < 10") (simp_all add: dec_str.simps [of n])
qed

lemma dec_str_nonempty [simp]: "dec_str n \<noteq> []"
  by (subst dec_str.simps) simp

lemma dec_str_inject: "0 \<le> m \<Longrightarrow> 0 \<le> n \<Longrightarrow> dec_str m = dec_str n \<longleftrightarrow> m = n"
  by (metis dec_val_dec_str)

lemma hd_itoa: "0 \<le> i \<Longrightarrow> is_digit (hd (itoa i))"
  using dec_str_digits [of i] by (cases "dec_str i") (simp_all add: itoa_def)

lemma minus_not_digit [simp]: "\<not> is_digit (CHR ''-'')" "\<not> is_digit (CHR ''+'')"
  by (simp_all add: is_digit_def)

lemma itoa_inject [simp]: "itoa i = itoa j \<longleftrightarrow> i = j"
proof
  assume eq: "itoa i = itoa j"
  have sign: "i < 0 \<longleftrightarrow> hd (itoa i) = CHR ''-''" for i
    using hd_itoa [of i] by (cases "i < 0") (auto simp: itoa_def)
  from eq have "i < 0 \<longleftrightarrow> j < 0" by (simp add: sign)
  with eq show "i = j" by (auto simp: itoa_def dec_str_inject split: if_splits)
qed simp

text \<open>Digits and signs only: a printed number holds no separator of the formats it goes into.\<close>

lemma set_dec_str: "0 \<le> n \<Longrightarrow> c \<in> set (dec_str n) \<Longrightarrow> is_digit c"
  using dec_str_digits [of n] by (simp add: list_all_iff)

lemma set_itoa: "c \<in> set (itoa i) \<Longrightarrow> is_digit c \<or> c = CHR ''-''"
  using set_dec_str [of i c] set_dec_str [of "- i" c] by (auto simp: itoa_def split: if_splits)

section \<open>Case folding\<close>

definition ascii_lower :: "char \<Rightarrow> char" where
  "ascii_lower c = (if 65 \<le> ord_of c \<and> ord_of c \<le> 90 then char_of (ord_of c + 32) else c)"

definition is_ascii :: "string \<Rightarrow> bool" where
  "is_ascii s = list_all (\<lambda>c. ord_of c < 128) s"

subsection \<open>UTF-8\<close>

text \<open>\<open>utf8.EncodeRune\<close>: surrogates and values beyond U+10FFFF are written as U+FFFD.\<close>

definition rune_error :: int where "rune_error = 0xFFFD"

definition utf8_encode :: "int \<Rightarrow> string" where
  "utf8_encode r0 =
     (let r = (if r0 > 0x10FFFF \<or> (0xD800 \<le> r0 \<and> r0 \<le> 0xDFFF) then rune_error else r0)
      in if r < 0x80 then [char_of r]
         else if r < 0x800 then [char_of (0xC0 + r div 64), char_of (0x80 + r mod 64)]
         else if r < 0x10000 then
           [char_of (0xE0 + r div 4096), char_of (0x80 + r div 64 mod 64), char_of (0x80 + r mod 64)]
         else [char_of (0xF0 + r div 262144), char_of (0x80 + r div 4096 mod 64),
               char_of (0x80 + r div 64 mod 64), char_of (0x80 + r mod 64)])"

definition cont_byte :: "char \<Rightarrow> bool" where
  "cont_byte c \<longleftrightarrow> 0x80 \<le> ord_of c \<and> ord_of c \<le> 0xBF"

text \<open>\<open>utf8.DecodeRune\<close> of a non-empty string: the rune and its width; an invalid encoding is
  U+FFFD with width 1. The bounds on the second byte exclude overlong forms, surrogates and
  values beyond U+10FFFF.\<close>

definition utf8_decode :: "string \<Rightarrow> int \<times> nat" where
  "utf8_decode s = (case s of [] \<Rightarrow> (rune_error, 0) | a # t \<Rightarrow>
     (let x = ord_of a in
      if x < 0x80 then (x, 1)
      else if 0xC2 \<le> x \<and> x \<le> 0xDF then
        (case t of b # _ \<Rightarrow>
           if cont_byte b then ((x - 0xC0) * 64 + (ord_of b - 0x80), 2) else (rune_error, 1)
         | _ \<Rightarrow> (rune_error, 1))
      else if 0xE0 \<le> x \<and> x \<le> 0xEF then
        (case t of b # c # _ \<Rightarrow>
           (let lo = (if x = 0xE0 then 0xA0 else 0x80); hi = (if x = 0xED then 0x9F else 0xBF)
            in if lo \<le> ord_of b \<and> ord_of b \<le> hi \<and> cont_byte c
               then ((x - 0xE0) * 4096 + (ord_of b - 0x80) * 64 + (ord_of c - 0x80), 3)
               else (rune_error, 1))
         | _ \<Rightarrow> (rune_error, 1))
      else if 0xF0 \<le> x \<and> x \<le> 0xF4 then
        (case t of b # c # d # _ \<Rightarrow>
           (let lo = (if x = 0xF0 then 0x90 else 0x80); hi = (if x = 0xF4 then 0x8F else 0xBF)
            in if lo \<le> ord_of b \<and> ord_of b \<le> hi \<and> cont_byte c \<and> cont_byte d
               then ((x - 0xF0) * 262144 + (ord_of b - 0x80) * 4096 + (ord_of c - 0x80) * 64
                      + (ord_of d - 0x80), 4)
               else (rune_error, 1))
         | _ \<Rightarrow> (rune_error, 1))
      else (rune_error, 1)))"

lemma utf8_decode_width: "s \<noteq> [] \<Longrightarrow> 0 < snd (utf8_decode s)"
  by (auto simp: utf8_decode_def Let_def split: list.splits)

function runes :: "string \<Rightarrow> int list" where
  "runes s = (if s = [] then [] else
     let (r, w) = utf8_decode s in r # runes (drop w s))"
  by pat_completeness auto
termination
proof (relation "measure length", goal_cases)
  case (2 s x r w)
  then have "0 < w" using utf8_decode_width [of s] by (metis snd_conv)
  with 2 show ?case by simp
qed simp

declare runes.simps [simp del]

text \<open>\<open>strings.ToLower\<close>: bytewise on ASCII strings, otherwise rune by rune. The lower case of
  a rune beyond ASCII is \<open>ulow\<close>, the table of package \<open>unicode\<close>.\<close>

definition lower_rune :: "(int \<Rightarrow> int) \<Rightarrow> int \<Rightarrow> int" where
  "lower_rune ulow r = (if r < 128 then (if 65 \<le> r \<and> r \<le> 90 then r + 32 else r) else ulow r)"

definition to_lower :: "(int \<Rightarrow> int) \<Rightarrow> string \<Rightarrow> string" where
  "to_lower ulow s = (if is_ascii s then map ascii_lower s
     else concat (map (\<lambda>r. utf8_encode (lower_rune ulow r)) (runes s)))"

section \<open>Comparing strings\<close>

text \<open>\<open><\<close> on strings: bytewise, lexicographic.\<close>

fun go_less :: "string \<Rightarrow> string \<Rightarrow> bool" where
  "go_less xs [] = False"
| "go_less [] (y # ys) = True"
| "go_less (x # xs) (y # ys) = (ord_of x < ord_of y \<or> (x = y \<and> go_less xs ys))"

lemma ord_of_inject [simp]: "ord_of x = ord_of y \<longleftrightarrow> x = y"
  by simp

lemma go_less_irrefl [simp]: "\<not> go_less s s"
  by (induction s) auto

lemma go_less_trans: "go_less a b \<Longrightarrow> go_less b c \<Longrightarrow> go_less a c"
proof (induction a b arbitrary: c rule: go_less.induct)
  case (3 x xs y ys)
  then show ?case by (cases c) auto
next
  case (2 y ys)
  then show ?case by (cases c) auto
qed auto

lemma go_less_asym: "go_less a b \<Longrightarrow> \<not> go_less b a"
  using go_less_trans go_less_irrefl by blast

lemma go_less_linear: "a \<noteq> b \<Longrightarrow> go_less a b \<or> go_less b a"
proof (induction a b rule: go_less.induct)
  case (1 xs)
  then show ?case by (cases xs) auto
next
  case (3 x xs y ys)
  then show ?case using linorder_less_linear [of "ord_of x" "ord_of y"] by auto
qed auto

text \<open>Strings as keys to sort by: \<open>sort_key Text_Key\<close> is the order of Go.\<close>

datatype text_key = Text_Key (key_text: string)

instantiation text_key :: linorder
begin

definition less_text_key :: "text_key \<Rightarrow> text_key \<Rightarrow> bool" where
  "a < b \<longleftrightarrow> go_less (key_text a) (key_text b)"

definition less_eq_text_key :: "text_key \<Rightarrow> text_key \<Rightarrow> bool" where
  "a \<le> b \<longleftrightarrow> a = b \<or> go_less (key_text a) (key_text b)"

instance
proof
  fix a b c :: text_key
  show "a < b \<longleftrightarrow> a \<le> b \<and> \<not> b \<le> a"
    using go_less_asym by (auto simp: less_text_key_def less_eq_text_key_def)
  show "a \<le> a" by (simp add: less_eq_text_key_def)
  show "a \<le> b \<Longrightarrow> b \<le> c \<Longrightarrow> a \<le> c"
    using go_less_trans by (auto simp: less_eq_text_key_def)
  show "a \<le> b \<Longrightarrow> b \<le> a \<Longrightarrow> a = b"
    using go_less_asym by (auto simp: less_eq_text_key_def)
  show "a \<le> b \<or> b \<le> a"
    using go_less_linear [of "key_text a" "key_text b"]
    by (cases a; cases b) (auto simp: less_eq_text_key_def)
qed

end

end
