(* ===== verification/Go_Float.thy ===== *)
theory Go_Float
  imports Go_Strings
begin

text \<open>
  The numbers of \<open>encoding/json\<close> when a document is decoded into \<open>any\<close> and encoded again, which is
  what canonicalisation does: the literal is rounded to the nearest float64 (ties to even,
  subnormals included, overflow is an error) and printed with the fewest significant digits that
  read back as the same float64, in ES6 style. All arithmetic is on exact integers.
\<close>

section \<open>Reading a number literal\<close>

definition is_exp_char :: "char \<Rightarrow> bool" where
  "is_exp_char c \<longleftrightarrow> c = CHR ''e'' \<or> c = CHR ''E''"

text \<open>The sign, the digits as one number \<open>d\<close> and the exponent \<open>k\<close>: the literal denotes
  \<open>\<plusminus>d * 10 ^ k\<close>.\<close>

definition exp_part :: "string \<Rightarrow> int" where
  "exp_part s = (case s of [] \<Rightarrow> 0
     | c # r \<Rightarrow> if c = CHR ''-'' then - dec_val r
               else if c = CHR ''+'' then dec_val r else dec_val s)"

definition num_parts :: "string \<Rightarrow> bool \<times> int \<times> int" where
  "num_parts s =
     (let neg = (case s of c # _ \<Rightarrow> c = CHR ''-'' | [] \<Rightarrow> False);
          body = (if neg then tl s else s);
          mant = takeWhile (\<lambda>c. \<not> is_exp_char c) body;
          ex = drop (Suc (length mant)) body;
          whole = takeWhile (\<lambda>c. c \<noteq> CHR ''.'') mant;
          frac = drop (Suc (length whole)) mant
      in (neg, dec_val (whole @ frac), exp_part ex - int (length frac)))"

section \<open>The nearest float64\<close>

definition round_half_even :: "int \<Rightarrow> int \<Rightarrow> int" where
  "round_half_even num den = (let q = num div den; r = num mod den in
     if 2 * r < den then q else if den < 2 * r then q + 1 else if even q then q else q + 1)"

function bit_len :: "int \<Rightarrow> int" where
  "bit_len n = (if n \<le> 0 then 0 else 1 + bit_len (n div 2))"
  by pat_completeness auto
termination
  by (relation "measure nat") auto

declare bit_len.simps [simp del]

definition scale_frac :: "int \<Rightarrow> int \<Rightarrow> int \<Rightarrow> int \<Rightarrow> int \<times> int" where
  "scale_frac base num den k =
     (if 0 \<le> k then (num * base ^ nat k, den) else (num, den * base ^ nat (- k)))"

text \<open>A positive float64 is \<open>(m, e)\<close>, for \<open>m * 2 ^ e\<close> with \<open>m < 2 ^ 53\<close>, normalised so that
  \<open>2 ^ 52 \<le> m\<close> unless \<open>e = -1074\<close>. \<open>None\<close> is overflow; \<open>m = 0\<close> is an underflow to zero.\<close>

definition nearest_float :: "int \<Rightarrow> int \<Rightarrow> (int \<times> int) option" where
  "nearest_float num den =
     (let k = bit_len num - bit_len den;
          (a, b) = scale_frac 2 num den (- k);
          lg = (if b \<le> a then k else k - 1);
          e = max (lg - 52) (- 1074);
          (c, d) = scale_frac 2 num den (- e);
          m = round_half_even c d;
          (m', e') = (if m = 2 ^ 53 then (2 ^ 52, e + 1) else (m, e))
      in if e' > 971 then None else Some (m', e'))"

section \<open>The shortest decimal\<close>

fun leading_shift :: "nat \<Rightarrow> int \<Rightarrow> int \<Rightarrow> int" where
  "leading_shift 0 num den = 0"
| "leading_shift (Suc n) num den = (if den \<le> num then 0 else 1 + leading_shift n (10 * num) den)"

text \<open>The \<open>p\<close> with \<open>10 ^ (p - 1) \<le> num / den < 10 ^ p\<close>; 400 steps cover every float64.\<close>

definition dec_point :: "int \<Rightarrow> int \<Rightarrow> int" where
  "dec_point num den = (if den \<le> num then int (length (dec_str (num div den)))
     else 1 - leading_shift 400 num den)"

definition round_digits :: "int \<Rightarrow> int \<Rightarrow> int \<Rightarrow> int" where
  "round_digits num den k = (let (a, b) = scale_frac 10 num den (- k) in round_half_even a b)"

definition reads_back :: "int \<times> int \<Rightarrow> int \<Rightarrow> int \<Rightarrow> bool" where
  "reads_back f d k = (let (a, b) = scale_frac 10 d 1 k in nearest_float a b = Some f)"

definition shortest :: "int \<times> int \<Rightarrow> int \<times> int" where
  "shortest f = (let (num, den) = scale_frac 2 (fst f) 1 (snd f); p = dec_point num den in
     case find (\<lambda>n. reads_back f (round_digits num den (p - int n)) (p - int n)) [1..<17] of
       Some n \<Rightarrow> (round_digits num den (p - int n), p - int n)
     | None \<Rightarrow> (round_digits num den (p - 17), p - 17))"

definition strip_zeros :: "string \<Rightarrow> string" where
  "strip_zeros s = rev (dropWhile (\<lambda>c. c = CHR ''0'') (rev s))"

definition zeros :: "nat \<Rightarrow> string" where
  "zeros n = replicate n (CHR ''0'')"

text \<open>\<open>float64Encoder\<close>: exponent form below \<open>1e-6\<close> and from \<open>1e21\<close> on, positional otherwise.\<close>

definition format_dec :: "int \<Rightarrow> int \<Rightarrow> string" where
  "format_dec d k =
     (let full = dec_str d; dp = int (length full) + k; ds = strip_zeros full; x = dp - 1;
          n = int (length ds)
      in if x < - 6 \<or> 21 \<le> x then
           take 1 ds @ (if length ds = 1 then [] else CHR ''.'' # drop 1 ds) @
           ''e'' @ (if x < 0 then ''-'' else ''+'') @ dec_str (abs x)
         else if dp \<le> 0 then ''0.'' @ zeros (nat (- dp)) @ ds
         else if n \<le> dp then ds @ zeros (nat (dp - n))
         else take (nat dp) ds @ ''.'' @ drop (nat dp) ds)"

text \<open>A literal as \<open>any\<close> decodes and the encoder prints it; \<open>None\<close> when it overflows.\<close>

definition num_canon :: "string \<Rightarrow> string option" where
  "num_canon s =
     (let (neg, d, k) = num_parts s; sgn = (if neg then ''-'' else [])
      in if d = 0 then Some (sgn @ ''0'')
         else (let (a, b) = scale_frac 10 d 1 k in
           case nearest_float a b of
             None \<Rightarrow> None
           | Some f \<Rightarrow> if fst f = 0 then Some (sgn @ ''0'')
               else (let (d', k') = shortest f in Some (sgn @ format_dec d' k'))))"

end
