(* ===== verification/Go_Time.thy ===== *)
theory Go_Time
  imports Go_Strings
begin

text \<open>
  Package \<open>time\<close> as the program uses it: an instant is the number of nanoseconds since the Unix
  epoch (the program compares instants and adds durations, nothing more), and
  \<open>time.Parse(time.RFC3339, s)\<close> with the leniencies it documents and has: an optional fraction
  after the seconds, a one-digit hour, and offsets up to 24:60.
\<close>

type_synonym instant = int

definition second :: int where "second = 1000000000"

definition minute :: int where "minute = 60 * second"

definition hour :: int where "hour = 60 * minute"

text \<open>\<open>time.Time\<close>'s zero value: 1 January of the year 1, UTC.\<close>

definition zero_time :: instant where "zero_time = - 62135596800 * second"

definition leap_year :: "int \<Rightarrow> bool" where
  "leap_year y \<longleftrightarrow> y mod 4 = 0 \<and> (y mod 100 \<noteq> 0 \<or> y mod 400 = 0)"

definition days_in :: "int \<Rightarrow> int \<Rightarrow> int" where
  "days_in m y = (if m = 2 then (if leap_year y then 29 else 28)
     else if m = 4 \<or> m = 6 \<or> m = 9 \<or> m = 11 then 30 else 31)"

text \<open>Days from the epoch to a date of the proleptic Gregorian calendar.\<close>

definition civil_days :: "int \<Rightarrow> int \<Rightarrow> int \<Rightarrow> int" where
  "civil_days y m d =
     (let y' = (if m \<le> 2 then y - 1 else y); era = y' div 400; yoe = y' mod 400;
          mp = (m + 9) mod 12; doy = (153 * mp + 2) div 5 + d - 1;
          doe = yoe * 365 + yoe div 4 - yoe div 100 + doy
      in era * 146097 + doe - 719468)"

definition two_digits :: "string \<Rightarrow> (int \<times> string) option" where
  "two_digits s = (case s of a # b # r \<Rightarrow>
      if is_digit a \<and> is_digit b then Some (dec_val [a, b], r) else None | _ \<Rightarrow> None)"

definition one_or_two_digits :: "string \<Rightarrow> (int \<times> string) option" where
  "one_or_two_digits s = (case two_digits s of Some x \<Rightarrow> Some x
     | None \<Rightarrow> (case s of a # r \<Rightarrow> if is_digit a then Some (digit_val a, r) else None | [] \<Rightarrow> None))"

definition in_range :: "int \<Rightarrow> int \<Rightarrow> (int \<times> string) option \<Rightarrow> (int \<times> string) option" where
  "in_range lo hi x = Option.bind x (\<lambda>(n, r). if lo \<le> n \<and> n \<le> hi then Some (n, r) else None)"

definition expect :: "char \<Rightarrow> string \<Rightarrow> string option" where
  "expect c s = (case s of x # r \<Rightarrow> if x = c then Some r else None | [] \<Rightarrow> None)"

definition parse_fraction :: "string \<Rightarrow> int \<times> string" where
  "parse_fraction s = (case s of c # d # r \<Rightarrow>
      if (c = CHR ''.'' \<or> c = CHR '','') \<and> is_digit d then
        (let ds = takeWhile is_digit (d # r); kept = take 9 ds
         in (dec_val kept * 10 ^ (9 - length kept), dropWhile is_digit (d # r)))
      else (0, s)
    | _ \<Rightarrow> (0, s))"

text \<open>The offset, in seconds, and what follows it.\<close>

definition parse_zone :: "string \<Rightarrow> (int \<times> string) option" where
  "parse_zone s = (case s of [] \<Rightarrow> None
     | c # r \<Rightarrow> if c = CHR ''Z'' then Some (0, r)
        else Option.bind (in_range 0 24 (two_digits r)) (\<lambda>(h, r1).
             Option.bind (expect (CHR '':'') r1) (\<lambda>r2.
             Option.bind (in_range 0 60 (two_digits r2)) (\<lambda>(m, r3).
               let off = (h * 60 + m) * 60
               in if c = CHR ''+'' then Some (off, r3)
                  else if c = CHR ''-'' then Some (- off, r3) else None))))"

definition parse_date :: "string \<Rightarrow> (int \<times> string) option" where
  "parse_date s = Option.bind (two_digits s) (\<lambda>(c, r1). Option.bind (two_digits r1) (\<lambda>(u, r2).
     Option.bind (expect (CHR ''-'') r2) (\<lambda>r3.
     Option.bind (in_range 1 12 (two_digits r3)) (\<lambda>(m, r4).
     Option.bind (expect (CHR ''-'') r4) (\<lambda>r5.
     Option.bind (two_digits r5) (\<lambda>(d, r6).
       let y = 100 * c + u
       in if 1 \<le> d \<and> d \<le> days_in m y then Some (civil_days y m d, r6) else None))))))"

definition parse_clock :: "string \<Rightarrow> (int \<times> string) option" where
  "parse_clock s = Option.bind (in_range 0 23 (one_or_two_digits s)) (\<lambda>(h, r1).
     Option.bind (expect (CHR '':'') r1) (\<lambda>r2.
     Option.bind (in_range 0 59 (two_digits r2)) (\<lambda>(m, r3).
     Option.bind (expect (CHR '':'') r3) (\<lambda>r4.
     Option.bind (in_range 0 59 (two_digits r4)) (\<lambda>(sec, r5).
       let (ns, r6) = parse_fraction r5
       in Some (((h * 60 + m) * 60 + sec) * second + ns, r6))))))"

definition parse_rfc3339 :: "string \<Rightarrow> instant option" where
  "parse_rfc3339 s = Option.bind (parse_date s) (\<lambda>(days, r1).
     Option.bind (expect (CHR ''T'') r1) (\<lambda>r2.
     Option.bind (parse_clock r2) (\<lambda>(ns, r3).
     Option.bind (parse_zone r3) (\<lambda>(off, r4).
       if r4 = [] then Some (days * 86400 * second + ns - off * second) else None))))"

end
