(* ===== verification/Go_Duration.thy ===== *)
theory Go_Duration
  imports Go_Float Go_Time
begin

text \<open>
  \<open>time.ParseDuration\<close> as the standard library has it: a sign, then a sequence of numbers with a
  unit, summed in an unsigned 64-bit word; a fraction is scaled in float64 arithmetic. A duration
  is its number of nanoseconds. The lemma gives the value of a whole number of one unit.
\<close>

definition unit_ns :: "string \<Rightarrow> int option" where
  "unit_ns u =
     (if u = ''ns'' then Some 1
      else if u = ''us'' \<or> u = CHR 0xC2 # CHR 0xB5 # ''s'' \<or> u = CHR 0xCE # CHR 0xBC # ''s'' then Some 1000
      else if u = ''ms'' then Some 1000000
      else if u = ''s'' then Some second
      else if u = ''m'' then Some minute
      else if u = ''h'' then Some hour
      else None)"

text \<open>\<open>leadingInt\<close>: \<open>None\<close> is an overflow of \<open>2 ^ 63\<close>.\<close>

fun leading_int :: "int \<Rightarrow> string \<Rightarrow> (int \<times> string) option" where
  "leading_int x [] = Some (x, [])"
| "leading_int x (c # s) =
     (if \<not> is_digit c then Some (x, c # s)
      else if 2 ^ 63 div 10 < x then None
      else let x = x * 10 + digit_val c in if 2 ^ 63 < x then None else leading_int x s)"

text \<open>\<open>leadingFraction\<close>: the digits that fit, and the power of ten they are divided by.\<close>

fun leading_fraction :: "int \<Rightarrow> int \<Rightarrow> bool \<Rightarrow> string \<Rightarrow> int \<times> int \<times> string" where
  "leading_fraction x scale overflow [] = (x, scale, [])"
| "leading_fraction x scale overflow (c # s) =
     (if \<not> is_digit c then (x, scale, c # s)
      else if overflow \<or> (2 ^ 63 - 1) div 10 < x \<or> 2 ^ 63 < x * 10 + digit_val c
      then leading_fraction x scale True s
      else leading_fraction (x * 10 + digit_val c) (scale * 10) False s)"

text \<open>\<open>uint64(float64(f) * (float64(unit) / scale))\<close> for positive \<open>f\<close>; every step rounds.\<close>

definition scaled_fraction :: "int \<Rightarrow> int \<Rightarrow> int \<Rightarrow> int" where
  "scaled_fraction f u scale = (case (nearest_float f 1, nearest_float u scale) of
      (Some (m, e), Some (n, k)) \<Rightarrow>
        (let (num, den) = scale_frac 2 (m * n) 1 (e + k) in
         case nearest_float num den of
           Some (p, i) \<Rightarrow> (let (a, b) = scale_frac 2 p 1 i in a div b)
         | None \<Rightarrow> 0)
    | _ \<Rightarrow> 0)"

definition is_number_char :: "char \<Rightarrow> bool" where
  "is_number_char c \<longleftrightarrow> c = CHR ''.'' \<or> is_digit c"

text \<open>One number with its unit.\<close>

definition duration_part :: "string \<Rightarrow> (int \<times> string) option" where
  "duration_part s =
     (if s = [] \<or> \<not> is_number_char (hd s) then None
      else (case leading_int 0 s of
        None \<Rightarrow> None
      | Some (v, r) \<Rightarrow>
          (let pre = (r \<noteq> s);
               (f, scale, r', post) =
                 (if r \<noteq> [] \<and> hd r = CHR ''.'' then
                    (case leading_fraction 0 1 False (tl r) of (f, scale, r') \<Rightarrow> (f, scale, r', r' \<noteq> tl r))
                  else (0, 1, r, False));
               u = takeWhile (\<lambda>c. \<not> is_number_char c) r'; rest = dropWhile (\<lambda>c. \<not> is_number_char c) r'
           in if \<not> pre \<and> \<not> post then None
              else if u = [] then None
              else (case unit_ns u of
                 None \<Rightarrow> None
               | Some n \<Rightarrow>
                   if 2 ^ 63 div n < v then None
                   else let v = v * n; v = (if 0 < f then v + scaled_fraction f n scale else v)
                     in if 2 ^ 63 < v then None else Some (v, rest)))))"

lemma leading_int_length: "leading_int x s = Some (v, r) \<Longrightarrow> length r \<le> length s"
  by (induction x s rule: leading_int.induct) (auto simp: Let_def split: if_splits)

lemma leading_fraction_length: "leading_fraction x k b s = (f, k', r) \<Longrightarrow> length r \<le> length s"
  by (induction x k b s rule: leading_fraction.induct) (auto split: if_splits)

lemma duration_part_shorter: "duration_part s = Some (v, r) \<Longrightarrow> length r < length s"
proof -
  assume part: "duration_part s = Some (v, r)"
  obtain x q where q: "leading_int 0 s = Some (x, q)"
    using part by (auto simp: duration_part_def split: if_splits option.splits)
  obtain f k q' where f: "leading_fraction 0 1 False (tl q) = (f, k, q')" by (metis prod_cases3)
  have "length q' \<le> length (tl q)" using leading_fraction_length [OF f] .
  moreover have "length q \<le> length s" using leading_int_length [OF q] .
  moreover have "length (dropWhile P z) < length z" if "takeWhile P z \<noteq> []" for P and z :: string
    using that by (cases z) (auto simp: less_Suc_eq_le length_dropWhile_le split: if_splits)
  ultimately show ?thesis
    using part q f by (auto simp: duration_part_def Let_def split: if_splits option.splits) fastforce+
qed

function duration_sum :: "int \<Rightarrow> string \<Rightarrow> int option" where
  "duration_sum d s =
     (if s = [] then Some d
      else (case duration_part s of
        None \<Rightarrow> None
      | Some (v, r) \<Rightarrow>
          (let d' = (d + v) mod 2 ^ 64 in if 2 ^ 63 < d' then None else duration_sum d' r)))"
  by pat_completeness auto
termination
  by (relation "measure (\<lambda>(d, s). length s)") (auto dest: duration_part_shorter)

declare duration_sum.simps [simp del]

definition ParseDuration :: "string \<Rightarrow> int option" where
  "ParseDuration s =
     (let neg = (s \<noteq> [] \<and> hd s = CHR ''-'');
          body = (if s \<noteq> [] \<and> (hd s = CHR ''-'' \<or> hd s = CHR ''+'') then tl s else s)
      in if body = ''0'' then Some 0
         else if body = [] then None
         else (case duration_sum 0 body of
             None \<Rightarrow> None
           | Some d \<Rightarrow> if neg then Some (- d) else if 2 ^ 63 - 1 < d then None else Some d))"

lemma ParseDuration_examples:
  "ParseDuration ''168h'' = Some (168 * hour)" "ParseDuration ''5m'' = Some (5 * minute)"
  "ParseDuration ''1h30m'' = Some (90 * minute)" "ParseDuration ''-1.5h'' = Some (- 90 * minute)"
  "ParseDuration ''5'' = None" "ParseDuration ''.s'' = None"
  by code_simp+

text \<open>A duration fits a signed 64-bit integer.\<close>

lemma duration_sum_range: "0 \<le> d \<Longrightarrow> d \<le> 2 ^ 63 \<Longrightarrow> duration_sum d s = Some x \<Longrightarrow> 0 \<le> x \<and> x \<le> 2 ^ 63"
proof (induction d s rule: duration_sum.induct)
  case (1 d s)
  show ?case
  proof (cases "s = []")
    case True
    with 1(2-4) show ?thesis by (simp add: duration_sum.simps)
  next
    case False
    with 1(4) obtain v r where p: "duration_part s = Some (v, r)"
      by (subst (asm) duration_sum.simps) (auto split: option.splits)
    with False 1(4) have "\<not> 2 ^ 63 < (d + v) mod 2 ^ 64" "duration_sum ((d + v) mod 2 ^ 64) r = Some x"
      by (auto simp: duration_sum.simps [of d s] Let_def split: if_splits)
    with 1(1) [OF False p refl refl] show ?thesis by simp
  qed
qed

lemma ParseDuration_range: "ParseDuration s = Some d \<Longrightarrow> - (2 ^ 63) \<le> d \<and> d < 2 ^ 63"
proof -
  have range: "duration_sum 0 t = Some x \<Longrightarrow> 0 \<le> x \<and> x \<le> 2 ^ 63" for t x
    using duration_sum_range [of 0] by simp
  show "ParseDuration s = Some d \<Longrightarrow> ?thesis"
    by (auto simp: ParseDuration_def Let_def dest!: range split: if_splits option.splits)
qed

end
