(* ===== verification/Go_Json.thy ===== *)
theory Go_Json
  imports Go_Float
begin

text \<open>
  Package \<open>encoding/json\<close> as the program uses it. A document is parsed from its bytes into a tree
  that keeps what Go keeps of it (object members in source order with duplicates, number literals
  as written, strings decoded to UTF-8 bytes). A tree stands for a \<open>json.RawMessage\<close> too, for the
  program only ever parses those again. Decoding into struct fields, slices and maps, and the
  encoder, work on trees.
\<close>

section \<open>Documents\<close>

datatype json =
    JNull
  | JBool bool
  | JNum string
  | JStr string
  | JArr "json list"
  | JObj "(string \<times> json) list"

section \<open>The scanner\<close>

definition json_space :: "char \<Rightarrow> bool" where
  "json_space c \<longleftrightarrow> c = CHR 0x20 \<or> c = CHR 0x09 \<or> c = CHR 0x0A \<or> c = CHR 0x0D"

definition skip_ws :: "string \<Rightarrow> string" where
  "skip_ws s = dropWhile json_space s"

definition hex4 :: "string \<Rightarrow> int option" where
  "hex4 s = (case s of a # b # c # d # _ \<Rightarrow>
      (let v = (\<lambda>x. let n = ord_of x in
             if 48 \<le> n \<and> n \<le> 57 then Some (n - 48)
             else if 97 \<le> n \<and> n \<le> 102 then Some (n - 87)
             else if 65 \<le> n \<and> n \<le> 70 then Some (n - 55) else None)
       in case (v a, v b, v c, v d) of
            (Some p, Some q, Some r, Some t) \<Rightarrow> Some (((p * 16 + q) * 16 + r) * 16 + t)
          | _ \<Rightarrow> None)
    | _ \<Rightarrow> None)"

definition short_escape :: "char \<Rightarrow> char option" where
  "short_escape c = (if c = CHR 0x22 \<or> c = CHR 0x5C \<or> c = CHR 0x2F then Some c
     else if c = CHR ''b'' then Some (CHR 0x08) else if c = CHR ''f'' then Some (CHR 0x0C)
     else if c = CHR ''n'' then Some (CHR 0x0A) else if c = CHR ''r'' then Some (CHR 0x0D)
     else if c = CHR ''t'' then Some (CHR 0x09) else None)"

text \<open>A \<open>\\u\<close> escape whose digits are \<open>u\<close>: a surrogate pair is one rune, a surrogate without its
  partner is U+FFFD. The second component is how many further bytes are consumed.\<close>

definition unicode_escape :: "int \<Rightarrow> string \<Rightarrow> string \<times> nat" where
  "unicode_escape u rest =
     (if 0xD800 \<le> u \<and> u \<le> 0xDFFF then
        (case rest of x # y # r \<Rightarrow>
           if x = CHR 0x5C \<and> y = CHR ''u'' then
             (case hex4 r of Some l \<Rightarrow>
                if u < 0xDC00 \<and> 0xDC00 \<le> l \<and> l \<le> 0xDFFF
                then (utf8_encode ((u - 0xD800) * 1024 + (l - 0xDC00) + 0x10000), 6)
                else (utf8_encode rune_error, 0)
              | None \<Rightarrow> (utf8_encode rune_error, 0))
           else (utf8_encode rune_error, 0)
         | _ \<Rightarrow> (utf8_encode rune_error, 0))
      else (utf8_encode u, 0))"

text \<open>The rest of a string literal, after its opening quote: the decoded bytes and what follows
  the closing quote. Control bytes are errors and invalid UTF-8 becomes U+FFFD.\<close>

function lex_string :: "string \<Rightarrow> (string \<times> string) option" where
  "lex_string s = (case s of [] \<Rightarrow> None
   | c # r \<Rightarrow>
      if c = CHR 0x22 then Some ([], r)
      else if c = CHR 0x5C then
        (case r of [] \<Rightarrow> None
         | e # r' \<Rightarrow>
            if e = CHR ''u'' then
              (case hex4 r' of None \<Rightarrow> None
               | Some u \<Rightarrow> (let (bs, n) = unicode_escape u (drop 4 r') in
                   map_option (\<lambda>(t, q). (bs @ t, q)) (lex_string (drop n (drop 4 r')))))
            else (case short_escape e of None \<Rightarrow> None
                  | Some b \<Rightarrow> map_option (\<lambda>(t, q). (b # t, q)) (lex_string r')))
      else if ord_of c < 0x20 then None
      else if ord_of c < 0x80 then map_option (\<lambda>(t, q). (c # t, q)) (lex_string r)
      else (let (u, w) = utf8_decode s in
        map_option (\<lambda>(t, q). (utf8_encode u @ t, q)) (lex_string (drop (max 1 w) s))))"
  by pat_completeness auto
termination
  by (relation "measure length") (auto simp: less_Suc_eq_le)

declare lex_string.simps [simp del]

definition lex_digits :: "string \<Rightarrow> string \<times> string" where
  "lex_digits s = (takeWhile is_digit s, dropWhile is_digit s)"

text \<open>A number literal: an optional minus, no leading zero, optional fraction and exponent.\<close>

definition lex_frac :: "string \<Rightarrow> (string \<times> string) option" where
  "lex_frac s = (case s of c # r \<Rightarrow>
      if c = CHR ''.'' then (let (d, q) = lex_digits r in if d = [] then None else Some (c # d, q))
      else Some ([], s)
    | [] \<Rightarrow> Some ([], []))"

definition lex_exp :: "string \<Rightarrow> (string \<times> string) option" where
  "lex_exp s = (case s of c # r \<Rightarrow>
      if is_exp_char c then
        (let (sg, r') = (case r of x # y \<Rightarrow> if x = CHR ''+'' \<or> x = CHR ''-'' then ([x], y) else ([], r)
                         | [] \<Rightarrow> ([], r));
             (d, q) = lex_digits r'
         in if d = [] then None else Some (c # sg @ d, q))
      else Some ([], s)
    | [] \<Rightarrow> Some ([], []))"

definition lex_number :: "string \<Rightarrow> (string \<times> string) option" where
  "lex_number s =
     (let (sg, r) = (case s of c # q \<Rightarrow> if c = CHR ''-'' then ([c], q) else ([], s) | [] \<Rightarrow> ([], []));
          (d, r1) = (case r of c # q \<Rightarrow> if c = CHR ''0'' then ([c], q) else lex_digits r | [] \<Rightarrow> ([], []))
      in if d = [] then None
         else Option.bind (lex_frac r1) (\<lambda>(f, r2).
           map_option (\<lambda>(e, r3). (sg @ d @ f @ e, r3)) (lex_exp r2)))"

section \<open>The parser\<close>

text \<open>The members of an array and of an object, given the parser \<open>pv\<close> of the values inside. Each
  round consumes a byte, so a fuel beyond the length of the input is never exhausted.\<close>

type_synonym 'a parser = "string \<Rightarrow> ('a \<times> string) option"

primrec parse_elems :: "nat \<Rightarrow> 'a parser \<Rightarrow> 'a list parser" where
  "parse_elems 0 pv s = None"
| "parse_elems (Suc n) pv s = (case pv s of None \<Rightarrow> None
   | Some (v, r) \<Rightarrow> (case skip_ws r of [] \<Rightarrow> None
     | c # q \<Rightarrow> if c = CHR 0x2C then map_option (\<lambda>(vs, q'). (v # vs, q')) (parse_elems n pv q)
               else if c = CHR 0x5D then Some ([v], q) else None))"

text \<open>One \<open>"name": value\<close>.\<close>

definition parse_member :: "'a parser \<Rightarrow> (string \<times> 'a) parser" where
  "parse_member pv s = (case skip_ws s of [] \<Rightarrow> None
   | c # r \<Rightarrow> if c \<noteq> CHR 0x22 then None else
      (case lex_string r of None \<Rightarrow> None
       | Some (k, r1) \<Rightarrow> (case skip_ws r1 of [] \<Rightarrow> None
         | c1 # r2 \<Rightarrow> if c1 \<noteq> CHR 0x3A then None
                     else map_option (\<lambda>(v, q). ((k, v), q)) (pv r2))))"

primrec parse_members :: "nat \<Rightarrow> 'a parser \<Rightarrow> (string \<times> 'a) list parser" where
  "parse_members 0 pv s = None"
| "parse_members (Suc n) pv s = (case parse_member pv s of None \<Rightarrow> None
   | Some (m, r) \<Rightarrow> (case skip_ws r of [] \<Rightarrow> None
     | c # q \<Rightarrow> if c = CHR 0x2C then map_option (\<lambda>(ms, q'). (m # ms, q')) (parse_members n pv q)
               else if c = CHR 0x7D then Some ([m], q) else None))"

text \<open>One value; \<open>inner\<close> parses the values of an array or object, and is \<open>None\<close> where no further
  nesting is allowed.\<close>

definition parse_object :: "json parser option \<Rightarrow> json parser" where
  "parse_object inner r = (case inner of None \<Rightarrow> None
   | Some pv \<Rightarrow> (case skip_ws r of [] \<Rightarrow> None
     | e # q \<Rightarrow> if e = CHR 0x7D then Some (JObj [], q)
               else map_option (\<lambda>(ms, q'). (JObj ms, q')) (parse_members (Suc (length r)) pv r)))"

definition parse_array :: "json parser option \<Rightarrow> json parser" where
  "parse_array inner r = (case inner of None \<Rightarrow> None
   | Some pv \<Rightarrow> (case skip_ws r of [] \<Rightarrow> None
     | e # q \<Rightarrow> if e = CHR 0x5D then Some (JArr [], q)
               else map_option (\<lambda>(xs, q'). (JArr xs, q')) (parse_elems (Suc (length r)) pv r)))"

definition parse_word :: "string \<Rightarrow> json \<Rightarrow> json parser" where
  "parse_word w v r = (if has_prefix r w then Some (v, drop (length w) r) else None)"

definition parse_step :: "json parser option \<Rightarrow> json parser" where
  "parse_step inner s = (case skip_ws s of [] \<Rightarrow> None
   | c # r \<Rightarrow>
      if c = CHR 0x22 then map_option (\<lambda>(t, q). (JStr t, q)) (lex_string r)
      else if c = CHR 0x7B then parse_object inner r
      else if c = CHR 0x5B then parse_array inner r
      else if c = CHR ''t'' then parse_word ''rue'' (JBool True) r
      else if c = CHR ''f'' then parse_word ''alse'' (JBool False) r
      else if c = CHR ''n'' then parse_word ''ull'' JNull r
      else map_option (\<lambda>(t, q). (JNum t, q)) (lex_number (c # r)))"

text \<open>\<open>n\<close> is how many arrays and objects may still be opened; Go allows 10000 to be open at once.\<close>

primrec parse_value :: "nat \<Rightarrow> json parser" where
  "parse_value 0 = parse_step None"
| "parse_value (Suc n) = parse_step (Some (parse_value n))"

text \<open>\<open>json.Unmarshal\<close>'s syntax check: one value, then nothing but white space.\<close>

definition parse_depth :: "nat \<Rightarrow> bytes \<Rightarrow> json option" where
  "parse_depth n s = (case parse_value n s of
     Some (v, r) \<Rightarrow> if skip_ws r = [] then Some v else None
   | None \<Rightarrow> None)"

definition parse_json :: "bytes \<Rightarrow> json option" where
  "parse_json s = parse_depth 10000 s"

subsection \<open>A document parses the same at any sufficient depth\<close>

definition parser_le :: "'a parser \<Rightarrow> 'a parser \<Rightarrow> bool" where
  "parser_le p q \<longleftrightarrow> (\<forall>s r. p s = Some r \<longrightarrow> q s = Some r)"

lemma parser_leD: "parser_le p q \<Longrightarrow> p s = Some r \<Longrightarrow> q s = Some r"
  unfolding parser_le_def by blast

lemma parse_elems_le:
  assumes le: "parser_le p q"
  shows "parse_elems n p s = Some r \<Longrightarrow> parse_elems n q s = Some r"
proof (induction n arbitrary: s r)
  case (Suc n)
  then obtain v t where p: "p s = Some (v, t)" by (auto split: option.splits)
  with Suc show ?case
    using parser_leD [OF le p] by (auto split: list.splits if_splits)
qed simp

lemma parse_member_le:
  assumes le: "parser_le p q" and "parse_member p s = Some r"
  shows "parse_member q s = Some r"
  using assms(2) parser_leD [OF le]
  by (auto simp: parse_member_def split: list.splits if_splits option.splits)

lemma parse_members_le:
  assumes le: "parser_le p q"
  shows "parse_members n p s = Some r \<Longrightarrow> parse_members n q s = Some r"
proof (induction n arbitrary: s r)
  case (Suc n)
  then obtain m t where p: "parse_member p s = Some (m, t)" by (auto split: option.splits)
  with Suc show ?case
    using parse_member_le [OF le p] by (auto split: list.splits if_splits)
qed simp

lemma parse_object_le:
  assumes "parser_le p q" and "parse_object (Some p) s = Some r"
  shows "parse_object (Some q) s = Some r"
  using assms(2) parse_members_le [OF assms(1), of "Suc (length s)" s]
  by (auto simp: parse_object_def simp del: parse_members.simps split: list.splits if_splits)

lemma parse_array_le:
  assumes "parser_le p q" and "parse_array (Some p) s = Some r"
  shows "parse_array (Some q) s = Some r"
  using assms(2) parse_elems_le [OF assms(1), of "Suc (length s)" s]
  by (auto simp: parse_array_def simp del: parse_elems.simps split: list.splits if_splits)

lemma parse_none_closed [simp]: "parse_object None s = None" "parse_array None s = None"
  by (simp_all add: parse_object_def parse_array_def)

lemma parse_step_cong:
  assumes "parse_step i s = Some r"
    and "\<And>t x. parse_object i t = Some x \<Longrightarrow> parse_object j t = Some x"
    and "\<And>t x. parse_array i t = Some x \<Longrightarrow> parse_array j t = Some x"
  shows "parse_step j s = Some r"
proof (cases "skip_ws s")
  case Nil
  with assms(1) show ?thesis by (simp add: parse_step_def)
next
  case (Cons c t)
  with assms show ?thesis
    by (cases "c = CHR 0x7B"; cases "c = CHR 0x5B") (simp_all add: parse_step_def split: if_splits)
qed

lemma parse_value_Suc: "parser_le (parse_value n) (parse_value (Suc n))"
proof (induction n)
  case 0
  show ?case by (auto simp: parser_le_def intro: parse_step_cong)
next
  case (Suc n)
  have "parse_step (Some (parse_value (Suc n))) s = Some r"
    if "parse_step (Some (parse_value n)) s = Some r" for s r
    by (rule parse_step_cong [OF that]) (fact parse_object_le [OF Suc] parse_array_le [OF Suc])+
  then show ?case by (simp add: parser_le_def)
qed

lemma parse_value_le: "n \<le> m \<Longrightarrow> parser_le (parse_value n) (parse_value m)"
proof (induction m rule: dec_induct)
  case base
  show ?case by (simp add: parser_le_def)
next
  case (step m)
  then show ?case using parse_value_Suc [of m] by (auto simp: parser_le_def)
qed

lemma parse_depth_json: "parse_depth n s = Some v \<Longrightarrow> n \<le> 10000 \<Longrightarrow> parse_json s = Some v"
  using parse_value_le [of n 10000]
  by (auto simp: parse_json_def parse_depth_def split: option.splits if_splits dest: parser_leD)

text \<open>The first value of a stream, as \<open>Decoder.Decode\<close> reads it.\<close>

definition parse_first :: "bytes \<Rightarrow> json option" where
  "parse_first s = map_option fst (parse_value 10000 s)"

lemma parse_first_depth: "parse_value n s = Some (v, r) \<Longrightarrow> n \<le> 10000 \<Longrightarrow> parse_first s = Some v"
  using parser_leD [OF parse_value_le] by (fastforce simp: parse_first_def)

section \<open>Decoding into Go values\<close>

text \<open>Struct fields match members by name up to \<open>encoding/json\<close>'s case folding: ASCII letters,
  and the two runes that fold to an ASCII letter (U+017F to S, U+212A to K). The field names of the
  structs decoded here are distinct after folding.\<close>

function fold_name :: "string \<Rightarrow> string" where
  "fold_name s = (case s of [] \<Rightarrow> []
   | c # r \<Rightarrow> if has_prefix s [CHR 0xC5, CHR 0xBF] then CHR ''s'' # fold_name (drop 2 s)
      else if has_prefix s [CHR 0xE2, CHR 0x84, CHR 0xAA] then CHR ''k'' # fold_name (drop 3 s)
      else ascii_lower c # fold_name r)"
  by pat_completeness auto
termination
  by (relation "measure length") auto

declare fold_name.simps [simp del]

definition field_vals :: "string \<Rightarrow> (string \<times> json) list \<Rightarrow> json list" where
  "field_vals name ms = map snd (filter (\<lambda>m. fold_name (fst m) = name) ms)"

text \<open>A decoder gets the value the field already has and the next member for it; it returns the new
  value and whether the types agreed. A mismatch leaves the field as it was and makes
  \<open>Unmarshal\<close> return an error once the whole document has been decoded.\<close>

type_synonym 'a decoder = "'a \<Rightarrow> json \<Rightarrow> 'a \<times> bool"

definition decode_field :: "'a decoder \<Rightarrow> 'a \<Rightarrow> string \<Rightarrow> (string \<times> json) list \<Rightarrow> 'a \<times> bool" where
  "decode_field dec z name ms = foldl (\<lambda>(v, ok) j. let (v', ok') = dec v j in (v', ok \<and> ok'))
     (z, True) (field_vals name ms)"

definition dec_string :: "string decoder" where
  "dec_string v j = (case j of JStr s \<Rightarrow> (s, True) | JNull \<Rightarrow> (v, True) | _ \<Rightarrow> (v, False))"

text \<open>Into an \<open>int\<close>: an integer literal in the range of 64 bits.\<close>

definition dec_int :: "int decoder" where
  "dec_int v j = (case j of
      JNum t \<Rightarrow> (case atoi t of Some n \<Rightarrow> (n, True) | None \<Rightarrow> (v, False))
    | JNull \<Rightarrow> (v, True) | _ \<Rightarrow> (v, False))"

definition dec_bool :: "bool decoder" where
  "dec_bool v j = (case j of JBool b \<Rightarrow> (b, True) | JNull \<Rightarrow> (v, True) | _ \<Rightarrow> (v, False))"

text \<open>Into a \<open>json.RawMessage\<close>, whose nil is \<open>None\<close>: any value, the literal null included.\<close>

definition dec_raw :: "json option decoder" where
  "dec_raw v j = (Some j, True)"

text \<open>Into a \<open>[]string\<close>: null elements are empty strings.\<close>

definition dec_strings :: "json \<Rightarrow> string list option" where
  "dec_strings j = (case j of
      JNull \<Rightarrow> Some []
    | JArr xs \<Rightarrow> (if list_all (\<lambda>x. snd (dec_string [] x)) xs
                  then Some (map (\<lambda>x. fst (dec_string [] x)) xs) else None)
    | _ \<Rightarrow> None)"

text \<open>Into a \<open>[]json.RawMessage\<close>.\<close>

definition dec_raws :: "json \<Rightarrow> json list option" where
  "dec_raws j = (case j of JNull \<Rightarrow> Some [] | JArr xs \<Rightarrow> Some xs | _ \<Rightarrow> None)"

text \<open>A Go map from an object: the last member of a name wins.\<close>

definition dedupe :: "(string \<times> 'a) list \<Rightarrow> (string, 'a) gomap" where
  "dedupe ms = foldl (\<lambda>m (k, v). mput k v m) [] ms"

lemma mwf_dedupe [simp]: "mwf (dedupe ms)"
proof -
  have "mwf m \<Longrightarrow> mwf (foldl (\<lambda>m (k, v). mput k v m) m ms)" for m :: "(string, 'a) gomap"
    by (induction ms arbitrary: m) (auto split: prod.splits)
  then show ?thesis by (simp add: dedupe_def)
qed

section \<open>The encoder\<close>

definition escape_hex :: "int \<Rightarrow> char" where
  "escape_hex d = (if d < 10 then char_of (48 + d) else char_of (87 + d))"

text \<open>One byte below 0x80. \<open>html\<close> is the encoder's default of escaping \<open><\<close>, \<open>>\<close> and \<open>&\<close>.\<close>

definition escape_ascii :: "bool \<Rightarrow> char \<Rightarrow> string" where
  "escape_ascii html c =
     (if c = CHR 0x22 then [CHR 0x5C, CHR 0x22] else if c = CHR 0x5C then [CHR 0x5C, CHR 0x5C]
      else if c = CHR 0x08 then [CHR 0x5C, CHR ''b''] else if c = CHR 0x0C then [CHR 0x5C, CHR ''f'']
      else if c = CHR 0x0A then [CHR 0x5C, CHR ''n''] else if c = CHR 0x0D then [CHR 0x5C, CHR ''r'']
      else if c = CHR 0x09 then [CHR 0x5C, CHR ''t'']
      else if ord_of c < 0x20 \<or> (html \<and> (c = CHR ''<'' \<or> c = CHR ''>'' \<or> c = CHR ''&'')) then
        [CHR 0x5C, CHR ''u'', CHR ''0'', CHR ''0'', escape_hex (ord_of c div 16), escape_hex (ord_of c mod 16)]
      else [c])"

function escape_string :: "bool \<Rightarrow> string \<Rightarrow> string" where
  "escape_string html s = (case s of [] \<Rightarrow> []
   | c # r \<Rightarrow> if ord_of c < 0x80 then escape_ascii html c @ escape_string html r
      else (let (u, w) = utf8_decode s in
        (if u = rune_error \<and> w = 1 then [CHR 0x5C, CHR ''u'', CHR ''f'', CHR ''f'', CHR ''f'', CHR ''d'']
         else if u = 0x2028 then CHR 0x5C # ''u2028''
         else if u = 0x2029 then CHR 0x5C # ''u2029''
         else take (max 1 w) s) @ escape_string html (drop (max 1 w) s)))"
  by pat_completeness auto
termination
  by (relation "measure (length \<circ> snd)") (auto simp: less_Suc_eq_le)

declare escape_string.simps [simp del]

fun print_json :: "bool \<Rightarrow> json \<Rightarrow> bytes"
and print_elems :: "bool \<Rightarrow> json list \<Rightarrow> bytes"
and print_members :: "bool \<Rightarrow> (string \<times> json) list \<Rightarrow> bytes" where
  "print_json html JNull = ''null''"
| "print_json html (JBool b) = (if b then ''true'' else ''false'')"
| "print_json html (JNum t) = t"
| "print_json html (JStr s) = CHR 0x22 # escape_string html s @ [CHR 0x22]"
| "print_json html (JArr xs) = CHR 0x5B # print_elems html xs @ [CHR 0x5D]"
| "print_json html (JObj ms) = CHR 0x7B # print_members html ms @ [CHR 0x7D]"
| "print_elems html [] = []"
| "print_elems html (x # xs) = print_json html x @ (if xs = [] then [] else CHR 0x2C # print_elems html xs)"
| "print_members html [] = []"
| "print_members html ((k, v) # ms) =
     CHR 0x22 # escape_string html k @ [CHR 0x22, CHR 0x3A] @ print_json html v @
     (if ms = [] then [] else CHR 0x2C # print_members html ms)"

text \<open>A document decoded into \<open>any\<close>: numbers are float64, objects are maps. \<open>None\<close> when a number
  overflows. The encoder visits map keys in ascending order.\<close>

fun any_json :: "json \<Rightarrow> json option"
and any_elems :: "json list \<Rightarrow> json list option"
and any_members :: "(string \<times> json) list \<Rightarrow> (string \<times> json) list option" where
  "any_json JNull = Some JNull"
| "any_json (JBool b) = Some (JBool b)"
| "any_json (JNum t) = map_option JNum (num_canon t)"
| "any_json (JStr s) = Some (JStr s)"
| "any_json (JArr xs) = map_option JArr (any_elems xs)"
| "any_json (JObj ms) = map_option (\<lambda>ms'. JObj (sort_key fst (dedupe ms'))) (any_members ms)"
| "any_elems [] = Some []"
| "any_elems (x # xs) = (case any_json x of None \<Rightarrow> None
     | Some y \<Rightarrow> map_option (\<lambda>ys. y # ys) (any_elems xs))"
| "any_members [] = Some []"
| "any_members ((k, v) # ms) = (case any_json v of None \<Rightarrow> None
     | Some w \<Rightarrow> map_option (\<lambda>ws. (k, w) # ws) (any_members ms))"

section \<open>Raw values\<close>

text \<open>
  A \<open>json.RawMessage\<close> keeps the bytes of a value. These functions read the elements of an array and the
  members of an object as the bytes they have in a document that \<open>parse_json\<close> accepts.
\<close>

definition raw_value :: "bytes parser" where
  "raw_value s = (let t = skip_ws s
     in map_option (\<lambda>(v, r). (take (length t - length r) t, r)) (parse_value 10000 t))"

definition raw_members :: "bytes \<Rightarrow> (string \<times> bytes) list" where
  "raw_members s = (case skip_ws s of [] \<Rightarrow> []
     | c # r \<Rightarrow> if c \<noteq> CHR 0x7B then []
         else (case parse_members (Suc (length r)) raw_value r of None \<Rightarrow> [] | Some (ms, q) \<Rightarrow> ms))"

definition raw_elems :: "bytes \<Rightarrow> bytes list" where
  "raw_elems s = (case skip_ws s of [] \<Rightarrow> []
     | c # r \<Rightarrow> if c \<noteq> CHR 0x5B then []
         else (case parse_elems (Suc (length r)) raw_value r of None \<Rightarrow> [] | Some (xs, q) \<Rightarrow> xs))"

text \<open>
  The encoder writes a raw value without its white space, and with the characters escaped that HTML
  treats specially; the flag is whether the scan is inside a string.
\<close>

function compact_json :: "bool \<Rightarrow> bytes \<Rightarrow> bytes" where
  "compact_json instr s = (case s of [] \<Rightarrow> []
   | c # r \<Rightarrow>
      if \<not> instr then
        (if json_space c then compact_json False r
         else c # compact_json (c = CHR 0x22) r)
      else if c = CHR 0x5C then c # take 1 r @ compact_json True (drop 1 r)
      else if c = CHR 0x22 then c # compact_json False r
      else if c = CHR ''<'' \<or> c = CHR ''>'' \<or> c = CHR ''&'' then escape_ascii True c @ compact_json True r
      else if has_prefix s [CHR 0xE2, CHR 0x80, CHR 0xA8] then CHR 0x5C # ''u2028'' @ compact_json True (drop 3 s)
      else if has_prefix s [CHR 0xE2, CHR 0x80, CHR 0xA9] then CHR 0x5C # ''u2029'' @ compact_json True (drop 3 s)
      else c # compact_json True r)"
  by pat_completeness auto
termination
  by (relation "measure (length \<circ> snd)") auto

declare compact_json.simps [simp del]

text \<open>Between commas.\<close>

fun comma_list :: "bytes list \<Rightarrow> bytes" where
  "comma_list [] = []"
| "comma_list [x] = x"
| "comma_list (x # xs) = x @ CHR 0x2C # comma_list xs"

text \<open>
  \<open>map[string]json.RawMessage\<close>: \<open>Unmarshal\<close> fails on anything but an object and null, which gives the nil
  map; \<open>Marshal\<close> visits the keys in ascending order.
\<close>

definition raw_map :: "bytes \<Rightarrow> (string, bytes) gomap option option" where
  "raw_map s = (case parse_json s of
      Some JNull \<Rightarrow> Some None
    | Some (JObj ms) \<Rightarrow> Some (Some (dedupe (raw_members s)))
    | _ \<Rightarrow> None)"

definition marshal_map :: "(string, bytes) gomap option \<Rightarrow> bytes" where
  "marshal_map m = (case m of None \<Rightarrow> ''null''
     | Some kvs \<Rightarrow> CHR 0x7B # comma_list (map (\<lambda>(k, v).
         CHR 0x22 # escape_string True k @ [CHR 0x22, CHR 0x3A] @ compact_json False v) (sort_key fst kvs)) @ [CHR 0x7D])"

end
