(* ===== verification/Go_Encoding.thy ===== *)
theory Go_Encoding
  imports Go_Strings "HOL-Library.Word"
begin

text \<open>
  Packages \<open>encoding/base64\<close>, \<open>encoding/hex\<close>, \<open>crypto/sha1\<close> and \<open>crypto/sha256\<close> as the program
  uses them: the lenient base64 decoders (they skip CR and LF and ignore the unused low bits
  of the last digit), lower-case hex, and the two hash functions on bytes.
\<close>

unbundle bit_operations_syntax

section \<open>Base64\<close>

definition b64_digit :: "bool \<Rightarrow> char \<Rightarrow> int option" where
  "b64_digit url c = (let x = ord_of c in
     if 65 \<le> x \<and> x \<le> 90 then Some (x - 65)
     else if 97 \<le> x \<and> x \<le> 122 then Some (x - 71)
     else if 48 \<le> x \<and> x \<le> 57 then Some (x + 4)
     else if c = (if url then CHR ''-'' else CHR ''+'') then Some 62
     else if c = (if url then CHR ''_'' else CHR ''/'') then Some 63
     else None)"

definition b64_char :: "bool \<Rightarrow> int \<Rightarrow> char" where
  "b64_char url v = (if v < 26 then char_of (v + 65) else if v < 52 then char_of (v + 71)
     else if v < 62 then char_of (v - 4)
     else if v = 62 then (if url then CHR ''-'' else CHR ''+'')
     else (if url then CHR ''_'' else CHR ''/''))"

lemma b64_digit_char [simp]: "0 \<le> v \<Longrightarrow> v < 64 \<Longrightarrow> b64_digit url (b64_char url v) = Some v"
  by (auto simp: b64_digit_def b64_char_def Let_def)

lemma b64_digit_less: "b64_digit url c = Some v \<Longrightarrow> v < 64"
  by (auto simp: b64_digit_def Let_def split: if_splits)

fun b64_unpack :: "int list \<Rightarrow> string option" where
  "b64_unpack [] = Some []"
| "b64_unpack [a] = None"
| "b64_unpack [a, b] = Some [char_of (a * 4 + b div 16)]"
| "b64_unpack [a, b, c] = Some [char_of (a * 4 + b div 16), char_of ((b mod 16) * 16 + c div 4)]"
| "b64_unpack (a # b # c # d # r) = map_option (\<lambda>t.
     char_of (a * 4 + b div 16) # char_of ((b mod 16) * 16 + c div 4)
       # char_of ((c mod 4) * 64 + d) # t) (b64_unpack r)"

fun b64_digits :: "bool \<Rightarrow> string \<Rightarrow> int list option" where
  "b64_digits url [] = Some []"
| "b64_digits url (c # s) = (case b64_digit url c of None \<Rightarrow> None
     | Some v \<Rightarrow> map_option (\<lambda>vs. v # vs) (b64_digits url s))"

definition skip_newlines :: "string \<Rightarrow> string" where
  "skip_newlines s = filter (\<lambda>c. c \<noteq> CHR 0x0A \<and> c \<noteq> CHR 0x0D) s"

text \<open>\<open>base64.RawURLEncoding.DecodeString\<close>.\<close>

definition raw_url_decode :: "string \<Rightarrow> string option" where
  "raw_url_decode s = Option.bind (b64_digits True (skip_newlines s)) b64_unpack"

text \<open>\<open>base64.StdEncoding.DecodeString\<close>: whole groups of four, the last one padded.\<close>

definition std_decode :: "string \<Rightarrow> string option" where
  "std_decode s =
     (let t = skip_newlines s;
          body = (if has_suffix t ''=='' then take (length t - 2) t
                  else if has_suffix t ''='' then take (length t - 1) t else t)
      in if length t mod 4 \<noteq> 0 then None else Option.bind (b64_digits False body) b64_unpack)"

fun b64_pack :: "int list \<Rightarrow> int list" where
  "b64_pack [] = []"
| "b64_pack [x] = [x div 4, (x mod 4) * 16]"
| "b64_pack [x, y] = [x div 4, (x mod 4) * 16 + y div 16, (y mod 16) * 4]"
| "b64_pack (x # y # z # r) =
     (x div 4) # ((x mod 4) * 16 + y div 16) # ((y mod 16) * 4 + z div 64) # (z mod 64) # b64_pack r"

text \<open>\<open>base64.RawURLEncoding.EncodeToString\<close>.\<close>

definition raw_url_encode :: "string \<Rightarrow> string" where
  "raw_url_encode s = map (b64_char True) (b64_pack (map of_char s))"

lemma b64_digits_length: "b64_digits url s = Some vs \<Longrightarrow> length vs = length s"
  by (induction s arbitrary: vs) (auto split: option.splits)

lemma b64_digits_mem:
  "b64_digits url s = Some vs \<Longrightarrow> c \<in> set s \<Longrightarrow> b64_digit url c \<noteq> None"
  by (induction s arbitrary: vs) (auto split: option.splits)

lemma b64_unpack_length: "b64_unpack vs = Some s \<Longrightarrow> 4 * length s \<le> 3 * length vs"
  by (induction vs arbitrary: s rule: b64_unpack.induct) auto

lemma b64_pack_bound:
  "\<forall>x\<in>set xs. 0 \<le> x \<and> x < 256 \<Longrightarrow> \<forall>v\<in>set (b64_pack xs). 0 \<le> v \<and> v < 64"
  by (induction xs rule: b64_pack.induct) auto

lemma sixteenth:
  fixes y :: int
  assumes "0 \<le> y" "y < 256"
  shows "y div 16 div 16 = 0" "y div 16 mod 16 = y div 16" "y mod 16 + 16 * (y div 16) = y"
  using assms by (simp_all add: div_mult2_eq [symmetric])

lemma b64_unpack_pack:
  "\<forall>x\<in>set xs. 0 \<le> x \<and> x < 256 \<Longrightarrow> b64_unpack (b64_pack xs) = Some (map char_of xs)"
proof (induction xs rule: b64_pack.induct)
  case (4 x y z r)
  then have less: "0 \<le> x" "x < 256" "0 \<le> y" "y < 256" "0 \<le> z div 64" "z div 64 < 4" by auto
  then have "z div 64 div 4 = 0" "z div 64 mod 4 = z div 64" by simp_all
  with less sixteenth [OF less(3,4)] show ?case using 4
    by (simp add: algebra_simps)
qed (auto simp: algebra_simps sixteenth)

lemma b64_digits_chars:
  "\<forall>v\<in>set vs. 0 \<le> v \<and> v < 64 \<Longrightarrow> b64_digits url (map (b64_char url) vs) = Some vs"
  by (induction vs) auto

lemma b64_char_no_newline: "0 \<le> v \<Longrightarrow> v < 64 \<Longrightarrow> b64_char True v \<noteq> CHR 0x0A \<and> b64_char True v \<noteq> CHR 0x0D"
  using b64_digit_char [of v True] by (auto simp: b64_digit_def)

text \<open>The round trip of the pagination cursor's transport encoding.\<close>

lemma raw_url_decode_encode [simp]: "raw_url_decode (raw_url_encode s) = Some s"
proof -
  let ?xs = "map of_char s :: int list"
  have b: "\<forall>x\<in>set ?xs. 0 \<le> x \<and> x < 256" by (auto simp: of_char_bounds)
  then have v: "\<forall>v\<in>set (b64_pack ?xs). 0 \<le> v \<and> v < 64" by (rule b64_pack_bound)
  then have "skip_newlines (raw_url_encode s) = raw_url_encode s"
    unfolding skip_newlines_def raw_url_encode_def
    by (intro filter_True) (auto dest: b64_char_no_newline)
  then show ?thesis
    using b64_digits_chars [OF v, of True] b64_unpack_pack [OF b]
    by (simp add: raw_url_decode_def raw_url_encode_def comp_def)
qed

text \<open>A 44-character string that decodes to 33 bytes has no skipped character: every character
  is a base64url digit.\<close>

lemma raw_url_decode_44:
  assumes "raw_url_decode s = Some b" and "length s = 44" and "length b = 33" and "c \<in> set s"
  shows "b64_digit True c \<noteq> None"
proof -
  from assms(1) obtain vs where vs: "b64_digits True (skip_newlines s) = Some vs"
    and b: "b64_unpack vs = Some b"
    by (auto simp: raw_url_decode_def bind_eq_Some_conv)
  from b64_unpack_length [OF b] assms(3) have "44 \<le> length vs" by simp
  with b64_digits_length [OF vs] have "44 \<le> length (skip_newlines s)" by simp
  then have "length (filter (\<lambda>c. c \<noteq> CHR 0x0A \<and> c \<noteq> CHR 0x0D) s) = length s"
    using assms(2) length_filter_le [of "\<lambda>c. c \<noteq> CHR 0x0A \<and> c \<noteq> CHR 0x0D" s]
    by (simp add: skip_newlines_def)
  then have "skip_newlines s = s"
    unfolding skip_newlines_def by (metis filter_True length_filter_less less_irrefl)
  with vs assms(4) show ?thesis by (auto dest: b64_digits_mem)
qed

section \<open>Hexadecimal\<close>

definition hex_digit :: "int \<Rightarrow> char" where
  "hex_digit d = (if d < 10 then char_of (48 + d) else char_of (87 + d))"

definition hex_byte :: "int \<Rightarrow> string" where
  "hex_byte x = [hex_digit (x div 16), hex_digit (x mod 16)]"

definition hex_encode :: "int list \<Rightarrow> string" where
  "hex_encode xs = concat (map hex_byte xs)"

definition hex_val :: "char \<Rightarrow> int option" where
  "hex_val c = (let x = ord_of c in
     if 48 \<le> x \<and> x \<le> 57 then Some (x - 48)
     else if 97 \<le> x \<and> x \<le> 102 then Some (x - 87)
     else if 65 \<le> x \<and> x \<le> 70 then Some (x - 55) else None)"

fun hex_decode :: "string \<Rightarrow> int list option" where
  "hex_decode [] = Some []"
| "hex_decode [c] = None"
| "hex_decode (a # b # r) = (case (hex_val a, hex_val b) of
      (Some x, Some y) \<Rightarrow> map_option (\<lambda>t. (16 * x + y) # t) (hex_decode r) | _ \<Rightarrow> None)"

lemma length_hex_byte [simp]: "length (hex_byte x) = 2"
  by (simp add: hex_byte_def)

lemma length_hex_encode [simp]: "length (hex_encode xs) = 2 * length xs"
  by (induction xs) (simp_all add: hex_encode_def)

definition is_lower_hex :: "char \<Rightarrow> bool" where
  "is_lower_hex c \<longleftrightarrow> (48 \<le> ord_of c \<and> ord_of c \<le> 57) \<or> (97 \<le> ord_of c \<and> ord_of c \<le> 102)"

lemma hex_digit_lower [simp]: "0 \<le> d \<Longrightarrow> d < 16 \<Longrightarrow> is_lower_hex (hex_digit d)"
  by (auto simp: hex_digit_def is_lower_hex_def)

lemma hex_byte_lower: "0 \<le> x \<Longrightarrow> x < 256 \<Longrightarrow> list_all is_lower_hex (hex_byte x)"
  by (simp add: hex_byte_def)

lemma hex_encode_lower: "\<forall>x\<in>set xs. 0 \<le> x \<and> x < 256 \<Longrightarrow> list_all is_lower_hex (hex_encode xs)"
  by (induction xs) (auto simp: hex_encode_def hex_byte_lower)

section \<open>SHA-1 and SHA-256\<close>

type_synonym w32 = "32 word"

definition be32 :: "int list \<Rightarrow> w32" where
  "be32 bs = foldl (\<lambda>a b. push_bit 8 a OR word_of_int b) 0 bs"

definition be_bytes :: "w32 \<Rightarrow> int list" where
  "be_bytes w = map (\<lambda>k. uint (drop_bit k w AND 255)) [24, 16, 8, 0]"

definition be64_bytes :: "int \<Rightarrow> int list" where
  "be64_bytes n = map (\<lambda>k. n div 2 ^ k mod 256) [56, 48, 40, 32, 24, 16, 8, 0]"

definition sha_pad :: "int list \<Rightarrow> int list" where
  "sha_pad m = m @ [128] @ replicate ((119 - length m mod 64) mod 64) 0 @ be64_bytes (8 * int (length m))"

definition sha_blocks :: "int list \<Rightarrow> w32 list list" where
  "sha_blocks m = (let p = sha_pad m in
     map (\<lambda>i. map (\<lambda>j. be32 (take 4 (drop (64 * i + 4 * j) p))) [0..<16]) [0..<length p div 64])"

subsection \<open>SHA-1\<close>

type_synonym sha1_state = "w32 \<times> w32 \<times> w32 \<times> w32 \<times> w32"

definition sha1_schedule :: "w32 list \<Rightarrow> w32 list" where
  "sha1_schedule b = foldl (\<lambda>ws t. ws @ [word_rotl 1
     (ws ! (t - 3) XOR ws ! (t - 8) XOR ws ! (t - 14) XOR ws ! (t - 16))]) b [16..<80]"

definition sha1_round :: "sha1_state \<Rightarrow> nat \<times> w32 \<Rightarrow> sha1_state" where
  "sha1_round = (\<lambda>(a, b, c, d, e) (t, w).
     let (f, k) = (if t < 20 then ((b AND c) OR (NOT b AND d), 0x5A827999)
                   else if t < 40 then (b XOR c XOR d, 0x6ED9EBA1)
                   else if t < 60 then ((b AND c) OR (b AND d) OR (c AND d), 0x8F1BBCDC)
                   else (b XOR c XOR d, 0xCA62C1D6))
     in (word_rotl 5 a + f + e + k + w, a, word_rotl 30 b, c, d))"

definition sha1_block :: "sha1_state \<Rightarrow> w32 list \<Rightarrow> sha1_state" where
  "sha1_block = (\<lambda>(h0, h1, h2, h3, h4) b.
     let (a, b', c, d, e) = foldl sha1_round (h0, h1, h2, h3, h4)
           (zip [0..<80] (sha1_schedule b))
     in (h0 + a, h1 + b', h2 + c, h3 + d, h4 + e))"

definition sha1 :: "int list \<Rightarrow> int list" where
  "sha1 m = (case foldl sha1_block (0x67452301, 0xEFCDAB89, 0x98BADCFE, 0x10325476, 0xC3D2E1F0)
       (sha_blocks m) of (a, b, c, d, e) \<Rightarrow> concat (map be_bytes [a, b, c, d, e]))"

subsection \<open>SHA-256\<close>

definition sha256_k :: "w32 list" where
  "sha256_k = [
    1116352408, 1899447441, 3049323471, 3921009573, 961987163, 1508970993, 2453635748, 2870763221,
    3624381080, 310598401, 607225278, 1426881987, 1925078388, 2162078206, 2614888103, 3248222580,
    3835390401, 4022224774, 264347078, 604807628, 770255983, 1249150122, 1555081692, 1996064986,
    2554220882, 2821834349, 2952996808, 3210313671, 3336571891, 3584528711, 113926993, 338241895,
    666307205, 773529912, 1294757372, 1396182291, 1695183700, 1986661051, 2177026350, 2456956037,
    2730485921, 2820302411, 3259730800, 3345764771, 3516065817, 3600352804, 4094571909, 275423344,
    430227734, 506948616, 659060556, 883997877, 958139571, 1322822218, 1537002063, 1747873779,
    1955562222, 2024104815, 2227730452, 2361852424, 2428436474, 2756734187, 3204031479, 3329325298]"

type_synonym sha256_state = "w32 \<times> w32 \<times> w32 \<times> w32 \<times> w32 \<times> w32 \<times> w32 \<times> w32"

definition sha256_schedule :: "w32 list \<Rightarrow> w32 list" where
  "sha256_schedule b = foldl (\<lambda>ws t.
     let x = ws ! (t - 15); y = ws ! (t - 2);
         s0 = word_rotr 7 x XOR word_rotr 18 x XOR drop_bit 3 x;
         s1 = word_rotr 17 y XOR word_rotr 19 y XOR drop_bit 10 y
     in ws @ [ws ! (t - 16) + s0 + ws ! (t - 7) + s1]) b [16..<64]"

definition sha256_round :: "sha256_state \<Rightarrow> w32 \<times> w32 \<Rightarrow> sha256_state" where
  "sha256_round = (\<lambda>(a, b, c, d, e, f, g, h) (k, w).
     let s1 = word_rotr 6 e XOR word_rotr 11 e XOR word_rotr 25 e;
         ch = (e AND f) XOR (NOT e AND g);
         t1 = h + s1 + ch + k + w;
         s0 = word_rotr 2 a XOR word_rotr 13 a XOR word_rotr 22 a;
         maj = (a AND b) XOR (a AND c) XOR (b AND c)
     in (t1 + s0 + maj, a, b, c, d + t1, e, f, g))"

definition sha256_block :: "sha256_state \<Rightarrow> w32 list \<Rightarrow> sha256_state" where
  "sha256_block = (\<lambda>(h0, h1, h2, h3, h4, h5, h6, h7) blk.
     let (a, b, c, d, e, f, g, h) = foldl sha256_round (h0, h1, h2, h3, h4, h5, h6, h7)
           (zip sha256_k (sha256_schedule blk))
     in (h0 + a, h1 + b, h2 + c, h3 + d, h4 + e, h5 + f, h6 + g, h7 + h))"

definition sha256 :: "int list \<Rightarrow> int list" where
  "sha256 m = (case foldl sha256_block
       (0x6a09e667, 0xbb67ae85, 0x3c6ef372, 0xa54ff53a, 0x510e527f, 0x9b05688c, 0x1f83d9ab, 0x5be0cd19)
       (sha_blocks m) of (a, b, c, d, e, f, g, h) \<Rightarrow> concat (map be_bytes [a, b, c, d, e, f, g, h]))"

lemma length_be_bytes [simp]: "length (be_bytes w) = 4"
  by (simp add: be_bytes_def)

lemma be_bytes_less: "x \<in> set (be_bytes w) \<Longrightarrow> 0 \<le> x \<and> x < 256"
proof -
  have "uint (v AND 255) < 256" for v :: w32
  proof -
    have "v AND 255 = take_bit 8 v"
      by (simp add: take_bit_eq_mask mask_eq_exp_minus_1)
    then have "uint (v AND 255) = take_bit 8 (uint v)"
      by (simp add: unsigned_take_bit_eq)
    then show ?thesis by (simp add: take_bit_eq_mod)
  qed
  then show "x \<in> set (be_bytes w) \<Longrightarrow> 0 \<le> x \<and> x < 256" by (auto simp: be_bytes_def)
qed

lemma length_sha1 [simp]: "length (sha1 m) = 20"
  by (simp add: sha1_def split: prod.split)

lemma length_sha256 [simp]: "length (sha256 m) = 32"
  by (simp add: sha256_def split: prod.split)

lemma sha1_bytes: "x \<in> set (sha1 m) \<Longrightarrow> 0 \<le> x \<and> x < 256"
  by (auto simp: sha1_def dest: be_bytes_less split: prod.splits)

lemma sha256_bytes: "x \<in> set (sha256 m) \<Longrightarrow> 0 \<le> x \<and> x < 256"
  by (auto simp: sha256_def dest: be_bytes_less split: prod.splits)

end
