(* ===== verification/Go_Asn1.thy ===== *)
theory Go_Asn1
  imports Go_Encoding
begin

text \<open>
  \<open>asn1.Unmarshal\<close> of package \<open>encoding/asn1\<close> into \<open>struct { R, S *big.Int }\<close>, the reading of a signature: a
  SEQUENCE of two INTEGERs. Lengths have to be in their shortest form and integers minimal; bytes
  after the second integer and after the sequence are not looked at.
\<close>

section \<open>Reading\<close>

text \<open>The bytes of a long length: below \<open>2 ^ 31\<close>, and no leading zero.\<close>

fun der_length_bytes :: "nat \<Rightarrow> int \<Rightarrow> bytes \<Rightarrow> (int \<times> bytes) option" where
  "der_length_bytes 0 n s = Some (n, s)"
| "der_length_bytes (Suc k) n [] = None"
| "der_length_bytes (Suc k) n (c # s) =
     (if 2 ^ 23 \<le> n then None
      else let n' = 256 * n + ord_of c in if n' = 0 then None else der_length_bytes k n' s)"

definition der_length :: "bytes \<Rightarrow> (int \<times> bytes) option" where
  "der_length s = (case s of
      [] \<Rightarrow> None
    | c # s \<Rightarrow>
        if ord_of c < 128 then Some (ord_of c, s)
        else if ord_of c = 128 then None
        else (case der_length_bytes (nat (ord_of c - 128)) 0 s of
            None \<Rightarrow> None
          | Some (n, s) \<Rightarrow> if n < 128 then None else Some (n, s)))"

text \<open>An element with the given tag: its content and what follows it.\<close>

definition der_element :: "char \<Rightarrow> bytes \<Rightarrow> (bytes \<times> bytes) option" where
  "der_element tag s = (case s of
      [] \<Rightarrow> None
    | c # s \<Rightarrow>
        if c \<noteq> tag then None
        else (case der_length s of
            None \<Rightarrow> None
          | Some (n, s) \<Rightarrow> if int (length s) < n then None else Some (take (nat n) s, drop (nat n) s)))"

definition unsigned_be :: "bytes \<Rightarrow> int" where
  "unsigned_be s = foldl (\<lambda>n c. 256 * n + ord_of c) 0 s"

text \<open>A two's complement integer of the least number of bytes.\<close>

definition der_integer :: "bytes \<Rightarrow> int option" where
  "der_integer s = (case s of
      [] \<Rightarrow> None
    | [c] \<Rightarrow> Some (if ord_of c < 128 then ord_of c else ord_of c - 256)
    | c # d # r \<Rightarrow>
        if ord_of c = 0 \<and> ord_of d < 128 \<or> ord_of c = 255 \<and> 128 \<le> ord_of d then None
        else Some (if ord_of c < 128 then unsigned_be s else unsigned_be s - 256 ^ length s))"

definition asn1_signature :: "bytes \<Rightarrow> (int \<times> int) option" where
  "asn1_signature s = (case der_element (CHR 0x30) s of
      None \<Rightarrow> None
    | Some (fields, _) \<Rightarrow> (case der_element (CHR 0x02) fields of
        None \<Rightarrow> None
      | Some (r, fields) \<Rightarrow> (case der_integer r of
          None \<Rightarrow> None
        | Some r \<Rightarrow> (case der_element (CHR 0x02) fields of
            None \<Rightarrow> None
          | Some (s, _) \<Rightarrow> (case der_integer s of None \<Rightarrow> None | Some s \<Rightarrow> Some (r, s))))))"

section \<open>Unsigned numbers as bytes\<close>

lemma unsigned_be_Nil [simp]: "unsigned_be [] = 0"
  by (simp add: unsigned_be_def)

lemma unsigned_be_snoc [simp]: "unsigned_be (s @ [c]) = 256 * unsigned_be s + ord_of c"
  by (simp add: unsigned_be_def)

lemma unsigned_be_bounds: "0 \<le> unsigned_be s \<and> unsigned_be s < 256 ^ length s"
proof (induction s rule: rev_induct)
  case (snoc c s)
  have "0 \<le> ord_of c" "ord_of c < 256" using of_char_bounds [of c] by auto
  with snoc show ?case by simp
qed simp

lemma unsigned_be_append: "unsigned_be (s @ t) = unsigned_be s * 256 ^ length t + unsigned_be t"
proof (induction t rule: rev_induct)
  case (snoc c t)
  have "unsigned_be (s @ t @ [c]) = 256 * unsigned_be (s @ t) + ord_of c"
    by (metis append_assoc unsigned_be_snoc)
  with snoc show ?case by (simp add: algebra_simps)
qed simp

lemma unsigned_be_Cons: "unsigned_be (c # s) = ord_of c * 256 ^ length s + unsigned_be s"
  using unsigned_be_append [of "[c]" s] by (simp add: unsigned_be_def)

section \<open>A short signature\<close>

text \<open>The signature \<open>(3, 4)\<close> in DER and in base64, for concrete runs.\<close>

definition demo_der :: bytes where
  "demo_der = [CHR 0x30, CHR 0x06, CHR 0x02, CHR 0x01, CHR 0x03, CHR 0x02, CHR 0x01, CHR 0x04]"

lemma demo_signature_bytes: "std_decode ''MAYCAQMCAQQ='' = Some demo_der" "asn1_signature demo_der = Some (3, 4)"
  by code_simp+

end
