(* ===== verification/Go_World.thy ===== *)
theory Go_World
  imports Go_Strings Go_Time Go_Json Go_Asn1
begin

text \<open>
  The outside world as one record, an argument of every operation that looks at it: the clock,
  the elliptic-curve primitives of \<open>crypto\<close>, two tables of the standard library, the DNS, and
  which file operations the operating system lets succeed. No theorem assumes anything of it
  unless its statement says so, so the theorems hold against every clock, resolver and disk.
\<close>

type_synonym path = "string list"
type_synonym point = "int \<times> int"

text \<open>
  An error value of the standard library, by the call that returned it. Only its text is a
  parameter of the model; when a call fails is not.
\<close>

datatype go_error =
    Json_Syntax bytes
  | Json_Type json
  | Base64_Error string
  | Asn1_Error bytes
  | Time_Error string
  | Read_Error path

record world =
  w_error_text :: "go_error \<Rightarrow> string"
  \<comment> \<open>\<open>err.Error()\<close>\<close>
  w_now :: instant
  \<comment> \<open>\<open>time.Now\<close>\<close>
  w_lower :: "int \<Rightarrow> int"
  \<comment> \<open>\<open>unicode.ToLower\<close> beyond ASCII\<close>
  w_float_zero :: "string \<Rightarrow> bool"
  \<comment> \<open>\<open>strconv.ParseFloat(s, 64)\<close> succeeds with the value 0\<close>
  w_point :: "string \<Rightarrow> point option"
  \<comment> \<open>\<open>elliptic.UnmarshalCompressed\<close> on P-256, \<open>None\<close> for a nil x\<close>
  w_ecdsa :: "point \<Rightarrow> int list \<Rightarrow> int \<Rightarrow> int \<Rightarrow> bool"
  \<comment> \<open>\<open>ecdsa.Verify\<close>\<close>
  w_random :: "string option"
  \<comment> \<open>\<open>rand.Read\<close> of 32 bytes\<close>
  w_format :: "instant \<Rightarrow> string"
  \<comment> \<open>\<open>Format(time.RFC3339)\<close>\<close>
  w_time_json :: "instant \<Rightarrow> string"
  \<comment> \<open>the text \<open>time.Time\<close> marshals to\<close>
  w_quote :: "string \<Rightarrow> string"
  \<comment> \<open>the verb \<open>%q\<close> of \<open>fmt\<close>\<close>
  w_dns :: "string \<Rightarrow> string list option"
  \<comment> \<open>the TXT lookup, \<open>None\<close> for an error\<close>
  w_read_fails :: "path \<Rightarrow> bool"
  \<comment> \<open>\<open>os.ReadFile\<close> fails for another reason than a missing file\<close>
  w_write_fails :: "path \<Rightarrow> bool"
  \<comment> \<open>the temporary file cannot be written or renamed onto the path\<close>
  w_chtimes_fails :: "path \<Rightarrow> bool"
  w_mkdir_fails :: "path \<Rightarrow> bool"
  w_rename_fails :: "path \<Rightarrow> bool"
  w_readdir_fails :: "path \<Rightarrow> bool"
  w_link_fails :: "path \<Rightarrow> bool"
  \<comment> \<open>\<open>os.Link\<close> fails for another reason than an existing file\<close>
  w_sync_fails :: "path \<Rightarrow> bool"
  \<comment> \<open>a directory cannot be opened or synced\<close>
  w_remove_fails :: "path \<Rightarrow> bool"
  w_bad_url :: "string \<Rightarrow> bool"
  \<comment> \<open>\<open>http.NewRequest\<close> cannot parse the URL\<close>

text \<open>A world in which every operation succeeds, for concrete runs.\<close>

definition calm_world :: world where
  "calm_world = \<lparr>w_error_text = (\<lambda>e. ''error''), w_now = 0, w_lower = (\<lambda>r. r), w_float_zero = (\<lambda>s. s = ''0''),
     w_point = (\<lambda>b. Some (1, 2)), w_ecdsa = (\<lambda>p h r s. True),
     w_random = Some (replicate 32 (CHR ''r'')),
     w_format = (\<lambda>t. itoa t), w_time_json = (\<lambda>t. itoa t),
     w_quote = (\<lambda>s. CHR 0x22 # s @ [CHR 0x22]),
     w_dns = (\<lambda>h. None), w_read_fails = (\<lambda>p. False), w_write_fails = (\<lambda>p. False),
     w_chtimes_fails = (\<lambda>p. False), w_mkdir_fails = (\<lambda>p. False), w_rename_fails = (\<lambda>p. False),
     w_readdir_fails = (\<lambda>p. False), w_link_fails = (\<lambda>p. False), w_sync_fails = (\<lambda>p. False),
     w_remove_fails = (\<lambda>p. False), w_bad_url = (\<lambda>u. False)\<rparr>"

end
