(* ===== verification/Http_Types.thy ===== *)
theory Http_Types
  imports Go_World
begin

text \<open>
  What the handlers see of \<open>net/http\<close> and of the chi router: the request with the values chi and
  the authentication middleware put in its context, and the response as status, headers and
  body. A handler takes a request and returns a response; the first \<open>WriteHeader\<close> fixes the
  status, as in Go, because the handlers call it once.
\<close>

record request =
  req_host :: string
  req_path :: string
  req_ref :: string
  \<comment> \<open>\<open>chi.URLParam(r, "ref")\<close>\<close>
  req_query :: "string \<Rightarrow> string"
  \<comment> \<open>\<open>r.URL.Query().Get\<close>\<close>
  req_rawquery :: string
  \<comment> \<open>\<open>r.URL.RawQuery\<close>\<close>
  req_header :: "string \<Rightarrow> string"
  \<comment> \<open>\<open>r.Header.Get\<close>\<close>
  req_cookie :: "string \<Rightarrow> string option"
  req_body :: "bytes option"
  \<comment> \<open>\<open>None\<close> when reading it fails\<close>
  req_tls :: bool
  req_remote :: string
  \<comment> \<open>\<open>r.RemoteAddr\<close>\<close>
  req_auth :: string
  \<comment> \<open>\<open>auth.AuthPubkey(r)\<close>\<close>

definition empty_request :: request where
  "empty_request = \<lparr>req_host = [], req_path = [], req_ref = [], req_query = (\<lambda>k. []), req_rawquery = [],
     req_header = (\<lambda>k. []), req_cookie = (\<lambda>k. None), req_body = Some [], req_tls = False,
     req_remote = [], req_auth = []\<rparr>"

record response =
  resp_status :: int
  resp_headers :: "(string, string) gomap"
  resp_body :: bytes

text \<open>The response a handler starts from: \<open>jsonContentType\<close> has set the content type.\<close>

definition initial_response :: response where
  "initial_response = \<lparr>resp_status = 200,
     resp_headers = [(''Content-Type'', ''application/json'')], resp_body = []\<rparr>"

definition set_header :: "string \<Rightarrow> string \<Rightarrow> response \<Rightarrow> response" where
  "set_header k v r = r\<lparr>resp_headers := mput k v (resp_headers r)\<rparr>"

definition with_status :: "int \<Rightarrow> response \<Rightarrow> response" where
  "with_status n r = r\<lparr>resp_status := n\<rparr>"

definition write_body :: "bytes \<Rightarrow> response \<Rightarrow> response" where
  "write_body b r = r\<lparr>resp_body := resp_body r @ b\<rparr>"

definition resp_header :: "response \<Rightarrow> string \<Rightarrow> string" where
  "resp_header r k = (case mget (resp_headers r) k of Some v \<Rightarrow> v | None \<Rightarrow> [])"

text \<open>\<open>json.NewEncoder(w).Encode\<close> of a struct or map: its members in order, and a newline.\<close>

definition encode_json :: "json \<Rightarrow> bytes" where
  "encode_json j = print_json True j @ [CHR 0x0A]"

lemma set_header_simps [simp]:
  "resp_status (set_header k v r) = resp_status r"
  "resp_body (set_header k v r) = resp_body r"
  "resp_header (set_header k v r) k' = (if k' = k then v else resp_header r k')"
  by (auto simp: set_header_def resp_header_def)

lemma with_status_simps [simp]:
  "resp_status (with_status n r) = n"
  "resp_body (with_status n r) = resp_body r"
  "resp_header (with_status n r) k = resp_header r k"
  by (auto simp: with_status_def resp_header_def)

lemma write_body_simps [simp]:
  "resp_status (write_body b r) = resp_status r"
  "resp_body (write_body b r) = resp_body r @ b"
  "resp_header (write_body b r) k = resp_header r k"
  by (auto simp: write_body_def resp_header_def)

lemma initial_response_simps [simp]:
  "resp_status initial_response = 200"
  "resp_body initial_response = []"
  by (auto simp: initial_response_def)

text \<open>
  \<open>http.Redirect\<close> with status 302: the handlers pass absolute URLs and clean paths, which it puts
  into \<open>Location\<close> as they are; it writes no body because a content type is set.
\<close>

definition http_redirect :: "string \<Rightarrow> response \<Rightarrow> response" where
  "http_redirect url resp = with_status 302 (set_header ''Location'' url resp)"

lemma http_redirect_simps [simp]:
  "resp_status (http_redirect url r) = 302"
  "resp_body (http_redirect url r) = resp_body r"
  "resp_header (http_redirect url r) k = (if k = ''Location'' then url else resp_header r k)"
  by (simp_all add: http_redirect_def)

end
