(* ===== verification/Object_Problem.thy ===== *)
theory Object_Problem
  imports Http_Types
begin

text \<open>
  \<open>object/problem.go\<close>: the catalog of problem codes, content negotiation on \<open>Accept\<close>, and the
  error response every handler writes. The lemmas say when a client gets the problem body.
\<close>

record problem_info =
  info_title :: string
  info_next :: string

record Problem =
  prob_Title :: string
  prob_Status :: int
  prob_Detail :: string
  prob_NextAction :: string
  prob_Code :: string

definition ProblemMediaType :: string where
  "ProblemMediaType = ''application/problem+json''"

definition problemCatalog :: "(string, problem_info) gomap" where
  "problemCatalog = [
    (''NOT_FOUND'', \<lparr>info_title = ''Not found'', info_next =
       ''Confirm the ref (pubkey.uuid) is correct and the object has been published to '' @
       ''this hub. If it may be private, authenticate first (GET /auth/challenge, sign '' @
       ''it, POST /auth/token) and retry with 'Authorization: Bearer <token>'.''\<rparr>),
    (''INTERNAL'', \<lparr>info_title = ''Internal server error'', info_next =
       ''This is a server-side fault, not a problem with your request. Retry after a '' @
       ''short backoff; if it persists, report the ref and time to the hub operator.''\<rparr>),
    (''INVALID_OBJECT'', \<lparr>info_title = ''Invalid object'', info_next =
       ''Send a well-formed dataverse envelope: JSON with an 'item' (including pubkey, '' @
       ''type, timestamp) and a valid 'signature', under the 10MB limit. Fix the body '' @
       ''and retry the PUT.''\<rparr>),
    (''REALM_FORBIDDEN'', \<lparr>info_title = ''Realm not permitted'', info_next =
       ''Set the object's realm (item.in) to 'dataverse001', 'server-public', a '' @
       ''pubkey-realm equal to item.pubkey, or a shared realm you belong to, then '' @
       ''re-sign and retry. A pubkey-realm must match the signing key.''\<rparr>),
    (''REF_MISMATCH'', \<lparr>info_title = ''Ref mismatch'', info_next =
       ''PUT to the object's own ref: the URL must equal '<item.pubkey>.<item.id>' '' @
       ''from the signed item. Use that path, or correct the item so its computed ref '' @
       ''matches the URL.''\<rparr>),
    (''INVALID_SIGNATURE'', \<lparr>info_title = ''Invalid signature'', info_next =
       ''Re-sign with the correct P-256/ECDSA key. For PUT, sign the canonical item '' @
       ''bytes with the key for item.pubkey; for /auth/token, sign the exact challenge '' @
       ''string from GET /auth/challenge.''\<rparr>),
    (''REVISION_CONFLICT'', \<lparr>info_title = ''Revision conflict'', info_next =
       ''Fetch the current object (GET /<ref>), set the item's `revision` field above '' @
       ''the stored revision, re-sign, and PUT again.''\<rparr>),
    (''UNAUTHORIZED'', \<lparr>info_title = ''Authentication required'', info_next =
       ''Authenticate before calling this endpoint: GET /auth/challenge, sign the '' @
       ''challenge, POST /auth/token to obtain a bearer token, then retry with '' @
       '''Authorization: Bearer <token>'.''\<rparr>),
    (''INVALID_REQUEST'', \<lparr>info_title = ''Invalid request'', info_next =
       ''Send a JSON body containing the fields this endpoint requires (for '' @
       ''/auth/token: pubkey, challenge, signature) and retry.''\<rparr>),
    (''CHALLENGE_EXPIRED'', \<lparr>info_title = ''Challenge expired or unknown'', info_next =
       ''Request a fresh challenge (GET /auth/challenge) and complete POST /auth/token '' @
       ''promptly; challenges are single-use and short-lived.''\<rparr>),
    (''RATE_LIMITED'', \<lparr>info_title = ''Rate limit exceeded'', info_next =
       ''Slow down and retry after the number of seconds given in the 'Retry-After' '' @
       ''response header.''\<rparr>),
    (''METHOD_NOT_ALLOWED'', \<lparr>info_title = ''Method not allowed'', info_next =
       ''Use a method this endpoint supports: GET to read and PUT to write /<ref>; GET '' @
       ''for /search and /<ref>/inbound. Retry with the correct HTTP method.''\<rparr>),
    (''PRECONDITION_FAILED'', \<lparr>info_title = ''Precondition failed'', info_next =
       ''Your If-Match header did not match the object's current ETag (the detail '' @
       ''names the current one). GET /<ref>, take its ETag into If-Match, and retry '' @
       ''the PUT '' @
       utf8_encode 0x2014 @
       '' or drop If-Match to fall back to revision-only conflict checking.''\<rparr>),
    (''INVALID_SHARED_REALM'', \<lparr>info_title = ''Invalid SHARED_REALM object'', info_next =
       ''Fix the SHARED_REALM object to satisfy its type contract: use an '' @
       ''owner-prefixed realm whose key you sign with, set the object id to '' @
       ''RealmID(realm), and include 'dataverse001' in item.in. Re-sign and retry.''\<rparr>),
    (''NO_RAW'', \<lparr>info_title = ''No raw representation'', info_next =
       ''GET /<ref>/raw serves an object's native content '' @
       utf8_encode 0x2014 @
       '' a BLOB's bytes (content.mime_type) or a PAGE's own content.html '' @
       utf8_encode 0x2014 @
       '' and this object has neither. Use GET /<ref>/json for its JSON envelope, or '' @
       ''GET /<ref>/page for an HTML view (which can also render a page-relation or '' @
       ''default viewer).''\<rparr>),
    (''NO_PAGE'', \<lparr>info_title = ''No page representation'', info_next =
       ''GET /<ref>/page needs a PAGE, an object with a `page` relation, or a '' @
       ''configured default viewer. Use GET /<ref>/json for the object's JSON '' @
       ''envelope, or GET /<ref>/raw if it is a BLOB.''\<rparr>)]"

definition problemFallback :: problem_info where
  "problemFallback = \<lparr>info_title = ''Request failed'', info_next =
     ''Inspect the 'detail' field for the specific cause, adjust the request '' @
     ''accordingly, and retry.''\<rparr>"

definition ProblemFor :: "int \<Rightarrow> string \<Rightarrow> string \<Rightarrow> Problem" where
  "ProblemFor status detail code =
     (let info = (case mget problemCatalog code of Some i \<Rightarrow> i | None \<Rightarrow> problemFallback)
      in \<lparr>prob_Title = info_title info, prob_Status = status, prob_Detail = detail,
          prob_NextAction = info_next info, prob_Code = code\<rparr>)"

fun hasZeroQuality :: "world \<Rightarrow> string list \<Rightarrow> bool" where
  "hasZeroQuality w [] = False"
| "hasZeroQuality w (p # ps) =
     (let p' = trim_space p in
      if \<not> has_prefix (to_lower (w_lower w) p') ''q='' then hasZeroQuality w ps
      else if w_float_zero w (trim_space (drop 2 p')) then True
      else hasZeroQuality w ps)"

definition json_media_type :: "string \<Rightarrow> bool" where
  "json_media_type mt \<longleftrightarrow> mt = ''*/*'' \<or> mt = ''application/*'' \<or> mt = ''application/json'' \<or>
     mt = ProblemMediaType"

fun accepts_parts :: "world \<Rightarrow> string list \<Rightarrow> bool" where
  "accepts_parts w [] = False"
| "accepts_parts w (part # ps) =
     (let fields = split_on (CHR '';'') part;
          mt = to_lower (w_lower w) (trim_space (hd fields))
      in if \<not> json_media_type mt then accepts_parts w ps
         else if hasZeroQuality w (tl fields) then accepts_parts w ps
         else True)"

definition AcceptsProblemJSON :: "world \<Rightarrow> string \<Rightarrow> bool" where
  "AcceptsProblemJSON w accept =
     (let a = trim_space accept in if a = [] then True else accepts_parts w (split_on (CHR '','') a))"

text \<open>The JSON of a \<open>Problem\<close> (its code is omitted when empty) and of an \<open>APIError\<close>.\<close>

definition problem_json :: "Problem \<Rightarrow> json" where
  "problem_json p = JObj ([(''title'', JStr (prob_Title p)), (''status'', JNum (itoa (prob_Status p))),
     (''detail'', JStr (prob_Detail p)), (''next_action'', JStr (prob_NextAction p))] @
     (if prob_Code p = [] then [] else [(''code'', JStr (prob_Code p))]))"

definition api_error_json :: "string \<Rightarrow> string \<Rightarrow> json" where
  "api_error_json detail code = JObj [(''error'', JStr detail), (''code'', JStr code)]"

definition WriteProblem ::
  "world \<Rightarrow> request \<Rightarrow> int \<Rightarrow> string \<Rightarrow> string \<Rightarrow> response \<Rightarrow> response" where
  "WriteProblem w r status detail code resp =
     (let resp = set_header ''Vary'' ''Accept'' resp in
      if AcceptsProblemJSON w (req_header r ''Accept'')
      then write_body (encode_json (problem_json (ProblemFor status detail code)))
             (with_status status (set_header ''Content-Type'' ProblemMediaType resp))
      else write_body (encode_json (api_error_json detail code))
             (with_status status (set_header ''Content-Type'' ''application/json'' resp)))"

definition writeError ::
  "world \<Rightarrow> request \<Rightarrow> int \<Rightarrow> string \<Rightarrow> string \<Rightarrow> response" where
  "writeError w r status msg code = WriteProblem w r status msg code initial_response"

section \<open>When a client gets the problem body\<close>

lemma accepts_parts_iff:
  "accepts_parts w ps \<longleftrightarrow>
     (\<exists>part\<in>set ps. json_media_type (to_lower (w_lower w) (trim_space (hd (split_on (CHR '';'') part)))) \<and>
        \<not> hasZeroQuality w (tl (split_on (CHR '';'') part)))"
  by (induction ps) (auto simp: Let_def)

lemma hasZeroQuality_iff:
  "hasZeroQuality w ps \<longleftrightarrow>
     (\<exists>p\<in>set ps. has_prefix (to_lower (w_lower w) (trim_space p)) ''q='' \<and>
        w_float_zero w (trim_space (drop 2 (trim_space p))))"
  by (induction ps) (auto simp: Let_def)

lemma writeError_status [simp]: "resp_status (writeError w r status msg code) = status"
  by (simp add: writeError_def WriteProblem_def Let_def)

lemma writeError_vary [simp]: "resp_header (writeError w r status msg code) ''Vary'' = ''Accept''"
  by (simp add: writeError_def WriteProblem_def Let_def)

text \<open>The response depends on the request through its \<open>Accept\<close> header only.\<close>

lemma writeError_cong:
  "req_header r ''Accept'' = req_header r' ''Accept'' \<Longrightarrow>
     writeError w r status msg code = writeError w r' status msg code"
  by (simp add: writeError_def WriteProblem_def)

section \<open>Properties\<close>

text \<open>
  Errors are negotiated: the response has the given status and varies on \<open>Accept\<close>, and its media
  type is the problem type exactly when the header is blank or lists a JSON media range that is not
  refused by \<open>q=0\<close>; the two bodies are the problem with the catalogue's advice and the plain error.
\<close>

theorem problem_negotiated:
  "let a = trim_space (req_header r ''Accept'');
       problem = (a = [] \<or> list_ex (\<lambda>part. let fields = split_on (CHR '';'') part in
          json_media_type (to_lower (w_lower w) (trim_space (hd fields))) \<and>
          \<not> list_ex (\<lambda>p. has_prefix (to_lower (w_lower w) (trim_space p)) ''q='' \<and>
               w_float_zero w (trim_space (drop 2 (trim_space p)))) (tl fields)) (split_on (CHR '','') a));
       resp = writeError w r status msg code
   in resp_status resp = status \<and> resp_header resp ''Vary'' = ''Accept'' \<and>
      resp_header resp ''Content-Type'' = (if problem then ''application/problem+json'' else ''application/json'') \<and>
      resp_body resp = encode_json (if problem then problem_json (ProblemFor status msg code)
        else api_error_json msg code)"
proof -
  have "AcceptsProblemJSON w (req_header r ''Accept'') \<longleftrightarrow>
     (trim_space (req_header r ''Accept'') = [] \<or> list_ex (\<lambda>part. let fields = split_on (CHR '';'') part in
          json_media_type (to_lower (w_lower w) (trim_space (hd fields))) \<and>
          \<not> list_ex (\<lambda>p. has_prefix (to_lower (w_lower w) (trim_space p)) ''q='' \<and>
               w_float_zero w (trim_space (drop 2 (trim_space p)))) (tl fields))
        (split_on (CHR '','') (trim_space (req_header r ''Accept''))))"
    by (simp add: AcceptsProblemJSON_def accepts_parts_iff hasZeroQuality_iff list_ex_iff Let_def)
  then show ?thesis
    by (simp add: writeError_def WriteProblem_def Let_def ProblemMediaType_def)
qed

end
