(* ===== verification/Object_Model.thy ===== *)
theory Object_Model
  imports Go_Json Go_Encoding Go_Time Go_World
begin

text \<open>
  Package \<open>object\<close>, files \<open>ref.go\<close> and \<open>types.go\<close>: the shape of a ref, the signed envelope and
  its item as JSON decodes them, the realm list of an object, its timestamp, and the metadata the
  index keeps. The lemmas say what a well-shaped ref determines.
\<close>

section \<open>Refs (\<open>object/ref.go\<close>)\<close>

definition base64url_char :: "char \<Rightarrow> bool" where
  "base64url_char c \<longleftrightarrow>
     (ord_of (CHR ''A'') \<le> ord_of c \<and> ord_of c \<le> ord_of (CHR ''Z'')) \<or>
     (ord_of (CHR ''a'') \<le> ord_of c \<and> ord_of c \<le> ord_of (CHR ''z'')) \<or>
     (ord_of (CHR ''0'') \<le> ord_of c \<and> ord_of c \<le> ord_of (CHR ''9'')) \<or>
     c = CHR ''-'' \<or> c = CHR ''_''"

definition isBase64URLChars :: "string \<Rightarrow> bool" where
  "isBase64URLChars s = list_all base64url_char s"

definition uuid_hex_char :: "char \<Rightarrow> bool" where
  "uuid_hex_char c \<longleftrightarrow>
     (ord_of (CHR ''0'') \<le> ord_of c \<and> ord_of c \<le> ord_of (CHR ''9'')) \<or>
     (ord_of (CHR ''a'') \<le> ord_of c \<and> ord_of c \<le> ord_of (CHR ''f'')) \<or>
     (ord_of (CHR ''A'') \<le> ord_of c \<and> ord_of c \<le> ord_of (CHR ''F''))"

definition isCanonicalUUID :: "string \<Rightarrow> bool" where
  "isCanonicalUUID s \<longleftrightarrow> length s = 36 \<and>
     list_all (\<lambda>(i, c). if i = 8 \<or> i = 13 \<or> i = 18 \<or> i = 23 then c = CHR ''-'' else uuid_hex_char c)
       (zip [0..<36] s)"

definition IsValidRef :: "string \<Rightarrow> bool" where
  "IsValidRef s \<longleftrightarrow>
     (if length s < 80 \<or> 81 < length s then False
      else let dot = length s - 37 in
        if s ! dot \<noteq> CHR ''.'' then False
        else if \<not> isBase64URLChars (take dot s) then False
        else isCanonicalUUID (drop (dot + 1) s))"

section \<open>Realm lists, envelopes and items (\<open>object/types.go\<close>)\<close>

type_synonym InField = "string list"

text \<open>\<open>InField.UnmarshalJSON\<close>: an array of strings, or one string.\<close>

definition InField_Unmarshal :: "json \<Rightarrow> InField option" where
  "InField_Unmarshal j = (case dec_strings j of Some arr \<Rightarrow> Some arr
     | None \<Rightarrow> (case dec_string [] j of (s, ok) \<Rightarrow> if ok then Some [s] else None))"

definition InField_Contains :: "InField \<Rightarrow> string \<Rightarrow> bool" where
  "InField_Contains f r = list_ex (\<lambda>x. x = r) f"

record Envelope =
  env_Is :: string
  env_In :: InField
  env_Signature :: string
  env_Item :: "json option"

record Item =
  item_In :: InField
  item_ID :: string
  item_Pubkey :: string
  item_CreatedAt :: string
  item_UpdatedAt :: string
  item_Revision :: int
  item_Type :: string
  item_Instruction :: string
  item_Relations :: "(string, json list) gomap"
  item_Content :: "json option"

definition zero_Envelope :: Envelope where
  "zero_Envelope = \<lparr>env_Is = [], env_In = [], env_Signature = [], env_Item = None\<rparr>"

definition zero_Item :: Item where
  "zero_Item = \<lparr>item_In = [], item_ID = [], item_Pubkey = [], item_CreatedAt = [],
     item_UpdatedAt = [], item_Revision = 0, item_Type = [], item_Instruction = [],
     item_Relations = [], item_Content = None\<rparr>"

definition dec_in :: "InField decoder" where
  "dec_in v j = (case InField_Unmarshal j of Some f \<Rightarrow> (f, True) | None \<Rightarrow> (v, False))"

text \<open>Into \<open>map[string][]json.RawMessage\<close>: members are added to the map the field already has.\<close>

definition dec_relations :: "(string, json list) gomap decoder" where
  "dec_relations v j = (case j of
      JNull \<Rightarrow> ([], True)
    | JObj ms \<Rightarrow> foldl (\<lambda>(m, ok) (k, x). case dec_raws x of
          Some xs \<Rightarrow> (mput k xs m, ok) | None \<Rightarrow> (mput k [] m, False)) (v, True) ms
    | _ \<Rightarrow> (v, False))"

definition decode_Envelope :: "json \<Rightarrow> Envelope option" where
  "decode_Envelope j = (case j of
      JNull \<Rightarrow> Some zero_Envelope
    | JObj ms \<Rightarrow>
        (let (a, ok1) = decode_field dec_string [] ''is'' ms;
             (b, ok2) = decode_field dec_in [] ''in'' ms;
             (c, ok3) = decode_field dec_string [] ''signature'' ms;
             (d, ok4) = decode_field dec_raw None ''item'' ms
         in if ok1 \<and> ok2 \<and> ok3 \<and> ok4
            then Some \<lparr>env_Is = a, env_In = b, env_Signature = c, env_Item = d\<rparr> else None)
    | _ \<Rightarrow> None)"

definition decode_Item :: "json \<Rightarrow> Item option" where
  "decode_Item j = (case j of
      JNull \<Rightarrow> Some zero_Item
    | JObj ms \<Rightarrow>
        (let (a, ok1) = decode_field dec_in [] ''in'' ms;
             (b, ok2) = decode_field dec_string [] ''id'' ms;
             (c, ok3) = decode_field dec_string [] ''pubkey'' ms;
             (d, ok4) = decode_field dec_string [] ''created_at'' ms;
             (e, ok5) = decode_field dec_string [] ''updated_at'' ms;
             (f, ok6) = decode_field dec_int 0 ''revision'' ms;
             (g, ok7) = decode_field dec_string [] ''type'' ms;
             (h, ok8) = decode_field dec_string [] ''instruction'' ms;
             (i, ok9) = decode_field dec_relations [] ''relations'' ms;
             (k, ok10) = decode_field dec_raw None ''content'' ms
         in if ok1 \<and> ok2 \<and> ok3 \<and> ok4 \<and> ok5 \<and> ok6 \<and> ok7 \<and> ok8 \<and> ok9 \<and> ok10
            then Some \<lparr>item_In = a, item_ID = b, item_Pubkey = c, item_CreatedAt = d,
                   item_UpdatedAt = e, item_Revision = f, item_Type = g, item_Instruction = h,
                   item_Relations = i, item_Content = k\<rparr>
            else None)
    | _ \<Rightarrow> None)"

definition ResolveIn :: "Envelope \<Rightarrow> Item \<Rightarrow> InField" where
  "ResolveIn env item = (if 0 < length (item_In item) then item_In item
     else if 0 < length (env_In env) then env_In env else [])"

definition item_Ref :: "Item \<Rightarrow> ref" where
  "item_Ref it = item_Pubkey it @ ''.'' @ item_ID it"

definition item_Timestamp :: "Item \<Rightarrow> instant option" where
  "item_Timestamp it = (let ts = item_UpdatedAt it; ts' = (if ts = [] then item_CreatedAt it else ts)
     in parse_rfc3339 ts')"

text \<open>\<open>json.Unmarshal\<close> of a relation entry into \<open>RelationRef\<close>: \<open>None\<close> is an error.\<close>

definition decode_RelationRef :: "json \<Rightarrow> string option" where
  "decode_RelationRef j = (case j of JNull \<Rightarrow> Some []
     | JObj ms \<Rightarrow> (case decode_field dec_string [] ''ref'' ms of (r, ok) \<Rightarrow> if ok then Some r else None)
     | _ \<Rightarrow> None)"

text \<open>The entries of a relation that name a target: the entries the index and the graph keep.\<close>

definition relation_targets :: "json list \<Rightarrow> ref list" where
  "relation_targets es = List.map_filter (\<lambda>j. case decode_RelationRef j of
      Some r \<Rightarrow> if r = [] then None else Some r | None \<Rightarrow> None) es"

record ObjectMeta =
  meta_Ref :: ref
  meta_Pubkey :: string
  meta_Type :: string
  meta_Revision :: int
  meta_HasPageRelation :: bool
  meta_PageRef :: ref
  meta_MimeType :: string
  meta_IsPublic :: bool
  meta_Realms :: InField
  meta_UpdatedAt :: instant

record RelationEntry =
  rel_SourceRef :: ref
  rel_Type :: string

record Cursor =
  cur_T :: instant
  cur_Ref :: ref

definition IsPubkeyRealm :: "string \<Rightarrow> bool" where
  "IsPubkeyRealm r \<longleftrightarrow>
     (if length r \<noteq> 44 then False
      else case raw_url_decode r of None \<Rightarrow> False
        | Some raw \<Rightarrow> if length raw \<noteq> 33 then False
            else hd raw = CHR 0x02 \<or> hd raw = CHR 0x03)"

definition PubkeyRealms :: "InField \<Rightarrow> string list" where
  "PubkeyRealms realms = filter IsPubkeyRealm realms"

section \<open>What a ref determines\<close>

lemma base64url_char_digit: "b64_digit True c \<noteq> None \<Longrightarrow> base64url_char c"
  by (auto simp: b64_digit_def base64url_char_def Let_def split: if_splits)

lemma dot_not_base64url [simp]: "\<not> base64url_char (CHR ''.'')"
  by (simp add: base64url_char_def)

lemma isBase64URLChars_no_dot: "isBase64URLChars s \<Longrightarrow> CHR ''.'' \<notin> set s"
  by (auto simp: isBase64URLChars_def list_all_iff)

lemma IsPubkeyRealm_length: "IsPubkeyRealm r \<Longrightarrow> length r = 44"
  by (simp add: IsPubkeyRealm_def split: if_splits)

lemma IsPubkeyRealm_chars: "IsPubkeyRealm r \<Longrightarrow> isBase64URLChars r"
  unfolding isBase64URLChars_def list_all_iff
  by (auto simp: IsPubkeyRealm_def intro!: base64url_char_digit
      dest: raw_url_decode_44 split: if_splits option.splits)

lemma isCanonicalUUID_length: "isCanonicalUUID u \<Longrightarrow> length u = 36"
  by (simp add: isCanonicalUUID_def)

lemma isCanonicalUUID_no_dot:
  assumes "isCanonicalUUID u"
  shows "CHR ''.'' \<notin> set u"
proof
  assume "CHR ''.'' \<in> set u"
  then obtain i where i: "i < length u" "u ! i = CHR ''.''" by (auto simp: in_set_conv_nth)
  with assms have "(i, CHR ''.'') \<in> set (zip [0..<36] u)"
    by (auto simp: isCanonicalUUID_def set_zip intro!: exI [of _ i])
  with assms show False
    by (fastforce simp: isCanonicalUUID_def list_all_iff uuid_hex_char_def
        split: if_splits)
qed

lemma IsValidRefI:
  assumes "length p = 43 \<or> length p = 44" and "isBase64URLChars p" and "isCanonicalUUID u"
  shows "IsValidRef (p @ CHR ''.'' # u)"
  using assms isCanonicalUUID_length [OF assms(3)] by (auto simp: IsValidRef_def Let_def)

lemma IsValidRefE:
  assumes "IsValidRef s"
  obtains p u where "s = p @ CHR ''.'' # u" and "length p = 43 \<or> length p = 44"
    and "isBase64URLChars p" and "isCanonicalUUID u"
proof
  let ?dot = "length s - 37"
  from assms have len: "80 \<le> length s" "length s \<le> 81" and dot: "s ! ?dot = CHR ''.''"
    by (auto simp: IsValidRef_def Let_def split: if_splits)
  then show "s = take ?dot s @ CHR ''.'' # drop (?dot + 1) s"
    using id_take_nth_drop [of ?dot s] by simp
  show "length (take ?dot s) = 43 \<or> length (take ?dot s) = 44" using len by auto
  show "isBase64URLChars (take ?dot s)" "isCanonicalUUID (drop (?dot + 1) s)"
    using assms by (auto simp: IsValidRef_def Let_def split: if_splits)
qed

text \<open>There is one dot in a well-shaped ref, so the ref of an item determines its key and id.\<close>

lemma split_at_dot:
  assumes "p @ CHR ''.'' # u = q @ CHR ''.'' # v"
    and "CHR ''.'' \<notin> set p" and "CHR ''.'' \<notin> set u"
  shows "p = q \<and> u = v"
  using assms by (auto simp: append_eq_append_conv2 Cons_eq_append_conv append_eq_Cons_conv)

lemma valid_item_ref:
  assumes "IsValidRef (item_Ref it)" and "item_Ref it = item_Ref it'"
  shows "item_Pubkey it' = item_Pubkey it" and "item_ID it' = item_ID it"
proof -
  from assms(1) obtain p u where pu: "item_Ref it = p @ CHR ''.'' # u"
    and nd: "CHR ''.'' \<notin> set p" "CHR ''.'' \<notin> set u"
    by (metis IsValidRefE isBase64URLChars_no_dot isCanonicalUUID_no_dot)
  from pu have "p @ CHR ''.'' # u = item_Pubkey it @ CHR ''.'' # item_ID it"
    by (simp add: item_Ref_def)
  from split_at_dot [OF this nd] have 1: "p = item_Pubkey it \<and> u = item_ID it" .
  from pu assms(2) have "p @ CHR ''.'' # u = item_Pubkey it' @ CHR ''.'' # item_ID it'"
    by (simp add: item_Ref_def)
  from split_at_dot [OF this nd] 1 show "item_Pubkey it' = item_Pubkey it" "item_ID it' = item_ID it"
    by simp_all
qed

lemma InField_Contains_iff [simp]: "InField_Contains f r \<longleftrightarrow> r \<in> set f"
  by (auto simp: InField_Contains_def list_ex_iff)

lemma mwf_dec_relations: "mwf v \<Longrightarrow> mwf (fst (dec_relations v j))"
proof -
  have "mwf m \<Longrightarrow> mwf (fst (foldl (\<lambda>(m, ok) (k, x). case dec_raws x of
      Some xs \<Rightarrow> (mput k xs m, ok) | None \<Rightarrow> (mput k [] m, False)) (m, b) ms))" for m b ms
    by (induction ms arbitrary: m b) (auto split: option.splits)
  then show "mwf v \<Longrightarrow> mwf (fst (dec_relations v j))"
    by (auto simp: dec_relations_def split: json.splits)
qed

lemma mwf_decode_relations: "decode_field dec_relations [] n ms = (x, ok) \<Longrightarrow> mwf x"
proof -
  have "mwf m \<Longrightarrow> mwf (fst (foldl (\<lambda>(v, ok) j. let (v', ok') = dec_relations v j in (v', ok \<and> ok'))
      (m, b) js))" for m b js
  proof (induction js arbitrary: m b)
    case (Cons j js)
    then show ?case using mwf_dec_relations [OF Cons.prems, of j]
      by (cases "dec_relations m j") auto
  qed simp
  from this [of "[]" True "field_vals n ms"]
  show "decode_field dec_relations [] n ms = (x, ok) \<Longrightarrow> mwf x"
    by (simp add: decode_field_def)
qed

text \<open>The relation map of a decoded item has one entry per name, as a Go map does.\<close>

lemma decode_Item_relations: "decode_Item j = Some it \<Longrightarrow> mwf (item_Relations it)"
  by (auto simp: decode_Item_def zero_Item_def split: json.splits prod.splits if_splits
      dest: mwf_decode_relations)

section \<open>Properties\<close>

lemma zip_positions: "length u = n \<Longrightarrow> zip [0..<n] u = map (\<lambda>i. (i, u ! i)) [0..<n]"
  by (rule nth_equalityI) simp_all

lemma isCanonicalUUID_positions:
  "isCanonicalUUID u \<longleftrightarrow> length u = 36 \<and>
     list_all (\<lambda>i. if i \<in> {8, 13, 18, 23} then u ! i = CHR ''-'' else uuid_hex_char (u ! i)) [0..<36]"
  unfolding isCanonicalUUID_def
  by (rule conj_cong [OF refl]) (simp add: zip_positions list.pred_map comp_def del: upt_rec_numeral)

text \<open>
  C33 The reference shape: \<open>IsValidRef\<close> accepts exactly the strings of a 43 or 44 character base64url
  key, a dot, and 36 characters that are dashes at positions 8, 13, 18 and 23 and hexadecimal
  digits elsewhere. An accepted reference therefore holds no slash and no second dot, so it names
  one file of the store.
\<close>

theorem valid_ref_shape:
  "IsValidRef s \<longleftrightarrow> (\<exists>p u. s = p @ CHR ''.'' # u \<and> (length p = 43 \<or> length p = 44) \<and>
     list_all base64url_char p \<and> length u = 36 \<and>
     list_all (\<lambda>i. if i \<in> {8, 13, 18, 23} then u ! i = CHR ''-'' else uuid_hex_char (u ! i)) [0..<36])"
  unfolding isCanonicalUUID_positions [symmetric] isBase64URLChars_def [symmetric]
  by (blast intro: IsValidRefI elim: IsValidRefE)

text \<open>
  A reference determines the object's key and identifier: items with the same well-formed
  reference have the same public key and the same id.
\<close>

theorem ref_identifies:
  "IsValidRef (item_Ref it) \<Longrightarrow> item_Ref it' = item_Ref it \<Longrightarrow>
     item_Pubkey it' = item_Pubkey it \<and> item_ID it' = item_ID it"
  using valid_item_ref [of it it', OF _ sym] by blast

definition demo_item :: Item where
  "demo_item = zero_Item\<lparr>item_Pubkey := ''AxUJmGQ24rmhe5zL3Slm12xAq8bqxlzZMnLbHJ9QHxBl'',
     item_ID := ''b3f5a7c9-6d4e-4f60-9b70-0a1c2d3e4f50'', item_Type := ''NOTE'', item_Revision := 1\<rparr>"

lemma demo_item_ref: "IsValidRef (item_Ref demo_item)"
  by code_simp

theorem ref_identifies_witness:
  "item_Ref (demo_item\<lparr>item_Revision := 7\<rparr>) = item_Ref demo_item \<and>
   item_ID (demo_item\<lparr>item_Revision := 7\<rparr>) = item_ID demo_item"
proof -
  have same: "item_Ref (demo_item\<lparr>item_Revision := 7\<rparr>) = item_Ref demo_item" by (simp add: item_Ref_def)
  from ref_identifies [OF demo_item_ref same] same show ?thesis by blast
qed

end
