(* ===== verification/Vhost_Resolver.thy ===== *)
theory Vhost_Resolver
  imports Object_Model
begin

text \<open>
  Package \<open>vhost\<close>: the hash of a page, and the resolver from a \<open>Host\<close> header to a page by TXT
  records, with a cache, and by hash subdomains. Resolving updates the cache, so every lookup
  returns the new state. The lemmas give the order of resolution, the freshness of the cache,
  and that a page that was added is found at its hash.
\<close>

definition PageHash :: "ref \<Rightarrow> string" where
  "PageHash ref = hex_encode (take 8 (sha256 (map ord_of ref)))"

record txtEntry =
  txt_ref :: ref
  txt_expiresAt :: instant

record VhostResolver =
  vh_baseDomain :: string
  vh_cacheTTL :: int
  vh_txtCache :: "string \<Rightarrow> txtEntry option"
  vh_hashMap :: "string \<Rightarrow> ref option"

definition NewResolver :: "string \<Rightarrow> int \<Rightarrow> VhostResolver" where
  "NewResolver baseDomain cacheTTL = \<lparr>vh_baseDomain = baseDomain, vh_cacheTTL = cacheTTL,
     vh_txtCache = Map.empty, vh_hashMap = Map.empty\<rparr>"

definition looksLikeRef :: "string \<Rightarrow> bool" where
  "looksLikeRef s \<longleftrightarrow> (if length s \<noteq> 81 then False else s ! 44 = CHR ''.'')"

definition stripPort :: "string \<Rightarrow> string" where
  "stripPort host = (case last_index_byte host (CHR '':'') of
      Some i \<Rightarrow> if contains_byte host (CHR '']'')
        then (case last_index_byte host (CHR '']'') of
            Some bi \<Rightarrow> if bi < i then take i host else host | None \<Rightarrow> take i host)
        else take i host
    | None \<Rightarrow> host)"

definition Subdomain :: "VhostResolver \<Rightarrow> string \<Rightarrow> string" where
  "Subdomain v host =
     (let host = stripPort host in
      if host = vh_baseDomain v then []
      else let suffix = ''.'' @ vh_baseDomain v in
        if \<not> has_suffix host suffix then [] else trim_suffix host suffix)"

fun pick_record :: "string list \<Rightarrow> ref" where
  "pick_record [] = []"
| "pick_record (txt # rest) =
     (if has_prefix txt ''dv1-page='' then trim_prefix txt ''dv1-page=''
      else if looksLikeRef txt then txt
      else pick_record rest)"

definition lookupCachedTXT :: "world \<Rightarrow> VhostResolver \<Rightarrow> string \<Rightarrow> ref \<times> VhostResolver" where
  "lookupCachedTXT w v host =
     (let now = w_now w in
      case vh_txtCache v host of
        Some e \<Rightarrow> if now < txt_expiresAt e then (txt_ref e, v)
          else (let ref = (case w_dns w (''_dv.'' @ host) of Some rs \<Rightarrow> pick_record rs | None \<Rightarrow> [])
                in (ref, v\<lparr>vh_txtCache := (vh_txtCache v)(host \<mapsto>
                     \<lparr>txt_ref = ref, txt_expiresAt = now + vh_cacheTTL v\<rparr>)\<rparr>))
      | None \<Rightarrow>
          (let ref = (case w_dns w (''_dv.'' @ host) of Some rs \<Rightarrow> pick_record rs | None \<Rightarrow> [])
           in (ref, v\<lparr>vh_txtCache := (vh_txtCache v)(host \<mapsto>
                \<lparr>txt_ref = ref, txt_expiresAt = now + vh_cacheTTL v\<rparr>)\<rparr>)))"

definition Resolve :: "world \<Rightarrow> VhostResolver \<Rightarrow> string \<Rightarrow> ref \<times> VhostResolver" where
  "Resolve w v host =
     (let host = stripPort host; sub = Subdomain v host in
      if sub = [] then
        (if host = vh_baseDomain v then ([], v) else lookupCachedTXT w v host)
      else (let (ref, v) = lookupCachedTXT w v host in
        if ref \<noteq> [] then (ref, v)
        else ((case vh_hashMap v sub of Some r \<Rightarrow> r | None \<Rightarrow> []), v)))"

definition IsPageHost :: "world \<Rightarrow> VhostResolver \<Rightarrow> string \<Rightarrow> ref \<Rightarrow> bool \<times> VhostResolver" where
  "IsPageHost w v host pageRef =
     (if Subdomain v host = PageHash pageRef then (True, v)
      else (let (ref, v) = Resolve w v host in (ref = pageRef, v)))"

definition UpdateHashMap :: "(string \<Rightarrow> ref option) \<Rightarrow> VhostResolver \<Rightarrow> VhostResolver" where
  "UpdateHashMap pages v = v\<lparr>vh_hashMap := pages\<rparr>"

definition AddPage :: "ref \<Rightarrow> VhostResolver \<Rightarrow> VhostResolver" where
  "AddPage ref v = v\<lparr>vh_hashMap := (vh_hashMap v)(PageHash ref \<mapsto> ref)\<rparr>"

section \<open>Hashes\<close>

lemma PageHash_length [simp]: "length (PageHash ref) = 16"
  by (simp add: PageHash_def)

lemma PageHash_hex: "list_all is_lower_hex (PageHash ref)"
  unfolding PageHash_def using sha256_bytes [of _ "map ord_of ref"]
  by (intro hex_encode_lower) (auto dest: in_set_takeD)

lemma PageHash_chars: "c \<in> set (PageHash ref) \<Longrightarrow> c \<noteq> CHR '':'' \<and> c \<noteq> CHR '']'' \<and> c \<noteq> CHR ''.''"
  using PageHash_hex [of ref] by (auto simp: list_all_iff is_lower_hex_def is_digit_def)

section \<open>Lookups\<close>

text \<open>What a lookup answers at an instant: a cached entry that has not expired, or the DNS.\<close>

definition dns_answer :: "world \<Rightarrow> string \<Rightarrow> ref" where
  "dns_answer w host = (case w_dns w (''_dv.'' @ host) of Some rs \<Rightarrow> pick_record rs | None \<Rightarrow> [])"

definition txt_answer :: "world \<Rightarrow> VhostResolver \<Rightarrow> string \<Rightarrow> ref" where
  "txt_answer w v host = (case vh_txtCache v host of
      Some e \<Rightarrow> if w_now w < txt_expiresAt e then txt_ref e else dns_answer w host
    | None \<Rightarrow> dns_answer w host)"

lemma lookup_answer [simp]: "fst (lookupCachedTXT w v host) = txt_answer w v host"
  by (auto simp: lookupCachedTXT_def txt_answer_def dns_answer_def Let_def split: option.splits)

lemma lookup_frame [simp]:
  "vh_baseDomain (snd (lookupCachedTXT w v host)) = vh_baseDomain v"
  "vh_hashMap (snd (lookupCachedTXT w v host)) = vh_hashMap v"
  "vh_cacheTTL (snd (lookupCachedTXT w v host)) = vh_cacheTTL v"
  by (auto simp: lookupCachedTXT_def Let_def split: option.splits)

lemma lookup_caches:
  assumes "0 < vh_cacheTTL v"
  shows "\<exists>e. vh_txtCache (snd (lookupCachedTXT w v host)) host = Some e \<and>
    txt_ref e = txt_answer w v host \<and> w_now w < txt_expiresAt e"
  using assms
  by (auto simp: lookupCachedTXT_def txt_answer_def dns_answer_def Let_def split: option.splits)

lemma Resolve_answer:
  "fst (Resolve w v host) =
     (let host = stripPort host; sub = Subdomain v host in
      if sub = [] \<and> host = vh_baseDomain v then []
      else if sub = [] \<or> txt_answer w v host \<noteq> [] then txt_answer w v host
      else (case vh_hashMap v sub of Some r \<Rightarrow> r | None \<Rightarrow> []))"
  by (auto simp: Resolve_def Let_def case_prod_beta)

lemma Resolve_frame [simp]:
  "vh_baseDomain (snd (Resolve w v host)) = vh_baseDomain v"
  "vh_hashMap (snd (Resolve w v host)) = vh_hashMap v"
  by (simp_all add: Resolve_def Let_def case_prod_beta)

lemma Subdomain_cong: "vh_baseDomain v' = vh_baseDomain v \<Longrightarrow> Subdomain v' h = Subdomain v h"
  by (simp add: Subdomain_def Let_def)

text \<open>While an answer is fresh, resolving again gives it again without asking the DNS.\<close>

lemma lookup_again:
  assumes "0 < vh_cacheTTL v" and "w_now w \<le> w_now w'"
    and "\<And>e. vh_txtCache (snd (lookupCachedTXT w v host)) host = Some e \<Longrightarrow> w_now w' < txt_expiresAt e"
  shows "lookupCachedTXT w' (snd (lookupCachedTXT w v host)) host =
     (txt_answer w v host, snd (lookupCachedTXT w v host))"
proof -
  from lookup_caches [OF assms(1), of w host] obtain e
    where e: "vh_txtCache (snd (lookupCachedTXT w v host)) host = Some e" "txt_ref e = txt_answer w v host"
    by blast
  with assms(3) [OF e(1)] show ?thesis
    by (subst lookupCachedTXT_def) (simp add: Let_def)
qed

lemma stripPort_no_colon: "CHR '':'' \<notin> set host \<Longrightarrow> stripPort host = host"
proof -
  assume "CHR '':'' \<notin> set host"
  then have "index_byte (rev host) (CHR '':'') = None" by simp
  then show "stripPort host = host" by (simp add: stripPort_def last_index_byte_def del: index_byte_None)
qed

lemma Subdomain_of_base:
  assumes "CHR '':'' \<notin> set sub" and "CHR '':'' \<notin> set (vh_baseDomain v)" and "sub \<noteq> []"
  shows "Subdomain v (sub @ ''.'' @ vh_baseDomain v) = sub"
proof -
  have "stripPort (sub @ ''.'' @ vh_baseDomain v) = sub @ ''.'' @ vh_baseDomain v"
    by (rule stripPort_no_colon) (use assms in auto)
  then show ?thesis using assms(3)
    by (simp add: Subdomain_def Let_def)
qed

lemma stripPort_port:
  assumes "CHR '']'' \<notin> set host" and "CHR '':'' \<notin> set port" and "CHR '']'' \<notin> set port"
  shows "stripPort (host @ '':'' @ port) = host"
proof -
  have "index_byte (rev port @ CHR '':'' # rev host) (CHR '':'') = Some (length port)"
    using assms(2) by (induction port rule: rev_induct) auto
  then show ?thesis using assms
    by (simp add: stripPort_def last_index_byte_def contains_byte_def)
qed

text \<open>The address of a page, for a concrete run.\<close>

definition vhost_demo_page :: ref where
  "vhost_demo_page = replicate 44 (CHR ''A'') @ ''.f47ac10b-58cc-4372-a567-0e02b2c3d479''"

text \<open>
  C31 A page is reached at its hash host. After any pages were added, with or without a port in the
  \<open>Host\<close> header, the resolver answers the hash host of a page that was added with that page, unless
  another added page has the same 64-bit hash or the owner of the domain points the host elsewhere
  by a TXT record, which wins.
\<close>
theorem page_hash_resolves:
  assumes "ref \<in> set pages" and "list_all (\<lambda>p. PageHash p = PageHash ref \<longrightarrow> p = ref) pages"
    and "list_all (\<lambda>c. c \<noteq> CHR '':'' \<and> c \<noteq> CHR '']'') (vh_baseDomain v)"
    and "port = [] \<or> port = '':'' @ digits \<and> list_all is_digit digits"
  shows "fst (Resolve w (fold AddPage pages v) (PageHash ref @ ''.'' @ vh_baseDomain v @ port)) =
    (let txt = txt_answer w v (PageHash ref @ ''.'' @ vh_baseDomain v) in if txt = [] then ref else txt)"
proof -
  let ?v = "fold AddPage pages v" and ?host = "PageHash ref @ ''.'' @ vh_baseDomain v"
  have frame: "vh_baseDomain (fold AddPage ps u) = vh_baseDomain u"
    "vh_txtCache (fold AddPage ps u) = vh_txtCache u" for ps u
    by (induction ps arbitrary: u) (simp_all add: AddPage_def)
  have found: "vh_hashMap (fold AddPage ps u) (PageHash ref) = Some ref"
    if "ref \<in> set ps \<or> vh_hashMap u (PageHash ref) = Some ref"
      and "list_all (\<lambda>p. PageHash p = PageHash ref \<longrightarrow> p = ref) ps" for ps u
    using that by (induction ps arbitrary: u) (auto simp: AddPage_def)
  have base: "CHR '':'' \<notin> set (vh_baseDomain v)" "CHR '']'' \<notin> set (vh_baseDomain v)"
    using assms(3) by (auto simp: list_all_iff)
  have hash: "CHR '':'' \<notin> set (PageHash ref)" "CHR '']'' \<notin> set (PageHash ref)" "PageHash ref \<noteq> []"
    using PageHash_chars [of _ ref] PageHash_length [of ref] by (auto simp del: PageHash_length)
  have strip: "stripPort ?host = ?host"
    using base hash by (intro stripPort_no_colon) auto
  have strip_port: "stripPort (?host @ port) = ?host"
  proof (cases "port = []")
    case True with strip show ?thesis by simp
  next
    case False
    with assms(4) have p: "port = '':'' @ digits" "list_all is_digit digits" by auto
    then have "CHR '':'' \<notin> set digits \<and> CHR '']'' \<notin> set digits" by (auto simp: list_all_iff is_digit_def)
    then show ?thesis using stripPort_port [of ?host digits] base hash p(1) by auto
  qed
  have sub: "Subdomain ?v (?host @ port) = PageHash ref" "Subdomain ?v ?host = PageHash ref"
    using hash by (simp_all add: Subdomain_def Let_def strip_port [simplified] strip [simplified] frame)
  have tan: "txt_answer w ?v h = txt_answer w v h" for h by (simp add: txt_answer_def frame)
  have "vh_hashMap ?v (PageHash ref) = Some ref" using found assms(1,2) by blast
  then show ?thesis
    using Resolve_answer [of w ?v "?host @ port"] sub hash(3)
    by (auto simp: strip_port [simplified] tan frame Let_def)
qed

theorem page_hash_resolves_witness:
  "fst (Resolve calm_world (fold AddPage [vhost_demo_page] (NewResolver ''dv.test'' 300))
     (PageHash vhost_demo_page @ ''.dv.test:8080'')) = vhost_demo_page"
proof -
  let ?v = "NewResolver ''dv.test'' 300"
  have base: "vh_baseDomain ?v = ''dv.test''" by (simp add: NewResolver_def)
  have "txt_answer calm_world ?v h = []" for h
    by (simp add: txt_answer_def dns_answer_def NewResolver_def calm_world_def)
  then show ?thesis
    using page_hash_resolves [of vhost_demo_page "[vhost_demo_page]" ?v "'':8080''" "''8080''" calm_world]
    by (simp add: base is_digit_def)
qed

end
