(* ===== verification/Serving_Origin.thy ===== *)
theory Serving_Origin
  imports Object_Problem Vhost_Resolver
begin

text \<open>
  \<open>serving/vhost_mode.go\<close>, the URL helpers of \<open>serving/hub.go\<close> and the redirects of
  \<open>serving/projection.go\<close> that keep author-controlled HTML on an origin of its own. A nil resolver
  is \<open>None\<close>; asking the resolver may fill its cache, so the operations return it.
\<close>

definition VhostModeOff :: string where "VhostModeOff = ''off''"
definition VhostModeRedirect :: string where "VhostModeRedirect = ''redirect''"
definition VhostModeIsolate :: string where "VhostModeIsolate = ''isolate''"

definition normalizeVhostMode :: "string \<Rightarrow> string" where
  "normalizeVhostMode mode =
     (if mode = [] \<or> mode = VhostModeIsolate then VhostModeIsolate
      else if mode = VhostModeRedirect then VhostModeRedirect
      else if mode = VhostModeOff then VhostModeOff
      else VhostModeIsolate)"

definition stripHostPort :: "string \<Rightarrow> string" where
  "stripHostPort host = (case last_index_byte host (CHR '':'') of
      Some i \<Rightarrow> if contains_byte host (CHR '']'')
        then (case last_index_byte host (CHR '']'') of
            Some bi \<Rightarrow> if bi < i then take i host else host | None \<Rightarrow> take i host)
        else take i host
    | None \<Rightarrow> host)"

definition baseHostMatches :: "string \<Rightarrow> string \<Rightarrow> bool" where
  "baseHostMatches host baseDomain \<longleftrightarrow> stripHostPort host = baseDomain"

definition requestScheme :: "request \<Rightarrow> string" where
  "requestScheme r = (let proto = req_header r ''X-Forwarded-Proto'' in
     if proto \<noteq> [] then proto else if req_tls r then ''https'' else ''http'')"

definition requestPort :: "request \<Rightarrow> string" where
  "requestPort r = (let host = req_host r in
     case last_index_byte host (CHR '':'') of
       None \<Rightarrow> []
     | Some i \<Rightarrow>
         if contains_byte host (CHR '']'') \<and>
            (case last_index_byte host (CHR '']'') of Some bi \<Rightarrow> i < bi | None \<Rightarrow> False)
         then []
         else let port = drop i host in
           if port = '':80'' \<or> port = '':443'' then [] else port)"

definition canonicalPageHost ::
  "world \<Rightarrow> string \<Rightarrow> VhostResolver option \<Rightarrow> string \<Rightarrow> ref \<Rightarrow> bool \<times> VhostResolver option" where
  "canonicalPageHost w mode resolver host pageRef = (case resolver of
      None \<Rightarrow> (True, None)
    | Some v \<Rightarrow>
        if normalizeVhostMode mode = VhostModeRedirect
        then (baseHostMatches host (vh_baseDomain v), Some v)
        else (let (b, v') = IsPageHost w v host pageRef in (b, Some v')))"

definition pageRedirectTargetPath ::
  "string \<Rightarrow> VhostResolver \<Rightarrow> request \<Rightarrow> ref \<Rightarrow> ref \<Rightarrow> string \<Rightarrow> string" where
  "pageRedirectTargetPath mode v r ref pageRef pathSuffix =
     (let scheme = requestScheme r; port = requestPort r in
      if normalizeVhostMode mode = VhostModeRedirect
      then scheme @ ''://'' @ vh_baseDomain v @ port @ ''/'' @ ref @ pathSuffix
      else scheme @ ''://'' @ PageHash pageRef @ ''.'' @ vh_baseDomain v @ port @ ''/'' @ ref @ pathSuffix)"

definition pageRedirectTarget :: "string \<Rightarrow> VhostResolver \<Rightarrow> request \<Rightarrow> ref \<Rightarrow> ref \<Rightarrow> string" where
  "pageRedirectTarget mode v r ref pageRef = pageRedirectTargetPath mode v r ref pageRef []"

text \<open>\<open>vhostRedirect\<close>: the redirect, if there is one, over the headers set so far.\<close>

definition vhostRedirect ::
  "world \<Rightarrow> request \<Rightarrow> VhostResolver option \<Rightarrow> string \<Rightarrow> ref \<Rightarrow> ref \<Rightarrow> string \<Rightarrow> response
     \<Rightarrow> response option \<times> VhostResolver option" where
  "vhostRedirect w r resolver vhostMode ref pageRef pathSuffix resp = (case resolver of
      None \<Rightarrow> (None, None)
    | Some v \<Rightarrow> (case canonicalPageHost w vhostMode resolver (req_host r) pageRef of
        (True, v') \<Rightarrow> (None, v')
      | (False, v') \<Rightarrow>
          (let target = pageRedirectTargetPath vhostMode v r ref pageRef pathSuffix;
               target = (if req_rawquery r \<noteq> [] then target @ ''?'' @ req_rawquery r else target)
           in (Some (http_redirect target resp), v'))))"

definition rawVhostRedirect ::
  "world \<Rightarrow> request \<Rightarrow> VhostResolver option \<Rightarrow> string \<Rightarrow> ref \<Rightarrow> ObjectMeta option
     \<Rightarrow> response option \<times> VhostResolver option" where
  "rawVhostRedirect w r resolver vhostMode ref meta =
     (if (case meta of Some m \<Rightarrow> meta_Type m \<noteq> ''PAGE'' | None \<Rightarrow> True) then (None, resolver)
      else vhostRedirect w r resolver vhostMode ref ref ''/raw'' initial_response)"

section \<open>A redirect leads to a canonical host\<close>

lemma normalizeVhostMode_cases:
  "normalizeVhostMode mode = VhostModeIsolate \<or> normalizeVhostMode mode = VhostModeRedirect \<or>
   normalizeVhostMode mode = VhostModeOff"
  by (simp add: normalizeVhostMode_def)

lemma stripHostPort_eq: "stripHostPort host = stripPort host"
  by (simp add: stripHostPort_def stripPort_def)

lemma vhostRedirect_resolver:
  "vhostRedirect w r resolver mode ref pageRef sfx resp = (x, v') \<Longrightarrow> v' = None \<longleftrightarrow> resolver = None"
  by (auto simp: vhostRedirect_def canonicalPageHost_def Let_def split: option.splits prod.splits bool.splits if_splits)

lemma vhostRedirect_status:
  "vhostRedirect w r resolver mode ref pageRef sfx resp = (Some x, v') \<Longrightarrow>
     resp_status x = 302 \<and> resp_body x = resp_body resp"
  by (auto simp: vhostRedirect_def Let_def split: option.splits prod.splits bool.splits if_splits)

text \<open>
  The host a redirect names, in the isolating mode, is the hash host of the page: a request
  there is served without another redirect.
\<close>

lemma hash_host_canonical:
  assumes "CHR '':'' \<notin> set (vh_baseDomain v)" and "normalizeVhostMode mode \<noteq> VhostModeRedirect"
  shows "fst (canonicalPageHost w mode (Some v) (PageHash pageRef @ ''.'' @ vh_baseDomain v) pageRef)"
proof -
  have "CHR '':'' \<notin> set (PageHash pageRef)" using PageHash_chars by blast
  moreover have "PageHash pageRef \<noteq> []" using PageHash_length [of pageRef] by (metis list.size(3) zero_neq_numeral)
  ultimately have "Subdomain v (PageHash pageRef @ ''.'' @ vh_baseDomain v) = PageHash pageRef"
    using Subdomain_of_base assms(1) by blast
  then show ?thesis using assms(2) by (simp add: canonicalPageHost_def IsPageHost_def)
qed

text \<open>The port a redirect keeps is empty or a colon and bytes that a host splitter leaves alone.\<close>

lemma last_index_byte_Some:
  assumes "last_index_byte s c = Some i"
  shows "i < length s" and "s ! i = c" and "c \<notin> set (drop (Suc i) s)"
proof -
  from assms obtain j where j: "index_byte (rev s) c = Some j" and i: "i = length s - 1 - j"
    by (auto simp: last_index_byte_def)
  from index_byte_Some [OF j] have "j < length s" "rev s ! j = c" "c \<notin> set (take j (rev s))" by simp_all
  with i show "i < length s" and "s ! i = c" and "c \<notin> set (drop (Suc i) s)"
    by (simp_all add: rev_nth take_rev Suc_diff_Suc)
qed

lemma requestPort_shape:
  "requestPort r = [] \<or> (\<exists>p. requestPort r = '':'' @ p \<and> CHR '':'' \<notin> set p \<and> CHR '']'' \<notin> set p)"
proof (cases "last_index_byte (req_host r) (CHR '':'')")
  case (Some i)
  let ?h = "req_host r"
  note i = last_index_byte_Some [OF Some]
  have port: "drop i ?h = '':'' @ drop (Suc i) ?h"
    using i(1,2) Cons_nth_drop_Suc [of i ?h] by simp
  show ?thesis
  proof (cases "CHR '']'' \<in> set (drop (Suc i) ?h)")
    case True
    then obtain bi where bi: "last_index_byte ?h (CHR '']'') = Some bi"
      by (cases "last_index_byte ?h (CHR '']'')") (auto simp: last_index_byte_def dest: in_set_dropD)
    have "i < bi"
    proof (rule ccontr)
      assume "\<not> i < bi"
      then have "set (drop (Suc i) ?h) \<subseteq> set (drop (Suc bi) ?h)" by (intro set_drop_subset_set_drop) simp
      with True last_index_byte_Some(3) [OF bi] show False by blast
    qed
    with True bi Some show ?thesis
      by (auto simp: requestPort_def Let_def contains_byte_def dest: in_set_dropD)
  next
    case False
    with Some i(3) port show ?thesis by (auto simp: requestPort_def Let_def)
  qed
qed (simp add: requestPort_def)

lemma stripPort_requestPort:
  assumes "list_all (\<lambda>c. c \<noteq> CHR '':'' \<and> c \<noteq> CHR '']'') host"
  shows "stripPort (host @ requestPort r) = host"
proof -
  have h: "CHR '':'' \<notin> set host" "CHR '']'' \<notin> set host" using assms by (auto simp: list_all_iff)
  from requestPort_shape [of r] show ?thesis
    using stripPort_no_colon [OF h(1)] stripPort_port [OF h(2)] by auto
qed

text \<open>The origin a page is sent to: the base host in the redirect mode, else its hash host.\<close>

definition page_origin :: "string \<Rightarrow> VhostResolver \<Rightarrow> ref \<Rightarrow> string" where
  "page_origin mode v pageRef =
     (if normalizeVhostMode mode = VhostModeRedirect then vh_baseDomain v
      else PageHash pageRef @ ''.'' @ vh_baseDomain v)"

lemma canonical_origin:
  assumes "list_all (\<lambda>c. c \<noteq> CHR '':'' \<and> c \<noteq> CHR '']'') (vh_baseDomain v)"
    and "vh_baseDomain v' = vh_baseDomain v"
  shows "fst (canonicalPageHost w mode (Some v') (page_origin mode v pageRef @ requestPort r) pageRef)"
proof -
  have hash: "list_all (\<lambda>c. c \<noteq> CHR '':'' \<and> c \<noteq> CHR '']'') (PageHash pageRef)" "PageHash pageRef \<noteq> []"
    using PageHash_chars [of _ pageRef] PageHash_length [of pageRef] by (auto simp: list_all_iff simp del: PageHash_length)
  then have "stripPort ((PageHash pageRef @ ''.'' @ vh_baseDomain v) @ requestPort r) = PageHash pageRef @ ''.'' @ vh_baseDomain v"
    using assms(1) by (intro stripPort_requestPort) simp
  with hash assms show ?thesis
    using stripPort_requestPort [OF assms(1), of r]
    by (simp add: canonicalPageHost_def page_origin_def IsPageHost_def Subdomain_def Let_def
        baseHostMatches_def stripHostPort_eq)
qed

lemma canonicalPageHost_frame:
  "canonicalPageHost w mode (Some v) host pageRef = (b, v') \<Longrightarrow> \<exists>u. v' = Some u \<and> vh_baseDomain u = vh_baseDomain v"
  by (auto simp: canonicalPageHost_def IsPageHost_def Let_def case_prod_beta split: if_splits)

text \<open>
  Author-controlled HTML is sent to its own origin, once. A redirect is a 302 to the same scheme,
  port, path and query on the host of the page (its hash host, or the base host in the redirect
  mode), and a request to that host is answered there: the redirects cannot form a cycle.
\<close>
theorem page_redirect_once:
  assumes "list_all (\<lambda>c. c \<noteq> CHR '':'' \<and> c \<noteq> CHR '']'') (vh_baseDomain v)"
    and "vhostRedirect w r (Some v) mode ref pageRef sfx resp = (Some x, v')"
  shows "resp_status x = 302 \<and>
    resp_header x ''Location'' = requestScheme r @ ''://'' @ page_origin mode v pageRef @ requestPort r @ ''/'' @
      ref @ sfx @ (if req_rawquery r = [] then [] else ''?'' @ req_rawquery r) \<and>
    fst (vhostRedirect w' (r'\<lparr>req_host := page_origin mode v pageRef @ requestPort r\<rparr>) v' mode
      ref pageRef sfx' resp') = None"
proof -
  from assms(2) obtain target where can: "canonicalPageHost w mode (Some v) (req_host r) pageRef = (False, v')"
    and x: "x = http_redirect (pageRedirectTargetPath mode v r ref pageRef sfx @
      (if req_rawquery r = [] then [] else ''?'' @ req_rawquery r)) resp"
    by (auto simp: vhostRedirect_def Let_def split: prod.splits bool.splits if_splits)
  from canonicalPageHost_frame [OF can] obtain u where u: "v' = Some u" "vh_baseDomain u = vh_baseDomain v"
    by blast
  have "fst (canonicalPageHost w' mode (Some u) (page_origin mode v pageRef @ requestPort r) pageRef)"
    by (rule canonical_origin [OF assms(1) u(2)])
  then have "fst (vhostRedirect w' (r'\<lparr>req_host := page_origin mode v pageRef @ requestPort r\<rparr>) v' mode
      ref pageRef sfx' resp') = None"
    using u by (auto simp: vhostRedirect_def split: prod.splits bool.splits)
  with x show ?thesis
    by (simp add: pageRedirectTargetPath_def page_origin_def Let_def)
qed

theorem page_redirect_once_witness:
  "\<exists>x v'. vhostRedirect calm_world (empty_request\<lparr>req_host := ''dv.test:8080''\<rparr>) (Some (NewResolver ''dv.test'' 300))
     [] ''notes'' ''page'' [] initial_response = (Some x, v') \<and> resp_status x = 302 \<and>
     resp_header x ''Location'' = ''http://'' @ PageHash ''page'' @ ''.dv.test:8080/notes''"
proof -
  let ?v = "NewResolver ''dv.test'' 300" and ?r = "empty_request\<lparr>req_host := ''dv.test:8080''\<rparr>"
  have base: "vh_baseDomain ?v = ''dv.test''" by (simp add: NewResolver_def)
  have strip: "stripPort ''dv.test:8080'' = ''dv.test''" "stripPort ''dv.test'' = ''dv.test''" by code_simp+
  have port: "requestPort ?r = '':8080''" by code_simp
  have scheme: "requestScheme ?r = ''http''" by code_simp
  have mode: "normalizeVhostMode [] = VhostModeIsolate" "VhostModeIsolate \<noteq> VhostModeRedirect"
    by (simp_all add: normalizeVhostMode_def VhostModeIsolate_def VhostModeRedirect_def)
  have "PageHash ''page'' \<noteq> []" using PageHash_length [of "''page''"] by (auto simp del: PageHash_length)
  then have "canonicalPageHost calm_world [] (Some ?v) ''dv.test:8080'' ''page'' = (False, Some ?v)"
    by (simp add: canonicalPageHost_def mode IsPageHost_def Subdomain_def Resolve_def base strip Let_def)
  then obtain x v' where x: "vhostRedirect calm_world ?r (Some ?v) [] ''notes'' ''page'' [] initial_response = (Some x, v')"
    by (auto simp: vhostRedirect_def empty_request_def)
  have raw: "req_rawquery ?r = []" by (simp add: empty_request_def)
  have chars: "list_all (\<lambda>c. c \<noteq> CHR '':'' \<and> c \<noteq> CHR '']'') (vh_baseDomain ?v)" by (simp add: base)
  from page_redirect_once [OF chars x] have "resp_status x = 302"
    "resp_header x ''Location'' = ''http://'' @ PageHash ''page'' @ ''.dv.test:8080/notes''"
    by (simp_all add: page_origin_def base mode port scheme raw)
  with x show ?thesis by blast
qed

end
