(* ===== verification/Object_Verify.thy ===== *)
theory Object_Verify
  imports Object_Model
begin

text \<open>
  \<open>object/verify.go\<close> and \<open>object/conflict.go\<close>: parsing an envelope, its canonical bytes, the
  check of its signature with every early return, and the comparison of two envelopes by item.
  The lemmas characterise acceptance, and show that the item that is checked is the item that
  \<open>ParseEnvelope\<close> returns.
\<close>

section \<open>Parsing and canonical form\<close>

definition unmarshal_Envelope :: "bytes \<Rightarrow> go_error + Envelope" where
  "unmarshal_Envelope data = (case parse_json data of
      None \<Rightarrow> Inl (Json_Syntax data)
    | Some j \<Rightarrow> (case decode_Envelope j of None \<Rightarrow> Inl (Json_Type j) | Some env \<Rightarrow> Inr env))"

text \<open>A missing item is an empty \<open>RawMessage\<close>, which does not parse.\<close>

definition unmarshal_Item :: "json option \<Rightarrow> go_error + Item" where
  "unmarshal_Item raw = (case raw of
      None \<Rightarrow> Inl (Json_Syntax [])
    | Some j \<Rightarrow> (case decode_Item j of None \<Rightarrow> Inl (Json_Type j) | Some it \<Rightarrow> Inr it))"

datatype parse_error = Invalid_Json go_error | Invalid_Item go_error

definition parse_error_text :: "world \<Rightarrow> parse_error \<Rightarrow> string" where
  "parse_error_text w e = (case e of
      Invalid_Json g \<Rightarrow> ''invalid JSON: '' @ w_error_text w g
    | Invalid_Item g \<Rightarrow> ''invalid item: '' @ w_error_text w g)"

definition ParseEnvelope :: "bytes \<Rightarrow> parse_error + (Envelope \<times> Item)" where
  "ParseEnvelope data = (case unmarshal_Envelope data of
      Inl e \<Rightarrow> Inl (Invalid_Json e)
    | Inr env \<Rightarrow> (case unmarshal_Item (env_Item env) of
          Inl e \<Rightarrow> Inl (Invalid_Item e)
        | Inr it \<Rightarrow> Inr (env, it)))"

definition canonical_tree :: "json \<Rightarrow> bytes option" where
  "canonical_tree j = map_option (print_json False) (any_json j)"

definition CanonicalJSON :: "bytes \<Rightarrow> bytes option" where
  "CanonicalJSON data = Option.bind (parse_json data) canonical_tree"

text \<open>\<open>CanonicalJSON(env.Item)\<close>: of an empty \<open>RawMessage\<close> it is an error.\<close>

definition canonical_raw :: "json option \<Rightarrow> bytes option" where
  "canonical_raw raw = Option.bind raw canonical_tree"

section \<open>Signature verification\<close>

datatype verify_error =
    Verify_Json go_error
  | Missing_Signature
  | Missing_Item
  | Verify_Item go_error
  | Missing_In
  | Missing_Pubkey
  | Missing_ID
  | Missing_CreatedAt
  | Pubkey_Encoding go_error
  | Pubkey_Length int
  | Pubkey_Point
  | Canonical_Failed go_error
  | Signature_Encoding go_error
  | Signature_ASN1 go_error
  | Signature_Failed

definition verify_error_text :: "world \<Rightarrow> verify_error \<Rightarrow> string" where
  "verify_error_text w e = (case e of
      Verify_Json g \<Rightarrow> ''invalid JSON: '' @ w_error_text w g
    | Missing_Signature \<Rightarrow> ''missing signature''
    | Missing_Item \<Rightarrow> ''missing item''
    | Verify_Item g \<Rightarrow> ''invalid item: '' @ w_error_text w g
    | Missing_In \<Rightarrow> ''missing 'in' field''
    | Missing_Pubkey \<Rightarrow> ''missing item.pubkey''
    | Missing_ID \<Rightarrow> ''missing item.id''
    | Missing_CreatedAt \<Rightarrow> ''missing item.created_at''
    | Pubkey_Encoding g \<Rightarrow> ''invalid pubkey encoding: '' @ w_error_text w g
    | Pubkey_Length n \<Rightarrow> ''pubkey must be 33 bytes (compressed), got '' @ itoa n
    | Pubkey_Point \<Rightarrow> ''invalid pubkey: failed to decompress P-256 point''
    | Canonical_Failed g \<Rightarrow> ''canonical JSON failed: '' @ w_error_text w g
    | Signature_Encoding g \<Rightarrow> ''invalid signature encoding: '' @ w_error_text w g
    | Signature_ASN1 g \<Rightarrow> ''invalid signature ASN.1: '' @ w_error_text w g
    | Signature_Failed \<Rightarrow> ''signature verification failed'')"

definition DecompressP256 :: "world \<Rightarrow> bytes \<Rightarrow> point option" where
  "DecompressP256 w compressed = w_point w compressed"

definition sha256_bytes_of :: "bytes \<Rightarrow> int list" where
  "sha256_bytes_of data = sha256 (map ord_of data)"

text \<open>The part of \<open>VerifyEnvelope\<close> after the field checks: key, digest, signature.\<close>

definition check_signature ::
  "world \<Rightarrow> string \<Rightarrow> json \<Rightarrow> string \<Rightarrow> verify_error option" where
  "check_signature w pubkey raw_item signature =
     (case raw_url_decode pubkey of
        None \<Rightarrow> Some (Pubkey_Encoding (Base64_Error pubkey))
      | Some pk \<Rightarrow>
          if length pk \<noteq> 33 then Some (Pubkey_Length (int (length pk)))
          else (case DecompressP256 w pk of
              None \<Rightarrow> Some Pubkey_Point
            | Some key \<Rightarrow> (case canonical_tree raw_item of
                None \<Rightarrow> Some (Canonical_Failed (Json_Type raw_item))
              | Some canonical \<Rightarrow> (case std_decode signature of
                  None \<Rightarrow> Some (Signature_Encoding (Base64_Error signature))
                | Some sig \<Rightarrow> (case asn1_signature sig of
                    None \<Rightarrow> Some (Signature_ASN1 (Asn1_Error sig))
                  | Some (r, s) \<Rightarrow>
                      if \<not> w_ecdsa w key (sha256_bytes_of canonical) r s
                      then Some Signature_Failed else None)))))"

text \<open>\<open>VerifyEnvelope\<close>: \<open>None\<close> is the nil error.\<close>

definition VerifyEnvelope :: "world \<Rightarrow> bytes \<Rightarrow> verify_error option" where
  "VerifyEnvelope w data = (case unmarshal_Envelope data of
      Inl e \<Rightarrow> Some (Verify_Json e)
    | Inr env \<Rightarrow>
        if env_Signature env = [] then Some Missing_Signature
        else (case env_Item env of
            None \<Rightarrow> Some Missing_Item
          | Some raw \<Rightarrow> (case unmarshal_Item (Some raw) of
              Inl e \<Rightarrow> Some (Verify_Item e)
            | Inr it \<Rightarrow>
                if ResolveIn env it = [] then Some Missing_In
                else if item_Pubkey it = [] then Some Missing_Pubkey
                else if item_ID it = [] then Some Missing_ID
                else if item_CreatedAt it = [] then Some Missing_CreatedAt
                else check_signature w (item_Pubkey it) raw (env_Signature env))))"

section \<open>Comparing two versions (\<open>object/conflict.go\<close>)\<close>

text \<open>\<open>SameItem\<close>: \<open>None\<close> is an error of one of the four parses, in the order of the code.\<close>

definition SameItem :: "bytes \<Rightarrow> bytes \<Rightarrow> bool option" where
  "SameItem a b = (case ParseEnvelope a of
      Inl e \<Rightarrow> None
    | Inr (left, li) \<Rightarrow> (case ParseEnvelope b of
        Inl e \<Rightarrow> None
      | Inr (right, ri) \<Rightarrow> (case canonical_raw (env_Item left) of
          None \<Rightarrow> None
        | Some x \<Rightarrow> (case canonical_raw (env_Item right) of
            None \<Rightarrow> None
          | Some y \<Rightarrow> Some (x = y)))))"

section \<open>What acceptance means\<close>

lemma ParseEnvelope_Inr:
  "ParseEnvelope data = Inr (env, it) \<longleftrightarrow>
     unmarshal_Envelope data = Inr env \<and> unmarshal_Item (env_Item env) = Inr it"
  by (auto simp: ParseEnvelope_def split: sum.splits)

lemma unmarshal_Item_relations: "unmarshal_Item raw = Inr it \<Longrightarrow> mwf (item_Relations it)"
  by (auto simp: unmarshal_Item_def split: option.splits intro: decode_Item_relations)

lemma ParseEnvelope_relations: "ParseEnvelope data = Inr (env, it) \<Longrightarrow> mwf (item_Relations it)"
  by (auto simp: ParseEnvelope_Inr dest: unmarshal_Item_relations)

lemma check_signature_None:
  "check_signature w pubkey raw sig64 = None \<longleftrightarrow>
     (\<exists>pk key canonical sig r s. raw_url_decode pubkey = Some pk \<and> length pk = 33 \<and>
        w_point w pk = Some key \<and> canonical_tree raw = Some canonical \<and>
        std_decode sig64 = Some sig \<and> asn1_signature sig = Some (r, s) \<and>
        w_ecdsa w key (sha256_bytes_of canonical) r s)"
  by (auto simp: check_signature_def DecompressP256_def split: option.splits if_splits)

text \<open>Verification accepts exactly the envelopes that \<open>ParseEnvelope\<close> reads and whose item is signed.\<close>

lemma VerifyEnvelope_None:
  "VerifyEnvelope w data = None \<longleftrightarrow>
     (\<exists>env it raw. ParseEnvelope data = Inr (env, it) \<and> env_Item env = Some raw \<and>
        env_Signature env \<noteq> [] \<and> ResolveIn env it \<noteq> [] \<and> item_Pubkey it \<noteq> [] \<and>
        item_ID it \<noteq> [] \<and> item_CreatedAt it \<noteq> [] \<and>
        check_signature w (item_Pubkey it) raw (env_Signature env) = None)"
  unfolding VerifyEnvelope_def ParseEnvelope_Inr
  by (auto split: sum.splits option.splits if_splits)

lemma SameItem_Some:
  "SameItem a b = Some t \<longleftrightarrow>
     (\<exists>ea ia eb ib x y. ParseEnvelope a = Inr (ea, ia) \<and> ParseEnvelope b = Inr (eb, ib) \<and>
        canonical_raw (env_Item ea) = Some x \<and> canonical_raw (env_Item eb) = Some y \<and> t = (x = y))"
  by (auto simp: SameItem_def split: sum.splits option.splits)

text \<open>Two envelopes of the same item are accepted under the same signature and key.\<close>

lemma check_signature_canonical:
  "canonical_tree raw = canonical_tree raw' \<Longrightarrow>
     check_signature w pk raw sig = None \<longleftrightarrow> check_signature w pk raw' sig = None"
  by (simp add: check_signature_None)

section \<open>Properties\<close>

text \<open>Two integer literals that no \<open>float64\<close> tells apart.\<close>

lemma literal_parts:
  "num_parts ''9007199254740992'' = (False, 9007199254740992, 0)"
  "num_parts ''9007199254740993'' = (False, 9007199254740993, 0)"
  by code_simp+

lemma literal_floats:
  "nearest_float 9007199254740992 1 = Some (4503599627370496, 1)"
  "nearest_float 9007199254740993 1 = Some (4503599627370496, 1)"
  by code_simp+

lemma literals_collide:
  "num_canon ''9007199254740993'' = num_canon ''9007199254740992'' \<and> num_canon ''9007199254740992'' \<noteq> None"
  unfolding num_canon_def literal_parts
  by (simp add: scale_frac_def literal_floats split: prod.split)

definition revision_item :: "string \<Rightarrow> json" where
  "revision_item n = JObj [(''revision'', JNum n)]"

lemma revision_item_decodes:
  "map_option item_Revision (decode_Item (revision_item ''9007199254740992'')) = Some 9007199254740992"
  "map_option item_Revision (decode_Item (revision_item ''9007199254740993'')) = Some 9007199254740993"
  by code_simp+

lemma revision_item_canonical:
  "canonical_tree (revision_item n) =
     map_option (\<lambda>t. print_json False (JObj (sort_key fst (dedupe [(''revision'', JNum t)])))) (num_canon n)"
  by (cases "num_canon n") (simp_all add: canonical_tree_def revision_item_def)

definition item_bytes :: "bytes \<Rightarrow> bytes option" where
  "item_bytes data = (case ParseEnvelope data of Inl e \<Rightarrow> None
     | Inr (env, it) \<Rightarrow> canonical_raw (env_Item env))"

text \<open>
  C3 An envelope is accepted exactly when it parses, carries a signature and an item with realms,
  public key, id and creation time, the public key is a compressed P-256 point of 33 bytes, and the
  signature verifies under that point for the SHA-256 of the canonical bytes of the very item that
  \<open>ParseEnvelope\<close> returns.
\<close>

theorem accepted_iff_signed:
  "VerifyEnvelope w data = None \<longleftrightarrow>
     (\<exists>env it raw pk key canonical sig r s. ParseEnvelope data = Inr (env, it) \<and> env_Item env = Some raw \<and>
        env_Signature env \<noteq> [] \<and> ResolveIn env it \<noteq> [] \<and> item_Pubkey it \<noteq> [] \<and>
        item_ID it \<noteq> [] \<and> item_CreatedAt it \<noteq> [] \<and>
        raw_url_decode (item_Pubkey it) = Some pk \<and> length pk = 33 \<and> DecompressP256 w pk = Some key \<and>
        canonical_tree raw = Some canonical \<and>
        std_decode (env_Signature env) = Some sig \<and> asn1_signature sig = Some (r, s) \<and>
        w_ecdsa w key (sha256_bytes_of canonical) r s)"
  unfolding VerifyEnvelope_None check_signature_None DecompressP256_def by blast

text \<open>
  \<open>SameItem\<close> is equality of one value computed from each side alone, the canonical bytes of the
  item; so on readable envelopes it is an equivalence relation, and it fails exactly when one side
  has no such value.
\<close>

theorem same_item_is_equality:
  "SameItem a b = (case item_bytes a of None \<Rightarrow> None | Some x \<Rightarrow> map_option ((=) x) (item_bytes b))"
  unfolding SameItem_def item_bytes_def
  by (cases "ParseEnvelope a"; cases "ParseEnvelope b") (auto split: option.split)

text \<open>
  Numbers are compared and signed as \<open>float64\<close>: two items whose revisions are the different
  64-bit integers \<open>2^53\<close> and \<open>2^53 + 1\<close> have the same canonical bytes, so every signature for one
  verifies for the other.
\<close>

theorem large_revisions_share_signature:
  "\<exists>raw raw' it it'. decode_Item raw = Some it \<and> decode_Item raw' = Some it' \<and>
     item_Revision it = 2 ^ 53 \<and> item_Revision it' = 2 ^ 53 + 1 \<and>
     canonical_tree raw \<noteq> None \<and> canonical_tree raw' = canonical_tree raw \<and>
     (\<forall>w pk sig. check_signature w pk raw' sig = None \<longleftrightarrow> check_signature w pk raw sig = None)"
proof -
  let ?a = "revision_item ''9007199254740992''" and ?b = "revision_item ''9007199254740993''"
  have eq: "canonical_tree ?b = canonical_tree ?a" and "canonical_tree ?a \<noteq> None"
    using literals_collide by (simp_all add: revision_item_canonical)
  moreover obtain it it' where "decode_Item ?a = Some it" "decode_Item ?b = Some it'"
    and "item_Revision it = 2 ^ 53" "item_Revision it' = 2 ^ 53 + 1"
    using revision_item_decodes by auto
  ultimately show ?thesis using check_signature_canonical [OF eq] by blast
qed

end
