(* ===== verification/Store_Files.thy ===== *)
theory Store_Files
  imports Object_Model
begin

text \<open>
  \<open>storage/store.go\<close> and \<open>storage/conflict.go\<close>: the objects of a hub are files of one directory,
  with old revisions below \<open>bk/\<close> and conflicting edits below \<open>conflicts/\<close>. The disk maps a path to
  the bytes and the modification time of a file. Which system calls fail is a matter of the
  world; what a failure leaves on the disk is not.
\<close>

section \<open>Paths\<close>

text \<open>
  \<open>filepath.Join\<close> of a directory, given by its components, and a name: the name may hold slashes,
  dots and double dots. The directory is taken to be absolute.
\<close>

fun clean_path :: "path \<Rightarrow> path \<Rightarrow> path" where
  "clean_path acc [] = rev acc"
| "clean_path acc (p # ps) =
     (if p = [] \<or> p = ''.'' then clean_path acc ps
      else if p = ''..'' then clean_path (tl acc) ps
      else clean_path (p # acc) ps)"

definition join_path :: "path \<Rightarrow> string \<Rightarrow> path" where
  "join_path dir name = clean_path (rev dir) (split_on (CHR ''/'') name)"

type_synonym file_data = "bytes \<times> instant"
type_synonym disk = "(path, file_data) gomap"

record Store =
  store_dir :: path
  store_backup :: bool

definition live_path :: "Store \<Rightarrow> ref \<Rightarrow> path" where
  "live_path s ref = join_path (store_dir s) (ref @ ''.json'')"

definition backup_path :: "Store \<Rightarrow> ref \<Rightarrow> int \<Rightarrow> path" where
  "backup_path s ref revision =
     join_path (join_path (store_dir s) ''bk'') (ref @ ''.r'' @ itoa revision @ ''.json'')"

section \<open>Operations\<close>

definition NewStore :: "world \<Rightarrow> path \<Rightarrow> bool \<Rightarrow> Store option" where
  "NewStore w dir backupEnabled =
     (if w_mkdir_fails w dir then None
      else Some \<lparr>store_dir = dir, store_backup = backupEnabled\<rparr>)"

datatype store_error = Read_Failed path | Mkdir_Failed path | Rename_Failed path
  | Write_Failed path | Chtimes_Failed path | Readdir_Failed path | Link_Failed path
  | Archive_Differs path | Sync_Failed path

definition Backup ::
  "world \<Rightarrow> Store \<Rightarrow> ref \<Rightarrow> int \<Rightarrow> disk \<Rightarrow> store_error option \<times> disk" where
  "Backup w s ref revision d =
     (if \<not> store_backup s then (None, d)
      else let src = live_path s ref in
        (case mget d src of
           None \<Rightarrow> (None, d)
         | Some f \<Rightarrow>
             let bkDir = join_path (store_dir s) ''bk''; dst = backup_path s ref revision in
             if w_mkdir_fails w bkDir then (Some (Mkdir_Failed bkDir), d)
             else if w_rename_fails w src then (Some (Rename_Failed src), d)
             else (None, mput dst f (mdel src d))))"

text \<open>\<open>Read\<close>: a missing file is no error, and reads as nil.\<close>

definition Read :: "world \<Rightarrow> Store \<Rightarrow> disk \<Rightarrow> ref \<Rightarrow> store_error + bytes option" where
  "Read w s d ref =
     (let p = live_path s ref in
      if w_read_fails w p then Inl (Read_Failed p) else Inr (map_option fst (mget d p)))"

text \<open>
  \<open>Write\<close>: until the rename nothing is visible and the temporary file is removed; after it the
  new bytes are in place, even when setting the time then fails.
\<close>

definition Write ::
  "world \<Rightarrow> Store \<Rightarrow> ref \<Rightarrow> bytes \<Rightarrow> instant \<Rightarrow> disk \<Rightarrow> store_error option \<times> disk" where
  "Write w s ref data ts d =
     (let target = live_path s ref in
      if w_write_fails w target then (Some (Write_Failed target), d)
      else if w_chtimes_fails w target
      then (Some (Chtimes_Failed target), mput target (data, w_now w) d)
      else (None, mput target (data, ts) d))"

definition Exists :: "Store \<Rightarrow> disk \<Rightarrow> ref \<Rightarrow> bool" where
  "Exists s d ref \<longleftrightarrow> mget d (live_path s ref) \<noteq> None"

text \<open>The names of the files of a directory, in the order \<open>os.ReadDir\<close> gives them.\<close>

definition file_names :: "path \<Rightarrow> disk \<Rightarrow> string list" where
  "file_names dir d = sort_key Text_Key
     (map last (filter (\<lambda>p. p \<noteq> [] \<and> butlast p = dir) (mkeys d)))"

definition Scan :: "world \<Rightarrow> Store \<Rightarrow> disk \<Rightarrow> store_error + ref list" where
  "Scan w s d =
     (if w_readdir_fails w (store_dir s) then Inl (Readdir_Failed (store_dir s))
      else Inr (map (\<lambda>name. trim_suffix name ''.json'')
        (filter (\<lambda>name. has_suffix name ''.json'' \<and> \<not> has_prefix name ''.'')
          (file_names (store_dir s) d))))"

text \<open>\<open>PreserveConflict\<close>: the archive of a candidate is named by the digest of its bytes.\<close>

definition archive_path :: "path \<Rightarrow> bytes \<Rightarrow> path" where
  "archive_path dir data = join_path dir (hex_encode (sha256 (map ord_of data)) @ ''.json'')"

definition PreserveConflict ::
  "world \<Rightarrow> path \<Rightarrow> bytes \<Rightarrow> disk \<Rightarrow> (store_error + path) \<times> disk" where
  "PreserveConflict w dir data d =
     (if w_mkdir_fails w dir then (Inl (Mkdir_Failed dir), d)
      else let p = archive_path dir data in
        if w_write_fails w p then (Inl (Write_Failed p), d)
        else (case mget d p of
            None \<Rightarrow> if w_link_fails w p then (Inl (Link_Failed p), d)
              else let d' = mput p (data, w_now w) d in
                if w_sync_fails w dir then (Inl (Sync_Failed dir), d') else (Inr p, d')
          | Some (saved, t) \<Rightarrow>
              if w_read_fails w p then (Inl (Read_Failed p), d)
              else if saved \<noteq> data then (Inl (Archive_Differs p), d)
              else if w_sync_fails w dir then (Inl (Sync_Failed dir), d) else (Inr p, d)))"

definition Store_PreserveConflict ::
  "world \<Rightarrow> Store \<Rightarrow> bytes \<Rightarrow> disk \<Rightarrow> (store_error + path) \<times> disk" where
  "Store_PreserveConflict w s data d =
     PreserveConflict w (join_path (store_dir s) ''conflicts'') data d"

section \<open>Where a well-shaped ref is stored\<close>

definition plain_name :: "string \<Rightarrow> bool" where
  "plain_name n \<longleftrightarrow> n \<noteq> [] \<and> n \<noteq> ''.'' \<and> n \<noteq> ''..'' \<and> CHR ''/'' \<notin> set n"

lemma join_plain [simp]: "plain_name n \<Longrightarrow> join_path dir n = dir @ [n]"
  by (simp add: join_path_def plain_name_def split_on_no_sep)

lemma slash_not_base64url [simp]: "\<not> base64url_char (CHR ''/'')"
  by (simp add: base64url_char_def)

lemma slash_not_hex [simp]: "\<not> uuid_hex_char (CHR ''/'')" "\<not> is_lower_hex (CHR ''/'')"
  by (simp_all add: uuid_hex_char_def is_lower_hex_def is_digit_def)

lemma isCanonicalUUID_chars:
  assumes "isCanonicalUUID u" and "c \<in> set u"
  shows "c = CHR ''-'' \<or> uuid_hex_char c"
proof -
  from assms obtain i where i: "i < 36" "u ! i = c" "length u = 36"
    by (auto simp: in_set_conv_nth isCanonicalUUID_length)
  then have "(i, c) \<in> set (zip [0..<36] u)"
    by (auto simp: set_zip intro!: exI [of _ i])
  with assms(1) show ?thesis
    by (fastforce simp: isCanonicalUUID_def list_all_iff split: if_splits)
qed

lemma valid_ref_no_slash: "IsValidRef ref \<Longrightarrow> CHR ''/'' \<notin> set ref"
  using isCanonicalUUID_chars
  by (fastforce elim!: IsValidRefE simp: isBase64URLChars_def list_all_iff)

lemma valid_ref_length: "IsValidRef ref \<Longrightarrow> length ref = 80 \<or> length ref = 81"
  by (auto simp: IsValidRef_def split: if_splits)

lemma plain_nameI: "CHR ''/'' \<notin> set n \<Longrightarrow> 2 < length n \<Longrightarrow> plain_name n"
  by (auto simp: plain_name_def)

lemma itoa_no_slash: "CHR ''/'' \<notin> set (itoa i)"
  using set_itoa [of "CHR ''/''" i] by (auto simp: is_digit_def)

lemma live_path_valid: "IsValidRef ref \<Longrightarrow> live_path s ref = store_dir s @ [ref @ ''.json'']"
  unfolding live_path_def by (intro join_plain plain_nameI) (auto dest: valid_ref_no_slash)

lemma live_path_inject:
  "IsValidRef a \<Longrightarrow> IsValidRef b \<Longrightarrow> live_path s a = live_path s b \<longleftrightarrow> a = b"
  by (simp add: live_path_valid)

lemma backup_path_valid:
  assumes "IsValidRef ref"
  shows "backup_path s ref n = store_dir s @ [''bk'', ref @ ''.r'' @ itoa n @ ''.json'']"
proof -
  have "plain_name (ref @ ''.r'' @ itoa n @ ''.json'')"
    using valid_ref_no_slash [OF assms] itoa_no_slash [of n] by (intro plain_nameI) auto
  moreover have "plain_name ''bk''" by (simp add: plain_name_def)
  ultimately show ?thesis unfolding backup_path_def by (simp del: append.simps append_Nil2)
qed

lemma backup_not_live:
  "IsValidRef a \<Longrightarrow> IsValidRef b \<Longrightarrow> backup_path s a n \<noteq> live_path s b"
  by (simp add: live_path_valid backup_path_valid)

lemma hex_no_slash: "CHR ''/'' \<notin> set (hex_encode (sha256 m))"
  using hex_encode_lower [of "sha256 m"] sha256_bytes [of _ m] by (auto simp: list_all_iff)

lemma archive_path_eq: "archive_path dir data = dir @ [hex_encode (sha256 (map ord_of data)) @ ''.json'']"
  unfolding archive_path_def using hex_no_slash by (intro join_plain plain_nameI) auto

section \<open>The contract of the object store\<close>

text \<open>
  What a reader of an object may rely on, whatever the world does: a write that reports success
  is read back, a write touches no other object, and at any moment an object reads as one of
  the versions written.
\<close>

locale object_store =
  fixes valid :: "ref \<Rightarrow> bool"
    and obj_read :: "'w \<Rightarrow> 'd \<Rightarrow> ref \<Rightarrow> 'e + bytes option"
    and obj_write :: "'w \<Rightarrow> ref \<Rightarrow> bytes \<Rightarrow> instant \<Rightarrow> 'd \<Rightarrow> 'f option \<times> 'd"
  assumes read_back: "valid r \<Longrightarrow> obj_write w r b t d = (None, d') \<Longrightarrow> obj_read w' d' r = Inr x \<Longrightarrow> x = Some b"
    and frame: "valid r \<Longrightarrow> valid r' \<Longrightarrow> r' \<noteq> r \<Longrightarrow> obj_read w' (snd (obj_write w r b t d)) r' = obj_read w' d r'"
    and atomic: "valid r \<Longrightarrow> obj_read w' (snd (obj_write w r b t d)) r = Inr x \<Longrightarrow>
       obj_read w' d r = Inr x \<or> x = Some b"
begin

definition run :: "('w \<times> ref \<times> bytes \<times> instant) list \<Rightarrow> 'd \<Rightarrow> 'd" where
  "run ops d = fold (\<lambda>(w, r, b, t) d. snd (obj_write w r b t d)) ops d"

lemma reads_a_version:
  assumes "valid r" and "\<And>w r b t. (w, r, b, t) \<in> set ops \<Longrightarrow> valid r"
    and "obj_read w' (run ops d) r = Inr x"
  shows "obj_read w' d r = Inr x \<or> (\<exists>w b t. (w, r, b, t) \<in> set ops \<and> x = Some b)"
  using assms
proof (induction ops arbitrary: d)
  case (Cons op ops)
  obtain w q b t where op: "op = (w, q, b, t)" by (cases op)
  have q: "valid q" using Cons.prems(2) [of w q b t] op by simp
  from Cons.IH [OF Cons.prems(1) _ Cons.prems(3) [unfolded run_def op fold.simps o_apply case_prod_conv, folded run_def]]
    Cons.prems(2)
  have "obj_read w' (snd (obj_write w q b t d)) r = Inr x \<or> (\<exists>w b t. (w, r, b, t) \<in> set ops \<and> x = Some b)"
    by (meson list.set_intros(2))
  with op frame [OF q Cons.prems(1)] atomic [OF q] show ?case
    by (cases "r = q") fastforce+
qed (simp add: run_def)

end

lemma Read_Write_same:
  "Read w' s (snd (Write w s ref b t d)) ref = Inr x \<Longrightarrow> Read w' s d ref = Inr x \<or> x = Some b"
  by (auto simp: Read_def Write_def Let_def split: if_splits)

lemma Read_Write_other:
  "IsValidRef r \<Longrightarrow> IsValidRef r' \<Longrightarrow> r' \<noteq> r \<Longrightarrow>
     Read w' s (snd (Write w s r b t d)) r' = Read w' s d r'"
  by (auto simp: Read_def Write_def Let_def live_path_inject)

interpretation files: object_store IsValidRef "\<lambda>w d r. Read w s d r" "\<lambda>w r b t d. Write w s r b t d"
  for s :: Store
proof
  show "Write w s r b t d = (None, d') \<Longrightarrow> Read w' s d' r = Inr x \<Longrightarrow> x = Some b" for w w' r b t d d' x
    by (auto simp: Read_def Write_def Let_def split: if_splits)
qed (auto dest: Read_Write_same simp: Read_Write_other)

section \<open>Backups, scans and archives\<close>

lemma Write_mwf: "mwf d \<Longrightarrow> mwf (snd (Write w s ref b t d))"
  by (simp add: Write_def Let_def)

lemma Backup_mwf: "mwf d \<Longrightarrow> mwf (snd (Backup w s ref n d))"
  by (simp add: Backup_def Let_def split: option.splits)

lemma Backup_other:
  "IsValidRef r \<Longrightarrow> IsValidRef r' \<Longrightarrow> r' \<noteq> r \<Longrightarrow>
     Read w' s (snd (Backup w s r n d)) r' = Read w' s d r'"
  using backup_not_live [of r r' s n]
  by (auto simp: Read_def Backup_def Let_def live_path_inject split: option.splits)

lemma Backup_moves:
  assumes "IsValidRef r" and "store_backup s" and "mget d (live_path s r) = Some f"
    and "Backup w s r n d = (None, d')"
  shows "mget d' (backup_path s r n) = Some f" and "mget d' (live_path s r) = None"
  using assms backup_not_live [of r r s n]
  by (auto simp: Backup_def Let_def split: if_splits)

lemma file_names_set: "n \<in> set (file_names dir d) \<longleftrightarrow> mget d (dir @ [n]) \<noteq> None"
proof -
  have "n \<in> set (file_names dir d) \<longleftrightarrow> (\<exists>p. mget d p \<noteq> None \<and> p \<noteq> [] \<and> butlast p = dir \<and> last p = n)"
    by (auto simp: file_names_def in_mkeys_iff image_iff)
  also have "\<dots> \<longleftrightarrow> mget d (dir @ [n]) \<noteq> None"
    by (metis append_butlast_last_id butlast_snoc last_snoc snoc_eq_iff_butlast)
  finally show ?thesis .
qed

lemma valid_ref_first:
  assumes "IsValidRef r"
  shows "\<not> has_prefix (r @ s) ''.''"
proof -
  from assms obtain p u where r: "r = p @ CHR ''.'' # u" "p \<noteq> []" "isBase64URLChars p"
    by (metis IsValidRefE list.size(3) zero_neq_numeral)
  then have "hd p \<noteq> CHR ''.''" using isBase64URLChars_no_dot [OF r(3)] hd_in_set by metis
  with r show ?thesis by (cases p) (auto simp: has_prefix_def)
qed

lemma Scan_names:
  assumes "Scan w s d = Inr refs"
  shows "r \<in> set refs \<longleftrightarrow> mget d (store_dir s @ [r @ ''.json'']) \<noteq> None \<and> \<not> has_prefix (r @ ''.json'') ''.''"
proof -
  from assms have "set refs = (\<lambda>n. trim_suffix n ''.json'') `
      {n \<in> set (file_names (store_dir s) d). has_suffix n ''.json'' \<and> \<not> has_prefix n ''.''}"
    by (auto simp: Scan_def split: if_splits)
  then show ?thesis
    by (force simp: file_names_set image_iff elim!: has_suffixE)
qed

lemma Scan_set:
  "Scan w s d = Inr refs \<Longrightarrow> IsValidRef r \<Longrightarrow> r \<in> set refs \<longleftrightarrow> Exists s d r"
  by (simp add: Scan_names valid_ref_first Exists_def live_path_valid)

lemma PreserveConflict_keeps:
  assumes "PreserveConflict w dir data d = (r, d')" and "mget d p = Some f"
  shows "mget d' p = Some f"
  using assms by (auto simp: PreserveConflict_def Let_def split: if_splits option.splits)

lemma PreserveConflict_saved:
  assumes "PreserveConflict w dir data d = (Inr p, d')"
  shows "\<exists>t. mget d' p = Some (data, t)" and "p = archive_path dir data"
  using assms by (auto simp: PreserveConflict_def Let_def split: if_splits option.splits)

section \<open>Properties\<close>

definition write_all :: "Store \<Rightarrow> (world \<times> ref \<times> bytes \<times> instant) list \<Rightarrow> disk \<Rightarrow> disk" where
  "write_all s ops d = fold (\<lambda>(w, r, b, t) d. snd (Write w s r b t d)) ops d"

lemma write_all_run: "write_all s ops d = files.run s ops d"
  by (simp add: write_all_def files.run_def)

definition demo_store :: Store where
  "demo_store = \<lparr>store_dir = [''data''], store_backup = True\<rparr>"

definition demo_ref :: ref where
  "demo_ref = ''AxUJmGQ24rmhe5zL3Slm12xAq8bqxlzZMnLbHJ9QHxBl.b3f5a7c9-6d4e-4f60-9b70-0a1c2d3e4f50''"

lemma demo_ref_valid: "IsValidRef demo_ref"
  by code_simp

text \<open>A directory in which the demo object is stored.\<close>

definition demo_disk :: disk where
  "demo_disk = mput (live_path demo_store demo_ref) (''old'', 1) []"

text \<open>
  Whatever writes are made and whichever of them fail, at any of their steps, a read of an object
  that succeeds returns what was stored before or the complete bytes of one of the writes to this
  very object: never a torn file and never the bytes of another.
\<close>

theorem read_returns_a_version:
  assumes "IsValidRef r" and "list_all (\<lambda>(w, q, b, t). IsValidRef q) ops"
    and "Read w' s (write_all s ops d) r = Inr x"
  shows "Read w' s d r = Inr x \<or> list_ex (\<lambda>(w, q, b, t). q = r \<and> x = Some b) ops"
proof -
  have "IsValidRef q" if "(w, q, b, t) \<in> set ops" for w q b t
    using assms(2) that by (auto simp: list_all_iff)
  then have "Read w' s d r = Inr x \<or> (\<exists>w b t. (w, r, b, t) \<in> set ops \<and> x = Some b)"
    by (rule files.reads_a_version [OF assms(1) _ assms(3) [unfolded write_all_run]])
  then show ?thesis by (fastforce simp: list_ex_iff)
qed

theorem read_returns_a_version_witness:
  "Read calm_world demo_store (write_all demo_store
      [(calm_world, demo_ref, ''new'', 2), (calm_world\<lparr>w_chtimes_fails := (\<lambda>p. True)\<rparr>, demo_ref, ''newer'', 3)]
      demo_disk) demo_ref = Inr (Some ''newer'')"
proof -
  let ?ops = "[(calm_world, demo_ref, ''new'', 2), (calm_world\<lparr>w_chtimes_fails := (\<lambda>p. True)\<rparr>, demo_ref, ''newer'', 3::instant)]"
  have r: "Read calm_world demo_store (write_all demo_store ?ops demo_disk) demo_ref = Inr (Some ''newer'')"
    by (simp add: write_all_def Write_def Read_def calm_world_def Let_def)
  from read_returns_a_version [OF demo_ref_valid _ r] demo_ref_valid r show ?thesis by simp
qed

text \<open>
  An update keeps the revision it replaces: when backups are on and neither step fails, the old
  bytes are under \<open>bk/\<close> with the old revision in the name, the new bytes are live, and every other
  object reads as before.
\<close>

theorem update_keeps_old_revision:
  assumes "IsValidRef r" and "store_backup s" and "mget d (live_path s r) = Some old"
    and "Backup w s r n d = (None, d1)" and "Write w s r b t d1 = (None, d2)"
  shows "mget d2 (backup_path s r n) = Some old \<and> mget d2 (live_path s r) = Some (b, t) \<and>
    (IsValidRef r' \<and> r' \<noteq> r \<longrightarrow> Read w' s d2 r' = Read w' s d r')"
proof -
  have d2: "d2 = mput (live_path s r) (b, t) d1"
    using assms(5) by (auto simp: Write_def Let_def split: if_splits)
  have "backup_path s r n \<noteq> live_path s r" using backup_not_live [OF assms(1) assms(1)] by simp
  moreover have "Read w' s d2 r' = Read w' s d r'" if "IsValidRef r'" "r' \<noteq> r"
    using Read_Write_other [OF assms(1) that, of w' s w b t d1] Backup_other [OF assms(1) that, of w' s w n d]
      assms(4,5) by simp
  ultimately show ?thesis using Backup_moves(1) [OF assms(1-4)] d2 by simp
qed

theorem update_keeps_old_revision_witness:
  "\<exists>d1 d2. Backup calm_world demo_store demo_ref 4 demo_disk = (None, d1) \<and>
     Write calm_world demo_store demo_ref ''new'' 2 d1 = (None, d2) \<and>
     mget d2 (backup_path demo_store demo_ref 4) = Some (''old'', 1)"
proof -
  have old: "mget demo_disk (live_path demo_store demo_ref) = Some (''old'', 1)" by (simp add: demo_disk_def)
  obtain d1 where b: "Backup calm_world demo_store demo_ref 4 demo_disk = (None, d1)"
    using old by (simp add: Backup_def demo_store_def calm_world_def Let_def)
  obtain d2 where w: "Write calm_world demo_store demo_ref ''new'' 2 d1 = (None, d2)"
    by (simp add: Write_def calm_world_def Let_def)
  have "store_backup demo_store" by (simp add: demo_store_def)
  from update_keeps_old_revision [OF demo_ref_valid this old b w] b w show ?thesis by blast
qed

text \<open>
  The scan of the store is exact: it lists precisely the well-shaped references whose file exists,
  so no object is lost and no backup, conflict archive or temporary file is taken for one.
\<close>

theorem scan_lists_stored:
  assumes "Scan w s d = Inr refs" and "IsValidRef r"
  shows "(r \<in> set refs \<longleftrightarrow> Exists s d r) \<and>
    (Exists s d r \<longleftrightarrow> (\<exists>b. Read calm_world s d r = Inr (Some b)))"
  using Scan_set [OF assms] by (auto simp: Exists_def Read_def calm_world_def Let_def)

theorem scan_lists_stored_witness:
  "\<exists>refs. Scan calm_world demo_store demo_disk = Inr refs \<and> demo_ref \<in> set refs"
proof -
  obtain refs where s: "Scan calm_world demo_store demo_disk = Inr refs"
    by (simp add: Scan_def calm_world_def)
  from scan_lists_stored [OF s demo_ref_valid] s show ?thesis by (simp add: Exists_def demo_disk_def)
qed

text \<open>
  The conflict archive loses nothing: no file of the disk is changed or removed by preserving a
  candidate, whichever step fails, and when it reports success the candidate's bytes are at the
  path named by their digest.
\<close>

theorem conflict_archive_append_only:
  assumes "PreserveConflict w dir data d = (r, d')"
  shows "(case mget d p of None \<Rightarrow> True | Some f \<Rightarrow> mget d' p = Some f) \<and>
    (case r of Inl e \<Rightarrow> True | Inr q \<Rightarrow> q = archive_path dir data \<and> map_option fst (mget d' q) = Some data)"
  using PreserveConflict_keeps [OF assms] PreserveConflict_saved [of w dir data d _ d'] assms
  by (fastforce split: option.split sum.split)

theorem conflict_archive_append_only_witness:
  "\<exists>q d'. PreserveConflict calm_world [''c''] ''edit'' demo_disk = (Inr q, d') \<and>
     map_option fst (mget d' q) = Some ''edit''"
proof -
  obtain q d' where p: "PreserveConflict calm_world [''c''] ''edit'' demo_disk = (Inr q, d')"
  proof -
    have "archive_path [''c''] ''edit'' \<noteq> live_path demo_store demo_ref"
      using archive_path_eq [of "[''c'']" "''edit''"] live_path_valid [OF demo_ref_valid]
      by (simp add: demo_store_def)
    then have "mget demo_disk (archive_path [''c''] ''edit'') = None" by (simp add: demo_disk_def)
    then show ?thesis using that by (simp add: PreserveConflict_def calm_world_def Let_def)
  qed
  from conflict_archive_append_only [OF p] p show ?thesis by auto
qed

end
