(* ===== verification/Realm_Id.thy ===== *)
theory Realm_Id
  imports Object_Verify
begin

text \<open>
  \<open>realm/realmid.go\<close>: the deterministic address of a realm. A UUID is a list of 16 bytes. The
  lemmas show that an address is always a canonical version 5 UUID, and that the ref of an
  owner-prefixed realm is well shaped.
\<close>

definition NamespaceUUID :: string where
  "NamespaceUUID = ''00000000-0000-0000-0000-000000000000''"

text \<open>\<open>mustParseUUID\<close>: \<open>None\<close> is a panic.\<close>

definition mustParseUUID :: "string \<Rightarrow> int list option" where
  "mustParseUUID s =
     (if length s \<noteq> 36 then None
      else if \<not> list_all (\<lambda>p. s ! p = CHR ''-'') [8, 13, 18, 23] then None
      else (case hex_decode (take 8 s @ take 4 (drop 9 s) @ take 4 (drop 14 s) @
                take 4 (drop 19 s) @ drop 24 s) of
          None \<Rightarrow> None
        | Some b \<Rightarrow> if length b \<noteq> 16 then None else Some b))"

definition formatUUID :: "int list \<Rightarrow> string" where
  "formatUUID b = hex_encode (take 4 b) @ ''-'' @ hex_encode (take 2 (drop 4 b)) @ ''-'' @
     hex_encode (take 2 (drop 6 b)) @ ''-'' @ hex_encode (take 2 (drop 8 b)) @ ''-'' @
     hex_encode (take 6 (drop 10 b))"

text \<open>Setting the version in byte 6 and the variant in byte 8.\<close>

definition stamp_uuid :: "int list \<Rightarrow> int list" where
  "stamp_uuid i = (let i = i[6 := or (and (i ! 6) 0x0F) 0x50] in i[8 := or (and (i ! 8) 0x3F) 0x80])"

definition namespaceBytes :: "int list" where
  "namespaceBytes = (case mustParseUUID NamespaceUUID of Some b \<Rightarrow> b | None \<Rightarrow> [])"

definition RealmID :: "string \<Rightarrow> string" where
  "RealmID realm =
     (let sum = sha1 (namespaceBytes @ map ord_of realm) in formatUUID (stamp_uuid (take 16 sum)))"

definition splitRealmOwner :: "string \<Rightarrow> string \<times> bool" where
  "splitRealmOwner realm = (case index_byte realm (CHR ''.'') of
      None \<Rightarrow> ([], False)
    | Some i \<Rightarrow> if i = length realm - 1 then ([], False)
        else let owner = take i realm in (owner, IsPubkeyRealm owner))"

definition RealmRef :: "string \<Rightarrow> ref option" where
  "RealmRef realm = (case splitRealmOwner realm of (owner, ok) \<Rightarrow>
     if \<not> ok then None else Some (owner @ ''.'' @ RealmID realm))"

section \<open>An address is a canonical UUID\<close>

lemma namespaceBytes_zero: "namespaceBytes = replicate 16 0"
  unfolding namespaceBytes_def by code_simp

lemma namespace_parses: "mustParseUUID NamespaceUUID = Some (replicate 16 0)"
  by code_simp

lemma uuid_hex_lower: "is_lower_hex c \<Longrightarrow> uuid_hex_char c"
  by (auto simp: is_lower_hex_def uuid_hex_char_def)

definition byte_list :: "int list \<Rightarrow> bool" where
  "byte_list b \<longleftrightarrow> (\<forall>x\<in>set b. 0 \<le> x \<and> x < 256)"

lemma low_bits:
  "and (x::int) 0x0F = x mod 16" "and (x::int) 0x3F = x mod 64"
  using take_bit_eq_mask [of 4 x] take_bit_eq_mask [of 6 x]
  by (simp_all add: take_bit_eq_mod mask_numeral)

lemma nibble_cases: "0 \<le> (y::int) \<Longrightarrow> y < 16 \<Longrightarrow> y \<in> {0, 1, 2, 3, 4, 5, 6, 7, 8, 9, 10, 11, 12, 13, 14, 15}"
  by (simp only: insert_iff empty_iff) presburger

text \<open>Byte 6 becomes \<open>0101xxxx\<close> and byte 8 becomes \<open>10xxxxxx\<close>.\<close>

lemma or_high:
  assumes "0 \<le> (y::int)" and "y < 2 ^ n"
  shows "or y (2 ^ n * k) = y + 2 ^ n * k"
proof -
  have y: "take_bit n y = y" using assms by (simp add: take_bit_eq_mod)
  have k: "push_bit n k = 2 ^ n * k" by (simp add: push_bit_eq_mult mult.commute)
  show ?thesis using concat_bit_eq [of n y k] unfolding concat_bit_def y k .
qed

lemma version_byte: "or (and (x::int) 0x0F) 0x50 = 80 + x mod 16"
  using nibble_cases [of "x mod 16"] by (auto simp: low_bits)

lemma variant_byte: "or (and (x::int) 0x3F) 0x80 = 128 + x mod 64"
  using or_high [of "x mod 64" 6 2] by (simp add: low_bits)

lemma stamp_uuid_eq: "stamp_uuid b = b[6 := 80 + b ! 6 mod 16, 8 := 128 + b ! 8 mod 64]"
  by (simp add: stamp_uuid_def Let_def version_byte variant_byte)

lemma stamp_uuid_bytes:
  assumes "byte_list b" and "length b = 16"
  shows "byte_list (stamp_uuid b)" and "length (stamp_uuid b) = 16"
proof -
  have "x \<in> set (stamp_uuid b) \<Longrightarrow> x = 80 + b ! 6 mod 16 \<or> x = 128 + b ! 8 mod 64 \<or> x \<in> set b" for x
    unfolding stamp_uuid_eq by (auto dest!: set_update_subset_insert [THEN subsetD])
  then show "byte_list (stamp_uuid b)"
    using assms by (fastforce simp: byte_list_def)
  show "length (stamp_uuid b) = 16" using assms by (simp add: stamp_uuid_eq)
qed

lemma hex_encode_uuid: "byte_list b \<Longrightarrow> list_all uuid_hex_char (hex_encode b)"
  using hex_encode_lower [of b] uuid_hex_lower
  by (auto simp: byte_list_def list_all_iff)

lemma length_formatUUID: "length b = 16 \<Longrightarrow> length (formatUUID b) = 36"
  by (simp add: formatUUID_def)

lemma group_positions:
  assumes "list_all uuid_hex_char s" and "\<forall>i\<in>set is. i \<noteq> 8 \<and> i \<noteq> 13 \<and> i \<noteq> 18 \<and> i \<noteq> (23::nat)"
  shows "list_all (\<lambda>(i, c). if i = 8 \<or> i = 13 \<or> i = 18 \<or> i = 23 then c = CHR ''-''
     else uuid_hex_char c) (zip is s)"
  using assms by (auto simp: list_all_iff dest: set_zip_leftD set_zip_rightD)

lemma upto36: "[0..<36] = [0..<8] @ [8] @ [9..<13] @ [13] @ [14..<18] @ [18] @ [19..<23] @ [23] @ [24..<36]"
  by (simp add: upt_rec)

lemma isCanonicalUUID_groups:
  assumes "length a = 8" "length b = 4" "length c = 4" "length d = 4" "length e = 12"
    and "list_all uuid_hex_char a" "list_all uuid_hex_char b" "list_all uuid_hex_char c"
    and "list_all uuid_hex_char d" "list_all uuid_hex_char e"
  shows "isCanonicalUUID (a @ ''-'' @ b @ ''-'' @ c @ ''-'' @ d @ ''-'' @ e)"
  unfolding isCanonicalUUID_def upto36
  using assms by (simp del: upt_Suc upt_rec_numeral add: zip_append group_positions)

lemma byte_list_take: "byte_list b \<Longrightarrow> byte_list (take n b)"
  and byte_list_drop: "byte_list b \<Longrightarrow> byte_list (drop n b)"
  by (auto simp: byte_list_def dest: in_set_takeD in_set_dropD)

lemma isCanonicalUUID_format: "byte_list b \<Longrightarrow> length b = 16 \<Longrightarrow> isCanonicalUUID (formatUUID b)"
  unfolding formatUUID_def
  by (rule isCanonicalUUID_groups)
    (auto intro!: hex_encode_uuid byte_list_take byte_list_drop)

lemma sha1_byte_list: "byte_list (take 16 (sha1 m))" "length (take 16 (sha1 m)) = 16"
  using sha1_bytes [of _ m] by (auto simp: byte_list_def dest: in_set_takeD)

lemma isCanonicalUUID_RealmID: "isCanonicalUUID (RealmID realm)"
  unfolding RealmID_def Let_def
  by (intro isCanonicalUUID_format stamp_uuid_bytes sha1_byte_list)

section \<open>The ref of a realm\<close>

lemma IsPubkeyRealm_no_dot: "IsPubkeyRealm r \<Longrightarrow> CHR ''.'' \<notin> set r"
  by (intro isBase64URLChars_no_dot IsPubkeyRealm_chars)

lemma splitRealmOwner_True:
  "splitRealmOwner realm = (owner, True) \<longleftrightarrow>
     (\<exists>name. realm = owner @ CHR ''.'' # name \<and> name \<noteq> [] \<and> IsPubkeyRealm owner)"
proof
  assume "splitRealmOwner realm = (owner, True)"
  then obtain i where i: "index_byte realm (CHR ''.'') = Some i" "i \<noteq> length realm - 1"
    and owner: "owner = take i realm" "IsPubkeyRealm owner"
    by (auto simp: splitRealmOwner_def Let_def split: option.splits if_splits)
  from index_byte_Some [OF i(1)] have lt: "i < length realm" and dot: "realm ! i = CHR ''.''" by auto
  have "realm = owner @ CHR ''.'' # drop (i + 1) realm"
    using id_take_nth_drop [OF lt] dot owner(1) by simp
  moreover have "drop (i + 1) realm \<noteq> []" using lt i(2) by auto
  ultimately show "\<exists>name. realm = owner @ CHR ''.'' # name \<and> name \<noteq> [] \<and> IsPubkeyRealm owner"
    using owner(2) by blast
next
  assume "\<exists>name. realm = owner @ CHR ''.'' # name \<and> name \<noteq> [] \<and> IsPubkeyRealm owner"
  then obtain name where r: "realm = owner @ CHR ''.'' # name" "name \<noteq> []" "IsPubkeyRealm owner"
    by blast
  have nd: "CHR ''.'' \<notin> set owner"
    by (rule IsPubkeyRealm_no_dot [OF r(3)])
  then have "index_byte realm (CHR ''.'') = Some (length owner)"
    unfolding r(1) by (induction owner) auto
  with r show "splitRealmOwner realm = (owner, True)"
    by (simp add: splitRealmOwner_def)
qed

lemma RealmRef_Some:
  "RealmRef realm = Some ref \<longleftrightarrow>
     (\<exists>owner. splitRealmOwner realm = (owner, True) \<and> ref = owner @ ''.'' @ RealmID realm)"
  by (auto simp: RealmRef_def split: prod.splits)

lemma RealmRef_valid: "RealmRef realm = Some ref \<Longrightarrow> IsValidRef ref"
  by (auto simp: RealmRef_Some splitRealmOwner_True intro!: IsValidRefI isCanonicalUUID_RealmID
      dest: IsPubkeyRealm_length IsPubkeyRealm_chars)

text \<open>The ref of a realm names its owner: nobody else's ref is the address of the realm.\<close>

lemma RealmRef_owner:
  assumes "RealmRef realm = Some (pk @ CHR ''.'' # u)" and "CHR ''.'' \<notin> set pk"
  shows "splitRealmOwner realm = (pk, True)"
proof -
  from assms(1) obtain owner where so: "splitRealmOwner realm = (owner, True)"
    and eq: "pk @ CHR ''.'' # u = owner @ CHR ''.'' # RealmID realm"
    by (auto simp: RealmRef_Some)
  from so have "CHR ''.'' \<notin> set owner"
    using IsPubkeyRealm_no_dot by (auto simp: splitRealmOwner_True)
  with eq assms(2) have "pk = owner"
    by (auto simp: append_eq_append_conv2 Cons_eq_append_conv append_eq_Cons_conv)
  with so show ?thesis by simp
qed

section \<open>Properties\<close>

lemma hex_byte_high: "0 \<le> x \<Longrightarrow> x < 256 \<Longrightarrow> hd (hex_byte x) = hex_digit (x div 16)"
  by (simp add: hex_byte_def)

lemma nth_formatUUID:
  assumes "length b = 16"
  shows "formatUUID b ! 14 = hex_encode (take 2 (drop 6 b)) ! 0"
    and "formatUUID b ! 19 = hex_encode (take 2 (drop 8 b)) ! 0"
  using assms by (simp_all add: formatUUID_def nth_append)

lemma hex_encode_first: "i < length b \<Longrightarrow> n \<noteq> 0 \<Longrightarrow> hex_encode (take n (drop i b)) ! 0 = hd (hex_byte (b ! i))"
proof -
  assume i: "i < length b" and n: "n \<noteq> 0"
  then obtain rest where "take n (drop i b) = b ! i # rest"
    by (cases n) (auto simp: Cons_nth_drop_Suc [symmetric])
  then show ?thesis by (simp add: hex_encode_def hex_byte_def)
qed

lemma version_digit: "hd (hex_byte (80 + x mod 16)) = CHR ''5''"
proof -
  have "(80 + x mod 16) div 16 = (5::int)" by presburger
  moreover have "hex_digit 5 = CHR ''5''" by code_simp
  ultimately show ?thesis by (simp add: hex_byte_def)
qed

lemma variant_digit: "hd (hex_byte (128 + x mod 64)) \<in> set ''89ab''"
proof -
  have "8 \<le> (128 + x mod 64) div 16" "(128 + x mod 64) div 16 < (12::int)"
    using pos_mod_bound [of 64 x] pos_mod_sign [of 64 x] by linarith+
  then have "(128 + x mod 64) div 16 \<in> {8, 9, 10, 11::int}" by auto
  moreover have "hex_digit 8 = CHR ''8''" "hex_digit 9 = CHR ''9''" "hex_digit 10 = CHR ''a''"
    "hex_digit 11 = CHR ''b''" by code_simp+
  ultimately show ?thesis by (auto simp: hex_byte_def)
qed

text \<open>
  The identifier of every realm name is a canonical UUID of version 5 and the RFC variant.
\<close>

theorem realm_id_version5:
  "isCanonicalUUID (RealmID realm) \<and> RealmID realm ! 14 = CHR ''5'' \<and> RealmID realm ! 19 \<in> set ''89ab''"
proof -
  define b where "b = take 16 (sha1 (namespaceBytes @ map ord_of realm))"
  have b: "length b = 16" "length (stamp_uuid b) = 16"
    using stamp_uuid_bytes(2) [OF sha1_byte_list] by (simp_all add: b_def sha1_byte_list)
  have id: "RealmID realm = formatUUID (stamp_uuid b)" by (simp add: RealmID_def b_def Let_def)
  have "stamp_uuid b ! 6 = 80 + b ! 6 mod 16" "stamp_uuid b ! 8 = 128 + b ! 8 mod 64"
    using b(1) by (simp_all add: stamp_uuid_eq)
  then show ?thesis
    unfolding id using isCanonicalUUID_RealmID [of realm] b version_digit variant_digit
    by (simp add: id nth_formatUUID hex_encode_first)
qed

text \<open>
  A realm name has an address exactly when it is a public key, a dot and a non-empty name; the
  address is a well-formed reference that begins with that key, so only the holder of the key can
  store an object at it.
\<close>

theorem realm_ref_owned:
  "RealmRef realm = Some ref \<longleftrightarrow>
     (\<exists>owner name. realm = owner @ CHR ''.'' # name \<and> name \<noteq> [] \<and> IsPubkeyRealm owner \<and>
        ref = owner @ ''.'' @ RealmID realm \<and> IsValidRef ref)"
  using RealmRef_valid [of realm ref] by (auto simp: RealmRef_Some splitRealmOwner_True)

end
