(* ===== verification/Realm_Core.thy ===== *)
theory Realm_Core
  imports Object_Model
begin

text \<open>
  \<open>realm/realm.go\<close> and the interface \<open>RealmResolver\<close> of \<open>realm/resolver.go\<close>: which realms make an
  object public or global, who may read it, and which realms a signer may publish under. The
  interface is a record of its methods; the locale \<open>realm_resolver\<close> states what its
  implementations promise, and its lemmas are what the callers rely on.
\<close>

section \<open>The resolver interface\<close>

record RealmResolver =
  rr_IsSharedRealm :: "string \<Rightarrow> bool"
  rr_IsMember :: "string \<Rightarrow> string \<Rightarrow> bool"
  rr_RealmsForPubkey :: "string \<Rightarrow> string list"
  rr_Count :: int

section \<open>Access rules\<close>

definition IsPublicRead :: "InField \<Rightarrow> bool" where
  "IsPublicRead realms \<longleftrightarrow>
     InField_Contains realms ''dataverse001'' \<or> InField_Contains realms ''server-public''"

definition IsGlobalObject :: "InField \<Rightarrow> bool" where
  "IsGlobalObject realms \<longleftrightarrow> InField_Contains realms ''dataverse001''"

definition IsPublicObject :: "InField \<Rightarrow> bool" where
  "IsPublicObject realms \<longleftrightarrow> IsPublicRead realms"

definition HasMatchingRealm :: "string list \<Rightarrow> string \<Rightarrow> bool" where
  "HasMatchingRealm realms authPubkey =
     (if authPubkey = [] then False else list_ex (\<lambda>r. r = authPubkey) realms)"

fun ValidateRealmsForPut :: "string list \<Rightarrow> string \<Rightarrow> RealmResolver option \<Rightarrow> bool" where
  "ValidateRealmsForPut [] signerPubkey resolver = False"
| "ValidateRealmsForPut (r # rs) signerPubkey resolver =
     (if r = ''dataverse001'' \<or> r = ''server-public'' then True
      else if IsPubkeyRealm r \<and> r = signerPubkey then True
      else if (case resolver of None \<Rightarrow> False | Some R \<Rightarrow> rr_IsSharedRealm R r) then True
      else ValidateRealmsForPut rs signerPubkey resolver)"

definition CanRead :: "string list \<Rightarrow> string \<Rightarrow> RealmResolver option \<Rightarrow> bool" where
  "CanRead realms authPubkey resolver =
     (if IsPublicObject realms then True
      else if HasMatchingRealm realms authPubkey then True
      else if authPubkey \<noteq> [] then
        (case resolver of None \<Rightarrow> False
         | Some R \<Rightarrow> list_ex (\<lambda>r. rr_IsMember R r authPubkey) realms)
      else False)"

section \<open>What the access rules say\<close>

lemma IsPublicObject_iff [simp]:
  "IsPublicObject realms \<longleftrightarrow> ''dataverse001'' \<in> set realms \<or> ''server-public'' \<in> set realms"
  by (simp add: IsPublicObject_def IsPublicRead_def)

lemma IsGlobalObject_iff [simp]: "IsGlobalObject realms \<longleftrightarrow> ''dataverse001'' \<in> set realms"
  by (simp add: IsGlobalObject_def)

lemma HasMatchingRealm_iff [simp]:
  "HasMatchingRealm realms pk \<longleftrightarrow> pk \<noteq> [] \<and> pk \<in> set realms"
  by (auto simp: HasMatchingRealm_def list_ex_iff)

lemma CanRead_Some_iff:
  "CanRead realms pk (Some R) \<longleftrightarrow> IsPublicObject realms \<or>
     pk \<noteq> [] \<and> (pk \<in> set realms \<or> (\<exists>r\<in>set realms. rr_IsMember R r pk))"
  by (auto simp: CanRead_def list_ex_iff)

lemma CanRead_public [simp]: "IsPublicObject realms \<Longrightarrow> CanRead realms pk resolver"
  by (simp add: CanRead_def)

lemma CanRead_anonymous [simp]: "CanRead realms [] resolver \<longleftrightarrow> IsPublicObject realms"
  by (auto simp: CanRead_def)

lemma ValidateRealmsForPut_Some_iff:
  "ValidateRealmsForPut realms signer (Some R) \<longleftrightarrow> IsPublicObject realms \<or>
     (IsPubkeyRealm signer \<and> signer \<in> set realms) \<or> (\<exists>r\<in>set realms. rr_IsSharedRealm R r)"
  by (induction realms) auto

section \<open>What a resolver promises\<close>

text \<open>
  \<open>inv\<close> is the implementation's own invariant, \<open>shared\<close>, \<open>member\<close>, \<open>realms_for\<close> and \<open>number\<close> its
  methods on a state.
\<close>

locale realm_resolver =
  fixes inv :: "'s \<Rightarrow> bool"
    and shared :: "'s \<Rightarrow> string \<Rightarrow> bool"
    and member :: "'s \<Rightarrow> string \<Rightarrow> string \<Rightarrow> bool"
    and realms_for :: "'s \<Rightarrow> string \<Rightarrow> string list"
    and number :: "'s \<Rightarrow> int"
  assumes member_shared: "inv s \<Longrightarrow> member s r pk \<Longrightarrow> shared s r"
    and member_known: "inv s \<Longrightarrow> member s r pk \<Longrightarrow> pk \<noteq> []"
    and realms_for_iff: "inv s \<Longrightarrow> r \<in> set (realms_for s pk) \<longleftrightarrow> member s r pk"
    and realms_for_distinct: "inv s \<Longrightarrow> distinct (realms_for s pk)"
    and finite_shared: "inv s \<Longrightarrow> finite {r. shared s r}"
    and number_card: "inv s \<Longrightarrow> number s = int (card {r. shared s r})"
begin

text \<open>Reading a private object by membership: a realm of the object is on the caller's list.\<close>

lemma can_read_listed:
  assumes "inv s" and "rr_IsMember R = member s" and "rr_RealmsForPubkey R = realms_for s"
  shows "CanRead realms pk (Some R) \<longleftrightarrow> IsPublicObject realms \<or>
     (pk \<noteq> [] \<and> pk \<in> set realms) \<or> set realms \<inter> set (rr_RealmsForPubkey R pk) \<noteq> {}"
  using assms member_known [OF assms(1)] realms_for_iff [OF assms(1)]
  by (auto simp: CanRead_Some_iff)

text \<open>Whoever may read by membership could have published there: the realm is known.\<close>

lemma reader_realm_known:
  assumes "inv s" and "rr_IsMember R = member s" and "rr_IsSharedRealm R = shared s"
    and "r \<in> set realms" and "rr_IsMember R r pk"
  shows "ValidateRealmsForPut realms signer (Some R)"
  using assms member_shared [OF assms(1)] by (auto simp: ValidateRealmsForPut_Some_iff)

lemma realms_for_anonymous: "inv s \<Longrightarrow> realms_for s [] = []"
  using member_known [of s _ "[]"] realms_for_iff [of s _ "[]"] by (cases "realms_for s []") auto

lemma realms_for_bound:
  assumes "inv s"
  shows "int (length (realms_for s pk)) \<le> number s"
proof -
  have "set (realms_for s pk) \<subseteq> {r. shared s r}"
    using assms member_shared realms_for_iff by blast
  then have "card (set (realms_for s pk)) \<le> card {r. shared s r}"
    using card_mono finite_shared assms by blast
  then show ?thesis
    using assms number_card distinct_card [OF realms_for_distinct [OF assms]] by simp
qed

end

end
