(* ===== verification/Realm_Graph.thy ===== *)
theory Realm_Graph
  imports Realm_Id Realm_Core
begin

text \<open>
  \<open>realm/graph.go\<close>: shared realms declared by objects. An entry of the graph is kept with an
  index from member to realms; the invariant \<open>graph_ok\<close> says the index is the inverse of the
  entries, that the key a declaration names owns the realm, at its address, and that only keys are members.
  Every operation keeps it, and the graph is a resolver.
\<close>

section \<open>Parsing a declaration\<close>

definition TypeSharedRealm :: string where
  "TypeSharedRealm = ''SHARED_REALM''"

definition RelationMember :: string where
  "RelationMember = ''member''"

datatype realm_error =
    Wrong_Type string
  | Missing_Realm
  | Invalid_Content go_error
  | Not_Owner_Prefixed string
  | Not_Owner string string string
  | Wrong_ID string string
  | Not_Global

definition dec_realm_content :: "json \<Rightarrow> string option" where
  "dec_realm_content j = (case j of
      JNull \<Rightarrow> Some []
    | JObj ms \<Rightarrow> (case decode_field dec_string [] ''realm'' ms of (r, ok) \<Rightarrow> if ok then Some r else None)
    | _ \<Rightarrow> None)"

definition refPubkey :: "ref \<Rightarrow> string" where
  "refPubkey ref = (case index_byte ref (CHR ''.'') of Some i \<Rightarrow> take i ref | None \<Rightarrow> [])"

fun member_pubkeys :: "string list \<Rightarrow> ref list \<Rightarrow> string list" where
  "member_pubkeys members [] = members"
| "member_pubkeys members (r # rs) =
     (let pk = refPubkey r in
      if pk = [] \<or> \<not> IsPubkeyRealm pk then member_pubkeys members rs
      else if pk \<in> set members then member_pubkeys members rs
      else member_pubkeys (members @ [pk]) rs)"

definition extractMemberPubkeys :: "json list \<Rightarrow> string list" where
  "extractMemberPubkeys entries = member_pubkeys [] (relation_targets entries)"

definition ParseSharedRealm :: "Item \<Rightarrow> realm_error + (string \<times> string list)" where
  "ParseSharedRealm it =
     (if item_Type it \<noteq> TypeSharedRealm then Inl (Wrong_Type (item_Type it))
      else (case item_Content it of
          None \<Rightarrow> Inl Missing_Realm
        | Some j \<Rightarrow> (case dec_realm_content j of
            None \<Rightarrow> Inl (Invalid_Content (Json_Type j))
          | Some realm \<Rightarrow>
              if realm = [] then Inl Missing_Realm
              else (case splitRealmOwner realm of (owner, ok) \<Rightarrow>
                if \<not> ok then Inl (Not_Owner_Prefixed realm)
                else if item_Pubkey it \<noteq> owner then Inl (Not_Owner (item_Pubkey it) realm owner)
                else if item_ID it \<noteq> RealmID realm then Inl (Wrong_ID (item_ID it) (RealmID realm))
                else if \<not> InField_Contains (item_In it) ''dataverse001'' then Inl Not_Global
                else Inr (realm, extractMemberPubkeys
                       (get_list (mget (item_Relations it)) RelationMember))))))"

section \<open>The graph of realms\<close>

record realmEntry =
  re_owner :: string
  re_members :: "string list"
  re_revision :: int
  re_ref :: ref

type_synonym name_set = "(string, unit) gomap"

record GraphSharedRealms =
  gr_realms :: "(string, realmEntry) gomap"
  gr_byPK :: "(string, name_set) gomap"

definition NewGraphSharedRealms :: GraphSharedRealms where
  "NewGraphSharedRealms = \<lparr>gr_realms = [], gr_byPK = []\<rparr>"

text \<open>\<open>g.byPK[m]\<close>: a missing set reads as an empty one.\<close>

definition names_of :: "(string, name_set) gomap \<Rightarrow> string \<Rightarrow> name_set" where
  "names_of byPK m = (case mget byPK m of Some s \<Rightarrow> s | None \<Rightarrow> [])"

text \<open>Deleting from a missing set does nothing, and so does deleting its key.\<close>

definition unlink_member :: "string \<Rightarrow> string \<Rightarrow> (string, name_set) gomap \<Rightarrow> (string, name_set) gomap" where
  "unlink_member name m byPK =
     (let s = mdel name (names_of byPK m)
      in if length s = 0 then mdel m byPK else mput m s byPK)"

definition link_member :: "string \<Rightarrow> string \<Rightarrow> (string, name_set) gomap \<Rightarrow> (string, name_set) gomap" where
  "link_member name m byPK = mput m (mput name () (names_of byPK m)) byPK"

definition graph_Add :: "Item \<Rightarrow> GraphSharedRealms \<Rightarrow> GraphSharedRealms" where
  "graph_Add it g = (case ParseSharedRealm it of
      Inl e \<Rightarrow> g
    | Inr (realmName, members) \<Rightarrow>
        (let existing = mget (gr_realms g) realmName;
             stale = (case existing of None \<Rightarrow> False | Some e \<Rightarrow> re_revision e > item_Revision it);
             tie = (case existing of None \<Rightarrow> False
               | Some e \<Rightarrow> re_revision e = item_Revision it \<and> \<not> go_less (re_ref e) (item_Ref it))
         in if stale then g
            else if tie then g
            else (let byPK = (case existing of None \<Rightarrow> gr_byPK g
                         | Some e \<Rightarrow> fold (unlink_member realmName) (re_members e) (gr_byPK g))
                  in \<lparr>gr_realms = mput realmName \<lparr>re_owner = item_Pubkey it, re_members = members,
                          re_revision = item_Revision it, re_ref = item_Ref it\<rparr> (gr_realms g),
                      gr_byPK = fold (link_member realmName) members byPK\<rparr>)))"

text \<open>\<open>Remove\<close> drops the first entry of that ref in the order of iteration, and stops.\<close>

definition graph_Remove :: "ref \<Rightarrow> GraphSharedRealms \<Rightarrow> GraphSharedRealms" where
  "graph_Remove ref g = (case find (\<lambda>(name, e). re_ref e = ref) (gr_realms g) of
      None \<Rightarrow> g
    | Some (name, e) \<Rightarrow> \<lparr>gr_realms = mdel name (gr_realms g),
        gr_byPK = fold (unlink_member name) (re_members e) (gr_byPK g)\<rparr>)"

definition graph_Load :: "Item list \<Rightarrow> GraphSharedRealms \<Rightarrow> GraphSharedRealms" where
  "graph_Load items g = fold graph_Add items (g\<lparr>gr_realms := [], gr_byPK := []\<rparr>)"

definition graph_Count :: "GraphSharedRealms option \<Rightarrow> int" where
  "graph_Count g = (case g of None \<Rightarrow> 0 | Some g \<Rightarrow> int (length (gr_realms g)))"

definition graph_IsSharedRealm :: "GraphSharedRealms option \<Rightarrow> string \<Rightarrow> bool" where
  "graph_IsSharedRealm g name =
     (case g of None \<Rightarrow> False | Some g \<Rightarrow> mget (gr_realms g) name \<noteq> None)"

definition graph_IsMember :: "GraphSharedRealms option \<Rightarrow> string \<Rightarrow> string \<Rightarrow> bool" where
  "graph_IsMember g realmName pubkey = (case g of None \<Rightarrow> False
     | Some g \<Rightarrow> if pubkey = [] then False
         else (case mget (gr_realms g) realmName of None \<Rightarrow> False
           | Some e \<Rightarrow> list_ex (\<lambda>m. m = pubkey) (re_members e)))"

definition graph_RealmsForPubkey :: "GraphSharedRealms option \<Rightarrow> string \<Rightarrow> string list" where
  "graph_RealmsForPubkey g pubkey = (case g of None \<Rightarrow> []
     | Some g \<Rightarrow> if pubkey = [] then []
         else (case mget (gr_byPK g) pubkey of None \<Rightarrow> [] | Some s \<Rightarrow> mkeys s))"

definition graph_Members :: "GraphSharedRealms \<Rightarrow> string \<Rightarrow> string list" where
  "graph_Members g realmName =
     (case mget (gr_realms g) realmName of None \<Rightarrow> [] | Some e \<Rightarrow> re_members e)"

definition graph_realmsKeys :: "GraphSharedRealms \<Rightarrow> string list" where
  "graph_realmsKeys g = mkeys (gr_realms g)"

definition graph_resolver :: "GraphSharedRealms option \<Rightarrow> RealmResolver" where
  "graph_resolver g = \<lparr>rr_IsSharedRealm = graph_IsSharedRealm g, rr_IsMember = graph_IsMember g,
     rr_RealmsForPubkey = graph_RealmsForPubkey g, rr_Count = graph_Count g\<rparr>"

section \<open>The members a declaration names\<close>

lemma member_pubkeys_set:
  "set (member_pubkeys ms rs) = set ms \<union> {pk. IsPubkeyRealm pk \<and> (\<exists>r\<in>set rs. refPubkey r = pk)}"
proof (induction ms rs rule: member_pubkeys.induct)
  case (2 members r rs)
  have "\<not> IsPubkeyRealm []" by (simp add: IsPubkeyRealm_def)
  with 2 show ?case by (auto simp: Let_def)
qed auto

lemma member_pubkeys_distinct: "distinct ms \<Longrightarrow> distinct (member_pubkeys ms rs)"
  by (induction ms rs rule: member_pubkeys.induct) (auto simp: Let_def)

lemma extract_members_set:
  "set (extractMemberPubkeys es) =
     {pk. IsPubkeyRealm pk \<and> (\<exists>r\<in>set (relation_targets es). refPubkey r = pk)}"
  by (simp add: extractMemberPubkeys_def member_pubkeys_set)

lemma extract_members_distinct: "distinct (extractMemberPubkeys es)"
  by (simp add: extractMemberPubkeys_def member_pubkeys_distinct)

lemma ParseSharedRealm_Inr:
  "ParseSharedRealm it = Inr (realm, ms) \<longleftrightarrow>
     item_Type it = TypeSharedRealm \<and> realm \<noteq> [] \<and>
     (\<exists>j. item_Content it = Some j \<and> dec_realm_content j = Some realm) \<and>
     splitRealmOwner realm = (item_Pubkey it, True) \<and> item_ID it = RealmID realm \<and>
     ''dataverse001'' \<in> set (item_In it) \<and>
     ms = extractMemberPubkeys (get_list (mget (item_Relations it)) RelationMember)"
  by (auto simp: ParseSharedRealm_def split: if_splits option.splits prod.splits)

lemma ParseSharedRealm_ref:
  "ParseSharedRealm it = Inr (realm, ms) \<Longrightarrow> RealmRef realm = Some (item_Ref it)"
  by (auto simp: ParseSharedRealm_Inr RealmRef_Some item_Ref_def)

lemma ParseSharedRealm_public:
  "ParseSharedRealm it = Inr (realm, ms) \<Longrightarrow> IsPublicObject (item_In it)"
  by (simp add: ParseSharedRealm_Inr)

section \<open>The index from members to realms\<close>

definition links :: "(string, name_set) gomap \<Rightarrow> string \<Rightarrow> string set" where
  "links byPK pk = set (mkeys (names_of byPK pk))"

definition byPK_ok :: "(string, name_set) gomap \<Rightarrow> bool" where
  "byPK_ok byPK \<longleftrightarrow> mwf byPK \<and> (\<forall>pk s. mget byPK pk = Some s \<longrightarrow> mwf s \<and> s \<noteq> [])"

lemma set_mkeys_del [simp]: "set (mkeys (mdel k m)) = set (mkeys m) - {k}"
  by (auto simp: in_mkeys_iff split: if_splits)

lemma set_mkeys_put [simp]: "set (mkeys (mput k v m)) = insert k (set (mkeys m))"
  by (auto simp: in_mkeys_iff split: if_splits)

lemma mkeys_of_Nil [simp]: "mkeys [] = []"
  by (simp add: mkeys_def)

lemma mkeys_Nil [simp]: "mkeys m = [] \<longleftrightarrow> m = []"
  by (simp add: mkeys_def)

lemma mput_not_Nil [simp]: "mput k v m \<noteq> []"
  by (metis mget_put mget_empty option.distinct(1))

lemma byPK_ok_names: "byPK_ok byPK \<Longrightarrow> mwf (names_of byPK pk)"
  by (auto simp: byPK_ok_def names_of_def split: option.splits)

lemma links_empty: "links byPK pk = {} \<longleftrightarrow> names_of byPK pk = []"
  by (simp add: links_def)

lemma unlink_member_ok: "byPK_ok b \<Longrightarrow> byPK_ok (unlink_member n m b)"
  using byPK_ok_names [of b m] by (auto simp: unlink_member_def Let_def byPK_ok_def)

lemma names_of_put: "names_of (mput m s b) pk = (if pk = m then s else names_of b pk)"
  by (simp add: names_of_def)

lemma names_of_del: "names_of (mdel m b) pk = (if pk = m then [] else names_of b pk)"
  by (simp add: names_of_def)

lemma links_unlink [simp]:
  "links (unlink_member n m b) pk = (if pk = m then links b pk - {n} else links b pk)"
proof -
  let ?s = "mdel n (names_of b m)"
  have "set (mkeys ?s) = links b m - {n}" by (simp add: links_def)
  then show ?thesis
    by (cases "?s = []") (simp_all add: unlink_member_def links_def names_of_put names_of_del)
qed

lemma link_member_ok: "byPK_ok b \<Longrightarrow> byPK_ok (link_member n m b)"
  using byPK_ok_names [of b m] by (auto simp: link_member_def byPK_ok_def)

lemma links_link [simp]:
  "links (link_member n m b) pk = (if pk = m then insert n (links b pk) else links b pk)"
  by (simp add: link_member_def links_def names_of_put)

lemma fold_unlink:
  assumes "byPK_ok b"
  shows "byPK_ok (fold (unlink_member n) ms b)"
    and "links (fold (unlink_member n) ms b) pk = (if pk \<in> set ms then links b pk - {n} else links b pk)"
  using assms by (induction ms arbitrary: b) (auto simp: unlink_member_ok)

lemma fold_link:
  assumes "byPK_ok b"
  shows "byPK_ok (fold (link_member n) ms b)"
    and "links (fold (link_member n) ms b) pk = (if pk \<in> set ms then insert n (links b pk) else links b pk)"
  using assms by (induction ms arbitrary: b) (auto simp: link_member_ok)

section \<open>The invariant of the graph\<close>

definition entry_ok :: "string \<Rightarrow> realmEntry \<Rightarrow> bool" where
  "entry_ok name e \<longleftrightarrow> splitRealmOwner name = (re_owner e, True) \<and> RealmRef name = Some (re_ref e) \<and>
     distinct (re_members e) \<and> (\<forall>pk\<in>set (re_members e). IsPubkeyRealm pk)"

definition graph_ok :: "GraphSharedRealms \<Rightarrow> bool" where
  "graph_ok g \<longleftrightarrow> mwf (gr_realms g) \<and> byPK_ok (gr_byPK g) \<and>
     (\<forall>name e. mget (gr_realms g) name = Some e \<longrightarrow> entry_ok name e) \<and>
     (\<forall>pk name. name \<in> links (gr_byPK g) pk \<longleftrightarrow>
        (\<exists>e. mget (gr_realms g) name = Some e \<and> pk \<in> set (re_members e)))"

lemma graph_okD:
  assumes "graph_ok g"
  shows "mwf (gr_realms g)" and "byPK_ok (gr_byPK g)"
    and "\<And>name e. mget (gr_realms g) name = Some e \<Longrightarrow> entry_ok name e"
    and "\<And>pk name. name \<in> links (gr_byPK g) pk \<longleftrightarrow>
        (\<exists>e. mget (gr_realms g) name = Some e \<and> pk \<in> set (re_members e))"
  using assms by (auto simp: graph_ok_def)

lemma graph_ok_new [simp]: "graph_ok NewGraphSharedRealms"
  by (simp add: graph_ok_def NewGraphSharedRealms_def byPK_ok_def links_def names_of_def mkeys_def)

lemma graph_ok_cleared: "graph_ok (g\<lparr>gr_realms := [], gr_byPK := []\<rparr>)"
  by (simp add: graph_ok_def byPK_ok_def links_def names_of_def mkeys_def)

text \<open>Unlinking an entry's members leaves the links of every other realm.\<close>

lemma unlink_entry:
  assumes "graph_ok g" and "mget (gr_realms g) n = Some e"
  shows "byPK_ok (fold (unlink_member n) (re_members e) (gr_byPK g))"
    and "name \<in> links (fold (unlink_member n) (re_members e) (gr_byPK g)) pk \<longleftrightarrow>
       name \<noteq> n \<and> name \<in> links (gr_byPK g) pk"
  using assms fold_unlink [OF graph_okD(2) [OF assms(1)]] graph_okD(4) [OF assms(1), of n pk]
  by auto

lemma graph_ok_put:
  assumes "graph_ok g" and "entry_ok n e" and "byPK_ok b"
    and "\<And>pk name. name \<in> links b pk \<longleftrightarrow> name \<noteq> n \<and> name \<in> links (gr_byPK g) pk"
  shows "graph_ok \<lparr>gr_realms = mput n e (gr_realms g),
     gr_byPK = fold (link_member n) (re_members e) b\<rparr>"
  using assms(2) graph_okD [OF assms(1)] fold_link [OF assms(3)] assms(4)
  by (auto simp: graph_ok_def)

lemma parsed_entry_ok:
  assumes "ParseSharedRealm it = Inr (n, ms)"
  shows "entry_ok n \<lparr>re_owner = item_Pubkey it, re_members = ms, re_revision = item_Revision it,
     re_ref = item_Ref it\<rparr>"
  using assms ParseSharedRealm_ref [OF assms]
  by (auto simp: entry_ok_def ParseSharedRealm_Inr extract_members_set extract_members_distinct)

lemma graph_Add_ok:
  assumes "graph_ok g"
  shows "graph_ok (graph_Add it g)"
proof (cases "ParseSharedRealm it")
  case (Inl e)
  with assms show ?thesis by (simp add: graph_Add_def)
next
  case (Inr p)
  obtain n ms where p: "p = (n, ms)" by (cases p)
  note entry = parsed_entry_ok [OF Inr [unfolded p]]
  show ?thesis
  proof (cases "mget (gr_realms g) n")
    case None
    then have "n \<notin> links (gr_byPK g) pk" for pk
      using graph_okD(4) [OF assms, of n pk] by simp
    then have "name \<in> links (gr_byPK g) pk \<longleftrightarrow> name \<noteq> n \<and> name \<in> links (gr_byPK g) pk" for name pk
      by auto
    from graph_ok_put [OF assms entry graph_okD(2) [OF assms] this] None Inr p
    show ?thesis by (simp add: graph_Add_def)
  next
    case (Some e)
    from graph_ok_put [OF assms entry unlink_entry [OF assms Some]] Some Inr p assms
    show ?thesis by (simp add: graph_Add_def Let_def)
  qed
qed

lemma graph_Load_ok: "graph_ok (graph_Load items g)"
  unfolding graph_Load_def
  by (rule fold_invariant_rule [where P = graph_ok]) (auto intro: graph_Add_ok graph_ok_cleared)

lemma find_entry: "mwf m \<Longrightarrow> find P m = Some (n, e) \<Longrightarrow> mget m n = Some e \<and> P (n, e)"
  by (auto simp: find_Some_iff mget_iff_in intro: nth_mem dest: sym)

lemma graph_Remove_ok:
  assumes "graph_ok g"
  shows "graph_ok (graph_Remove ref g)"
proof (cases "find (\<lambda>(name, e). re_ref e = ref) (gr_realms g)")
  case None
  with assms show ?thesis by (simp add: graph_Remove_def)
next
  case (Some p)
  obtain n e where p: "p = (n, e)" by (cases p)
  from find_entry [OF graph_okD(1) [OF assms] Some [unfolded p]]
  have "mget (gr_realms g) n = Some e" by simp
  from unlink_entry [OF assms this] graph_okD [OF assms] Some p
  show ?thesis by (auto simp: graph_Remove_def graph_ok_def)
qed

section \<open>The graph is a resolver\<close>

definition graph_opt_ok :: "GraphSharedRealms option \<Rightarrow> bool" where
  "graph_opt_ok g = (case g of None \<Rightarrow> True | Some g \<Rightarrow> graph_ok g)"

lemma graph_IsMember_iff:
  "graph_IsMember g r pk \<longleftrightarrow>
     pk \<noteq> [] \<and> (\<exists>h e. g = Some h \<and> mget (gr_realms h) r = Some e \<and> pk \<in> set (re_members e))"
  by (auto simp: graph_IsMember_def list_ex_iff split: option.splits)

lemma graph_realms_for_links:
  "graph_RealmsForPubkey (Some g) pk = (if pk = [] then [] else mkeys (names_of (gr_byPK g) pk))"
  by (auto simp: graph_RealmsForPubkey_def names_of_def split: option.splits)

interpretation graph: realm_resolver graph_opt_ok graph_IsSharedRealm graph_IsMember
  graph_RealmsForPubkey graph_Count
proof
  fix g r pk
  assume ok: "graph_opt_ok g"
  show "graph_IsMember g r pk \<Longrightarrow> graph_IsSharedRealm g r"
    by (auto simp: graph_IsMember_iff graph_IsSharedRealm_def)
  show "graph_IsMember g r pk \<Longrightarrow> pk \<noteq> []" by (simp add: graph_IsMember_iff)
  show "r \<in> set (graph_RealmsForPubkey g pk) \<longleftrightarrow> graph_IsMember g r pk"
  proof (cases g)
    case (Some h)
    with ok have "graph_ok h" by (simp add: graph_opt_ok_def)
    from graph_okD(4) [OF this, of r pk] Some show ?thesis
      by (auto simp: graph_realms_for_links graph_IsMember_iff links_def)
  qed (simp add: graph_RealmsForPubkey_def graph_IsMember_iff)
  show "distinct (graph_RealmsForPubkey g pk)"
  proof (cases g)
    case (Some h)
    with ok have "byPK_ok (gr_byPK h)" by (simp add: graph_opt_ok_def graph_ok_def)
    from mwf_distinct_keys [OF byPK_ok_names [OF this]] Some show ?thesis
      by (simp add: graph_realms_for_links)
  qed (simp add: graph_RealmsForPubkey_def)
  have keys: "{r. graph_IsSharedRealm (Some h) r} = set (mkeys (gr_realms h))" for h
    by (auto simp: graph_IsSharedRealm_def in_mkeys_iff)
  have none: "{r. graph_IsSharedRealm None r} = {}" by (simp add: graph_IsSharedRealm_def)
  show "finite {r. graph_IsSharedRealm g r}" by (cases g) (simp_all add: keys none)
  show "graph_Count g = int (card {r. graph_IsSharedRealm g r})"
    using ok by (cases g)
      (simp_all add: keys none graph_Count_def graph_opt_ok_def graph_okD(1) mwf_card_keys)
qed

section \<open>Which declaration is kept\<close>

lemma graph_Add_ignores:
  "ParseSharedRealm it = Inl e \<Longrightarrow> graph_Add it g = g"
  by (simp add: graph_Add_def)

lemma graph_Add_other:
  "ParseSharedRealm it = Inr (n, ms) \<Longrightarrow> n' \<noteq> n \<Longrightarrow>
     mget (gr_realms (graph_Add it g)) n' = mget (gr_realms g) n'"
  by (simp add: graph_Add_def Let_def split: option.splits)

lemma graph_Add_same:
  assumes "\<And>ms. ParseSharedRealm it \<noteq> Inr (n, ms)"
  shows "mget (gr_realms (graph_Add it g)) n = mget (gr_realms g) n"
proof (cases "ParseSharedRealm it")
  case (Inr p)
  with assms [of "snd p"] have "n \<noteq> fst p" by (cases p) auto
  with graph_Add_other [of it "fst p" "snd p" n g] Inr show ?thesis by simp
qed (simp add: graph_Add_ignores)

text \<open>
  The ref of a declaration is the address of its realm, so between two declarations of a realm
  the revision alone decides, and of two with one revision the first is kept.
\<close>

lemma graph_Add_entry:
  assumes "graph_ok g" and "ParseSharedRealm it = Inr (n, ms)"
  shows "mget (gr_realms (graph_Add it g)) n = Some
     (case mget (gr_realms g) n of
        Some e \<Rightarrow> if item_Revision it \<le> re_revision e then e
          else \<lparr>re_owner = item_Pubkey it, re_members = ms, re_revision = item_Revision it,
                 re_ref = item_Ref it\<rparr>
      | None \<Rightarrow> \<lparr>re_owner = item_Pubkey it, re_members = ms, re_revision = item_Revision it,
                 re_ref = item_Ref it\<rparr>)"
proof (cases "mget (gr_realms g) n")
  case None
  with assms show ?thesis by (simp add: graph_Add_def)
next
  case (Some e)
  with graph_okD(3) [OF assms(1) Some] ParseSharedRealm_ref [OF assms(2)]
  have "re_ref e = item_Ref it" by (simp add: entry_ok_def)
  with assms Some show ?thesis by (auto simp: graph_Add_def Let_def)
qed

text \<open>\<open>e\<close> is the entry that a list of declarations of \<open>n\<close> should leave.\<close>

definition wins :: "Item list \<Rightarrow> string \<Rightarrow> realmEntry \<Rightarrow> bool" where
  "wins items n e \<longleftrightarrow>
     (\<exists>it\<in>set items. ParseSharedRealm it = Inr (n, re_members e) \<and> re_revision e = item_Revision it \<and>
        re_ref e = item_Ref it \<and> re_owner e = item_Pubkey it) \<and>
     (\<forall>it\<in>set items. \<forall>ms. ParseSharedRealm it = Inr (n, ms) \<longrightarrow> item_Revision it \<le> re_revision e)"

definition declared :: "Item list \<Rightarrow> string \<Rightarrow> bool" where
  "declared items n \<longleftrightarrow> (\<exists>it\<in>set items. \<exists>ms. ParseSharedRealm it = Inr (n, ms))"

lemma graph_Add_wins:
  assumes "graph_ok g"
    and "mget (gr_realms g) n = None \<Longrightarrow> \<not> declared items n"
    and "\<And>e. mget (gr_realms g) n = Some e \<Longrightarrow> wins items n e"
  shows "mget (gr_realms (graph_Add it g)) n = None \<Longrightarrow> \<not> declared (items @ [it]) n"
    and "\<And>e. mget (gr_realms (graph_Add it g)) n = Some e \<Longrightarrow> wins (items @ [it]) n e"
proof -
  have *: "(mget (gr_realms (graph_Add it g)) n = None \<longrightarrow> \<not> declared (items @ [it]) n) \<and>
    (\<forall>e. mget (gr_realms (graph_Add it g)) n = Some e \<longrightarrow> wins (items @ [it]) n e)"
  proof (cases "\<exists>ms. ParseSharedRealm it = Inr (n, ms)")
    case False
    then have "mget (gr_realms (graph_Add it g)) n = mget (gr_realms g) n"
      by (intro graph_Add_same) blast
    with False assms(2,3) show ?thesis by (auto simp: declared_def wins_def)
  next
    case True
    then obtain ms where ms: "ParseSharedRealm it = Inr (n, ms)" by blast
    from graph_Add_entry [OF assms(1) ms] ms assms(2,3) show ?thesis
      by (cases "mget (gr_realms g) n")
        (fastforce simp: wins_def declared_def split: if_splits)+
  qed
  then show "mget (gr_realms (graph_Add it g)) n = None \<Longrightarrow> \<not> declared (items @ [it]) n"
    and "\<And>e. mget (gr_realms (graph_Add it g)) n = Some e \<Longrightarrow> wins (items @ [it]) n e"
    by blast+
qed

lemma fold_Add_wins:
  assumes "graph_ok g" and "mget (gr_realms g) n = None \<Longrightarrow> \<not> declared before n"
    and "\<And>e. mget (gr_realms g) n = Some e \<Longrightarrow> wins before n e"
  shows "(mget (gr_realms (fold graph_Add items g)) n = None \<longrightarrow> \<not> declared (before @ items) n) \<and>
     (\<forall>e. mget (gr_realms (fold graph_Add items g)) n = Some e \<longrightarrow> wins (before @ items) n e)"
  using assms
proof (induction items arbitrary: g before)
  case (Cons it items)
  from Cons.IH [OF graph_Add_ok [OF Cons.prems(1)], of it "before @ [it]"]
    graph_Add_wins [OF Cons.prems, of it]
  show ?case by simp
qed simp

lemma graph_Load_wins:
  "(mget (gr_realms (graph_Load items g)) n = None \<longrightarrow> \<not> declared items n) \<and>
     (\<forall>e. mget (gr_realms (graph_Load items g)) n = Some e \<longrightarrow> wins items n e)"
  using fold_Add_wins [OF graph_ok_cleared [of g], where before = "[]" and items = items and n = n]
  by (simp add: graph_Load_def declared_def)

section \<open>Properties\<close>

text \<open>The graphs that the operations lead to, from any items: the graph itself checks no signature.\<close>

inductive graph_reach :: "GraphSharedRealms \<Rightarrow> bool" where
  new: "graph_reach NewGraphSharedRealms"
| add: "graph_reach g \<Longrightarrow> graph_reach (graph_Add it g)"
| remove: "graph_reach g \<Longrightarrow> graph_reach (graph_Remove ref g)"
| load: "graph_reach g \<Longrightarrow> graph_reach (graph_Load items g)"

lemma graph_reach_ok: "graph_reach g \<Longrightarrow> graph_ok g"
  by (induction rule: graph_reach.induct) (simp_all add: graph_Add_ok graph_Remove_ok graph_Load_ok)

lemma graph_reach_opt: "graph_reach g \<Longrightarrow> graph_opt_ok (Some g)"
  by (simp add: graph_opt_ok_def graph_reach_ok)

text \<open>A realm object whose identifier is left to the hash function.\<close>

definition demo_owner :: string where
  "demo_owner = ''AxUJmGQ24rmhe5zL3Slm12xAq8bqxlzZMnLbHJ9QHxBl''"

definition demo_member :: string where
  "demo_member = ''A7Qm0cJ2zZ9mJp3wJg0rT8wq2yXvF5hN1kLbHJ9QHxBl''"

definition demo_realm :: string where
  "demo_realm = demo_owner @ ''.Team''"

definition demo_realm_object :: "int \<Rightarrow> string list \<Rightarrow> Item" where
  "demo_realm_object n members = zero_Item
     \<lparr>item_Pubkey := demo_owner, item_ID := RealmID demo_realm, item_Type := ''SHARED_REALM'',
      item_In := [''dataverse001''], item_Revision := n,
      item_Content := Some (JObj [(''realm'', JStr demo_realm)]),
      item_Relations := [(''member'',
         map (\<lambda>m. JObj [(''ref'', JStr (m @ ''.00000000-0000-0000-0000-000000000000''))]) members)]\<rparr>"

lemma demo_split: "splitRealmOwner demo_realm = (demo_owner, True)"
  by code_simp

lemma demo_content: "dec_realm_content (JObj [(''realm'', JStr demo_realm)]) = Some demo_realm"
  by code_simp

lemma demo_members: "extractMemberPubkeys
    [JObj [(''ref'', JStr (demo_member @ ''.00000000-0000-0000-0000-000000000000''))]] = [demo_member]"
  by code_simp

lemma demo_parse: "ParseSharedRealm (demo_realm_object n [demo_member]) = Inr (demo_realm, [demo_member])"
proof -
  have "demo_realm \<noteq> []" by (simp add: demo_realm_def)
  then show ?thesis
    unfolding ParseSharedRealm_def
    using demo_content demo_members demo_split
    by (simp add: demo_realm_object_def TypeSharedRealm_def RelationMember_def get_list_def mget_def)
qed

definition demo_graph :: GraphSharedRealms where
  "demo_graph = graph_Add (demo_realm_object 1 [demo_member]) NewGraphSharedRealms"

lemma demo_graph_reach: "graph_reach demo_graph"
  unfolding demo_graph_def by (intro graph_reach.intros)

lemma demo_graph_entry: "mget (gr_realms demo_graph) demo_realm = Some
    \<lparr>re_owner = demo_owner, re_members = [demo_member], re_revision = 1,
     re_ref = item_Ref (demo_realm_object 1 [demo_member])\<rparr>"
  unfolding demo_graph_def
  using graph_Add_entry [OF graph_ok_new demo_parse, of 1]
  by (simp add: NewGraphSharedRealms_def) (simp add: demo_realm_object_def)

text \<open>
  Whatever objects are added, removed or loaded, in any order, the graph's two indexes agree: the
  list of a key's realms is exactly the realms it is a member of, and the number of realms is the
  number of names that answer as shared.
\<close>

theorem graph_indexes_agree:
  assumes "graph_reach g"
  shows "(r \<in> set (graph_RealmsForPubkey (Some g) pk) \<longleftrightarrow> graph_IsMember (Some g) r pk) \<and>
    distinct (graph_RealmsForPubkey (Some g) pk) \<and>
    graph_Count (Some g) = int (card {n. graph_IsSharedRealm (Some g) n})"
  using graph.realms_for_iff [OF graph_reach_opt [OF assms]]
    graph.realms_for_distinct [OF graph_reach_opt [OF assms]]
    graph.number_card [OF graph_reach_opt [OF assms]] by blast

theorem graph_indexes_agree_witness:
  "demo_realm \<in> set (graph_RealmsForPubkey (Some demo_graph) demo_member)"
proof -
  have "demo_member \<noteq> []" by (simp add: demo_member_def)
  then have "graph_IsMember (Some demo_graph) demo_realm demo_member"
    by (simp add: graph_IsMember_iff demo_graph_entry)
  with graph_indexes_agree [OF demo_graph_reach] show ?thesis by blast
qed

text \<open>
  In every reachable graph a realm's name begins with the public key that its declaration names, the
  object it comes from belongs at the address of the name, and its members are public keys without
  repetition. Signatures are the business of the callers: see \<open>Serving_Realms\<close>.
\<close>

lemma realm_declared_by_owner:
  assumes "graph_reach g" and "mget (gr_realms g) name = Some e"
  shows "(\<exists>rest. name = re_owner e @ CHR ''.'' # rest \<and> rest \<noteq> []) \<and> IsPubkeyRealm (re_owner e) \<and>
    RealmRef name = Some (re_ref e) \<and> distinct (re_members e) \<and> list_all IsPubkeyRealm (re_members e)"
  using graph_okD(3) [OF graph_reach_ok [OF assms(1)] assms(2)]
  by (auto simp: entry_ok_def splitRealmOwner_True list_all_iff)

text \<open>
  Loading a set of objects gives every declared realm its highest revision: a realm is known
  exactly when some object of the set declares it, and what is known of it is what a declaration
  with the greatest revision says.
\<close>

theorem load_highest_revision:
  "case mget (gr_realms (graph_Load items g)) name of
     None \<Rightarrow> \<not> declared items name
   | Some e \<Rightarrow> wins items name e"
  using graph_Load_wins [of items g name] by (simp split: option.split)

end
