(* ===== verification/Realm_Shared.thy ===== *)
theory Realm_Shared
  imports Realm_Core
begin

text \<open>
  \<open>realm/shared.go\<close>: the shared realms of the configuration file. A receiver that may be nil is an
  option; the map is an association list in some order of iteration.
\<close>

type_synonym SharedRealms = "(string, string list) gomap"

definition NewSharedRealms :: SharedRealms where
  "NewSharedRealms = []"

definition SharedRealms_Load :: "SharedRealms \<Rightarrow> (string, string list) gomap \<Rightarrow> SharedRealms" where
  "SharedRealms_Load s realms = realms"

definition toml_IsSharedRealm :: "SharedRealms option \<Rightarrow> string \<Rightarrow> bool" where
  "toml_IsSharedRealm s name = (case s of None \<Rightarrow> False | Some realms \<Rightarrow> mget realms name \<noteq> None)"

definition toml_IsMember :: "SharedRealms option \<Rightarrow> string \<Rightarrow> string \<Rightarrow> bool" where
  "toml_IsMember s realmName pubkey = (case s of None \<Rightarrow> False
     | Some realms \<Rightarrow> if pubkey = [] then False
         else (case mget realms realmName of None \<Rightarrow> False
           | Some members \<Rightarrow> list_ex (\<lambda>m. m = pubkey) members))"

definition toml_RealmsForPubkey :: "SharedRealms option \<Rightarrow> string \<Rightarrow> string list" where
  "toml_RealmsForPubkey s pubkey = (case s of None \<Rightarrow> []
     | Some realms \<Rightarrow> if pubkey = [] then []
         else map fst (filter (\<lambda>(name, members). list_ex (\<lambda>m. m = pubkey) members) realms))"

definition toml_Count :: "SharedRealms option \<Rightarrow> int" where
  "toml_Count s = (case s of None \<Rightarrow> 0 | Some realms \<Rightarrow> int (length realms))"

definition toml_realmsKeys :: "SharedRealms option \<Rightarrow> string list" where
  "toml_realmsKeys s = (case s of None \<Rightarrow> [] | Some realms \<Rightarrow> mkeys realms)"

definition toml_resolver :: "SharedRealms option \<Rightarrow> RealmResolver" where
  "toml_resolver s = \<lparr>rr_IsSharedRealm = toml_IsSharedRealm s, rr_IsMember = toml_IsMember s,
     rr_RealmsForPubkey = toml_RealmsForPubkey s, rr_Count = toml_Count s\<rparr>"

section \<open>The configured realms are a resolver\<close>

definition toml_ok :: "SharedRealms option \<Rightarrow> bool" where
  "toml_ok s = (case s of None \<Rightarrow> True | Some realms \<Rightarrow> mwf realms)"

lemma toml_IsMember_iff:
  "toml_IsMember s r pk \<longleftrightarrow>
     pk \<noteq> [] \<and> (\<exists>realms ms. s = Some realms \<and> mget realms r = Some ms \<and> pk \<in> set ms)"
  by (auto simp: toml_IsMember_def list_ex_iff split: option.splits)

lemma toml_shared_keys:
  "{r. toml_IsSharedRealm s r} = set (toml_realmsKeys s)"
  by (auto simp: toml_IsSharedRealm_def toml_realmsKeys_def in_mkeys_iff split: option.splits)

lemma toml_count_keys: "toml_ok s \<Longrightarrow> toml_Count s = int (card (set (toml_realmsKeys s)))"
  by (cases s) (simp_all add: toml_ok_def toml_Count_def toml_realmsKeys_def mwf_card_keys)

lemma toml_realms_for_iff:
  "toml_ok s \<Longrightarrow> r \<in> set (toml_RealmsForPubkey s pk) \<longleftrightarrow> toml_IsMember s r pk"
  by (auto simp: toml_RealmsForPubkey_def toml_IsMember_iff toml_ok_def list_ex_iff mget_iff_in
      image_iff split: option.splits if_splits)

lemma toml_realms_for_distinct: "toml_ok s \<Longrightarrow> distinct (toml_RealmsForPubkey s pk)"
  by (cases s) (simp_all add: toml_RealmsForPubkey_def toml_ok_def
      mwf_distinct_keys [OF mwf_filter, unfolded mkeys_def])

interpretation toml: realm_resolver toml_ok toml_IsSharedRealm toml_IsMember
  toml_RealmsForPubkey toml_Count
proof
  fix s r pk
  assume ok: "toml_ok s"
  show "toml_IsMember s r pk \<Longrightarrow> toml_IsSharedRealm s r"
    by (auto simp: toml_IsMember_iff toml_IsSharedRealm_def)
  show "toml_IsMember s r pk \<Longrightarrow> pk \<noteq> []" by (simp add: toml_IsMember_iff)
  show "r \<in> set (toml_RealmsForPubkey s pk) \<longleftrightarrow> toml_IsMember s r pk"
    by (rule toml_realms_for_iff [OF ok])
  show "distinct (toml_RealmsForPubkey s pk)" by (rule toml_realms_for_distinct [OF ok])
  show "finite {r. toml_IsSharedRealm s r}" by (simp add: toml_shared_keys)
  show "toml_Count s = int (card {r. toml_IsSharedRealm s r})"
    by (simp add: toml_shared_keys toml_count_keys [OF ok])
qed

end
