(* ===== verification/Realm_Resolver.thy ===== *)
theory Realm_Resolver
  imports Realm_Graph Realm_Shared
begin

text \<open>
  \<open>Merged\<close> of \<open>realm/resolver.go\<close>: the graph and the configuration combined. It is shown to be a
  resolver itself, and the union of the two: the configuration adds realms and members, and
  takes none away.
\<close>

record Merged =
  mg_Graph :: "GraphSharedRealms option"
  mg_Toml :: "SharedRealms option"

definition NewMerged :: "GraphSharedRealms option \<Rightarrow> SharedRealms option \<Rightarrow> Merged" where
  "NewMerged graph toml = \<lparr>mg_Graph = graph, mg_Toml = toml\<rparr>"

definition merged_IsSharedRealm :: "Merged \<Rightarrow> string \<Rightarrow> bool" where
  "merged_IsSharedRealm m name =
     (if mg_Toml m \<noteq> None \<and> toml_IsSharedRealm (mg_Toml m) name then True
      else if mg_Graph m \<noteq> None \<and> graph_IsSharedRealm (mg_Graph m) name then True
      else False)"

definition merged_IsMember :: "Merged \<Rightarrow> string \<Rightarrow> string \<Rightarrow> bool" where
  "merged_IsMember m realmName pubkey =
     (if mg_Toml m \<noteq> None \<and> toml_IsMember (mg_Toml m) realmName pubkey then True
      else if mg_Graph m \<noteq> None \<and> graph_IsMember (mg_Graph m) realmName pubkey then True
      else False)"

text \<open>The loops append a name unless it was seen; the names seen are the result so far.\<close>

definition add_unseen :: "string list \<Rightarrow> string list \<Rightarrow> string list" where
  "add_unseen rs result = fold (\<lambda>r result. if r \<in> set result then result else result @ [r]) rs result"

definition merged_RealmsForPubkey :: "Merged \<Rightarrow> string \<Rightarrow> string list" where
  "merged_RealmsForPubkey m pubkey =
     (let result = (if mg_Toml m = None then []
                    else add_unseen (toml_RealmsForPubkey (mg_Toml m) pubkey) [])
      in if mg_Graph m = None then result
         else add_unseen (graph_RealmsForPubkey (mg_Graph m) pubkey) result)"

definition merged_Count :: "Merged \<Rightarrow> int" where
  "merged_Count m = (case mg_Graph m of
      None \<Rightarrow> (case mg_Toml m of None \<Rightarrow> 0 | Some t \<Rightarrow> toml_Count (Some t))
    | Some g \<Rightarrow> (case mg_Toml m of
        None \<Rightarrow> graph_Count (Some g)
      | Some t \<Rightarrow> int (length (add_unseen (graph_realmsKeys g)
                             (add_unseen (toml_realmsKeys (Some t)) [])))))"

definition merged_resolver :: "Merged \<Rightarrow> RealmResolver" where
  "merged_resolver m = \<lparr>rr_IsSharedRealm = merged_IsSharedRealm m, rr_IsMember = merged_IsMember m,
     rr_RealmsForPubkey = merged_RealmsForPubkey m, rr_Count = merged_Count m\<rparr>"

section \<open>The merged view is the union\<close>

definition merged_ok :: "Merged \<Rightarrow> bool" where
  "merged_ok m \<longleftrightarrow> graph_opt_ok (mg_Graph m) \<and> toml_ok (mg_Toml m)"

lemma add_unseen_set: "set (add_unseen rs result) = set result \<union> set rs"
  unfolding add_unseen_def by (induction rs arbitrary: result) auto

lemma add_unseen_distinct: "distinct result \<Longrightarrow> distinct (add_unseen rs result)"
  unfolding add_unseen_def by (induction rs arbitrary: result) auto

lemma nil_sources [simp]:
  "toml_IsSharedRealm None r = False" "toml_IsMember None r pk = False"
  "toml_RealmsForPubkey None pk = []" "toml_realmsKeys None = []"
  "graph_IsSharedRealm None r = False" "graph_IsMember None r pk = False"
  "graph_RealmsForPubkey None pk = []"
  by (simp_all add: toml_IsSharedRealm_def toml_IsMember_def toml_RealmsForPubkey_def
      toml_realmsKeys_def graph_IsSharedRealm_def graph_IsMember_def graph_RealmsForPubkey_def)

lemma merged_shared_iff:
  "merged_IsSharedRealm m r \<longleftrightarrow> toml_IsSharedRealm (mg_Toml m) r \<or> graph_IsSharedRealm (mg_Graph m) r"
  by (cases "mg_Toml m"; cases "mg_Graph m") (auto simp: merged_IsSharedRealm_def)

lemma merged_member_iff:
  "merged_IsMember m r pk \<longleftrightarrow> toml_IsMember (mg_Toml m) r pk \<or> graph_IsMember (mg_Graph m) r pk"
  by (cases "mg_Toml m"; cases "mg_Graph m") (auto simp: merged_IsMember_def)

lemma merged_realms_for_set:
  "set (merged_RealmsForPubkey m pk) =
     set (toml_RealmsForPubkey (mg_Toml m) pk) \<union> set (graph_RealmsForPubkey (mg_Graph m) pk)"
  by (cases "mg_Toml m"; cases "mg_Graph m") (auto simp: merged_RealmsForPubkey_def add_unseen_set)

lemma merged_keys:
  "{r. merged_IsSharedRealm m r} = set (toml_realmsKeys (mg_Toml m)) \<union>
     (case mg_Graph m of None \<Rightarrow> {} | Some g \<Rightarrow> set (graph_realmsKeys g))"
  using toml_shared_keys [of "mg_Toml m"]
  by (cases "mg_Graph m")
    (auto simp: merged_shared_iff graph_IsSharedRealm_def graph_realmsKeys_def in_mkeys_iff)

interpretation merged: realm_resolver merged_ok merged_IsSharedRealm merged_IsMember
  merged_RealmsForPubkey merged_Count
proof
  fix m r pk
  assume "merged_ok m"
  then have g: "graph_opt_ok (mg_Graph m)" and t: "toml_ok (mg_Toml m)" by (auto simp: merged_ok_def)
  show "merged_IsMember m r pk \<Longrightarrow> merged_IsSharedRealm m r"
    using graph.member_shared [OF g] toml.member_shared [OF t]
    by (auto simp: merged_member_iff merged_shared_iff)
  show "merged_IsMember m r pk \<Longrightarrow> pk \<noteq> []"
    using graph.member_known [OF g] toml.member_known [OF t] by (auto simp: merged_member_iff)
  show "r \<in> set (merged_RealmsForPubkey m pk) \<longleftrightarrow> merged_IsMember m r pk"
    using graph.realms_for_iff [OF g] toml.realms_for_iff [OF t]
    by (auto simp: merged_member_iff merged_realms_for_set)
  show "distinct (merged_RealmsForPubkey m pk)"
    by (simp add: merged_RealmsForPubkey_def add_unseen_distinct Let_def)
  show "finite {r. merged_IsSharedRealm m r}"
    by (simp add: merged_keys split: option.splits)
  show "merged_Count m = int (card {r. merged_IsSharedRealm m r})"
  proof (cases "mg_Graph m"; cases "mg_Toml m")
    fix h s assume "mg_Graph m = Some h" "mg_Toml m = Some s"
    then show ?thesis
      using distinct_card [OF add_unseen_distinct [OF add_unseen_distinct [of "[]"]],
          of "graph_realmsKeys h" "toml_realmsKeys (Some s)"]
      by (simp add: merged_Count_def merged_keys add_unseen_set)
  next
    fix h assume "mg_Graph m = Some h" "mg_Toml m = None"
    then show ?thesis
      using graph.number_card [OF g] by (simp add: merged_Count_def merged_shared_iff)
  next
    fix s assume "mg_Graph m = None" "mg_Toml m = Some s"
    then show ?thesis
      using toml.number_card [OF t] by (simp add: merged_Count_def merged_shared_iff)
  qed (simp add: merged_Count_def merged_keys)
qed

lemma CanRead_merged:
  "CanRead realms pk (Some (merged_resolver m)) \<longleftrightarrow> IsPublicObject realms \<or>
     pk \<noteq> [] \<and> (pk \<in> set realms \<or> (\<exists>r\<in>set realms. merged_IsMember m r pk))"
  by (simp add: CanRead_Some_iff merged_resolver_def)

lemma ValidateRealmsForPut_merged:
  "ValidateRealmsForPut realms signer (Some (merged_resolver m)) \<longleftrightarrow> IsPublicObject realms \<or>
     (IsPubkeyRealm signer \<and> signer \<in> set realms) \<or> (\<exists>r\<in>set realms. merged_IsSharedRealm m r)"
  by (simp add: ValidateRealmsForPut_Some_iff merged_resolver_def)

section \<open>Properties\<close>

text \<open>
  C23 Reading and writing by realm, over the configured table and the graph together. An object is
  readable when it is public, when its realms name the caller's own key, or when the caller is a
  member of one of its shared realms in either source; the anonymous caller reads public objects
  only. An object may be stored when it is public, in the signer's own key realm, or in any realm
  that either source knows, whether or not the signer is a member of it.
\<close>

theorem realm_access_rules:
  "(CanRead realms pk (Some (merged_resolver m)) \<longleftrightarrow>
      ''dataverse001'' \<in> set realms \<or> ''server-public'' \<in> set realms \<or>
      pk \<noteq> [] \<and> (pk \<in> set realms \<or>
        list_ex (\<lambda>r. toml_IsMember (mg_Toml m) r pk \<or> graph_IsMember (mg_Graph m) r pk) realms)) \<and>
   (ValidateRealmsForPut realms signer (Some (merged_resolver m)) \<longleftrightarrow>
      ''dataverse001'' \<in> set realms \<or> ''server-public'' \<in> set realms \<or>
      (IsPubkeyRealm signer \<and> signer \<in> set realms) \<or>
      list_ex (\<lambda>r. toml_IsSharedRealm (mg_Toml m) r \<or> graph_IsSharedRealm (mg_Graph m) r) realms)"
  unfolding CanRead_merged ValidateRealmsForPut_merged merged_member_iff merged_shared_iff list_ex_iff
  by auto

text \<open>
  The union of the two sources keeps the contract of a resolver: the list of a key's realms is
  exactly the realms it is a member of, without repetition and no longer than the number of known
  realms, and membership implies a known realm and a caller.
\<close>

theorem merged_keeps_contract:
  assumes "merged_ok m"
  shows "(r \<in> set (merged_RealmsForPubkey m pk) \<longleftrightarrow> merged_IsMember m r pk) \<and>
    distinct (merged_RealmsForPubkey m pk) \<and>
    (merged_IsMember m r pk \<longrightarrow> merged_IsSharedRealm m r \<and> pk \<noteq> []) \<and>
    merged_Count m = int (card {r. merged_IsSharedRealm m r}) \<and>
    int (length (merged_RealmsForPubkey m pk)) \<le> merged_Count m"
  using merged.realms_for_iff [OF assms] merged.realms_for_distinct [OF assms]
    merged.member_shared [OF assms] merged.member_known [OF assms] merged.number_card [OF assms]
    merged.realms_for_bound [OF assms] by blast

definition demo_merged :: Merged where
  "demo_merged = NewMerged (Some NewGraphSharedRealms)
     (Some (SharedRealms_Load NewSharedRealms [(''team'', [''alice'', ''bob''])]))"

lemma demo_merged_ok: "merged_ok demo_merged"
  by (simp add: demo_merged_def NewMerged_def merged_ok_def graph_opt_ok_def toml_ok_def
      SharedRealms_Load_def NewSharedRealms_def mwf_def)

theorem merged_keeps_contract_witness:
  "merged_RealmsForPubkey demo_merged ''bob'' = [''team''] \<and> merged_Count demo_merged = 1 \<and>
   merged_IsSharedRealm demo_merged ''team''"
proof -
  have "merged_RealmsForPubkey demo_merged ''bob'' = [''team'']" "merged_Count demo_merged = 1"
    by code_simp+
  with merged_keeps_contract [OF demo_merged_ok, of "''team''" "''bob''"] show ?thesis by simp
qed

text \<open>
  Membership is not asked of writers: there are a realm and a signer outside it whose objects in
  that realm are accepted.
\<close>

theorem outsider_may_write:
  "\<exists>m realm signer. merged_ok m \<and> \<not> merged_IsMember m realm signer \<and> realm \<noteq> signer \<and>
     ValidateRealmsForPut [realm] signer (Some (merged_resolver m)) \<and>
     \<not> CanRead [realm] signer (Some (merged_resolver m))"
proof (intro exI conjI)
  show "merged_ok demo_merged" by (rule demo_merged_ok)
  show "\<not> merged_IsMember demo_merged ''team'' ''mallory''" by code_simp
  then show "\<not> CanRead [''team''] ''mallory'' (Some (merged_resolver demo_merged))"
    by (simp add: CanRead_merged)
  have "merged_IsSharedRealm demo_merged ''team''" by code_simp
  then show "ValidateRealmsForPut [''team''] ''mallory'' (Some (merged_resolver demo_merged))"
    by (simp add: ValidateRealmsForPut_merged)
qed simp

end
