(* ===== verification/Store_Index.thy ===== *)
theory Store_Index
  imports Store_Files Object_Verify Realm_Resolver
begin

text \<open>
  \<open>storage/index.go\<close>: the in-memory index over the stored objects. It keeps the metadata by ref,
  the refs by key, and for every target the relations that point at it; declarations of shared
  realms go into the graph. The abstract state is the map from ref to the indexed object;
  \<open>represents\<close> relates the two, and every operation is shown to refine an update of that map.
\<close>

section \<open>State\<close>

record Index =
  idx_inbound :: "ref \<Rightarrow> RelationEntry list"
  \<comment> \<open>a missing list reads as nil, and the code removes a list that becomes empty\<close>
  idx_byPubkey :: "string \<Rightarrow> ref list"
  idx_meta :: "(ref, ObjectMeta) gomap"
  idx_shared :: "SharedRealms option"
  idx_graph :: "GraphSharedRealms option"

definition NewIndex :: "SharedRealms option \<Rightarrow> Index" where
  "NewIndex shared = \<lparr>idx_inbound = (\<lambda>t. []), idx_byPubkey = (\<lambda>pk. []), idx_meta = [],
     idx_shared = shared, idx_graph = Some NewGraphSharedRealms\<rparr>"

definition SetGraphRealms :: "GraphSharedRealms option \<Rightarrow> Index \<Rightarrow> Index" where
  "SetGraphRealms g idx = idx\<lparr>idx_graph := g\<rparr>"

text \<open>The field \<open>resolver\<close> is \<open>NewMerged\<close> of the graph and the configuration after every change.\<close>

definition idx_merged :: "Index \<Rightarrow> Merged" where
  "idx_merged idx = NewMerged (idx_graph idx) (idx_shared idx)"

definition Resolver :: "Index \<Rightarrow> RealmResolver option" where
  "Resolver idx = Some (merged_resolver (idx_merged idx))"

record InboundFilters =
  filter_Relation :: string
  filter_From :: string
  filter_Type :: string

section \<open>Listing order\<close>

text \<open>\<open>sortMetaDesc\<close>: newest first, then the greater ref. A cursor is a key of this order.\<close>

datatype meta_key = Meta_Key (key_time: instant) (key_ref: ref)

instantiation meta_key :: linorder
begin

definition less_meta_key :: "meta_key \<Rightarrow> meta_key \<Rightarrow> bool" where
  "a < b \<longleftrightarrow> (if key_time a \<noteq> key_time b then key_time b < key_time a
     else go_less (key_ref b) (key_ref a))"

definition less_eq_meta_key :: "meta_key \<Rightarrow> meta_key \<Rightarrow> bool" where
  "a \<le> b \<longleftrightarrow> a = b \<or> a < (b::meta_key)"

instance
proof
  fix a b c :: meta_key
  show "a < b \<longleftrightarrow> a \<le> b \<and> \<not> b \<le> a"
    using go_less_asym by (auto simp: less_meta_key_def less_eq_meta_key_def split: if_splits)
  show "a \<le> a" by (simp add: less_eq_meta_key_def)
  show "a \<le> b \<Longrightarrow> b \<le> c \<Longrightarrow> a \<le> c"
    using go_less_trans by (auto simp: less_eq_meta_key_def less_meta_key_def split: if_splits)
  show "a \<le> b \<Longrightarrow> b \<le> a \<Longrightarrow> a = b"
    using go_less_asym by (auto simp: less_eq_meta_key_def less_meta_key_def split: if_splits)
  show "a \<le> b \<or> b \<le> a"
    using go_less_linear [of "key_ref a" "key_ref b"]
    by (cases a; cases b) (auto simp: less_eq_meta_key_def less_meta_key_def)
qed

end

definition meta_key :: "ObjectMeta \<Rightarrow> meta_key" where
  "meta_key m = Meta_Key (meta_UpdatedAt m) (meta_Ref m)"

definition sortMetaDesc :: "ObjectMeta list \<Rightarrow> ObjectMeta list" where
  "sortMetaDesc metas = sort_key meta_key metas"

section \<open>Updating\<close>

definition dec_mime_type :: "json \<Rightarrow> string" where
  "dec_mime_type j = (case j of JObj ms \<Rightarrow> fst (decode_field dec_string [] ''mime_type'' ms) | _ \<Rightarrow> [])"

definition item_mime_type :: "Item \<Rightarrow> string" where
  "item_mime_type it = (if item_Type it = ''BLOB''
     then (case item_Content it of None \<Rightarrow> [] | Some j \<Rightarrow> dec_mime_type j) else [])"

definition item_page_ref :: "Item \<Rightarrow> ref" where
  "item_page_ref it = (case mget (item_Relations it) ''page'' of
      Some (raw # rest) \<Rightarrow> (case decode_RelationRef raw of Some r \<Rightarrow> r | None \<Rightarrow> [])
    | _ \<Rightarrow> [])"

text \<open>The optional argument \<open>realms\<close> of \<open>addLocked\<close>.\<close>

definition resolved_realms :: "Item \<Rightarrow> InField list \<Rightarrow> InField" where
  "resolved_realms it realms = (if 0 < length realms \<and> 0 < length (hd realms) then hd realms
     else item_In it)"

definition meta_of :: "ref \<Rightarrow> Item \<Rightarrow> instant \<Rightarrow> InField \<Rightarrow> ObjectMeta" where
  "meta_of ref it ts resolved = \<lparr>meta_Ref = ref, meta_Pubkey = item_Pubkey it,
     meta_Type = item_Type it, meta_Revision = item_Revision it,
     meta_HasPageRelation = item_page_ref it \<noteq> [], meta_PageRef = item_page_ref it,
     meta_MimeType = item_mime_type it, meta_IsPublic = IsPublicObject resolved,
     meta_Realms = resolved, meta_UpdatedAt = ts\<rparr>"

definition add_inbound ::
  "ref \<Rightarrow> string \<Rightarrow> ref \<Rightarrow> (ref \<Rightarrow> RelationEntry list) \<Rightarrow> ref \<Rightarrow> RelationEntry list" where
  "add_inbound ref relType target inb =
     inb(target := inb target @ [\<lparr>rel_SourceRef = ref, rel_Type = relType\<rparr>])"

definition addLocked :: "ref \<Rightarrow> Item \<Rightarrow> instant \<Rightarrow> InField list \<Rightarrow> Index \<Rightarrow> Index" where
  "addLocked ref it ts realms idx =
     (let resolved = resolved_realms it realms;
          meta = mput ref (meta_of ref it ts resolved) (idx_meta idx);
          pk = item_Pubkey it;
          byPubkey = (idx_byPubkey idx)(pk := idx_byPubkey idx pk @ [ref]);
          inbound = fold (\<lambda>(relType, entries). fold (add_inbound ref relType) (relation_targets entries))
                      (item_Relations it) (idx_inbound idx);
          graph = (if item_Type it = TypeSharedRealm then map_option (graph_Add it) (idx_graph idx)
                   else idx_graph idx)
      in idx\<lparr>idx_meta := meta, idx_byPubkey := byPubkey, idx_inbound := inbound, idx_graph := graph\<rparr>)"

definition removeLocked :: "ref \<Rightarrow> Index \<Rightarrow> Index" where
  "removeLocked ref idx = (case mget (idx_meta idx) ref of
      None \<Rightarrow> idx
    | Some m \<Rightarrow>
        (let graph = (if meta_Type m = TypeSharedRealm then map_option (graph_Remove ref) (idx_graph idx)
                      else idx_graph idx);
             pk = meta_Pubkey m;
             byPubkey = (idx_byPubkey idx)(pk := remove1 ref (idx_byPubkey idx pk));
             inbound = (\<lambda>t. filter (\<lambda>e. rel_SourceRef e \<noteq> ref) (idx_inbound idx t))
         in idx\<lparr>idx_graph := graph, idx_byPubkey := byPubkey, idx_inbound := inbound,
              idx_meta := mdel ref (idx_meta idx)\<rparr>))"

definition idx_Update :: "ref \<Rightarrow> Item \<Rightarrow> instant \<Rightarrow> InField list \<Rightarrow> Index \<Rightarrow> Index" where
  "idx_Update ref it ts realms idx = addLocked ref it ts realms (removeLocked ref idx)"

definition idx_Add :: "ref \<Rightarrow> Item \<Rightarrow> instant \<Rightarrow> InField list \<Rightarrow> Index \<Rightarrow> Index" where
  "idx_Add ref it ts realms idx = addLocked ref it ts realms idx"

definition idx_Remove :: "ref \<Rightarrow> Index \<Rightarrow> Index" where
  "idx_Remove ref idx = removeLocked ref idx"

definition GraphRealms :: "Index \<Rightarrow> GraphSharedRealms option" where
  "GraphRealms idx = idx_graph idx"

definition idx_cleared :: "Index \<Rightarrow> Index" where
  "idx_cleared idx = idx\<lparr>idx_inbound := (\<lambda>t. []), idx_byPubkey := (\<lambda>pk. []), idx_meta := [],
     idx_graph := map_option (graph_Load []) (idx_graph idx)\<rparr>"

text \<open>
  What \<open>Rebuild\<close> makes of one scanned ref: an unreadable, missing or malformed object is
  skipped, and one with a malformed timestamp gets the zero time.
\<close>

definition load_object ::
  "world \<Rightarrow> Store \<Rightarrow> disk \<Rightarrow> ref \<Rightarrow> (Item \<times> instant \<times> InField) option" where
  "load_object w s d ref = (case Read w s d ref of
      Inl e \<Rightarrow> None
    | Inr None \<Rightarrow> None
    | Inr (Some data) \<Rightarrow> (case ParseEnvelope data of
        Inl e \<Rightarrow> None
      | Inr (env, it) \<Rightarrow>
          let ts = (case item_Timestamp it of Some t \<Rightarrow> t | None \<Rightarrow> zero_time)
          in Some (it, ts, ResolveIn env it)))"

fun rebuild_scan ::
  "world \<Rightarrow> Store \<Rightarrow> disk \<Rightarrow> ref list \<Rightarrow> int \<Rightarrow> Index \<Rightarrow> int \<times> Index" where
  "rebuild_scan w s d [] count idx = (count, idx)"
| "rebuild_scan w s d (ref # refs) count idx = (case load_object w s d ref of
      None \<Rightarrow> rebuild_scan w s d refs count idx
    | Some (it, ts, realms) \<Rightarrow>
        rebuild_scan w s d refs (count + 1) (addLocked ref it ts [realms] idx))"

definition Rebuild :: "world \<Rightarrow> Store \<Rightarrow> disk \<Rightarrow> Index \<Rightarrow> store_error + (int \<times> Index)" where
  "Rebuild w s d idx = (case Scan w s d of
      Inl e \<Rightarrow> Inl e
    | Inr refs \<Rightarrow> Inr (rebuild_scan w s d refs 0 (idx_cleared idx)))"

section \<open>Queries\<close>

definition GetMeta :: "Index \<Rightarrow> ref \<Rightarrow> ObjectMeta option" where
  "GetMeta idx ref = mget (idx_meta idx) ref"

fun members_scan :: "RealmResolver \<Rightarrow> string \<Rightarrow> bool \<Rightarrow> string list \<Rightarrow> bool" where
  "members_scan R pk hasSharedRealm [] = (\<not> hasSharedRealm)"
| "members_scan R pk hasSharedRealm (r # rs) =
     (if rr_IsSharedRealm R r
      then if rr_IsMember R r pk then True else members_scan R pk True rs
      else members_scan R pk hasSharedRealm rs)"

definition passesMembersOnlyFilter :: "Index \<Rightarrow> ObjectMeta \<Rightarrow> bool" where
  "passesMembersOnlyFilter idx m =
     (if meta_IsPublic m then True
      else (case Resolver idx of None \<Rightarrow> True
        | Some R \<Rightarrow> members_scan R (meta_Pubkey m) False (meta_Realms m)))"

text \<open>The two guards every listing has: the caller may read, and the members-only filter.\<close>

definition visible :: "Index \<Rightarrow> string \<Rightarrow> bool \<Rightarrow> ObjectMeta \<Rightarrow> bool" where
  "visible idx authPubkey membersOnly m =
     (if \<not> CanRead (meta_Realms m) authPubkey (Resolver idx) then False
      else if membersOnly \<and> \<not> passesMembersOnlyFilter idx m then False
      else True)"

definition GetInbound ::
  "Index \<Rightarrow> ref \<Rightarrow> InboundFilters \<Rightarrow> string \<Rightarrow> bool \<Rightarrow> ObjectMeta list" where
  "GetInbound idx targetRef filters authPubkey membersOnly =
     sortMetaDesc (List.map_filter (\<lambda>e.
       if filter_Relation filters \<noteq> [] \<and> rel_Type e \<noteq> filter_Relation filters then None
       else (case mget (idx_meta idx) (rel_SourceRef e) of
          None \<Rightarrow> None
        | Some m \<Rightarrow>
            if \<not> visible idx authPubkey membersOnly m then None
            else if filter_From filters \<noteq> [] \<and> meta_Pubkey m \<noteq> filter_From filters then None
            else if filter_Type filters \<noteq> [] \<and> meta_Type m \<noteq> filter_Type filters then None
            else Some m)) (idx_inbound idx targetRef))"

definition GetByPubkey :: "Index \<Rightarrow> string \<Rightarrow> string \<Rightarrow> string \<Rightarrow> bool \<Rightarrow> ObjectMeta list" where
  "GetByPubkey idx pubkey typeFilter authPubkey membersOnly =
     sortMetaDesc (List.map_filter (\<lambda>ref. case mget (idx_meta idx) ref of
          None \<Rightarrow> None
        | Some m \<Rightarrow>
            if \<not> visible idx authPubkey membersOnly m then None
            else if typeFilter \<noteq> [] \<and> meta_Type m \<noteq> typeFilter then None
            else Some m) (idx_byPubkey idx pubkey))"

definition GetAll :: "Index \<Rightarrow> string \<Rightarrow> string \<Rightarrow> string \<Rightarrow> bool \<Rightarrow> ObjectMeta list" where
  "GetAll idx pubkey typeFilter authPubkey membersOnly =
     (if pubkey \<noteq> [] then GetByPubkey idx pubkey typeFilter authPubkey membersOnly
      else sortMetaDesc (filter (\<lambda>m. visible idx authPubkey membersOnly m \<and>
             \<not> (typeFilter \<noteq> [] \<and> meta_Type m \<noteq> typeFilter)) (mvals (idx_meta idx))))"

definition GetPageRefs :: "Index \<Rightarrow> ref list" where
  "GetPageRefs idx = map fst (filter (\<lambda>(ref, m). meta_Type m = ''PAGE'') (idx_meta idx))"

definition GetInboundCounts :: "Index \<Rightarrow> ref \<Rightarrow> (string, int) gomap" where
  "GetInboundCounts idx targetRef = fold (\<lambda>e counts.
       mput (rel_Type e) ((case mget counts (rel_Type e) of Some n \<Rightarrow> n | None \<Rightarrow> 0) + 1) counts)
     (idx_inbound idx targetRef) []"

section \<open>What the index represents\<close>

type_synonym objects = "ref \<Rightarrow> (Item \<times> instant \<times> InField) option"

text \<open>The entries an object contributes to a target, in the order the index adds them.\<close>

definition entries_to :: "ref \<Rightarrow> Item \<Rightarrow> ref \<Rightarrow> RelationEntry list" where
  "entries_to ref it t = concat (map (\<lambda>(relType, es).
     map (\<lambda>r. \<lparr>rel_SourceRef = ref, rel_Type = relType\<rparr>) (filter (\<lambda>r. r = t) (relation_targets es)))
     (item_Relations it))"

definition meta_repr :: "objects \<Rightarrow> Index \<Rightarrow> bool" where
  "meta_repr objs idx \<longleftrightarrow> mwf (idx_meta idx) \<and>
     (\<forall>ref. mget (idx_meta idx) ref = map_option (\<lambda>(it, ts, rs). meta_of ref it ts rs) (objs ref))"

definition owners_repr :: "objects \<Rightarrow> Index \<Rightarrow> bool" where
  "owners_repr objs idx \<longleftrightarrow> (\<forall>pk. distinct (idx_byPubkey idx pk) \<and>
     (\<forall>ref. ref \<in> set (idx_byPubkey idx pk) \<longleftrightarrow> (\<exists>it ts rs. objs ref = Some (it, ts, rs) \<and> item_Pubkey it = pk)))"

definition inbound_repr :: "objects \<Rightarrow> Index \<Rightarrow> bool" where
  "inbound_repr objs idx \<longleftrightarrow> (\<forall>t src. filter (\<lambda>e. rel_SourceRef e = src) (idx_inbound idx t) =
     (case objs src of None \<Rightarrow> [] | Some (it, ts, rs) \<Rightarrow> entries_to src it t))"

definition represents :: "objects \<Rightarrow> Index \<Rightarrow> bool" where
  "represents objs idx \<longleftrightarrow> meta_repr objs idx \<and> owners_repr objs idx \<and> inbound_repr objs idx \<and>
     merged_ok (idx_merged idx)"

named_theorems index_repr

lemma representsD [index_repr]:
  assumes "represents objs idx"
  shows "mwf (idx_meta idx)"
    and "mget (idx_meta idx) ref = map_option (\<lambda>(it, ts, rs). meta_of ref it ts rs) (objs ref)"
    and "distinct (idx_byPubkey idx pk)"
    and "ref \<in> set (idx_byPubkey idx pk) \<longleftrightarrow> (\<exists>it ts rs. objs ref = Some (it, ts, rs) \<and> item_Pubkey it = pk)"
    and "filter (\<lambda>e. rel_SourceRef e = src) (idx_inbound idx t) =
       (case objs src of None \<Rightarrow> [] | Some (it, ts, rs) \<Rightarrow> entries_to src it t)"
    and "merged_ok (idx_merged idx)"
  using assms by (auto simp: represents_def meta_repr_def owners_repr_def inbound_repr_def)

lemma idx_merged_ok: "merged_ok (idx_merged idx) \<longleftrightarrow> graph_opt_ok (idx_graph idx) \<and> toml_ok (idx_shared idx)"
  by (simp add: idx_merged_def NewMerged_def merged_ok_def)

lemma NewIndex_represents: "toml_ok shared \<Longrightarrow> represents Map.empty (NewIndex shared)"
  by (simp add: represents_def meta_repr_def owners_repr_def inbound_repr_def NewIndex_def
      idx_merged_ok graph_opt_ok_def)

lemma idx_cleared_represents:
  "merged_ok (idx_merged idx) \<Longrightarrow> represents Map.empty (idx_cleared idx)"
  by (auto simp: represents_def meta_repr_def owners_repr_def inbound_repr_def idx_cleared_def
      idx_merged_ok graph_opt_ok_def graph_Load_ok split: option.splits)

lemma source_in_objs:
  assumes "represents objs idx" and "e \<in> set (idx_inbound idx t)"
  shows "objs (rel_SourceRef e) \<noteq> None"
proof
  assume "objs (rel_SourceRef e) = None"
  with representsD(5) [OF assms(1), of "rel_SourceRef e" t]
  have "filter (\<lambda>x. rel_SourceRef x = rel_SourceRef e) (idx_inbound idx t) = []" by simp
  with assms(2) show False by (auto simp: filter_empty_conv)
qed

section \<open>Updates refine an update of the map\<close>

lemma removeLocked_absent:
  "represents objs idx \<Longrightarrow> objs ref = None \<Longrightarrow> removeLocked ref idx = idx"
  by (simp add: removeLocked_def representsD(2))

lemma removeLocked_fields:
  assumes "mget (idx_meta idx) ref = Some m"
  shows "idx_meta (removeLocked ref idx) = mdel ref (idx_meta idx)"
    and "idx_byPubkey (removeLocked ref idx) =
       (idx_byPubkey idx)(meta_Pubkey m := remove1 ref (idx_byPubkey idx (meta_Pubkey m)))"
    and "idx_inbound (removeLocked ref idx) t = filter (\<lambda>e. rel_SourceRef e \<noteq> ref) (idx_inbound idx t)"
    and "idx_shared (removeLocked ref idx) = idx_shared idx"
    and "idx_graph (removeLocked ref idx) = (if meta_Type m = TypeSharedRealm
       then map_option (graph_Remove ref) (idx_graph idx) else idx_graph idx)"
  using assms by (simp_all add: removeLocked_def Let_def)

lemma removeLocked_represents:
  assumes rep: "represents objs idx"
  shows "represents (objs(ref := None)) (removeLocked ref idx)"
proof (cases "objs ref")
  case None
  then have "objs(ref := None) = objs" by auto
  with rep None show ?thesis by (simp add: removeLocked_absent)
next
  case (Some ob)
  obtain it ts rs where ob: "ob = (it, ts, rs)" by (cases ob)
  let ?m = "meta_of ref it ts rs"
  have m: "mget (idx_meta idx) ref = Some ?m" using representsD(2) [OF rep] Some ob by simp
  note F = removeLocked_fields [OF m]
  have "meta_repr (objs(ref := None)) (removeLocked ref idx)"
    using representsD(1,2) [OF rep] by (auto simp: meta_repr_def F)
  moreover have "owners_repr (objs(ref := None)) (removeLocked ref idx)"
    using representsD(3,4) [OF rep] Some ob
    by (auto simp: owners_repr_def F meta_of_def)
  moreover have "inbound_repr (objs(ref := None)) (removeLocked ref idx)"
    unfolding inbound_repr_def
  proof (intro allI)
    fix t src
    have "filter (\<lambda>e. rel_SourceRef e = src) (idx_inbound (removeLocked ref idx) t) =
        (if src = ref then [] else filter (\<lambda>e. rel_SourceRef e = src) (idx_inbound idx t))"
      by (auto simp: F filter_empty_conv intro!: filter_cong)
    then show "filter (\<lambda>e. rel_SourceRef e = src) (idx_inbound (removeLocked ref idx) t) =
        (case (objs(ref := None)) src of None \<Rightarrow> [] | Some (it, ts, rs) \<Rightarrow> entries_to src it t)"
      using representsD(5) [OF rep, of src t] by simp
  qed
  moreover have "merged_ok (idx_merged (removeLocked ref idx))"
    using representsD(6) [OF rep]
    by (auto simp: idx_merged_ok F graph_opt_ok_def graph_Remove_ok split: option.splits)
  ultimately show ?thesis by (simp add: represents_def)
qed

lemma fold_add_inbound:
  "fold (add_inbound ref relType) rs inb t =
     inb t @ map (\<lambda>r. \<lparr>rel_SourceRef = ref, rel_Type = relType\<rparr>) (filter (\<lambda>r. r = t) rs)"
  by (induction rs arbitrary: inb) (auto simp: add_inbound_def)

lemma addLocked_inbound:
  "idx_inbound (addLocked ref it ts realms idx) t = idx_inbound idx t @ entries_to ref it t"
proof -
  have "fold (\<lambda>(relType, entries). fold (add_inbound ref relType) (relation_targets entries)) rels inb t
      = inb t @ concat (map (\<lambda>(relType, es). map (\<lambda>r. \<lparr>rel_SourceRef = ref, rel_Type = relType\<rparr>)
          (filter (\<lambda>r. r = t) (relation_targets es))) rels)" for rels inb
    by (induction rels arbitrary: inb) (auto simp: fold_add_inbound)
  then show ?thesis by (simp add: addLocked_def Let_def entries_to_def)
qed

lemma addLocked_fields:
  "idx_meta (addLocked ref it ts realms idx) =
     mput ref (meta_of ref it ts (resolved_realms it realms)) (idx_meta idx)"
  "idx_byPubkey (addLocked ref it ts realms idx) =
     (idx_byPubkey idx)(item_Pubkey it := idx_byPubkey idx (item_Pubkey it) @ [ref])"
  "idx_shared (addLocked ref it ts realms idx) = idx_shared idx"
  "idx_graph (addLocked ref it ts realms idx) = (if item_Type it = TypeSharedRealm
     then map_option (graph_Add it) (idx_graph idx) else idx_graph idx)"
  by (simp_all add: addLocked_def Let_def)

lemma entries_to_source: "e \<in> set (entries_to ref it t) \<Longrightarrow> rel_SourceRef e = ref"
  by (auto simp: entries_to_def)

lemma addLocked_represents:
  assumes rep: "represents objs idx" and new: "objs ref = None"
  shows "represents (objs(ref \<mapsto> (it, ts, resolved_realms it realms))) (addLocked ref it ts realms idx)"
    (is "represents ?objs ?idx")
proof -
  have "meta_repr ?objs ?idx"
    using representsD(1,2) [OF rep] by (auto simp: meta_repr_def addLocked_fields)
  moreover have "owners_repr ?objs ?idx"
    using representsD(3,4) [OF rep] new by (auto simp: owners_repr_def addLocked_fields)
  moreover have "inbound_repr ?objs ?idx"
    unfolding inbound_repr_def
  proof (intro allI)
    fix t src
    have "filter (\<lambda>e. rel_SourceRef e = src) (entries_to ref it t) =
        (if src = ref then entries_to ref it t else [])"
      using entries_to_source [of _ ref it t] by (auto simp: filter_id_conv filter_empty_conv)
    then show "filter (\<lambda>e. rel_SourceRef e = src) (idx_inbound ?idx t) =
        (case ?objs src of None \<Rightarrow> [] | Some (it, ts, rs) \<Rightarrow> entries_to src it t)"
      using representsD(5) [OF rep, of src t] new by (simp add: addLocked_inbound)
  qed
  moreover have "merged_ok (idx_merged ?idx)"
    using representsD(6) [OF rep]
    by (auto simp: idx_merged_ok addLocked_fields graph_opt_ok_def graph_Add_ok split: option.splits)
  ultimately show ?thesis by (simp add: represents_def)
qed

lemma idx_Update_represents:
  assumes "represents objs idx"
  shows "represents (objs(ref \<mapsto> (it, ts, resolved_realms it realms))) (idx_Update ref it ts realms idx)"
  using addLocked_represents [OF removeLocked_represents [OF assms, of ref], of ref it ts realms]
  by (simp add: idx_Update_def)

text \<open>The objects a scan of the disk loads, over those already there.\<close>

definition loaded :: "world \<Rightarrow> Store \<Rightarrow> disk \<Rightarrow> ref \<Rightarrow> (Item \<times> instant \<times> InField) option" where
  "loaded w s d ref = map_option (\<lambda>(it, ts, rs). (it, ts, resolved_realms it [rs])) (load_object w s d ref)"

definition scanned :: "world \<Rightarrow> Store \<Rightarrow> disk \<Rightarrow> ref list \<Rightarrow> objects \<Rightarrow> objects" where
  "scanned w s d refs objs r = (if r \<in> set refs then loaded w s d r else objs r)"

lemma scanned_Nil [simp]: "scanned w s d [] objs = objs"
  by (simp add: scanned_def fun_eq_iff)

lemma scanned_Cons:
  assumes "r \<notin> set refs" and "objs r = None"
  shows "scanned w s d (r # refs) objs = scanned w s d refs (objs(r := loaded w s d r))"
  using assms by (auto simp: scanned_def fun_eq_iff)

lemma rebuild_scan_represents:
  assumes "represents objs idx" and "distinct refs" and "\<And>r. r \<in> set refs \<Longrightarrow> objs r = None"
  shows "represents (scanned w s d refs objs) (snd (rebuild_scan w s d refs n idx))"
  using assms
proof (induction refs arbitrary: objs idx n)
  case (Cons r refs)
  from Cons.prems have new: "objs r = None" and nin: "r \<notin> set refs" and dist: "distinct refs" by auto
  show ?case
  proof (cases "load_object w s d r")
    case None
    then have "objs(r := loaded w s d r) = objs" using new by (auto simp: loaded_def)
    with None Cons.IH [of objs idx n] Cons.prems show ?thesis by (simp add: scanned_Cons nin new)
  next
    case (Some ob)
    obtain it ts rs where ob: "ob = (it, ts, rs)" by (cases ob)
    from addLocked_represents [OF Cons.prems(1) new, of it ts "[rs]"] Some ob
    have "represents (objs(r := loaded w s d r)) (addLocked r it ts [rs] idx)" by (simp add: loaded_def)
    from Cons.IH [OF this dist, of "n + 1"] Cons.prems(3) nin
    have "represents (scanned w s d refs (objs(r := loaded w s d r)))
        (snd (rebuild_scan w s d refs (n + 1) (addLocked r it ts [rs] idx)))"
      by (metis fun_upd_apply list.set_intros(2))
    with Some ob show ?thesis by (simp add: scanned_Cons nin new del: fun_upd_apply)
  qed
qed simp

lemma file_names_distinct:
  assumes "mwf d"
  shows "distinct (file_names dir d)"
proof -
  let ?ps = "filter (\<lambda>p. p \<noteq> [] \<and> butlast p = dir) (mkeys d)"
  have "inj_on last (set ?ps)"
    by (rule inj_onI) (simp, metis append_butlast_last_id)
  then have "distinct (map last ?ps)"
    unfolding distinct_map using mwf_distinct_keys [OF assms] by (simp only: distinct_filter simp_thms)
  then show ?thesis by (simp only: file_names_def distinct_sort)
qed

lemma Scan_distinct:
  assumes "mwf d" and "Scan w s d = Inr refs"
  shows "distinct refs"
proof -
  let ?names = "filter (\<lambda>n. has_suffix n ''.json'' \<and> \<not> has_prefix n ''.'') (file_names (store_dir s) d)"
  have "inj_on (\<lambda>n. trim_suffix n ''.json'') (set ?names)"
    by (rule inj_onI) (auto elim!: has_suffixE)
  then have "distinct (map (\<lambda>n. trim_suffix n ''.json'') ?names)"
    unfolding distinct_map using file_names_distinct [OF assms(1)] by (simp only: distinct_filter simp_thms)
  moreover from assms(2) have "refs = map (\<lambda>n. trim_suffix n ''.json'') ?names"
    by (simp add: Scan_def split: if_splits)
  ultimately show ?thesis by (simp only:)
qed

text \<open>After a rebuild the index represents the objects on the disk, whatever it held before.\<close>

definition stored :: "world \<Rightarrow> Store \<Rightarrow> disk \<Rightarrow> objects" where
  "stored w s d ref = (case Scan w s d of Inr refs \<Rightarrow> scanned w s d refs Map.empty ref | Inl e \<Rightarrow> None)"

lemma Rebuild_stored:
  assumes "mwf d" and "merged_ok (idx_merged idx)" and "Rebuild w s d idx = Inr (n, idx')"
  shows "represents (stored w s d) idx'"
proof -
  from assms(3) obtain refs where sc: "Scan w s d = Inr refs"
    and idx': "(n, idx') = rebuild_scan w s d refs 0 (idx_cleared idx)"
    by (auto simp: Rebuild_def split: sum.splits)
  have "stored w s d = scanned w s d refs Map.empty" by (simp add: stored_def sc fun_eq_iff)
  with rebuild_scan_represents [OF idx_cleared_represents [OF assms(2)] Scan_distinct [OF assms(1) sc],
      of w s d 0] idx'
  show ?thesis by (metis snd_conv)
qed

lemma stored_valid:
  assumes "Scan w s d = Inr refs" and "IsValidRef ref"
  shows "stored w s d ref = loaded w s d ref"
proof -
  have "loaded w s d ref = None" if "\<not> Exists s d ref"
    using that by (cases "mget d (live_path s ref)")
      (simp_all add: Exists_def loaded_def load_object_def Read_def Let_def)
  then show ?thesis
    using Scan_set [OF assms] by (auto simp: stored_def assms(1) scanned_def)
qed

section \<open>Queries over the map\<close>

lemma members_scan_iff:
  "members_scan R pk h rs \<longleftrightarrow> (\<exists>r\<in>set rs. rr_IsSharedRealm R r \<and> rr_IsMember R r pk) \<or>
     (\<not> h \<and> (\<forall>r\<in>set rs. \<not> rr_IsSharedRealm R r))"
  by (induction rs arbitrary: h) auto

lemma visible_readable: "visible idx pk mo m \<Longrightarrow> CanRead (meta_Realms m) pk (Resolver idx)"
  by (simp add: visible_def split: if_splits)

lemma visible_all: "visible idx pk False m \<longleftrightarrow> CanRead (meta_Realms m) pk (Resolver idx)"
  by (simp add: visible_def)

lemma set_sortMetaDesc [simp]: "set (sortMetaDesc ms) = set ms"
  by (simp add: sortMetaDesc_def)

lemma sorted_sortMetaDesc: "sorted (map meta_key (sortMetaDesc ms))"
  by (simp add: sortMetaDesc_def)

lemma set_map_filter: "set (List.map_filter f xs) = {y. \<exists>x\<in>set xs. f x = Some y}"
  by (induction xs) (auto simp: map_filter_simps split: option.splits)

lemma meta_in_vals:
  assumes "represents objs idx"
  shows "m \<in> set (mvals (idx_meta idx)) \<longleftrightarrow>
     (\<exists>ref it ts rs. objs ref = Some (it, ts, rs) \<and> m = meta_of ref it ts rs)"
  using representsD(2) [OF assms] by (auto simp: in_mvals_iff [OF representsD(1) [OF assms]])

lemma guarded_Some:
  "(case x of None \<Rightarrow> None | Some m \<Rightarrow> if \<not> v m then None else if c m then None else Some m) = Some n \<longleftrightarrow>
     x = Some n \<and> v n \<and> \<not> c n"
  by (cases x) auto

lemma GetByPubkey_iff:
  "m \<in> set (GetByPubkey idx pubkey typeFilter pk mo) \<longleftrightarrow>
     (\<exists>ref\<in>set (idx_byPubkey idx pubkey). mget (idx_meta idx) ref = Some m) \<and>
     visible idx pk mo m \<and> (typeFilter = [] \<or> meta_Type m = typeFilter)"
  unfolding GetByPubkey_def set_sortMetaDesc set_map_filter guarded_Some by blast

lemma meta_Pubkey_meta_of [simp]: "meta_Pubkey (meta_of ref it ts rs) = item_Pubkey it"
  by (simp add: meta_of_def)

lemma lookup_meta:
  assumes "represents objs idx"
  shows "mget (idx_meta idx) ref = Some m \<longleftrightarrow>
     (\<exists>it ts rs. objs ref = Some (it, ts, rs) \<and> m = meta_of ref it ts rs)"
  unfolding representsD(2) [OF assms] by auto

lemma owned_meta:
  assumes "represents objs idx"
  shows "(\<exists>ref\<in>set (idx_byPubkey idx pubkey). mget (idx_meta idx) ref = Some m) \<longleftrightarrow>
     (\<exists>ref it ts rs. objs ref = Some (it, ts, rs) \<and> m = meta_of ref it ts rs) \<and> meta_Pubkey m = pubkey"
  unfolding Bex_def representsD(4) [OF assms] lookup_meta [OF assms] by fastforce

lemma GetAll_iff:
  assumes rep: "represents objs idx"
  shows "m \<in> set (GetAll idx pubkey typeFilter pk mo) \<longleftrightarrow>
     (\<exists>ref it ts rs. objs ref = Some (it, ts, rs) \<and> m = meta_of ref it ts rs) \<and>
     visible idx pk mo m \<and> (pubkey = [] \<or> meta_Pubkey m = pubkey) \<and>
     (typeFilter = [] \<or> meta_Type m = typeFilter)"
proof (cases "pubkey = []")
  case True
  then show ?thesis using meta_in_vals [OF rep, of m] by (auto simp: GetAll_def)
next
  case False
  then have "GetAll idx pubkey typeFilter pk mo = GetByPubkey idx pubkey typeFilter pk mo"
    by (simp add: GetAll_def)
  with False show ?thesis by (simp only: GetByPubkey_iff owned_meta [OF rep]) auto
qed

lemma GetInbound_iff:
  "m \<in> set (GetInbound idx t fs pk mo) \<longleftrightarrow>
     (\<exists>e\<in>set (idx_inbound idx t). mget (idx_meta idx) (rel_SourceRef e) = Some m \<and>
        (filter_Relation fs = [] \<or> rel_Type e = filter_Relation fs)) \<and> visible idx pk mo m \<and>
     (filter_From fs = [] \<or> meta_Pubkey m = filter_From fs) \<and>
     (filter_Type fs = [] \<or> meta_Type m = filter_Type fs)"
proof -
  have pick: "(if a then None else case x of None \<Rightarrow> None
      | Some m \<Rightarrow> if \<not> v m then None else if b m then None else if c m then None else Some m) = Some n \<longleftrightarrow>
      \<not> a \<and> x = Some n \<and> v n \<and> \<not> b n \<and> \<not> c n" for a x v b c n
    by (cases x) auto
  show ?thesis
    unfolding GetInbound_def set_sortMetaDesc set_map_filter pick by blast
qed

lemma GetInbound_readable:
  "m \<in> set (GetInbound idx t fs pk mo) \<Longrightarrow>
     CanRead (meta_Realms m) pk (Resolver idx) \<and> (\<exists>ref. mget (idx_meta idx) ref = Some m)"
  using visible_readable by (auto simp: GetInbound_iff)

lemma inbound_iff:
  assumes "represents objs idx"
  shows "e \<in> set (idx_inbound idx t) \<longleftrightarrow>
     (\<exists>it ts rs. objs (rel_SourceRef e) = Some (it, ts, rs) \<and> e \<in> set (entries_to (rel_SourceRef e) it t))"
proof -
  have "e \<in> set (idx_inbound idx t) \<longleftrightarrow>
      e \<in> set (filter (\<lambda>x. rel_SourceRef x = rel_SourceRef e) (idx_inbound idx t))" by simp
  then show ?thesis
    unfolding representsD(5) [OF assms] by (cases "objs (rel_SourceRef e)") auto
qed

lemma sorted_GetAll: "sorted (map meta_key (GetAll idx pubkey ty pk mo))"
  by (simp add: GetAll_def GetByPubkey_def sorted_sortMetaDesc)

lemma sorted_GetInbound: "sorted (map meta_key (GetInbound idx t fs pk mo))"
  by (simp add: GetInbound_def sorted_sortMetaDesc)

section \<open>A listing holds every object once\<close>

lemma meta_Ref_meta_of [simp]: "meta_Ref (meta_of ref it ts rs) = ref"
  by (simp add: meta_of_def)

lemma lookup_ref: "represents objs idx \<Longrightarrow> mget (idx_meta idx) ref = Some m \<Longrightarrow> meta_Ref m = ref"
  by (auto simp: lookup_meta)

lemma map_filter_refs:
  assumes "\<And>r m. f r = Some m \<Longrightarrow> g m = r"
  shows "set (map g (List.map_filter f rs)) \<subseteq> set rs"
    and "distinct rs \<Longrightarrow> distinct (map g (List.map_filter f rs))"
proof -
  show sub: "set (map g (List.map_filter f rs)) \<subseteq> set rs" for rs
    using assms by (auto simp: set_map_filter)
  show "distinct rs \<Longrightarrow> distinct (map g (List.map_filter f rs))"
  proof (induction rs)
    case (Cons r rs)
    then show ?case using sub [of rs] assms [of r]
      by (auto simp: map_filter_simps split: option.splits)
  qed (simp add: map_filter_simps)
qed

lemma meta_key_ref: "map meta_Ref ms = map key_ref (map meta_key ms)"
  by (simp add: meta_key_def)

lemma distinct_keys: "distinct (map meta_Ref ms) \<Longrightarrow> distinct (map meta_key ms)"
  unfolding meta_key_ref by (simp only: distinct_map)

lemma distinct_sortMetaDesc: "distinct (map meta_key (sortMetaDesc ms)) \<longleftrightarrow> distinct (map meta_key ms)"
  by (simp add: distinct_map sortMetaDesc_def)

lemma mvals_refs: "represents objs idx \<Longrightarrow> map meta_Ref (mvals (idx_meta idx)) = mkeys (idx_meta idx)"
  using lookup_ref [of objs idx] mget_iff_in [OF representsD(1)]
  by (fastforce simp: mvals_def mkeys_def)

lemma GetAll_distinct:
  assumes rep: "represents objs idx"
  shows "distinct (map meta_key (GetAll idx pubkey ty pk mo))"
proof -
  let ?m = "idx_meta idx"
  have "distinct (map meta_Ref (filter P (mvals ?m)))" for P
    using mwf_distinct_keys [OF representsD(1) [OF rep]] mvals_refs [OF rep] distinct_map_filter by metis
  then have all: "distinct (map meta_key (filter P (mvals ?m)))" for P by (rule distinct_keys)
  have own: "distinct (map meta_key (List.map_filter (\<lambda>ref. case mget ?m ref of None \<Rightarrow> None
      | Some m \<Rightarrow> if \<not> v m then None else if c m then None else Some m) (idx_byPubkey idx pubkey)))" for v c
    by (intro distinct_keys map_filter_refs(2) representsD(3) [OF rep])
      (auto simp: guarded_Some dest: lookup_ref [OF rep])
  show ?thesis
    using all own by (simp add: GetAll_def GetByPubkey_def distinct_sortMetaDesc)
qed

lemma GetAll_ascending:
  "represents objs idx \<Longrightarrow> sorted_wrt (<) (map meta_key (GetAll idx pubkey ty pk mo))"
  using GetAll_distinct sorted_GetAll by (auto simp: strict_sorted_iff)

section \<open>Listings depend on readable objects only\<close>

lemma same_key_list:
  assumes "sorted_wrt (<) (map f xs)" and "sorted_wrt (<) (map (f :: 'a \<Rightarrow> 'b::linorder) ys)" and "set xs = set ys"
  shows "xs = ys"
proof -
  have "map f xs = map f ys"
    using assms strict_sorted_equal [of "map f xs" "map f ys"] by simp
  moreover have "inj_on f (set xs \<union> set ys)"
    using assms strict_sorted_iff [of "map f xs"] by (simp add: distinct_map)
  ultimately show ?thesis by (rule map_inj_on)
qed

text \<open>The objects a caller may read, under the realms an index knows.\<close>

definition readable :: "Index \<Rightarrow> string \<Rightarrow> objects \<Rightarrow> objects" where
  "readable idx pk objs ref = (case objs ref of None \<Rightarrow> None
     | Some (it, ts, rs) \<Rightarrow> if CanRead rs pk (Resolver idx) then Some (it, ts, rs) else None)"

lemma readable_Some:
  "readable idx pk objs ref = Some (it, ts, rs) \<longleftrightarrow> objs ref = Some (it, ts, rs) \<and> CanRead rs pk (Resolver idx)"
  by (auto simp: readable_def split: option.splits)

lemma visible_cong:
  "idx_merged idx = idx_merged idx' \<Longrightarrow> visible idx pk mo m = visible idx' pk mo m"
  by (simp add: visible_def passesMembersOnlyFilter_def Resolver_def)

lemma GetAll_readable_iff:
  assumes "represents objs idx"
  shows "m \<in> set (GetAll idx pubkey ty pk mo) \<longleftrightarrow>
     (\<exists>ref it ts rs. readable idx pk objs ref = Some (it, ts, rs) \<and> m = meta_of ref it ts rs) \<and>
     visible idx pk mo m \<and> (pubkey = [] \<or> meta_Pubkey m = pubkey) \<and> (ty = [] \<or> meta_Type m = ty)"
proof -
  have "visible idx pk mo (meta_of ref it ts rs) \<Longrightarrow> CanRead rs pk (Resolver idx)" for ref it ts rs
    using visible_readable [of idx pk mo "meta_of ref it ts rs"] by (simp add: meta_of_def)
  then show ?thesis unfolding GetAll_iff [OF assms] readable_Some by blast
qed

section \<open>Properties\<close>

definition demo_note :: Item where
  "demo_note = zero_Item\<lparr>item_Pubkey := ''alice'', item_ID := ''1'', item_Type := ''NOTE'', item_Revision := 3,
     item_Relations := [(''page'', [JObj [(''ref'', JStr ''target'')]])]\<rparr>"

definition demo_index :: Index where
  "demo_index = idx_Update ''private'' demo_note 20 [[''alice'']]
     (idx_Update ''public'' demo_note 10 [[''dataverse001'']] (NewIndex (Some [])))"

definition demo_objects :: objects where
  "demo_objects = Map.empty(''public'' \<mapsto> (demo_note, 10, [''dataverse001'']),
     ''private'' \<mapsto> (demo_note, 20, [''alice'']))"

lemma demo_represents: "represents demo_objects demo_index"
proof -
  have "resolved_realms demo_note [rs] = rs" if "rs \<noteq> []" for rs using that by (simp add: resolved_realms_def)
  then have "resolved_realms demo_note [[''dataverse001'']] = [''dataverse001'']"
    "resolved_realms demo_note [[''alice'']] = [''alice'']" by simp_all
  moreover have "toml_ok (Some [])" by (simp add: toml_ok_def mwf_def)
  ultimately show ?thesis
    unfolding demo_index_def demo_objects_def
    using idx_Update_represents [OF idx_Update_represents [OF NewIndex_represents]] by metis
qed

text \<open>
  C16 The index is a refinement of a plain map from references to objects. Updating an object in the
  index is updating the map at its reference, removing it is removing the entry, and looking up an
  object's metadata reads the map: all the lists kept per key and per relation target follow.
\<close>

theorem index_refines_map:
  assumes "represents objs idx"
  shows "represents (objs(ref \<mapsto> (it, ts, resolved_realms it realms))) (idx_Update ref it ts realms idx) \<and>
    represents (objs(ref := None)) (idx_Remove ref idx) \<and>
    GetMeta idx ref = map_option (\<lambda>(it, ts, rs). meta_of ref it ts rs) (objs ref)"
  using idx_Update_represents [OF assms] removeLocked_represents [OF assms] representsD(2) [OF assms]
  by (simp add: idx_Remove_def GetMeta_def)

theorem index_refines_map_witness:
  "GetMeta demo_index ''private'' = Some (meta_of ''private'' demo_note 20 [''alice'']) \<and>
   GetMeta (idx_Remove ''private'' demo_index) ''private'' = None"
  using index_refines_map [OF demo_represents, of "''private''"]
    index_refines_map [of "demo_objects(''private'' := None)" "idx_Remove ''private'' demo_index" "''private''"]
  by (simp add: demo_objects_def)

text \<open>
  Rebuilding from disk gives the index of exactly the files that can be read and parsed, whatever
  the index held before; a well-shaped reference is indexed with the object its own file holds.
\<close>

theorem rebuild_matches_disk:
  assumes "mwf d" and "merged_ok (idx_merged idx)" and "Rebuild w s d idx = Inr (n, idx')"
  shows "represents (stored w s d) idx' \<and> (IsValidRef ref \<longrightarrow> stored w s d ref =
    (if Exists s d ref then loaded w s d ref else None))"
proof -
  obtain refs where scan: "Scan w s d = Inr refs"
    using assms(3) by (auto simp: Rebuild_def split: sum.splits)
  have "stored w s d ref = (if Exists s d ref then loaded w s d ref else None)" if "IsValidRef ref"
    using Scan_set [OF scan that] scan by (simp add: stored_def scanned_def)
  with Rebuild_stored [OF assms] show ?thesis by blast
qed

theorem rebuild_matches_disk_witness:
  "\<exists>n idx'. Rebuild calm_world demo_store demo_disk demo_index = Inr (n, idx') \<and>
     represents (stored calm_world demo_store demo_disk) idx'"
proof -
  obtain n idx' where r: "Rebuild calm_world demo_store demo_disk demo_index = Inr (n, idx')"
    by (cases "rebuild_scan calm_world demo_store demo_disk
        (case Scan calm_world demo_store demo_disk of Inr refs \<Rightarrow> refs) 0 (idx_cleared demo_index)")
      (simp add: Rebuild_def Scan_def calm_world_def)
  have "mwf demo_disk" by (simp add: demo_disk_def)
  from rebuild_matches_disk [OF this representsD(6) [OF demo_represents] r] r show ?thesis by blast
qed

text \<open>
  C17 A listing is exact, private and in order. \<open>GetAll\<close> returns the objects of the map that the caller
  may read and that pass the filters, each once, newest first with ties broken by reference.
\<close>

theorem listing_exact:
  assumes "represents objs idx"
  shows "(m \<in> set (GetAll idx pubkey ty pk mo) \<longleftrightarrow>
      (\<exists>ref it ts rs. objs ref = Some (it, ts, rs) \<and> CanRead rs pk (Resolver idx) \<and> m = meta_of ref it ts rs) \<and>
      (mo \<longrightarrow> passesMembersOnlyFilter idx m) \<and> (pubkey = [] \<or> meta_Pubkey m = pubkey) \<and>
      (ty = [] \<or> meta_Type m = ty)) \<and>
    sorted_wrt (\<lambda>a b. meta_UpdatedAt b < meta_UpdatedAt a \<or>
      meta_UpdatedAt b = meta_UpdatedAt a \<and> go_less (meta_Ref b) (meta_Ref a)) (GetAll idx pubkey ty pk mo)"
proof
  show "m \<in> set (GetAll idx pubkey ty pk mo) \<longleftrightarrow>
      (\<exists>ref it ts rs. objs ref = Some (it, ts, rs) \<and> CanRead rs pk (Resolver idx) \<and> m = meta_of ref it ts rs) \<and>
      (mo \<longrightarrow> passesMembersOnlyFilter idx m) \<and> (pubkey = [] \<or> meta_Pubkey m = pubkey) \<and>
      (ty = [] \<or> meta_Type m = ty)"
    unfolding GetAll_iff [OF assms] visible_def by (auto simp: meta_of_def)
  have "sorted_wrt (\<lambda>a b. meta_key a < meta_key b) (GetAll idx pubkey ty pk mo)"
    using GetAll_ascending [OF assms] by (simp add: sorted_wrt_map)
  then show "sorted_wrt (\<lambda>a b. meta_UpdatedAt b < meta_UpdatedAt a \<or>
      meta_UpdatedAt b = meta_UpdatedAt a \<and> go_less (meta_Ref b) (meta_Ref a)) (GetAll idx pubkey ty pk mo)"
    by (rule sorted_wrt_mono_rel [rotated]) (auto simp: meta_key_def less_meta_key_def split: if_splits)
qed

lemma demo_private: "demo_objects ''private'' = Some (demo_note, 20, [''alice''])"
  by (simp add: demo_objects_def)

theorem listing_exact_witness:
  "map meta_Ref (GetAll demo_index [] [] ''alice'' False) = [''private'', ''public''] \<and>
   meta_of ''private'' demo_note 20 [''alice''] \<in> set (GetAll demo_index [] [] ''alice'' False)"
proof -
  have "map meta_Ref (GetAll demo_index [] [] ''alice'' False) = [''private'', ''public'']" by code_simp
  moreover have "CanRead [''alice''] ''alice'' (Resolver demo_index)" by (simp add: Resolver_def CanRead_Some_iff)
  ultimately show ?thesis
    using listing_exact [OF demo_represents, of "meta_of ''private'' demo_note 20 [''alice'']" "[]" "[]" "''alice''" False]
      demo_private by blast
qed

text \<open>
  Objects a caller may not read have no influence on the caller's listings: two indexes that know
  the same realms and agree on the readable objects give the same list, element for element.
\<close>

theorem listing_hides_unreadable:
  assumes "represents objs idx" and "represents objs' idx'" and "idx_merged idx = idx_merged idx'"
    and "readable idx pk objs = readable idx' pk objs'"
  shows "GetAll idx pubkey ty pk mo = GetAll idx' pubkey ty pk mo"
proof (rule same_key_list)
  show "sorted_wrt (<) (map meta_key (GetAll idx pubkey ty pk mo))" by (rule GetAll_ascending [OF assms(1)])
  show "sorted_wrt (<) (map meta_key (GetAll idx' pubkey ty pk mo))" by (rule GetAll_ascending [OF assms(2)])
  show "set (GetAll idx pubkey ty pk mo) = set (GetAll idx' pubkey ty pk mo)"
    by (auto simp: GetAll_readable_iff [OF assms(1)] GetAll_readable_iff [OF assms(2)] assms(4)
        visible_cong [OF assms(3)])
qed

theorem listing_hides_unreadable_witness:
  "GetAll (idx_Remove ''private'' demo_index) [] [] ''bob'' True = GetAll demo_index [] [] ''bob'' True"
proof (rule listing_hides_unreadable [OF _ demo_represents])
  show "represents (demo_objects(''private'' := None)) (idx_Remove ''private'' demo_index)"
    using removeLocked_represents [OF demo_represents] by (simp add: idx_Remove_def)
  show m: "idx_merged (idx_Remove ''private'' demo_index) = idx_merged demo_index" by code_simp
  have "\<not> CanRead [''alice''] ''bob'' (Resolver demo_index)" by code_simp
  then show "readable (idx_Remove ''private'' demo_index) ''bob'' (demo_objects(''private'' := None)) =
      readable demo_index ''bob'' demo_objects"
    by (intro ext) (simp add: readable_def demo_objects_def Resolver_def m)
qed

end
