(* ===== verification/Serving_Content.thy ===== *)
theory Serving_Content
  imports Serving_Origin Object_Verify Store_Index
begin

text \<open>
  The helpers of \<open>serving/handlers.go\<close> and \<open>serving/projection.go\<close> that read a stored object: the
  negotiation on \<open>Accept\<close>, a BLOB's payload, a page's HTML and the tag injected into it, the
  stripping of payloads from listings, and the parsing of the paging parameters.
\<close>

section \<open>Negotiation\<close>

definition accept_types :: "request \<Rightarrow> string list" where
  "accept_types r = map (\<lambda>part. trim_space (hd (split_on (CHR '';'') part)))
     (split_on (CHR '','') (req_header r ''Accept''))"

definition acceptsHTML :: "request \<Rightarrow> bool" where
  "acceptsHTML r = list_ex (\<lambda>mt. mt = ''text/html'') (accept_types r)"

definition acceptsMimeType :: "request \<Rightarrow> string \<Rightarrow> bool" where
  "acceptsMimeType r mimeType =
     (if mimeType = [] then False
      else (case cut_byte (CHR ''/'') mimeType of
          None \<Rightarrow> False
        | Some (mainType, rest) \<Rightarrow>
            let wildcard = mainType @ ''/*'' in
            list_ex (\<lambda>mt. mt = mimeType \<or> mt = wildcard \<or> mt = ''*/*'') (accept_types r)))"

section \<open>Payloads\<close>

record blobPayload =
  blob_ref :: ref
  blob_mimeType :: string
  blob_dataB64 :: string
  blob_text :: string

definition blobContent :: "bytes \<Rightarrow> blobPayload option" where
  "blobContent data = (case ParseEnvelope data of
      Inl e \<Rightarrow> None
    | Inr (env, it) \<Rightarrow>
        if item_Type it \<noteq> ''BLOB'' then None
        else (case item_Content it of
            Some (JObj ms) \<Rightarrow>
              (let (mime, ok1) = decode_field dec_string [] ''mime_type'' ms;
                   (d, ok2) = decode_field dec_string [] ''data'' ms;
                   (t, ok3) = decode_field dec_string [] ''text'' ms
               in if \<not> (ok1 \<and> ok2 \<and> ok3) \<or> mime = [] then None
                  else if d = [] \<and> t = [] then None
                  else Some \<lparr>blob_ref = item_Ref it, blob_mimeType = mime, blob_dataB64 = d, blob_text = t\<rparr>)
          | _ \<Rightarrow> None))"

definition blob_decode :: "blobPayload \<Rightarrow> bytes option" where
  "blob_decode b = (if blob_text b \<noteq> [] then Some (blob_text b) else std_decode (blob_dataB64 b))"

definition blobRaw :: "bytes \<Rightarrow> (string \<times> bytes) option" where
  "blobRaw data = (case blobContent data of None \<Rightarrow> None
     | Some b \<Rightarrow> (case blob_decode b of None \<Rightarrow> None | Some raw \<Rightarrow> Some (blob_mimeType b, raw)))"

definition writeBlobBytes :: "string \<Rightarrow> bytes \<Rightarrow> response \<Rightarrow> response" where
  "writeBlobBytes mimeType raw resp = write_body raw (with_status 200
     (set_header ''Cache-Control'' ''public, max-age=86400, immutable''
       (set_header ''Content-Length'' (itoa (int (length raw)))
         (set_header ''Content-Type'' mimeType resp))))"

text \<open>\<open>serveBlob\<close>: the response when it handled the request.\<close>

definition serveBlob :: "request \<Rightarrow> bytes \<Rightarrow> response \<Rightarrow> response option" where
  "serveBlob r data resp = (case blobContent data of None \<Rightarrow> None
     | Some b \<Rightarrow> if \<not> acceptsMimeType r (blob_mimeType b) then None
         else (case blob_decode b of None \<Rightarrow> None
           | Some raw \<Rightarrow> Some (writeBlobBytes (blob_mimeType b) raw resp)))"

definition extractHTML :: "Item \<Rightarrow> string" where
  "extractHTML it = (case item_Content it of
      Some (JObj ms) \<Rightarrow> (case decode_field dec_string [] ''html'' ms of (h, ok) \<Rightarrow> if ok then h else [])
    | _ \<Rightarrow> [])"

definition pageOwnHTML :: "bytes \<Rightarrow> string" where
  "pageOwnHTML data = (case ParseEnvelope data of
      Inl e \<Rightarrow> []
    | Inr (env, it) \<Rightarrow> if item_Type it \<noteq> ''PAGE'' then [] else extractHTML it)"

definition base_domain_tag :: "string \<Rightarrow> string" where
  "base_domain_tag baseDomain = ''<meta name='' @ [CHR 0x22] @ ''dv-base-domain'' @ [CHR 0x22] @
     '' content='' @ [CHR 0x22] @ baseDomain @ [CHR 0x22] @ ''>''"

text \<open>
  \<open>injectBaseDomain\<close>: the position of the head is found in the lowered text and used in the
  original one. \<open>None\<close> is the panic of a slice bound beyond the original.
\<close>

definition injectBaseDomain :: "world \<Rightarrow> string \<Rightarrow> string \<Rightarrow> string option" where
  "injectBaseDomain w html baseDomain =
     (if baseDomain = [] then Some html
      else let tag = base_domain_tag baseDomain in
        (case index_str (to_lower (w_lower w) html) ''<head'' of
           Some idx \<Rightarrow>
             if length html < idx then None
             else (case index_byte (drop idx html) (CHR ''>'') of
                 Some close \<Rightarrow> let pos = idx + close + 1 in
                   Some (take pos html @ [CHR 0x0A] @ tag @ drop pos html)
               | None \<Rightarrow> Some (tag @ [CHR 0x0A] @ html))
         | None \<Rightarrow> Some (tag @ [CHR 0x0A] @ html)))"

text \<open>
  \<open>writePageHTML\<close> has sent the header when it injects the tag, so a panic there leaves a 200
  without a body (the recovering middleware cannot change the status any more).
\<close>

definition writePageHTML :: "world \<Rightarrow> string \<Rightarrow> string \<Rightarrow> response \<Rightarrow> response" where
  "writePageHTML w html baseDomain resp =
     write_body (case injectBaseDomain w html baseDomain of Some h \<Rightarrow> h | None \<Rightarrow> [])
       (with_status 200 (set_header ''Content-Type'' ''text/html; charset=utf-8'' resp))"

section \<open>Listings\<close>

text \<open>A BLOB in a listing has no payload; what is not a chain of objects is left as it is.\<close>

definition stripBlobData :: "bytes \<Rightarrow> bytes" where
  "stripBlobData data = (case raw_map data of
      Some (Some obj) \<Rightarrow> (case mget obj ''item'' of
        None \<Rightarrow> data
      | Some itemRaw \<Rightarrow> (case raw_map itemRaw of
          Some (Some it) \<Rightarrow> (case mget it ''content'' of
            None \<Rightarrow> data
          | Some contentRaw \<Rightarrow> (case raw_map contentRaw of
              None \<Rightarrow> data
            | Some content \<Rightarrow>
                (let content = map_option (\<lambda>c. mdel ''text'' (mdel ''data'' c)) content;
                     it = mput ''content'' (marshal_map content) it;
                     obj = mput ''item'' (marshal_map (Some it)) obj
                 in marshal_map (Some obj))))
        | _ \<Rightarrow> data))
    | _ \<Rightarrow> data)"

definition parseLimit :: "string \<Rightarrow> int \<Rightarrow> int \<Rightarrow> int" where
  "parseLimit s defaultVal maxVal =
     (if s = [] then defaultVal
      else (case atoi s of
          None \<Rightarrow> defaultVal
        | Some n \<Rightarrow> if n < 1 then defaultVal else if n > maxVal then maxVal else n))"

text \<open>\<open>json.Unmarshal\<close> of a cursor; a missing time is the zero time.\<close>

definition dec_time :: "instant decoder" where
  "dec_time v j = (case j of
      JNull \<Rightarrow> (v, True)
    | JStr s \<Rightarrow> (case parse_rfc3339 s of Some t \<Rightarrow> (t, True) | None \<Rightarrow> (v, False))
    | _ \<Rightarrow> (v, False))"

definition decode_Cursor :: "json \<Rightarrow> Cursor option" where
  "decode_Cursor j = (case j of
      JNull \<Rightarrow> Some \<lparr>cur_T = zero_time, cur_Ref = []\<rparr>
    | JObj ms \<Rightarrow>
        (let (t, ok1) = decode_field dec_time zero_time ''t'' ms;
             (r, ok2) = decode_field dec_string [] ''r'' ms
         in if ok1 \<and> ok2 then Some \<lparr>cur_T = t, cur_Ref = r\<rparr> else None)
    | _ \<Rightarrow> None)"

definition parseCursor :: "string \<Rightarrow> Cursor option" where
  "parseCursor s = (if s = [] then None
     else (case raw_url_decode s of None \<Rightarrow> None
       | Some data \<Rightarrow> Option.bind (parse_json data) decode_Cursor))"

section \<open>Facts\<close>

lemma parseLimit_bounds:
  "1 \<le> d \<Longrightarrow> d \<le> mx \<Longrightarrow> 1 \<le> parseLimit s d mx \<and> parseLimit s d mx \<le> mx"
  by (auto simp: parseLimit_def split: option.splits)

lemma writeBlobBytes_simps [simp]:
  "resp_status (writeBlobBytes m raw resp) = 200"
  "resp_body (writeBlobBytes m raw resp) = resp_body resp @ raw"
  "resp_header (writeBlobBytes m raw resp) ''Cache-Control'' = ''public, max-age=86400, immutable''"
  "resp_header (writeBlobBytes m raw resp) ''Content-Type'' = m"
  by (simp_all add: writeBlobBytes_def)

lemma writePageHTML_status [simp]: "resp_status (writePageHTML w html b resp) = 200"
  by (simp add: writePageHTML_def)

text \<open>When it returns, the page is sent whole: the injection only inserts.\<close>

lemma injectBaseDomain_keeps:
  assumes "injectBaseDomain w html baseDomain = Some out"
  shows "\<exists>a b mid. html = a @ b \<and> out = a @ mid @ b"
proof -
  have front: "out = mid @ html \<Longrightarrow> ?thesis" for mid
    by (intro exI [of _ "[]"] exI [of _ html] exI [of _ mid]) simp
  have inside: "out = take n html @ mid @ drop n html \<Longrightarrow> ?thesis" for n mid
    by (intro exI [of _ "take n html"] exI [of _ "drop n html"] exI [of _ mid]) simp
  show ?thesis
    using assms front [of "[]"] front [of "base_domain_tag baseDomain @ [CHR 0x0A]"]
      inside [of _ "[CHR 0x0A] @ base_domain_tag baseDomain"]
    by (auto simp: injectBaseDomain_def Let_def split: if_splits option.splits)
qed

text \<open>
  Seven times the capital letter A with stroke (U+023A), whose lower case (U+2C65) is a byte longer,
  before a head tag.
\<close>

definition growing_page :: string where
  "growing_page = concat (replicate 7 [CHR 0xC8, CHR 0xBA]) @ ''<head>''"

lemma growing_index:
  assumes "ulow 0x23A = 0x2C65"
  shows "index_str (to_lower ulow growing_page) ''<head'' = Some 21"
proof -
  have a: "is_ascii growing_page = False" by code_simp
  have r: "runes growing_page = replicate 7 0x23A @ map ord_of ''<head>''" by code_simp
  have u: "utf8_encode 0x2C65 = [CHR 0xE2, CHR 0xB1, CHR 0xA5]"
    "utf8_encode 60 = ''<''" "utf8_encode 104 = ''h''" "utf8_encode 101 = ''e''"
    "utf8_encode 97 = ''a''" "utf8_encode 100 = ''d''" "utf8_encode 62 = ''>''"
    by code_simp+
  have "to_lower ulow growing_page = concat (replicate 7 [CHR 0xE2, CHR 0xB1, CHR 0xA5]) @ ''<head>''"
    by (simp add: to_lower_def a r lower_rune_def assms u)
  moreover have "index_str (concat (replicate 7 [CHR 0xE2, CHR 0xB1, CHR 0xA5]) @ ''<head>'') ''<head'' = Some 21"
    by code_simp
  ultimately show ?thesis by simp
qed

text \<open>
  The position of the head is found in the lowered text and used in the original: for a page whose
  text grows when it is lowered, slicing panics. The header is sent by then, so the client gets a
  200 with no page.
\<close>
theorem injection_panics:
  assumes "w_lower w 0x23A = 0x2C65" and "baseDomain \<noteq> []"
  shows "injectBaseDomain w growing_page baseDomain = None \<and>
    resp_status (writePageHTML w growing_page baseDomain initial_response) = 200 \<and>
    resp_body (writePageHTML w growing_page baseDomain initial_response) = []"
proof -
  have "length growing_page = 20" by code_simp
  with growing_index [of "w_lower w", OF assms(1)] assms(2) show ?thesis
    by (simp add: injectBaseDomain_def Let_def writePageHTML_def)
qed

theorem injection_panics_witness:
  "injectBaseDomain (calm_world\<lparr>w_lower := (\<lambda>r. if r = 0x23A then 0x2C65 else r)\<rparr>) growing_page ''dv.test'' = None"
  using injection_panics [of "calm_world\<lparr>w_lower := (\<lambda>r. if r = 0x23A then 0x2C65 else r)\<rparr>" "''dv.test''"]
  by simp

end
