(* ===== verification/Serving_Viewer.thy ===== *)
theory Serving_Viewer
  imports Serving_Content Serving_Login_Page
begin

text \<open>
  \<open>serving/viewer.go\<close>: which HTML page presents an object (its own, a page it relates to, the page
  of its type, the hub's default), which representation a request gets, and the tag and cache
  headers of that representation. The lemmas show that with the access check every page used is
  one the requester may read, and that a page marked as free of authentication is public.
\<close>

section \<open>Viewers\<close>

datatype viewerSource = viewerNone | viewerInline | viewerDirect | viewerTypeDefault | viewerHubDefault

record viewerResolution =
  vr_source :: viewerSource
  vr_pageRef :: ref
  vr_html :: string
  vr_typeRev :: int
  vr_pageRev :: int
  vr_defaultRev :: int
  vr_requiresAuth :: bool

definition no_viewer :: viewerResolution where
  "no_viewer = \<lparr>vr_source = viewerNone, vr_pageRef = [], vr_html = [], vr_typeRev = 0,
     vr_pageRev = 0, vr_defaultRev = 0, vr_requiresAuth = False\<rparr>"

definition viewer_available :: "viewerResolution \<Rightarrow> bool" where
  "viewer_available v \<longleftrightarrow> vr_source v \<noteq> viewerNone \<and> vr_html v \<noteq> []"

definition etagSuffix :: "viewerResolution \<Rightarrow> string" where
  "etagSuffix v = (case vr_source v of
      viewerInline \<Rightarrow> ''-html''
    | viewerDirect \<Rightarrow> ''-p'' @ itoa (vr_pageRev v) @ ''-html''
    | viewerTypeDefault \<Rightarrow> ''-t'' @ itoa (vr_typeRev v) @ ''-p'' @ itoa (vr_pageRev v) @ ''-html''
    | viewerHubDefault \<Rightarrow> ''-g'' @ itoa (vr_defaultRev v) @ ''-p'' @ itoa (vr_pageRev v) @ ''-html''
    | viewerNone \<Rightarrow> ''-html'')"

record viewerResolver =
  vw_store :: Store
  vw_disk :: disk
  vw_index :: Index
  vw_requestedRef :: ref
  vw_requestedData :: bytes
  vw_authPubkey :: string
  vw_enforceAccess :: bool

definition newViewerResolver ::
  "Store \<Rightarrow> disk \<Rightarrow> Index \<Rightarrow> ref \<Rightarrow> bytes \<Rightarrow> string \<Rightarrow> viewerResolver" where
  "newViewerResolver s d idx requestedRef requestedData authPubkey =
     \<lparr>vw_store = s, vw_disk = d, vw_index = idx, vw_requestedRef = requestedRef,
      vw_requestedData = requestedData, vw_authPubkey = authPubkey, vw_enforceAccess = True\<rparr>"

definition withoutAccessCheck :: "viewerResolver \<Rightarrow> viewerResolver" where
  "withoutAccessCheck r = r\<lparr>vw_enforceAccess := False\<rparr>"

definition firstRelationRef :: "Item \<Rightarrow> string \<Rightarrow> ref" where
  "firstRelationRef it relation = (case get_list (mget (item_Relations it)) relation of
      [] \<Rightarrow> []
    | e # es \<Rightarrow> (case decode_RelationRef e of None \<Rightarrow> [] | Some r \<Rightarrow> r))"

text \<open>\<open>loadItem\<close>: the item and whether it is public.\<close>

definition loadItem :: "world \<Rightarrow> viewerResolver \<Rightarrow> ref \<Rightarrow> string \<Rightarrow> (Item \<times> bool) option" where
  "loadItem w r ref requiredType = (case Read w (vw_store r) (vw_disk r) ref of
      Inl e \<Rightarrow> None
    | Inr None \<Rightarrow> None
    | Inr (Some data) \<Rightarrow> (case ParseEnvelope data of
        Inl e \<Rightarrow> None
      | Inr (env, it) \<Rightarrow>
          if item_Ref it \<noteq> ref then None
          else if requiredType \<noteq> [] \<and> item_Type it \<noteq> requiredType then None
          else let realms = ResolveIn env it in
            if vw_enforceAccess r \<and> \<not> CanRead realms (vw_authPubkey r) (Resolver (vw_index r))
            then None else Some (it, IsPublicObject realms)))"

text \<open>\<open>loadPage\<close> adds the ref to the visited ones before it looks.\<close>

definition loadPage ::
  "world \<Rightarrow> viewerResolver \<Rightarrow> ref \<Rightarrow> ref list \<Rightarrow> viewerResolution option \<times> ref list" where
  "loadPage w r ref visited =
     (if ref = [] \<or> ref \<in> set visited then (None, visited)
      else let visited = ref # visited in
        (case loadItem w r ref ''PAGE'' of
           None \<Rightarrow> (None, visited)
         | Some (it, public) \<Rightarrow>
             if extractHTML it = [] then (None, visited)
             else (Some (no_viewer\<lparr>vr_pageRef := ref, vr_html := extractHTML it,
                     vr_pageRev := item_Revision it, vr_requiresAuth := \<not> public\<rparr>), visited)))"

text \<open>The type-level default of \<open>primary\<close>; it never follows the type of a type.\<close>

definition type_viewer :: "world \<Rightarrow> viewerResolver \<Rightarrow> Item \<Rightarrow> ref list \<Rightarrow> viewerResolution" where
  "type_viewer w r it visited =
     (let typeRef = firstRelationRef it ''type_def'' in
      if typeRef = [] \<or> typeRef \<in> set visited then no_viewer
      else (case loadItem w r typeRef ''TYPE'' of
          None \<Rightarrow> no_viewer
        | Some (typeItem, typePublic) \<Rightarrow>
            let typePageRef = firstRelationRef typeItem ''page'' in
            if typePageRef = [] then no_viewer
            else (case fst (loadPage w r typePageRef (typeRef # visited)) of
                None \<Rightarrow> no_viewer
              | Some page \<Rightarrow> page\<lparr>vr_source := viewerTypeDefault, vr_typeRev := item_Revision typeItem,
                  vr_requiresAuth := vr_requiresAuth page \<or> \<not> typePublic\<rparr>)))"

definition primary :: "world \<Rightarrow> viewerResolver \<Rightarrow> viewerResolution" where
  "primary w r = (case ParseEnvelope (vw_requestedData r) of
      Inl e \<Rightarrow> no_viewer
    | Inr (env, it) \<Rightarrow>
        if item_Ref it \<noteq> vw_requestedRef r then no_viewer
        else if item_Type it = ''PAGE''
        then no_viewer\<lparr>vr_source := viewerInline, vr_pageRef := vw_requestedRef r,
               vr_html := extractHTML it, vr_pageRev := item_Revision it,
               vr_requiresAuth := \<not> IsPublicObject (ResolveIn env it)\<rparr>
        else (let visited = [vw_requestedRef r]; pageRef = firstRelationRef it ''page'';
                  (direct, visited) = (if pageRef \<noteq> [] then loadPage w r pageRef visited else (None, visited))
              in case direct of
                   Some page \<Rightarrow> page\<lparr>vr_source := viewerDirect\<rparr>
                 | None \<Rightarrow> type_viewer w r it visited))"

definition hubDefault :: "world \<Rightarrow> viewerResolver \<Rightarrow> ref \<Rightarrow> viewerResolution" where
  "hubDefault w r defaultRef =
     (if defaultRef = [] \<or> defaultRef = vw_requestedRef r then no_viewer
      else (case loadItem w r defaultRef [] of
          None \<Rightarrow> no_viewer
        | Some (defaultItem, defaultPublic) \<Rightarrow>
            if item_Type defaultItem = ''PAGE'' then
              (let html = extractHTML defaultItem in
               if html = [] then no_viewer
               else no_viewer\<lparr>vr_source := viewerHubDefault, vr_pageRef := defaultRef, vr_html := html,
                      vr_pageRev := item_Revision defaultItem,
                      vr_defaultRev := item_Revision defaultItem,
                      vr_requiresAuth := \<not> defaultPublic\<rparr>)
            else (let pageRef = firstRelationRef defaultItem ''page'' in
              if pageRef = [] then no_viewer
              else (case fst (loadPage w r pageRef [defaultRef, vw_requestedRef r]) of
                  None \<Rightarrow> no_viewer
                | Some page \<Rightarrow> page\<lparr>vr_source := viewerHubDefault,
                    vr_defaultRev := item_Revision defaultItem,
                    vr_requiresAuth := vr_requiresAuth page \<or> \<not> defaultPublic\<rparr>))))"

section \<open>Representations\<close>

datatype representationKind = representationJSON | representationBlob | representationHTML

record selectedRepresentation =
  sr_kind :: representationKind
  sr_viewer :: viewerResolution
  sr_blobMIME :: string
  sr_blobData :: bytes

definition html_representation :: "viewerResolution \<Rightarrow> selectedRepresentation" where
  "html_representation v = \<lparr>sr_kind = representationHTML, sr_viewer = v, sr_blobMIME = [], sr_blobData = []\<rparr>"

definition blob_representation :: "string \<Rightarrow> bytes \<Rightarrow> selectedRepresentation" where
  "blob_representation mime raw =
     \<lparr>sr_kind = representationBlob, sr_viewer = no_viewer, sr_blobMIME = mime, sr_blobData = raw\<rparr>"

definition json_representation :: selectedRepresentation where
  "json_representation =
     \<lparr>sr_kind = representationJSON, sr_viewer = no_viewer, sr_blobMIME = [], sr_blobData = []\<rparr>"

definition sr_etag :: "selectedRepresentation \<Rightarrow> int \<Rightarrow> string" where
  "sr_etag s revision = (case sr_kind s of
      representationBlob \<Rightarrow> [CHR 0x22] @ itoa revision @ ''-blob'' @ [CHR 0x22]
    | representationHTML \<Rightarrow> [CHR 0x22] @ itoa revision @ etagSuffix (sr_viewer s) @ [CHR 0x22]
    | representationJSON \<Rightarrow> [CHR 0x22] @ itoa revision @ [CHR 0x22])"

definition sr_write :: "world \<Rightarrow> selectedRepresentation \<Rightarrow> bytes \<Rightarrow> string \<Rightarrow> response \<Rightarrow> response" where
  "sr_write w s data baseDomain resp = (case sr_kind s of
      representationBlob \<Rightarrow> writeBlobBytes (sr_blobMIME s) (sr_blobData s) resp
    | representationHTML \<Rightarrow> writePageHTML w (vr_html (sr_viewer s)) baseDomain resp
    | representationJSON \<Rightarrow> write_body data (with_status 200 resp))"

definition setCacheHeaders :: "selectedRepresentation \<Rightarrow> response \<Rightarrow> response" where
  "setCacheHeaders s resp =
     (if sr_kind s = representationHTML \<and> vr_requiresAuth (sr_viewer s)
      then set_header ''Cache-Control'' ''private, no-cache'' resp else resp)"

definition isolatedPageRef :: "selectedRepresentation \<Rightarrow> ref" where
  "isolatedPageRef s =
     (if sr_kind s \<noteq> representationHTML \<or> vr_source (sr_viewer s) = viewerHubDefault then []
      else vr_pageRef (sr_viewer s))"

definition indexedNonHTMLValidator :: "request \<Rightarrow> ObjectMeta \<Rightarrow> string option" where
  "indexedNonHTMLValidator r m =
     (if acceptsHTML r then None
      else let s = (if meta_Type m = ''BLOB'' \<and> meta_MimeType m \<noteq> [] \<and> acceptsMimeType r (meta_MimeType m)
              then blob_representation [] [] else json_representation)
        in Some (sr_etag s (meta_Revision m)))"

definition selectNegotiatedRepresentation ::
  "world \<Rightarrow> request \<Rightarrow> viewerResolver \<Rightarrow> ref \<Rightarrow> selectedRepresentation" where
  "selectNegotiatedRepresentation w r vr defaultViewerRef =
     (let p = primary w vr; h = hubDefault w vr defaultViewerRef in
      if acceptsHTML r \<and> viewer_available p then html_representation p
      else (let blob = (case blobContent (vw_requestedData vr) of
                Some b \<Rightarrow> if acceptsMimeType r (blob_mimeType b)
                  then map_option (\<lambda>raw. (blob_mimeType b, raw)) (blob_decode b) else None
              | None \<Rightarrow> None)
        in case blob of
             Some (mime, raw) \<Rightarrow> blob_representation mime raw
           | None \<Rightarrow> if acceptsHTML r \<and> viewer_available h then html_representation h
               else json_representation))"

definition selectPageRepresentation ::
  "world \<Rightarrow> viewerResolver \<Rightarrow> ref \<Rightarrow> selectedRepresentation option" where
  "selectPageRepresentation w vr defaultViewerRef =
     (let p = primary w vr in
      if viewer_available p then Some (html_representation p)
      else let h = hubDefault w vr defaultViewerRef in
        if viewer_available h then Some (html_representation h) else None)"

section \<open>The login page\<close>

definition servePrivatePageLogin :: "response \<Rightarrow> response" where
  "servePrivatePageLogin resp = write_body privatePageLoginHTML
     (with_status 200 (set_header ''Content-Type'' ''text/html; charset=utf-8'' resp))"

definition servePrivateViewerLogin ::
  "world \<Rightarrow> request \<Rightarrow> viewerResolver \<Rightarrow> VhostResolver option \<Rightarrow> string \<Rightarrow> ref
     \<Rightarrow> response option \<times> VhostResolver option" where
  "servePrivateViewerLogin w r vr vhost vhostMode ref =
     (if vhost = None \<or> \<not> acceptsHTML r then (None, vhost)
      else let viewer = primary w (withoutAccessCheck vr) in
        if \<not> viewer_available viewer then (None, vhost)
        else (case vhostRedirect w r vhost vhostMode ref (vr_pageRef viewer) [] initial_response of
            (Some resp, vhost) \<Rightarrow> (Some resp, vhost)
          | (None, vhost) \<Rightarrow> (Some (servePrivatePageLogin initial_response), vhost)))"

section \<open>Where the HTML comes from\<close>

lemma loadItem_Some:
  assumes "loadItem w r ref ty = Some (it, public)"
  obtains data env where "Read w (vw_store r) (vw_disk r) ref = Inr (Some data)"
    and "ParseEnvelope data = Inr (env, it)" and "item_Ref it = ref" and "ty = [] \<or> item_Type it = ty"
    and "vw_enforceAccess r \<Longrightarrow> CanRead (ResolveIn env it) (vw_authPubkey r) (Resolver (vw_index r))"
    and "public \<longleftrightarrow> IsPublicObject (ResolveIn env it)"
  using assms
  by (auto simp: loadItem_def Let_def simp del: IsPublicObject_iff split: sum.splits option.splits if_splits)

text \<open>The page of a viewer is a stored PAGE that \<open>loadItem\<close> let through.\<close>

definition backed :: "world \<Rightarrow> viewerResolver \<Rightarrow> viewerResolution \<Rightarrow> bool" where
  "backed w r v \<longleftrightarrow> (\<exists>it public. loadItem w r (vr_pageRef v) ''PAGE'' = Some (it, public) \<and>
     vr_html v = extractHTML it \<and> vr_pageRev v = item_Revision it \<and> (vr_requiresAuth v \<or> public))"

lemma loadPage_backed: "loadPage w r ref visited = (Some v, visited') \<Longrightarrow> backed w r v"
  by (fastforce simp: loadPage_def backed_def Let_def no_viewer_def split: if_splits option.splits)

lemma backed_update:
  assumes "backed w r v" and "vr_requiresAuth v \<Longrightarrow> b"
  shows "backed w r (v\<lparr>vr_source := src, vr_typeRev := t, vr_requiresAuth := b\<rparr>)"
    and "backed w r (v\<lparr>vr_source := src, vr_defaultRev := t, vr_requiresAuth := b\<rparr>)"
    and "backed w r (v\<lparr>vr_source := src\<rparr>)"
  using assms by (auto simp: backed_def)

lemma type_viewer_backed:
  assumes "viewer_available (type_viewer w r it visited)"
  shows "backed w r (type_viewer w r it visited)"
proof -
  from assms obtain typeItem pub where "loadItem w r (firstRelationRef it ''type_def'') ''TYPE'' = Some (typeItem, pub)"
    and "fst (loadPage w r (firstRelationRef typeItem ''page'') (firstRelationRef it ''type_def'' # visited)) \<noteq> None"
    by (auto simp: type_viewer_def Let_def viewer_available_def no_viewer_def split: if_splits option.splits)
  moreover from this(2) obtain page vis where
    page: "loadPage w r (firstRelationRef typeItem ''page'') (firstRelationRef it ''type_def'' # visited) = (Some page, vis)"
    by (metis not_None_eq prod.collapse)
  ultimately show ?thesis
    using assms backed_update(1) [OF loadPage_backed [OF page], of "vr_requiresAuth page \<or> \<not> pub"]
    by (auto simp: type_viewer_def Let_def viewer_available_def no_viewer_def split: if_splits)
qed

text \<open>The viewer of an object is its own page, or a page \<open>loadItem\<close> let through.\<close>

lemma primary_backed:
  assumes "viewer_available (primary w r)"
  shows "vr_source (primary w r) = viewerInline \<and> vr_pageRef (primary w r) = vw_requestedRef r \<or>
     backed w r (primary w r)"
proof (cases "ParseEnvelope (vw_requestedData r)")
  case (Inl e)
  with assms show ?thesis by (simp add: primary_def viewer_available_def no_viewer_def)
next
  case (Inr p)
  obtain env it where p: "p = (env, it)" by (cases p)
  let ?direct = "if firstRelationRef it ''page'' \<noteq> [] then loadPage w r (firstRelationRef it ''page'') [vw_requestedRef r]
     else (None, [vw_requestedRef r])"
  consider "item_Ref it \<noteq> vw_requestedRef r" | "item_Ref it = vw_requestedRef r" "item_Type it = ''PAGE''"
    | page vis where "item_Ref it = vw_requestedRef r" "item_Type it \<noteq> ''PAGE''" "?direct = (Some page, vis)"
    | vis where "item_Ref it = vw_requestedRef r" "item_Type it \<noteq> ''PAGE''" "?direct = (None, vis)"
    by (metis not_None_eq prod.collapse)
  then show ?thesis
  proof cases
    case 1
    with assms Inr p show ?thesis by (simp add: primary_def viewer_available_def no_viewer_def)
  next
    case 2
    with Inr p show ?thesis by (simp add: primary_def no_viewer_def)
  next
    case (3 page vis)
    then have "loadPage w r (firstRelationRef it ''page'') [vw_requestedRef r] = (Some page, vis)"
      by (auto split: if_splits)
    from backed_update(3) [OF loadPage_backed [OF this]] 3 Inr p show ?thesis
      by (auto simp: primary_def Let_def split: if_splits)
  next
    case (4 vis)
    with Inr p have "primary w r = type_viewer w r it vis"
      by (auto simp: primary_def Let_def split: if_splits)
    with assms type_viewer_backed show ?thesis by metis
  qed
qed

lemma hubDefault_backed:
  assumes "viewer_available (hubDefault w r dref)"
  shows "backed w r (hubDefault w r dref)"
proof -
  from assms obtain it pub where it: "loadItem w r dref [] = Some (it, pub)"
    and ne: "dref \<noteq> []" "dref \<noteq> vw_requestedRef r"
    by (auto simp: hubDefault_def Let_def viewer_available_def no_viewer_def split: if_splits option.splits)
  show ?thesis
  proof (cases "item_Type it = ''PAGE''")
    case True
    from it True have "loadItem w r dref ''PAGE'' = Some (it, pub)"
      by (auto simp: loadItem_def Let_def split: sum.splits option.splits if_splits)
    with assms it ne True show ?thesis
      by (auto simp: hubDefault_def backed_def Let_def viewer_available_def no_viewer_def split: if_splits)
  next
    case False
    let ?load = "loadPage w r (firstRelationRef it ''page'') [dref, vw_requestedRef r]"
    from assms it ne False have "fst ?load \<noteq> None" and pr: "firstRelationRef it ''page'' \<noteq> []"
      by (auto simp: hubDefault_def Let_def viewer_available_def no_viewer_def split: if_splits option.splits)
    then obtain page vis where page: "?load = (Some page, vis)" by (metis not_None_eq prod.collapse)
    from it ne False pr page backed_update(2) [OF loadPage_backed [OF page], of "vr_requiresAuth page \<or> \<not> pub"]
    show ?thesis by (simp add: hubDefault_def Let_def)
  qed
qed

lemma loadPage_source: "loadPage w r ref visited = (Some v, visited') \<Longrightarrow> vr_source v = viewerNone"
  by (auto simp: loadPage_def Let_def no_viewer_def split: if_splits option.splits)

lemma primary_inline:
  assumes "vr_source (primary w r) = viewerInline"
  obtains env it where "ParseEnvelope (vw_requestedData r) = Inr (env, it)" and "item_Type it = ''PAGE''"
    and "item_Ref it = vw_requestedRef r" and "vr_pageRef (primary w r) = vw_requestedRef r"
    and "vr_html (primary w r) = extractHTML it"
    and "vr_requiresAuth (primary w r) \<longleftrightarrow> \<not> IsPublicObject (ResolveIn env it)"
proof (cases "ParseEnvelope (vw_requestedData r)")
  case (Inl e)
  with assms show ?thesis by (simp add: primary_def no_viewer_def)
next
  case (Inr p)
  obtain env it where p: "p = (env, it)" by (cases p)
  have "vr_source (type_viewer w r it vis) \<noteq> viewerInline" for vis
    by (auto simp: type_viewer_def Let_def no_viewer_def split: option.splits)
  with assms Inr p have "item_Ref it = vw_requestedRef r \<and> item_Type it = ''PAGE''"
    by (auto simp: primary_def Let_def no_viewer_def split: if_splits prod.splits option.splits)
  with that [of env it] Inr p show ?thesis by (simp add: primary_def no_viewer_def)
qed

text \<open>
  What stands behind the HTML of a selected representation: the requested object itself, or another
  stored PAGE the caller may read; and unless that PAGE is public the response is not cached.
\<close>

definition html_source ::
  "world \<Rightarrow> Store \<Rightarrow> disk \<Rightarrow> Index \<Rightarrow> ref \<Rightarrow> bytes \<Rightarrow> string \<Rightarrow> selectedRepresentation \<Rightarrow> bytes \<Rightarrow> bool" where
  "html_source w s d idx ref data pk sel page \<longleftrightarrow> (case ParseEnvelope page of
      Inl e \<Rightarrow> False
    | Inr (env, it) \<Rightarrow> item_Type it = ''PAGE'' \<and> item_Ref it = vr_pageRef (sr_viewer sel) \<and>
        vr_html (sr_viewer sel) = extractHTML it \<and>
        (page = data \<and> item_Ref it = ref \<or>
         Read w s d (item_Ref it) = Inr (Some page) \<and> CanRead (ResolveIn env it) pk (Resolver idx)) \<and>
        (IsPublicObject (ResolveIn env it) \<or>
         resp_header (setCacheHeaders sel initial_response) ''Cache-Control'' = ''private, no-cache''))"

lemma backed_source:
  assumes "backed w (newViewerResolver s d idx ref data pk) v"
  shows "\<exists>page. html_source w s d idx ref data pk (html_representation v) page"
proof -
  from assms obtain it public where "loadItem w (newViewerResolver s d idx ref data pk) (vr_pageRef v) ''PAGE'' = Some (it, public)"
    and v: "vr_html v = extractHTML it" "vr_requiresAuth v \<or> public" by (auto simp: backed_def)
  from this(1) obtain page env where "Read w s d (vr_pageRef v) = Inr (Some page)"
    and "ParseEnvelope page = Inr (env, it)" and "item_Ref it = vr_pageRef v" and "item_Type it = ''PAGE''"
    and "CanRead (ResolveIn env it) pk (Resolver idx)" and "public \<longleftrightarrow> IsPublicObject (ResolveIn env it)"
    by (elim loadItem_Some) (auto simp: newViewerResolver_def simp del: IsPublicObject_iff)
  with v show ?thesis
    by (intro exI [of _ page])
      (auto simp: html_source_def html_representation_def setCacheHeaders_def simp del: IsPublicObject_iff)
qed

lemma primary_source:
  assumes "viewer_available (primary w (newViewerResolver s d idx ref data pk))"
  shows "\<exists>page. html_source w s d idx ref data pk
    (html_representation (primary w (newViewerResolver s d idx ref data pk))) page"
  using primary_backed [OF assms]
proof
  let ?vr = "newViewerResolver s d idx ref data pk"
  assume "vr_source (primary w ?vr) = viewerInline \<and> vr_pageRef (primary w ?vr) = vw_requestedRef ?vr"
  then have "vr_source (primary w ?vr) = viewerInline" by blast
  then show ?thesis
    by (elim primary_inline)
      (auto simp: newViewerResolver_def html_source_def html_representation_def setCacheHeaders_def
        simp del: IsPublicObject_iff intro!: exI [of _ data])
qed (rule backed_source)

text \<open>
  C30 HTML is never served from a page the caller may not read. Whenever a representation chosen for
  a request is HTML, the text is the requested PAGE's own, or that of a stored PAGE with the
  reference the choice names and whose realms let the caller read it; and unless that PAGE is public
  the response is marked as private and not to be cached. This holds for the negotiated
  representation and for the explicit one.
\<close>
theorem html_from_readable_page:
  "(case sr_kind (selectNegotiatedRepresentation w r (newViewerResolver s d idx ref data pk) dref) of
      representationHTML \<Rightarrow> \<exists>page. html_source w s d idx ref data pk
        (selectNegotiatedRepresentation w r (newViewerResolver s d idx ref data pk) dref) page
    | _ \<Rightarrow> True) \<and>
   (case selectPageRepresentation w (newViewerResolver s d idx ref data pk) dref of
      None \<Rightarrow> True | Some sel \<Rightarrow> \<exists>page. html_source w s d idx ref data pk sel page)"
proof -
  let ?vr = "newViewerResolver s d idx ref data pk"
  have d: "\<exists>page. html_source w s d idx ref data pk (html_representation (hubDefault w ?vr dref)) page"
    if "viewer_available (hubDefault w ?vr dref)"
    using backed_source hubDefault_backed [OF that] by blast
  show ?thesis using primary_source d
    by (auto simp: selectNegotiatedRepresentation_def selectPageRepresentation_def Let_def
        html_representation_def blob_representation_def json_representation_def
        split: option.splits representationKind.splits)
qed

end
