(* ===== verification/Serving_Precondition.thy ===== *)
theory Serving_Precondition
  imports Object_Problem Object_Model
begin

text \<open>
  \<open>serving/precondition.go\<close>: the entity tag of a revision, \<open>If-Match\<close>, and the gate of a conditional
  write. The lemmas say when a write passes: never on a revision that is not newer, and with
  \<open>If-Match\<close> only over a version the client named.
\<close>

datatype ifMatchResult = ifMatchAbsent | ifMatchPass | ifMatchFail

definition revisionETag :: "int \<Rightarrow> string" where
  "revisionETag revision = [CHR 0x22] @ itoa revision @ [CHR 0x22]"

fun trimmed_tags :: "string list \<Rightarrow> string list" where
  "trimmed_tags [] = []"
| "trimmed_tags (p # ps) = (let p = trim_space p in
     if p \<noteq> [] then p # trimmed_tags ps else trimmed_tags ps)"

definition splitETagList :: "string \<Rightarrow> string list" where
  "splitETagList header = trimmed_tags (split_on (CHR '','') header)"

text \<open>The pair \<open>(existingMeta, exists)\<close> is an option.\<close>

definition evaluateIfMatch :: "string \<Rightarrow> ObjectMeta option \<Rightarrow> ifMatchResult" where
  "evaluateIfMatch header existing =
     (let header = trim_space header in
      if header = [] then ifMatchAbsent
      else if header = ''*'' then (if existing \<noteq> None then ifMatchPass else ifMatchFail)
      else (case existing of None \<Rightarrow> ifMatchFail
        | Some m \<Rightarrow>
            let current = revisionETag (meta_Revision m) in
            if list_ex (\<lambda>tag. tag = current) (splitETagList header) then ifMatchPass else ifMatchFail))"

definition ifMatchFailMessage :: "ObjectMeta option \<Rightarrow> string" where
  "ifMatchFailMessage existing = (case existing of
      None \<Rightarrow> ''If-Match precondition failed: object does not exist''
    | Some m \<Rightarrow> ''If-Match precondition failed: current ETag is '' @ revisionETag (meta_Revision m))"

text \<open>\<open>checkConditionalWrite\<close>: the error response, or \<open>None\<close> when the write may proceed.\<close>

definition checkConditionalWrite ::
  "world \<Rightarrow> request \<Rightarrow> string \<Rightarrow> ObjectMeta option \<Rightarrow> int \<Rightarrow> response option" where
  "checkConditionalWrite w r ifMatch existing incomingRevision =
     (if evaluateIfMatch ifMatch existing = ifMatchFail
      then Some (writeError w r 412 (ifMatchFailMessage existing) ''PRECONDITION_FAILED'')
      else (case existing of
          Some m \<Rightarrow> if meta_Revision m \<ge> incomingRevision
            then Some (writeError w r 409 (''existing revision '' @ itoa (meta_Revision m) @
                   '' >= incoming '' @ itoa incomingRevision) ''REVISION_CONFLICT'')
            else None
        | None \<Rightarrow> None))"

section \<open>When a write passes\<close>

lemma revisionETag_inject [simp]: "revisionETag a = revisionETag b \<longleftrightarrow> a = b"
  by (simp add: revisionETag_def)

lemma revisionETag_nonempty [simp]: "revisionETag a \<noteq> []" "revisionETag a \<noteq> ''*''"
  by (simp_all add: revisionETag_def)

lemma checkConditionalWrite_None:
  "checkConditionalWrite w r ifMatch existing n = None \<longleftrightarrow>
     evaluateIfMatch ifMatch existing \<noteq> ifMatchFail \<and>
     (case existing of None \<Rightarrow> True | Some m \<Rightarrow> meta_Revision m < n)"
  by (auto simp: checkConditionalWrite_def not_le split: option.splits)

lemma checkConditionalWrite_status:
  "checkConditionalWrite w r ifMatch existing n = Some resp \<Longrightarrow>
     resp_status resp = 412 \<or> (resp_status resp = 409 \<and> (\<exists>m. existing = Some m \<and> n \<le> meta_Revision m))"
  by (auto simp: checkConditionalWrite_def split: option.splits if_splits)

text \<open>The tag of a revision survives trimming and splitting: it is one tag, itself.\<close>

lemma space_seqs_no_quote: "list_all (\<lambda>q. q \<noteq> [] \<and> hd q \<noteq> CHR 0x22 \<and> last q \<noteq> CHR 0x22) space_seqs"
  by code_simp

lemma space_width_quote: "space_width (CHR 0x22 # s) = 0"
proof -
  have "\<not> has_prefix (CHR 0x22 # s) q" if "q \<in> set space_seqs" for q
    using space_seqs_no_quote that
    by (cases q) (auto simp: list_all_iff has_prefix_def)
  then have "find (\<lambda>q. has_prefix (CHR 0x22 # s) q) space_seqs = None"
    unfolding find_None_iff by blast
  then show ?thesis by (simp add: space_width_def)
qed

lemma space_width_right_quote: "space_width_right (s @ [CHR 0x22]) = 0"
proof -
  have "\<not> has_suffix (s @ [CHR 0x22]) q" if "q \<in> set space_seqs" for q
  proof
    assume "has_suffix (s @ [CHR 0x22]) q"
    then obtain t where t: "s @ [CHR 0x22] = t @ q" by (elim has_suffixE)
    from space_seqs_no_quote that have q: "q \<noteq> []" "last q \<noteq> CHR 0x22" by (auto simp: list_all_iff)
    from t have "last (t @ q) = CHR 0x22" by (metis last_snoc)
    with q show False by simp
  qed
  then have "find (\<lambda>q. has_suffix (s @ [CHR 0x22]) q) space_seqs = None"
    unfolding find_None_iff by blast
  then show ?thesis by (simp add: space_width_right_def)
qed

lemma trim_space_etag [simp]: "trim_space (revisionETag n) = revisionETag n"
proof -
  have "trim_left (revisionETag n) = revisionETag n"
    using space_width_quote [of "itoa n @ [CHR 0x22]"]
    by (subst trim_left.simps) (simp add: revisionETag_def Let_def)
  moreover have "trim_right (revisionETag n) = revisionETag n"
    using space_width_right_quote [of "CHR 0x22 # itoa n"]
    by (subst trim_right.simps) (simp add: revisionETag_def Let_def)
  ultimately show ?thesis by (simp add: trim_space_def)
qed

lemma splitETagList_etag [simp]: "splitETagList (revisionETag n) = [revisionETag n]"
proof -
  have "CHR '','' \<notin> set (revisionETag n)"
    using set_itoa [of "CHR '',''" n] by (auto simp: revisionETag_def is_digit_def)
  then show ?thesis by (simp add: splitETagList_def split_on_no_sep)
qed

text \<open>The tag a write answers with is accepted exactly while that revision is the stored one.\<close>

lemma evaluateIfMatch_etag:
  "evaluateIfMatch (revisionETag n) existing =
     (case existing of Some m \<Rightarrow> if meta_Revision m = n then ifMatchPass else ifMatchFail
      | None \<Rightarrow> ifMatchFail)"
  by (auto simp: evaluateIfMatch_def Let_def split: option.splits)

lemma evaluateIfMatch_named:
  assumes "evaluateIfMatch header (Some m) = ifMatchPass" and "trim_space header \<noteq> ''*''"
  shows "revisionETag (meta_Revision m) \<in> set (splitETagList (trim_space header))"
  using assms by (auto simp: evaluateIfMatch_def Let_def list_ex_iff split: if_splits)

text \<open>A list of entity tags as a client sends it.\<close>

definition etag_list :: "int \<Rightarrow> int list \<Rightarrow> string" where
  "etag_list n ns = revisionETag n @ concat (map (\<lambda>k. '', '' @ revisionETag k) ns)"

lemma trim_space_quoted: "trim_space (CHR 0x22 # s @ [CHR 0x22]) = CHR 0x22 # s @ [CHR 0x22]"
proof -
  have "trim_left (CHR 0x22 # s @ [CHR 0x22]) = CHR 0x22 # s @ [CHR 0x22]"
    using space_width_quote [of "s @ [CHR 0x22]"] by (subst trim_left.simps) (simp add: Let_def)
  moreover have "trim_right (CHR 0x22 # s @ [CHR 0x22]) = CHR 0x22 # s @ [CHR 0x22]"
    using space_width_right_quote [of "CHR 0x22 # s"] by (subst trim_right.simps) (simp add: Let_def)
  ultimately show ?thesis by (simp add: trim_space_def)
qed

lemma trim_space_one: "trim_space (CHR '' '' # revisionETag n) = revisionETag n"
proof -
  have "space_width (CHR '' '' # s) = 1" for s
    by (simp add: space_width_def space_seqs_def has_prefix_def)
  then have "trim_left (CHR '' '' # revisionETag n) = trim_left (revisionETag n)"
    by (subst trim_left.simps) (simp add: Let_def)
  then show ?thesis using trim_space_etag [of n] by (simp add: trim_space_def)
qed

lemma split_on_append: "c \<notin> set a \<Longrightarrow> split_on c (a @ c # s) = a # split_on c s"
  by (induction a) auto

lemma etag_no_comma: "CHR '','' \<notin> set (revisionETag n)"
  using set_itoa [of "CHR '',''" n] by (auto simp: revisionETag_def is_digit_def)

lemma split_etag_list:
  "split_on (CHR '','') (pre @ etag_list n ns) =
     (pre @ revisionETag n) # map (\<lambda>k. CHR '' '' # revisionETag k) ns"
  if "CHR '','' \<notin> set pre"
  using that
proof (induction ns arbitrary: n pre)
  case Nil
  then show ?case using etag_no_comma by (simp add: etag_list_def split_on_no_sep)
next
  case (Cons k ks)
  have "split_on (CHR '','') (pre @ etag_list n (k # ks)) =
      split_on (CHR '','') ((pre @ revisionETag n) @ CHR '','' # '' '' @ etag_list k ks)"
    by (simp add: etag_list_def)
  also have "\<dots> = (pre @ revisionETag n) # split_on (CHR '','') ('' '' @ etag_list k ks)"
    using Cons.prems etag_no_comma by (intro split_on_append) auto
  finally show ?case using Cons.IH [of "'' ''" k] by simp
qed

lemma trim_space_etag_list: "trim_space (etag_list n ns) = etag_list n ns"
proof -
  have "\<exists>s. etag_list n ns = CHR 0x22 # s @ [CHR 0x22]"
  proof (cases ns rule: rev_cases)
    case Nil
    then show ?thesis by (simp add: etag_list_def revisionETag_def)
  next
    case (snoc ks k)
    then show ?thesis
      by (intro exI [of _ "itoa n @ CHR 0x22 # concat (map (\<lambda>k. '', '' @ revisionETag k) ks) @ '', '' @ CHR 0x22 # itoa k"])
        (simp add: etag_list_def revisionETag_def)
  qed
  then show ?thesis using trim_space_quoted by metis
qed

lemma splitETagList_list: "splitETagList (etag_list n ns) = map revisionETag (n # ns)"
proof -
  have "trimmed_tags (map (\<lambda>k. CHR '' '' # revisionETag k) ks) = map revisionETag ks" for ks
    by (induction ks) (simp_all add: trim_space_one Let_def)
  then show ?thesis using split_etag_list [of "[]" n ns]
    by (simp add: splitETagList_def Let_def)
qed

text \<open>
  C28 \<open>If-Match\<close> is compare-and-swap on the revision. The entity tags the hub hands out, alone or in
  a list, let a write through exactly when the stored revision is one of those they were given for
  and the new revision is greater; otherwise it is a 412, for an object that is not stored too, or
  a 409. \<open>*\<close> asks only that the object is stored, and no header asks nothing.
\<close>
theorem conditional_write_outcome:
  "map_option resp_status (checkConditionalWrite w r (etag_list n ns) existing k) =
     (case existing of None \<Rightarrow> Some 412
      | Some m \<Rightarrow> if meta_Revision m \<notin> set (n # ns) then Some 412
                 else if k \<le> meta_Revision m then Some 409 else None) \<and>
   map_option resp_status (checkConditionalWrite w r ''*'' existing k) =
     (case existing of None \<Rightarrow> Some 412 | Some m \<Rightarrow> if k \<le> meta_Revision m then Some 409 else None) \<and>
   map_option resp_status (checkConditionalWrite w r [] existing k) =
     (case existing of None \<Rightarrow> None | Some m \<Rightarrow> if k \<le> meta_Revision m then Some 409 else None)"
proof -
  have ne: "etag_list n ns \<noteq> []" "etag_list n ns \<noteq> ''*''"
    by (simp_all add: etag_list_def revisionETag_def)
  have "trim_space [] = []" "trim_space ''*'' = ''*''" by code_simp+
  with ne show ?thesis
    by (auto simp: checkConditionalWrite_def evaluateIfMatch_def Let_def trim_space_etag_list
        splitETagList_list list_ex_iff split: option.splits)
qed

end
