(* ===== verification/Serving_Projection.thy ===== *)
theory Serving_Projection
  imports Serving_Viewer Serving_Precondition
begin

text \<open>
  \<open>serving/projection.go\<close>: the explicit representations \<open>/json\<close>, \<open>/raw\<close> and \<open>/page\<close> of an object,
  their authorization against the index, and the target of the root aliases. An error response
  keeps the headers set before it, as it does in the code.
\<close>

section \<open>Authorization and reading\<close>

text \<open>\<open>authorizeProjection\<close>: the 404 it wrote, or the indexed metadata if there is any.\<close>

definition authorizeProjection ::
  "world \<Rightarrow> request \<Rightarrow> ref \<Rightarrow> Index \<Rightarrow> response + ObjectMeta option" where
  "authorizeProjection w r ref idx = (case GetMeta idx ref of
      Some m \<Rightarrow>
        if \<not> meta_IsPublic m \<and> \<not> CanRead (meta_Realms m) (req_auth r) (Resolver idx)
        then Inl (writeError w r 404 ''object not found'' ''NOT_FOUND'')
        else Inr (Some m)
    | None \<Rightarrow> Inr None)"

definition readForProjection ::
  "world \<Rightarrow> request \<Rightarrow> Store \<Rightarrow> disk \<Rightarrow> ref \<Rightarrow> response \<Rightarrow> response + bytes" where
  "readForProjection w r s d ref resp = (case Read w s d ref of
      Inl e \<Rightarrow> Inl (WriteProblem w r 500 ''internal error'' ''INTERNAL'' resp)
    | Inr None \<Rightarrow> Inl (WriteProblem w r 404 ''object not found'' ''NOT_FOUND'' resp)
    | Inr (Some data) \<Rightarrow> Inr data)"

definition not_modified :: "request \<Rightarrow> string \<Rightarrow> bool" where
  "not_modified r etag \<longleftrightarrow> req_header r ''If-None-Match'' = etag"

section \<open>The three representations\<close>

definition serveJSON ::
  "world \<Rightarrow> request \<Rightarrow> Store \<Rightarrow> disk \<Rightarrow> ref \<Rightarrow> ObjectMeta option \<Rightarrow> response" where
  "serveJSON w r s d ref meta =
     (let resp = (case meta of Some m \<Rightarrow> set_header ''ETag'' (revisionETag (meta_Revision m)) initial_response
                  | None \<Rightarrow> initial_response)
      in if (case meta of Some m \<Rightarrow> not_modified r (revisionETag (meta_Revision m)) | None \<Rightarrow> False)
         then with_status 304 resp
         else (case readForProjection w r s d ref resp of
             Inl e \<Rightarrow> e
           | Inr data \<Rightarrow> write_body data (with_status 200 resp)))"

definition rawETagSuffix :: "ObjectMeta \<Rightarrow> string option" where
  "rawETagSuffix m =
     (if meta_Type m = ''BLOB'' \<and> meta_MimeType m \<noteq> [] then Some ''-blob''
      else if meta_Type m = ''PAGE'' then (if meta_HasPageRelation m then Some ''-raw'' else Some ''-html'')
      else None)"

text \<open>The part of \<open>serveRaw\<close> after the tag.\<close>

definition raw_content ::
  "world \<Rightarrow> request \<Rightarrow> Store \<Rightarrow> disk \<Rightarrow> ref \<Rightarrow> ObjectMeta option \<Rightarrow> string \<Rightarrow> response \<Rightarrow> response" where
  "raw_content w r s d ref meta baseDomain resp = (case readForProjection w r s d ref resp of
      Inl e \<Rightarrow> e
    | Inr data \<Rightarrow> (case blobRaw data of
        Some (mime, raw) \<Rightarrow> writeBlobBytes mime raw resp
      | None \<Rightarrow>
          if (case meta of Some m \<Rightarrow> meta_Type m = ''PAGE'' | None \<Rightarrow> False) \<and> pageOwnHTML data \<noteq> []
          then writePageHTML w (pageOwnHTML data) baseDomain resp
          else WriteProblem w r 409 ''object has no raw representation'' ''NO_RAW'' resp))"

definition serveRaw ::
  "world \<Rightarrow> request \<Rightarrow> Store \<Rightarrow> disk \<Rightarrow> ref \<Rightarrow> ObjectMeta option \<Rightarrow> string \<Rightarrow> response" where
  "serveRaw w r s d ref meta baseDomain = (case meta of
      Some m \<Rightarrow> (case rawETagSuffix m of
          None \<Rightarrow> writeError w r 409 ''object has no raw representation'' ''NO_RAW''
        | Some sfx \<Rightarrow>
            (let etag = [CHR 0x22] @ itoa (meta_Revision m) @ sfx @ [CHR 0x22];
                 resp = set_header ''ETag'' etag initial_response
             in if not_modified r etag then with_status 304 resp
                else raw_content w r s d ref meta baseDomain resp))
    | None \<Rightarrow> raw_content w r s d ref meta baseDomain initial_response)"

definition serveProjectionPage ::
  "world \<Rightarrow> request \<Rightarrow> Store \<Rightarrow> disk \<Rightarrow> Index \<Rightarrow> ref \<Rightarrow> ref \<Rightarrow> string \<Rightarrow> VhostResolver option \<Rightarrow> string
     \<Rightarrow> response \<times> VhostResolver option" where
  "serveProjectionPage w r s d idx ref defaultViewerRef baseDomain vhost vhostMode =
     (case readForProjection w r s d ref initial_response of
        Inl e \<Rightarrow> (e, vhost)
      | Inr data \<Rightarrow> (case ParseEnvelope data of
          Inl e \<Rightarrow> (writeError w r 500 ''internal error'' ''INTERNAL'', vhost)
        | Inr (env, it) \<Rightarrow>
            (case selectPageRepresentation w (newViewerResolver s d idx ref data (req_auth r)) defaultViewerRef of
               None \<Rightarrow> (writeError w r 409 ''object has no page representation'' ''NO_PAGE'', vhost)
             | Some selected \<Rightarrow>
                 (let resp = setCacheHeaders selected initial_response;
                      pageRef = isolatedPageRef selected;
                      (redirect, vhost) = (if pageRef \<noteq> []
                        then vhostRedirect w r vhost vhostMode ref pageRef ''/page'' resp else (None, vhost))
                  in case redirect of
                       Some x \<Rightarrow> (x, vhost)
                     | None \<Rightarrow>
                         (let etag = sr_etag selected (item_Revision it); resp = set_header ''ETag'' etag resp
                          in if not_modified r etag then (with_status 304 resp, vhost)
                             else (sr_write w selected data baseDomain resp, vhost))))))"

section \<open>Root targets\<close>

definition rootObjectRef :: "world \<Rightarrow> request \<Rightarrow> Index \<Rightarrow> response + ref" where
  "rootObjectRef w r idx = (case GetAll idx [] ''ROOT'' [] False of
      [] \<Rightarrow> Inl (writeError w r 404 ''no root object'' ''NOT_FOUND'')
    | m # ms \<Rightarrow> Inr (meta_Ref m))"

definition resolveRootTarget ::
  "world \<Rightarrow> request \<Rightarrow> Index \<Rightarrow> VhostResolver option \<Rightarrow> string \<Rightarrow> string
     \<Rightarrow> (response + ref) \<times> VhostResolver option" where
  "resolveRootTarget w r idx vhost vhostMode pathSuffix = (case vhost of
      None \<Rightarrow> (rootObjectRef w r idx, None)
    | Some v \<Rightarrow>
        (let (resolved, v) = Resolve w v (req_host r); vhost = Some v in
         if resolved = [] then
           (if baseHostMatches (req_host r) (vh_baseDomain v) then (rootObjectRef w r idx, vhost)
            else (Inl (writeError w r 404 ''unknown host'' ''NOT_FOUND''), vhost))
         else if normalizeVhostMode vhostMode = VhostModeRedirect then
           (if (case GetMeta idx resolved of
                  Some m \<Rightarrow> \<not> meta_IsPublic m \<and> \<not> CanRead (meta_Realms m) (req_auth r) (Resolver idx)
                | None \<Rightarrow> False)
            then (Inl (writeError w r 404 ''object not found'' ''NOT_FOUND''), vhost)
            else (Inl (http_redirect (pageRedirectTargetPath vhostMode v r resolved resolved pathSuffix)
                    initial_response), vhost))
         else (Inr resolved, vhost)))"

section \<open>The pipelines for one ref\<close>

definition serveJSONForRef ::
  "world \<Rightarrow> request \<Rightarrow> Store \<Rightarrow> disk \<Rightarrow> Index \<Rightarrow> ref \<Rightarrow> response" where
  "serveJSONForRef w r s d idx ref =
     (if \<not> IsValidRef ref then writeError w r 404 ''object not found'' ''NOT_FOUND''
      else (case authorizeProjection w r ref idx of
          Inl e \<Rightarrow> e
        | Inr meta \<Rightarrow> serveJSON w r s d ref meta))"

definition serveRawForRef ::
  "world \<Rightarrow> request \<Rightarrow> Store \<Rightarrow> disk \<Rightarrow> Index \<Rightarrow> VhostResolver option \<Rightarrow> string \<Rightarrow> string \<Rightarrow> ref
     \<Rightarrow> response \<times> VhostResolver option" where
  "serveRawForRef w r s d idx vhost vhostMode baseDomain ref =
     (if \<not> IsValidRef ref then (writeError w r 404 ''object not found'' ''NOT_FOUND'', vhost)
      else (case authorizeProjection w r ref idx of
          Inl e \<Rightarrow> (e, vhost)
        | Inr meta \<Rightarrow> (case rawVhostRedirect w r vhost vhostMode ref meta of
            (Some resp, vhost) \<Rightarrow> (resp, vhost)
          | (None, vhost) \<Rightarrow> (serveRaw w r s d ref meta baseDomain, vhost))))"

definition servePageForRef ::
  "world \<Rightarrow> request \<Rightarrow> Store \<Rightarrow> disk \<Rightarrow> Index \<Rightarrow> VhostResolver option \<Rightarrow> string \<Rightarrow> string \<Rightarrow> ref \<Rightarrow> ref
     \<Rightarrow> response \<times> VhostResolver option" where
  "servePageForRef w r s d idx vhost vhostMode baseDomain defaultViewerRef ref =
     (if \<not> IsValidRef ref then (writeError w r 404 ''object not found'' ''NOT_FOUND'', vhost)
      else (case authorizeProjection w r ref idx of
          Inl e \<Rightarrow> (e, vhost)
        | Inr meta \<Rightarrow> serveProjectionPage w r s d idx ref defaultViewerRef baseDomain vhost vhostMode))"

section \<open>What a projection gives away\<close>

lemma authorizeProjection_Inr:
  "authorizeProjection w r ref idx = Inr meta \<longleftrightarrow> GetMeta idx ref = meta \<and>
     (case meta of None \<Rightarrow> True
      | Some m \<Rightarrow> meta_IsPublic m \<or> CanRead (meta_Realms m) (req_auth r) (Resolver idx))"
  by (auto simp: authorizeProjection_def split: option.splits)

lemma authorizeProjection_denied:
  "GetMeta idx ref = Some m \<Longrightarrow> \<not> meta_IsPublic m \<Longrightarrow>
     \<not> CanRead (meta_Realms m) (req_auth r) (Resolver idx) \<Longrightarrow>
     authorizeProjection w r ref idx = Inl (writeError w r 404 ''object not found'' ''NOT_FOUND'')"
  by (simp add: authorizeProjection_def)

lemma serveJSON_missing:
  "Read w s d ref = Inr None \<Longrightarrow>
     serveJSON w r s d ref None = writeError w r 404 ''object not found'' ''NOT_FOUND''"
  by (simp add: serveJSON_def readForProjection_def writeError_def)

lemma raw_content_missing:
  "Read w s d ref = Inr None \<Longrightarrow>
     raw_content w r s d ref None b initial_response = writeError w r 404 ''object not found'' ''NOT_FOUND''"
  by (simp add: raw_content_def readForProjection_def writeError_def)

lemma serveProjectionPage_missing:
  "Read w s d ref = Inr None \<Longrightarrow>
     serveProjectionPage w r s d idx ref dref b vhost mode =
       (writeError w r 404 ''object not found'' ''NOT_FOUND'', vhost)"
  by (simp add: serveProjectionPage_def readForProjection_def writeError_def)

lemma serveJSON_body:
  assumes "resp_status (serveJSON w r s d ref meta) = 200"
  shows "Read w s d ref = Inr (Some (resp_body (serveJSON w r s d ref meta)))"
  using assms
  by (auto simp: serveJSON_def readForProjection_def WriteProblem_def Let_def
      split: option.splits sum.splits if_splits)

end
