(* ===== verification/Serving_Paginate.thy ===== *)
theory Serving_Paginate
  imports Serving_Content
begin

text \<open>
  \<open>serving/paginate.go\<close> and the encoding of list responses: a page of a sorted listing after a
  cursor, the objects loaded for it, and the counts of inbound relations. The lemmas show that
  following the cursors visits a listing once and whole, and that a cursor the hub hands out is
  the cursor the next request is read with.
\<close>

section \<open>Cursors\<close>

definition cursor_key :: "Cursor \<Rightarrow> meta_key" where
  "cursor_key c = Meta_Key (cur_T c) (cur_Ref c)"

text \<open>The test of the loop: the object comes after the cursor in the listing.\<close>

definition past_cursor :: "Cursor \<Rightarrow> ObjectMeta \<Rightarrow> bool" where
  "past_cursor c m \<longleftrightarrow> meta_UpdatedAt m < cur_T c \<or>
     (meta_UpdatedAt m = cur_T c \<and> go_less (meta_Ref m) (cur_Ref c))"

fun skip_to_cursor :: "Cursor \<Rightarrow> ObjectMeta list \<Rightarrow> ObjectMeta list" where
  "skip_to_cursor c [] = []"
| "skip_to_cursor c (m # ms) = (if past_cursor c m then m # ms else skip_to_cursor c ms)"

definition encode_cursor :: "world \<Rightarrow> Cursor \<Rightarrow> string" where
  "encode_cursor w c = raw_url_encode (print_json True
     (JObj [(''t'', JStr (w_time_json w (cur_T c))), (''r'', JStr (cur_Ref c))]))"

text \<open>What of \<open>metas\<close> is on the page: the objects, the cursor after them, and whether there are more.\<close>

definition page_of :: "ObjectMeta list \<Rightarrow> Cursor option \<Rightarrow> int \<Rightarrow> ObjectMeta list \<times> Cursor option \<times> bool" where
  "page_of metas cursor limit =
     (let metas = (case cursor of None \<Rightarrow> metas | Some c \<Rightarrow> skip_to_cursor c metas);
          hasMore = int (length metas) > limit;
          metas = (if hasMore then take (nat limit) metas else metas);
          next = (if hasMore \<and> 0 < length metas
            then Some \<lparr>cur_T = meta_UpdatedAt (last metas), cur_Ref = meta_Ref (last metas)\<rparr> else None)
      in (metas, next, hasMore))"

text \<open>The loading loop skips what cannot be read, and strips the payload of a BLOB.\<close>

fun load_items :: "world \<Rightarrow> Store \<Rightarrow> disk \<Rightarrow> ObjectMeta list \<Rightarrow> (bytes \<times> ref) list" where
  "load_items w s d [] = []"
| "load_items w s d (m # ms) = (case Read w s d (meta_Ref m) of
      Inl e \<Rightarrow> load_items w s d ms
    | Inr None \<Rightarrow> load_items w s d ms
    | Inr (Some data) \<Rightarrow>
        (if meta_Type m = ''BLOB'' then stripBlobData data else data, meta_Ref m) # load_items w s d ms)"

definition paginateAndLoad ::
  "world \<Rightarrow> Store \<Rightarrow> disk \<Rightarrow> ObjectMeta list \<Rightarrow> Cursor option \<Rightarrow> int
     \<Rightarrow> (bytes \<times> ref) list \<times> string option \<times> bool" where
  "paginateAndLoad w s d metas cursor limit =
     (let (page, next, hasMore) = page_of metas cursor limit
      in (load_items w s d page, map_option (encode_cursor w) next, hasMore))"

definition counts_json :: "(string, int) gomap \<Rightarrow> json" where
  "counts_json counts = JObj (sort_key fst (map (\<lambda>(k, n). (k, JNum (itoa n))) counts))"

text \<open>\<open>None\<close> is the panic of storing into the nil map of an item that is the literal null.\<close>

definition enrich_item :: "Index \<Rightarrow> bytes \<Rightarrow> ref \<Rightarrow> bytes option" where
  "enrich_item idx it ref = (case raw_map it of
      None \<Rightarrow> Some it
    | Some None \<Rightarrow> None
    | Some (Some obj) \<Rightarrow> Some (marshal_map (Some
        (mput ''_inbound_counts'' (print_json True (counts_json (GetInboundCounts idx ref))) obj))))"

definition enrichWithInboundCounts :: "Index \<Rightarrow> (bytes \<times> ref) list \<Rightarrow> (bytes \<times> ref) list option" where
  "enrichWithInboundCounts idx items =
     those (map (\<lambda>(it, ref). map_option (\<lambda>b. (b, ref)) (enrich_item idx it ref)) items)"

text \<open>
  \<open>writeList\<close>: the encoder compacts every raw item; it fails, and writes nothing, when one is not
  JSON.
\<close>

definition list_body :: "bytes list \<Rightarrow> string option \<Rightarrow> bool \<Rightarrow> bytes" where
  "list_body items cursor hasMore = ''{\"items\":['' @ comma_list (map (compact_json False) items) @
     ''],\"cursor\":'' @ print_json True (case cursor of Some c \<Rightarrow> JStr c | None \<Rightarrow> JNull) @
     '',\"has_more\":'' @ print_json True (JBool hasMore) @ ''}'' @ [CHR 0x0A]"

definition writeList :: "bytes list \<Rightarrow> string option \<Rightarrow> bool \<Rightarrow> response" where
  "writeList items cursor hasMore =
     (if list_ex (\<lambda>b. parse_json b = None) items then with_status 200 initial_response
      else write_body (list_body items cursor hasMore) (with_status 200 initial_response))"

text \<open>
  A panic before anything is sent: the recovering middleware answers 500. Otherwise the list.
\<close>

definition panic_response :: response where
  "panic_response = with_status 500 initial_response"

definition writeItems :: "(bytes \<times> ref) list option \<Rightarrow> string option \<Rightarrow> bool \<Rightarrow> response" where
  "writeItems items cursor hasMore = (case items of
      None \<Rightarrow> panic_response
    | Some its \<Rightarrow> writeList (map fst its) cursor hasMore)"

section \<open>Following the cursors\<close>

lemma past_cursor_key: "past_cursor c m \<longleftrightarrow> cursor_key c < meta_key m"
  by (auto simp: past_cursor_def cursor_key_def meta_key_def less_meta_key_def)

lemma skip_dropWhile: "skip_to_cursor c ms = dropWhile (\<lambda>m. \<not> cursor_key c < meta_key m) ms"
  by (induction ms) (auto simp: past_cursor_key)

text \<open>The pages a client sees that starts without a cursor and follows it to the end.\<close>

fun follow :: "nat \<Rightarrow> ObjectMeta list \<Rightarrow> Cursor option \<Rightarrow> int \<Rightarrow> ObjectMeta list list" where
  "follow 0 metas cursor limit = []"
| "follow (Suc n) metas cursor limit = (case page_of metas cursor limit of
     (page, next, rest) \<Rightarrow> page # (case next of None \<Rightarrow> [] | Some c \<Rightarrow> follow n metas (Some c) limit))"

definition ascending :: "ObjectMeta list \<Rightarrow> bool" where
  "ascending metas \<longleftrightarrow> sorted_wrt (<) (map meta_key metas)"

lemma skip_to_last:
  assumes "ascending (xs @ m # ys)"
  shows "skip_to_cursor \<lparr>cur_T = meta_UpdatedAt m, cur_Ref = meta_Ref m\<rparr> (xs @ m # ys) = ys"
proof -
  have "cursor_key \<lparr>cur_T = meta_UpdatedAt m, cur_Ref = meta_Ref m\<rparr> = meta_key m"
    by (simp add: cursor_key_def meta_key_def)
  moreover have "sorted_wrt (\<lambda>a b. meta_key a < meta_key b) (xs @ m # ys)"
    using assms unfolding ascending_def sorted_wrt_map .
  ultimately show ?thesis
    using dropWhile_sorted_split [where R = "\<lambda>a b. meta_key a < meta_key b" and P = "\<lambda>b. meta_key m < meta_key b"]
    by (auto simp: skip_dropWhile dest: order.asym)
qed

lemma page_of_rest:
  assumes "(case cursor of None \<Rightarrow> metas | Some c \<Rightarrow> skip_to_cursor c metas) = rest" and "1 \<le> limit"
    and "ascending metas" and "metas = before @ rest"
  obtains page where "page_of metas cursor limit = (page, None, False)" "page = rest" "length rest \<le> nat limit"
  | page c where "page_of metas cursor limit = (page, Some c, True)" "page = take (nat limit) rest"
      "skip_to_cursor c metas = drop (nat limit) rest" "nat limit < length rest"
proof (cases "nat limit < length rest")
  case True
  let ?page = "take (nat limit) rest"
  have ne: "?page \<noteq> []" and more: "int (length rest) > limit" using True assms(2) by auto
  let ?m = "last ?page" and ?c = "\<lparr>cur_T = meta_UpdatedAt (last ?page), cur_Ref = meta_Ref (last ?page)\<rparr>"
  have "metas = (before @ butlast ?page) @ ?m # drop (nat limit) rest"
    using assms(4) ne append_take_drop_id [of "nat limit" rest] by (metis append.assoc append_Cons append_Nil append_butlast_last_id)
  with skip_to_last assms(3) have "skip_to_cursor ?c metas = drop (nat limit) rest" by metis
  then show ?thesis using that(2) [of ?page ?c] assms(1) ne more True
    by (simp add: page_of_def Let_def)
next
  case False
  then show ?thesis using that(1) [of rest] assms(1,2) by (simp add: page_of_def Let_def)
qed

lemma follow_rest:
  assumes "(case cursor of None \<Rightarrow> metas | Some c \<Rightarrow> skip_to_cursor c metas) = rest"
    and "1 \<le> limit" and "ascending metas" and "metas = before @ rest" and "length rest < n"
  shows "concat (follow n metas cursor limit) = rest"
  using assms
proof (induction n arbitrary: cursor rest before)
  case (Suc n)
  from Suc.prems(1-4) show ?case
  proof (cases rule: page_of_rest)
    case (1 page)
    then show ?thesis by simp
  next
    case (2 page c)
    have "concat (follow n metas (Some c) limit) = drop (nat limit) rest"
      using Suc.IH [of "Some c" "drop (nat limit) rest" "before @ take (nat limit) rest"] Suc.prems 2
      by simp
    with 2 show ?thesis by simp
  qed
qed simp

lemma follow_complete:
  "1 \<le> limit \<Longrightarrow> ascending metas \<Longrightarrow> length metas < n \<Longrightarrow> concat (follow n metas None limit) = metas"
  using follow_rest [where cursor = None and before = "[]" and metas = metas and rest = metas and limit = limit and n = n] by simp

lemma follow_page_length:
  "1 \<le> limit \<Longrightarrow> p \<in> set (follow n metas cursor limit) \<Longrightarrow> int (length p) \<le> limit"
  by (induction n arbitrary: cursor) (auto simp: page_of_def Let_def split: option.splits if_splits)

lemma GetAll_pages:
  assumes "represents objs idx" and "1 \<le> limit" and "length (GetAll idx pubkey ty pk mo) < n"
  shows "concat (follow n (GetAll idx pubkey ty pk mo) None limit) = GetAll idx pubkey ty pk mo"
  using assms by (intro follow_complete) (simp_all add: ascending_def GetAll_ascending)

lemma page_subset:
  assumes "page_of metas cursor limit = (page, next, b)"
  shows "set page \<subseteq> set metas"
proof -
  let ?rest = "case cursor of None \<Rightarrow> metas | Some c \<Rightarrow> skip_to_cursor c metas"
  have "set ?rest \<subseteq> set metas"
    by (auto simp: skip_dropWhile dest: set_dropWhileD split: option.splits)
  moreover have "page = ?rest \<or> page = take (nat limit) ?rest"
    using assms by (auto simp: page_of_def Let_def)
  ultimately show ?thesis using set_take_subset [of "nat limit" ?rest] by blast
qed

definition listed :: "ObjectMeta \<Rightarrow> bytes \<Rightarrow> bytes" where
  "listed m data = (if meta_Type m = ''BLOB'' then stripBlobData data else data)"

lemma load_items_refs:
  "(b, ref) \<in> set (load_items w s d ms) \<Longrightarrow>
     \<exists>m\<in>set ms. meta_Ref m = ref \<and> (\<exists>data. Read w s d ref = Inr (Some data) \<and> b = listed m data)"
  by (induction ms) (auto simp: listed_def [symmetric] split: sum.splits option.splits)

section \<open>A cursor is read as it was written\<close>

text \<open>Bytes that neither the encoder escapes nor the scanner treats specially.\<close>

definition plain :: "char \<Rightarrow> bool" where
  "plain c \<longleftrightarrow> 0x20 \<le> ord_of c \<and> ord_of c < 0x80 \<and> c \<noteq> CHR 0x22 \<and> c \<noteq> CHR 0x5C \<and>
     c \<noteq> CHR ''<'' \<and> c \<noteq> CHR ''>'' \<and> c \<noteq> CHR ''&''"

lemma not_plain:
  "\<not> plain (CHR 0x22)" "\<not> plain (CHR 0x5C)" "\<not> plain (CHR 0x08)" "\<not> plain (CHR 0x0C)"
  "\<not> plain (CHR 0x0A)" "\<not> plain (CHR 0x0D)" "\<not> plain (CHR 0x09)"
  "\<not> plain (CHR ''<'')" "\<not> plain (CHR ''>'')" "\<not> plain (CHR ''&'')"
  by (simp_all add: plain_def)

lemma plain_neq: "plain c \<Longrightarrow> \<not> plain d \<Longrightarrow> (c = d) = False"
  by auto

lemma plain_ord: "plain c \<Longrightarrow> (ord_of c < 0x20) = False" "plain c \<Longrightarrow> (ord_of c < 0x80) = True"
  by (auto simp: plain_def)

lemma escape_ascii_plain: "plain c \<Longrightarrow> escape_ascii html c = [c]"
  unfolding escape_ascii_def by (simp only: plain_neq not_plain plain_ord if_False simp_thms not_False_eq_True)

lemma escape_plain: "list_all plain s \<Longrightarrow> escape_string html s = s"
proof (induction s)
  case (Cons c s)
  then show ?case by (subst escape_string.simps) (simp add: plain_ord escape_ascii_plain)
qed (simp add: escape_string.simps)

lemma lex_plain: "list_all plain s \<Longrightarrow> lex_string (s @ CHR 0x22 # r) = Some (s, r)"
proof (induction s)
  case (Cons c s)
  then show ?case by (subst lex_string.simps) (simp add: plain_neq not_plain plain_ord)
qed (simp add: lex_string.simps)

lemma parse_two_strings:
  assumes "list_all plain a" and "list_all plain b"
  shows "parse_json (print_json True (JObj [(''t'', JStr a), (''r'', JStr b)])) =
     Some (JObj [(''t'', JStr a), (''r'', JStr b)])"
proof -
  have t: "lex_string (CHR ''t'' # CHR 0x22 # r) = Some (''t'', r)" for r
    using lex_plain [of "''t''" r] by (simp add: plain_def)
  have r: "lex_string (CHR ''r'' # CHR 0x22 # r) = Some (''r'', r)" for r
    using lex_plain [of "''r''" r] by (simp add: plain_def)
  have e: "escape_string True ''t'' = ''t''" "escape_string True ''r'' = ''r''"
    by (simp_all add: escape_plain plain_def)
  have "parse_depth 1 (print_json True (JObj [(''t'', JStr a), (''r'', JStr b)])) =
      Some (JObj [(''t'', JStr a), (''r'', JStr b)])"
    by (simp add: parse_depth_def parse_step_def parse_object_def parse_member_def skip_ws_def
        json_space_def e t r escape_plain [OF assms(1)] escape_plain [OF assms(2)]
        lex_plain [OF assms(1)] lex_plain [OF assms(2)])
  then show ?thesis by (rule parse_depth_json) simp
qed

lemma base64url_plain: "base64url_char c \<Longrightarrow> plain c"
  by (auto simp: base64url_char_def plain_def)

lemma uuid_plain: "uuid_hex_char c \<Longrightarrow> plain c"
  by (auto simp: uuid_hex_char_def plain_def)

lemma valid_ref_plain: "IsValidRef ref \<Longrightarrow> list_all plain ref"
  using isCanonicalUUID_chars
  by (fastforce elim!: IsValidRefE simp: isBase64URLChars_def list_all_iff plain_def
      dest: base64url_plain uuid_plain)

lemma parse_encode_cursor:
  assumes "list_all plain (cur_Ref c)" and "list_all plain (w_time_json w (cur_T c))"
    and "parse_rfc3339 (w_time_json w (cur_T c)) = Some (cur_T c)"
  shows "parseCursor (encode_cursor w c) = Some c"
proof -
  let ?j = "JObj [(''t'', JStr (w_time_json w (cur_T c))), (''r'', JStr (cur_Ref c))]"
  have "encode_cursor w c \<noteq> []"
  proof
    assume "encode_cursor w c = []"
    then have "raw_url_decode [] = Some (print_json True ?j)"
      using raw_url_decode_encode [of "print_json True ?j"] by (simp add: encode_cursor_def)
    moreover have "raw_url_decode [] = Some []" by code_simp
    ultimately show False by simp
  qed
  moreover have "decode_Cursor ?j = Some c"
    using assms(3) by (simp add: decode_Cursor_def decode_field_def field_vals_def dec_time_def dec_string_def fold_name.simps has_prefix_def
        ascii_lower_def)
  ultimately show ?thesis
    using parse_two_strings [OF assms(2,1)]
    by (simp add: parseCursor_def encode_cursor_def del: print_json.simps)
qed

section \<open>A client that follows the cursors\<close>

text \<open>
  What a client gets from \<open>paginateAndLoad\<close> that asks for the first page of a listing and then, as long as
  an answer has a cursor, for the page after it, sending the cursor back as it received it. The listing
  and the disk stay as they are meanwhile.
\<close>

fun client_pages ::
  "world \<Rightarrow> Store \<Rightarrow> disk \<Rightarrow> nat \<Rightarrow> ObjectMeta list \<Rightarrow> string \<Rightarrow> int \<Rightarrow> (bytes \<times> ref) list list" where
  "client_pages w s d 0 metas sent limit = []"
| "client_pages w s d (Suc n) metas sent limit = (case paginateAndLoad w s d metas (parseCursor sent) limit of
     (items, next, hasMore) \<Rightarrow> items # (case next of None \<Rightarrow> []
       | Some c \<Rightarrow> client_pages w s d n metas c limit))"

text \<open>
  What is asked of the objects of the listing: the characters of the reference need no escape, as those
  of a well-formed one do not, and their time is read back as \<open>MarshalJSON\<close> writes it, as RFC 3339 with nine
  digits of a second does for the years up to 9999.
\<close>

definition cursor_safe :: "world \<Rightarrow> ObjectMeta \<Rightarrow> bool" where
  "cursor_safe w m \<longleftrightarrow> list_all plain (meta_Ref m) \<and> list_all plain (w_time_json w (meta_UpdatedAt m)) \<and>
     parse_rfc3339 (w_time_json w (meta_UpdatedAt m)) = Some (meta_UpdatedAt m)"

lemma page_of_next:
  assumes "page_of metas cursor limit = (page, Some c, rest)"
    and "1 \<le> limit"
  shows "\<exists>m\<in>set metas. c = \<lparr>cur_T = meta_UpdatedAt m, cur_Ref = meta_Ref m\<rparr>"
proof -
  have "page \<noteq> []" "c = \<lparr>cur_T = meta_UpdatedAt (last page), cur_Ref = meta_Ref (last page)\<rparr>"
    using assms by (auto simp: page_of_def Let_def split: if_splits)
  with page_subset [OF assms(1)] last_in_set [of page] show ?thesis by blast
qed

lemma client_pages_follow:
  assumes "list_all (cursor_safe w) metas" and "1 \<le> limit"
  shows "client_pages w s d n metas sent limit = map (load_items w s d) (follow n metas (parseCursor sent) limit)"
proof (induction n arbitrary: sent)
  case (Suc n)
  have "parseCursor (encode_cursor w c) = Some c"
    if "page_of metas (parseCursor sent) limit = (page, Some c, rest)" for page c rest
  proof -
    from page_of_next [OF that assms(2)] obtain m where m: "m \<in> set metas"
      "c = \<lparr>cur_T = meta_UpdatedAt m, cur_Ref = meta_Ref m\<rparr>" by blast
    with assms(1) show ?thesis by (intro parse_encode_cursor) (auto simp: list_all_iff cursor_safe_def)
  qed
  with Suc.IH show ?case by (auto simp: paginateAndLoad_def split: prod.splits option.splits)
qed simp

text \<open>An object of a listing as it is sent; \<open>None\<close> if its file cannot be read.\<close>

definition page_item :: "world \<Rightarrow> Store \<Rightarrow> disk \<Rightarrow> ObjectMeta \<Rightarrow> (bytes \<times> ref) option" where
  "page_item w s d m = (case Read w s d (meta_Ref m) of
      Inr (Some data) \<Rightarrow> Some (listed m data, meta_Ref m) | _ \<Rightarrow> None)"

lemma load_items_filter: "load_items w s d ms = List.map_filter (page_item w s d) ms"
  by (induction ms) (auto simp: page_item_def listed_def map_filter_simps split: sum.splits option.splits)

lemma concat_load_items: "concat (map (load_items w s d) pages) = List.map_filter (page_item w s d) (concat pages)"
  by (induction pages) (simp_all add: load_items_filter map_filter_def)

lemma load_items_length: "length (load_items w s d ms) \<le> length ms"
  by (induction ms) (auto split: sum.splits option.splits)

lemma follow_length:
  assumes "(case cursor of None \<Rightarrow> metas | Some c \<Rightarrow> skip_to_cursor c metas) = rest"
    and "1 \<le> limit" and "ascending metas" and "metas = before @ rest"
  shows "length (follow n metas cursor limit) \<le> Suc (length rest)"
  using assms
proof (induction n arbitrary: cursor rest before)
  case (Suc n)
  from Suc.prems(1-4) show ?case
  proof (cases rule: page_of_rest)
    case (1 page)
    then show ?thesis by simp
  next
    case (2 page c)
    have "length (follow n metas (Some c) limit) \<le> Suc (length (drop (nat limit) rest))"
      using Suc.IH [of "Some c" "drop (nat limit) rest" "before @ take (nat limit) rest"] Suc.prems 2 by simp
    with 2 Suc.prems(2) show ?thesis by simp
  qed
qed simp

text \<open>
  C27 A client that follows the cursors of \<open>paginateAndLoad\<close> over a listing that does not change gets every
  object of it whose file can be read, exactly once, in the order of the listing and with its bytes (a
  BLOB without its payload), on pages of at most the requested number and never more than 200; after
  at most one request more than there are objects it is done. An object that cannot be read is left
  out of its page, as the code leaves it out, and loses no other. The cursor that the client sends is
  the text it was given, through the JSON and base64 encodings and back; the times of the objects
  must be ones that are read back as they are written (\<open>cursor_safe\<close>).
\<close>
theorem pages_cover_listing:
  assumes "represents objs idx" and "list_all (cursor_safe w) (GetAll idx pubkey ty pk mo)"
    and "length (GetAll idx pubkey ty pk mo) < n"
  shows "concat (client_pages w s d n (GetAll idx pubkey ty pk mo) [] (parseLimit asked 50 200)) =
      List.map_filter (page_item w s d) (GetAll idx pubkey ty pk mo) \<and>
    list_all (\<lambda>page. length page \<le> 200)
      (client_pages w s d n (GetAll idx pubkey ty pk mo) [] (parseLimit asked 50 200)) \<and>
    length (client_pages w s d n (GetAll idx pubkey ty pk mo) [] (parseLimit asked 50 200)) \<le>
      length (GetAll idx pubkey ty pk mo) + 1"
proof -
  let ?all = "GetAll idx pubkey ty pk mo" and ?limit = "parseLimit asked 50 200"
  have limit: "1 \<le> ?limit" "?limit \<le> 200" using parseLimit_bounds [of 50 200] by auto
  have pages: "client_pages w s d n ?all [] ?limit = map (load_items w s d) (follow n ?all None ?limit)"
    using client_pages_follow [OF assms(2) limit(1), of s d n "[]"] by (simp add: parseCursor_def)
  have "length (load_items w s d page) \<le> 200" if "page \<in> set (follow n ?all None ?limit)" for page
    using follow_page_length [OF limit(1) that] load_items_length [of w s d page] limit(2) by linarith
  then show ?thesis
    using GetAll_pages [OF assms(1) limit(1) assms(3)] limit(1) GetAll_ascending [OF assms(1)]
      follow_length [where cursor = None and before = "[]" and metas = ?all and rest = ?all and n = n and limit = ?limit]
    by (simp add: pages concat_load_items list_all_iff ascending_def)
qed

text \<open>Three objects, one of which has lost its file, on pages of one object.\<close>

definition pages_index :: Index where
  "pages_index = idx_Update ''a'' demo_note 0 [[''dataverse001'']] (idx_Update ''c'' demo_note 0 [[''dataverse001'']]
     (idx_Update ''b'' demo_note 0 [[''dataverse001'']] (NewIndex (Some []))))"

definition pages_disk :: disk where
  "pages_disk = mput (live_path demo_store ''a'') (''1'', 0) (mput (live_path demo_store ''c'') (''3'', 0) [])"

definition pages_world :: world where
  "pages_world = calm_world\<lparr>w_time_json := (\<lambda>t. ''1970-01-01T00:00:00Z'')\<rparr>"

theorem pages_cover_listing_witness:
  "concat (client_pages pages_world demo_store pages_disk 4 (GetAll pages_index [] [] [] False) [] (parseLimit ''1'' 50 200)) =
     [(''3'', ''c''), (''1'', ''a'')] \<and> map meta_Ref (GetAll pages_index [] [] [] False) = [''c'', ''b'', ''a'']"
proof -
  have l: "map meta_Ref (GetAll pages_index [] [] [] False) = [''c'', ''b'', ''a'']"
    "map meta_UpdatedAt (GetAll pages_index [] [] [] False) = [0, 0, 0]" by code_simp+
  have got: "List.map_filter (page_item pages_world demo_store pages_disk) (GetAll pages_index [] [] [] False) =
      [(''3'', ''c''), (''1'', ''a'')]" by code_simp
  have "parse_rfc3339 ''1970-01-01T00:00:00Z'' = Some 0" by code_simp
  then have "cursor_safe pages_world m" if "meta_Ref m \<in> {''a'', ''b'', ''c''}" "meta_UpdatedAt m = 0" for m
    using that by (auto simp: cursor_safe_def pages_world_def plain_def)
  with l have safe: "list_all (cursor_safe pages_world) (GetAll pages_index [] [] [] False)"
    by (auto simp: map_eq_Cons_conv)
  have n: "length (GetAll pages_index [] [] [] False) < 4"
    using arg_cong [OF l(1), of length] by simp
  have "toml_ok (Some [])" by code_simp
  note rep = idx_Update_represents [OF idx_Update_represents [OF idx_Update_represents [OF NewIndex_represents [OF this]]],
      of "''b''" demo_note 0 "[[''dataverse001'']]" "''c''" demo_note 0 "[[''dataverse001'']]"
      "''a''" demo_note 0 "[[''dataverse001'']]", folded pages_index_def]
  from pages_cover_listing [OF rep safe n, of demo_store pages_disk "''1''"] l(1) got show ?thesis by simp
qed

end
