(* ===== verification/Auth_Tokens.thy ===== *)
theory Auth_Tokens
  imports Object_Problem Object_Verify
begin

text \<open>
  \<open>auth/auth.go\<close>: challenges, bearer tokens and the session cookie. The store is a record of two
  maps; a handler runs at one instant of the clock. The lemmas show that a token is only given
  for a signature over an outstanding challenge, that a challenge is spent by its first use,
  and what logout and cleanup leave.
\<close>

record tokenEntry =
  tok_pubkey :: string
  tok_expiresAt :: instant

record AuthStore =
  auth_challenges :: "(string, instant) gomap"
  auth_tokens :: "(string, tokenEntry) gomap"
  auth_tokenExpiry :: int

definition challengeExpiry :: int where
  "challengeExpiry = 5 * minute"

definition NewAuthStore :: "int \<Rightarrow> AuthStore" where
  "NewAuthStore expiry = \<lparr>auth_challenges = [], auth_tokens = [], auth_tokenExpiry = expiry\<rparr>"

definition HandleChallenge :: "world \<Rightarrow> request \<Rightarrow> AuthStore \<Rightarrow> response \<times> AuthStore" where
  "HandleChallenge w r a = (case w_random w of
      None \<Rightarrow> (writeError w r 500 ''internal error'' ''INTERNAL'', a)
    | Some b \<Rightarrow>
        (let challenge = raw_url_encode b; expiresAt = w_now w + challengeExpiry
         in (write_body (encode_json (JObj [(''challenge'', JStr challenge),
                (''expires_at'', JStr (w_format w expiresAt))]))
              (set_header ''Content-Type'' ''application/json'' initial_response),
             a\<lparr>auth_challenges := mput challenge expiresAt (auth_challenges a)\<rparr>)))"

record token_request =
  tr_Pubkey :: string
  tr_Challenge :: string
  tr_Signature :: string

text \<open>\<open>json.NewDecoder(r.Body).Decode\<close>: the first value of the body, the rest is not looked at.\<close>

definition decode_token_request :: "bytes option \<Rightarrow> token_request option" where
  "decode_token_request body = (case Option.bind body parse_first of
      None \<Rightarrow> None
    | Some JNull \<Rightarrow> Some \<lparr>tr_Pubkey = [], tr_Challenge = [], tr_Signature = []\<rparr>
    | Some (JObj ms) \<Rightarrow>
        (let (p, ok1) = decode_field dec_string [] ''pubkey'' ms;
             (c, ok2) = decode_field dec_string [] ''challenge'' ms;
             (g, ok3) = decode_field dec_string [] ''signature'' ms
         in if ok1 \<and> ok2 \<and> ok3
            then Some \<lparr>tr_Pubkey = p, tr_Challenge = c, tr_Signature = g\<rparr> else None)
    | Some _ \<Rightarrow> None)"

text \<open>The checks of \<open>HandleToken\<close> on key and signature; \<open>None\<close> when all pass.\<close>

definition check_token_signature :: "world \<Rightarrow> token_request \<Rightarrow> string option" where
  "check_token_signature w q = (case raw_url_decode (tr_Pubkey q) of
      None \<Rightarrow> Some ''invalid pubkey''
    | Some pk \<Rightarrow>
        if length pk \<noteq> 33 then Some ''invalid pubkey''
        else (case DecompressP256 w pk of
            None \<Rightarrow> Some ''invalid pubkey''
          | Some key \<Rightarrow> (case std_decode (tr_Signature q) of
              None \<Rightarrow> Some ''invalid signature encoding''
            | Some sig \<Rightarrow> (case asn1_signature sig of
                None \<Rightarrow> Some ''invalid signature format''
              | Some (r, s) \<Rightarrow>
                  if \<not> w_ecdsa w key (sha256_bytes_of (tr_Challenge q)) r s
                  then Some ''signature verification failed'' else None))))"

definition whole_seconds :: "int \<Rightarrow> int" where
  "whole_seconds d = (if 0 \<le> d then d div second else - (- d div second))"

text \<open>\<open>http.SetCookie\<close> of the session cookie.\<close>

definition session_cookie :: "string \<Rightarrow> int \<Rightarrow> string" where
  "session_cookie value maxAge = ''dv_session='' @ value @ ''; Path=/'' @
     (if 0 < maxAge then ''; Max-Age='' @ itoa maxAge
      else if maxAge < 0 then ''; Max-Age=0'' else []) @
     ''; HttpOnly; Secure; SameSite=Lax''"

definition HandleToken :: "world \<Rightarrow> request \<Rightarrow> AuthStore \<Rightarrow> response \<times> AuthStore" where
  "HandleToken w r a = (case decode_token_request (req_body r) of
      None \<Rightarrow> (writeError w r 400 ''invalid JSON body'' ''INVALID_REQUEST'', a)
    | Some q \<Rightarrow>
        if tr_Pubkey q = [] \<or> tr_Challenge q = [] \<or> tr_Signature q = []
        then (writeError w r 400 ''missing required fields: pubkey, challenge, signature''
                ''INVALID_REQUEST'', a)
        else
          (let entry = mget (auth_challenges a) (tr_Challenge q);
               a = (if entry = None then a
                    else a\<lparr>auth_challenges := mdel (tr_Challenge q) (auth_challenges a)\<rparr>)
           in if (case entry of None \<Rightarrow> True | Some expiresAt \<Rightarrow> expiresAt < w_now w)
              then (writeError w r 401 ''challenge expired or unknown'' ''CHALLENGE_EXPIRED'', a)
              else (case check_token_signature w q of
                  Some msg \<Rightarrow> (writeError w r 401 msg ''INVALID_SIGNATURE'', a)
                | None \<Rightarrow> (case w_random w of
                    None \<Rightarrow> (writeError w r 500 ''internal error'' ''INTERNAL'', a)
                  | Some tokenBytes \<Rightarrow>
                      (let token = raw_url_encode tokenBytes;
                           expiresAt = w_now w + auth_tokenExpiry a
                       in (write_body (encode_json (JObj [
                              (''expires_at'', JStr (w_format w expiresAt)),
                              (''pubkey'', JStr (tr_Pubkey q)), (''token'', JStr token)]))
                            (set_header ''Content-Type'' ''application/json''
                              (set_header ''Set-Cookie''
                                (session_cookie token (whole_seconds (auth_tokenExpiry a)))
                                initial_response)),
                           a\<lparr>auth_tokens := mput token
                                \<lparr>tok_pubkey = tr_Pubkey q, tok_expiresAt = expiresAt\<rparr>
                                (auth_tokens a)\<rparr>))))))"

definition extractBearerToken :: "request \<Rightarrow> string" where
  "extractBearerToken r = (let a = req_header r ''Authorization'' in
     if \<not> has_prefix a ''Bearer '' then [] else trim_prefix a ''Bearer '')"

definition extractCookieToken :: "request \<Rightarrow> string" where
  "extractCookieToken r = (case req_cookie r ''dv_session'' of None \<Rightarrow> [] | Some v \<Rightarrow> v)"

definition request_token :: "request \<Rightarrow> string" where
  "request_token r = (let token = extractBearerToken r in
     if token = [] then extractCookieToken r else token)"

definition HandleLogout :: "request \<Rightarrow> AuthStore \<Rightarrow> response \<times> AuthStore" where
  "HandleLogout r a =
     (let token = request_token r;
          a' = (if token \<noteq> [] then a\<lparr>auth_tokens := mdel token (auth_tokens a)\<rparr> else a)
      in (write_body (encode_json (JObj [(''status'', JStr ''ok'')]))
            (set_header ''Content-Type'' ''application/json''
              (set_header ''Set-Cookie'' (session_cookie [] (-1)) initial_response)), a'))"

definition ValidateToken :: "world \<Rightarrow> AuthStore \<Rightarrow> string \<Rightarrow> string \<times> bool" where
  "ValidateToken w a token = (case mget (auth_tokens a) token of
      None \<Rightarrow> ([], False)
    | Some e \<Rightarrow> if tok_expiresAt e < w_now w then ([], False) else (tok_pubkey e, True))"

text \<open>\<open>Middleware\<close>: the request as the next handler gets it.\<close>

definition auth_Middleware :: "world \<Rightarrow> AuthStore \<Rightarrow> request \<Rightarrow> request" where
  "auth_Middleware w a r =
     (let token = request_token r in
      if token \<noteq> [] then (case ValidateToken w a token of (pubkey, ok) \<Rightarrow>
          if ok then r\<lparr>req_auth := pubkey\<rparr> else r)
      else r)"

definition auth_cleanup :: "world \<Rightarrow> AuthStore \<Rightarrow> AuthStore" where
  "auth_cleanup w a = a\<lparr>
     auth_challenges := filter (\<lambda>e. \<not> snd e < w_now w) (auth_challenges a),
     auth_tokens := filter (\<lambda>e. \<not> tok_expiresAt (snd e) < w_now w) (auth_tokens a)\<rparr>"

section \<open>When a token is given\<close>

definition token_entry :: "world \<Rightarrow> AuthStore \<Rightarrow> token_request \<Rightarrow> tokenEntry" where
  "token_entry w a q = \<lparr>tok_pubkey = tr_Pubkey q, tok_expiresAt = w_now w + auth_tokenExpiry a\<rparr>"

text \<open>The conditions under which \<open>POST /auth/token\<close> answers 200.\<close>

definition grants :: "world \<Rightarrow> AuthStore \<Rightarrow> token_request \<Rightarrow> bytes \<Rightarrow> bool" where
  "grants w a q b \<longleftrightarrow> tr_Pubkey q \<noteq> [] \<and> tr_Challenge q \<noteq> [] \<and> tr_Signature q \<noteq> [] \<and>
     (\<exists>t. mget (auth_challenges a) (tr_Challenge q) = Some t \<and> w_now w \<le> t) \<and>
     check_token_signature w q = None \<and> w_random w = Some b"

lemma HandleToken_ok:
  "resp_status (fst (HandleToken w r a)) = 200 \<longleftrightarrow>
     (\<exists>q b. decode_token_request (req_body r) = Some q \<and> grants w a q b)"
  by (auto simp: HandleToken_def grants_def Let_def not_less split: option.splits if_splits)

lemma HandleToken_granted:
  assumes "decode_token_request (req_body r) = Some q" and "grants w a q b"
  shows "snd (HandleToken w r a) = a\<lparr>auth_challenges := mdel (tr_Challenge q) (auth_challenges a),
     auth_tokens := mput (raw_url_encode b) (token_entry w a q) (auth_tokens a)\<rparr>"
  using assms by (auto simp: HandleToken_def grants_def Let_def not_less token_entry_def)

lemma HandleToken_refused:
  "resp_status (fst (HandleToken w r a)) \<noteq> 200 \<Longrightarrow> auth_tokens (snd (HandleToken w r a)) = auth_tokens a"
  by (auto simp: HandleToken_def Let_def split: option.splits if_splits)

lemma HandleToken_challenges:
  "mget (auth_challenges (snd (HandleToken w r a))) c = None \<or>
   mget (auth_challenges (snd (HandleToken w r a))) c = mget (auth_challenges a) c"
  by (auto simp: HandleToken_def Let_def split: option.splits if_splits)

text \<open>Any complete request spends its challenge, whether or not it is granted.\<close>

lemma HandleToken_spends:
  assumes "decode_token_request (req_body r) = Some q"
    and "tr_Pubkey q \<noteq> []" "tr_Challenge q \<noteq> []" "tr_Signature q \<noteq> []"
  shows "mget (auth_challenges (snd (HandleToken w r a))) (tr_Challenge q) = None"
  using assms by (auto simp: HandleToken_def Let_def split: option.splits)

lemma HandleToken_unknown:
  assumes "decode_token_request (req_body r) = Some q"
    and "tr_Pubkey q \<noteq> []" "tr_Challenge q \<noteq> []" "tr_Signature q \<noteq> []"
    and "mget (auth_challenges a) (tr_Challenge q) = None"
  shows "HandleToken w r a =
     (writeError w r 401 ''challenge expired or unknown'' ''CHALLENGE_EXPIRED'', a)"
  using assms by (simp add: HandleToken_def)

section \<open>Runs of the store\<close>

text \<open>
  A run is any sequence of calls of the handlers and of the sweep. The clock and the random bytes
  may differ at each call, the verification of keys and signatures is that of \<open>W\<close>. The trace
  records which challenge was issued when, and which key was given a token for which challenge.
\<close>

datatype auth_event = Issued string instant | Granted string string instant

definition same_keys :: "world \<Rightarrow> world \<Rightarrow> bool" where
  "same_keys W w \<longleftrightarrow> w_point w = w_point W \<and> w_ecdsa w = w_ecdsa W"

inductive auth_run :: "world \<Rightarrow> int \<Rightarrow> auth_event list \<Rightarrow> AuthStore \<Rightarrow> bool" for W expiry where
  start: "auth_run W expiry [] (NewAuthStore expiry)"
| issue: "auth_run W expiry tr a \<Longrightarrow> w_random w = Some b \<Longrightarrow>
    auth_run W expiry (tr @ [Issued (raw_url_encode b) (w_now w)]) (snd (HandleChallenge w r a))"
| grant: "auth_run W expiry tr a \<Longrightarrow> same_keys W w \<Longrightarrow> decode_token_request (req_body r) = Some q \<Longrightarrow>
    resp_status (fst (HandleToken w r a)) = 200 \<Longrightarrow>
    auth_run W expiry (tr @ [Granted (tr_Pubkey q) (tr_Challenge q) (w_now w)]) (snd (HandleToken w r a))"
| refuse: "auth_run W expiry tr a \<Longrightarrow> resp_status (fst (HandleToken w r a)) \<noteq> 200 \<Longrightarrow>
    auth_run W expiry tr (snd (HandleToken w r a))"
| logout: "auth_run W expiry tr a \<Longrightarrow> auth_run W expiry tr (snd (HandleLogout r a))"
| cleanup: "auth_run W expiry tr a \<Longrightarrow> auth_run W expiry tr (auth_cleanup w a)"

definition issued_count :: "string \<Rightarrow> auth_event list \<Rightarrow> nat" where
  "issued_count c tr = length (filter (\<lambda>e. case e of Issued c' t \<Rightarrow> c' = c | Granted pk x t \<Rightarrow> False) tr)"

definition granted_count :: "string \<Rightarrow> auth_event list \<Rightarrow> nat" where
  "granted_count c tr = length (filter (\<lambda>e. case e of Granted pk c' t \<Rightarrow> c' = c | Issued x t \<Rightarrow> False) tr)"

definition outstanding :: "AuthStore \<Rightarrow> string \<Rightarrow> nat" where
  "outstanding a c = (if mget (auth_challenges a) c = None then 0 else 1)"

text \<open>Somebody produced a signature over the challenge that verifies under the key.\<close>

definition proves_key :: "world \<Rightarrow> string \<Rightarrow> string \<Rightarrow> bool" where
  "proves_key W pk c \<longleftrightarrow> (\<exists>raw key r s. raw_url_decode pk = Some raw \<and> length raw = 33 \<and>
     DecompressP256 W raw = Some key \<and> w_ecdsa W key (sha256_bytes_of c) r s)"

definition challenges_ok :: "auth_event list \<Rightarrow> AuthStore \<Rightarrow> bool" where
  "challenges_ok tr a \<longleftrightarrow> (\<forall>c e. mget (auth_challenges a) c = Some e \<longrightarrow>
     (\<exists>t. Issued c t \<in> set tr \<and> e = t + challengeExpiry))"

definition tokens_ok :: "int \<Rightarrow> auth_event list \<Rightarrow> AuthStore \<Rightarrow> bool" where
  "tokens_ok expiry tr a \<longleftrightarrow> auth_tokenExpiry a = expiry \<and>
     (\<forall>k e. mget (auth_tokens a) k = Some e \<longrightarrow>
        (\<exists>c t. Granted (tok_pubkey e) c t \<in> set tr \<and> tok_expiresAt e = t + expiry))"

lemma counts_snoc [simp]:
  "issued_count c (tr @ [e]) = issued_count c tr +
     (case e of Issued c' t \<Rightarrow> if c' = c then 1 else 0 | Granted pk x t \<Rightarrow> 0)"
  "granted_count c (tr @ [e]) = granted_count c tr +
     (case e of Granted pk c' t \<Rightarrow> if c' = c then 1 else 0 | Issued x t \<Rightarrow> 0)"
  by (auto simp: issued_count_def granted_count_def split: auth_event.splits)

lemma outstanding_mono:
  "outstanding (snd (HandleToken w r a)) c \<le> outstanding a c"
  using HandleToken_challenges [of w r a c] by (auto simp: outstanding_def)

lemma mget_filter_Some: "mwf m \<Longrightarrow> mget (filter P m) k = Some v \<Longrightarrow> mget m k = Some v"
  by (simp add: mget_iff_in mwf_filter)

lemma mget_filter_None: "mget m k = None \<Longrightarrow> mget (filter P m) k = None"
  using in_mkeys_iff [of k m] in_mkeys_iff [of k "filter P m"] by (auto simp: mkeys_def)

lemma outstanding_cleanup: "outstanding (auth_cleanup w a) c \<le> outstanding a c"
  by (auto simp: outstanding_def auth_cleanup_def mget_filter_None)

lemma outstanding_logout [simp]: "outstanding (snd (HandleLogout r a)) c = outstanding a c"
  by (simp add: outstanding_def HandleLogout_def Let_def)

lemma outstanding_issue:
  "w_random w = Some b \<Longrightarrow> outstanding (snd (HandleChallenge w r a)) c =
     (if c = raw_url_encode b then 1 else outstanding a c)"
  by (simp add: outstanding_def HandleChallenge_def Let_def)

lemma outstanding_grant:
  assumes "decode_token_request (req_body r) = Some q" and "resp_status (fst (HandleToken w r a)) = 200"
  shows "outstanding (snd (HandleToken w r a)) c + (if c = tr_Challenge q then 1 else 0) \<le> outstanding a c"
proof -
  from assms HandleToken_ok obtain b where g: "grants w a q b" by (metis option.inject)
  show ?thesis unfolding HandleToken_granted [OF assms(1) g]
    using g by (auto simp: outstanding_def grants_def)
qed

text \<open>No challenge is answered by more tokens than it was issued.\<close>

lemma auth_run_agreement:
  "auth_run W expiry tr a \<Longrightarrow> granted_count c tr + outstanding a c \<le> issued_count c tr"
proof (induction rule: auth_run.induct)
  case start
  show ?case by (simp add: granted_count_def issued_count_def outstanding_def NewAuthStore_def)
next
  case (grant tr a w r q)
  from outstanding_grant [OF grant.hyps(3,4), of c] grant.IH show ?case by (auto split: if_splits)
next
  case (refuse tr a w r)
  from outstanding_mono [of w r a c] refuse.IH show ?case by simp
next
  case (cleanup tr a w)
  from outstanding_cleanup [of w a c] cleanup.IH show ?case by simp
qed (auto simp: outstanding_issue)

lemma HandleToken_mwf:
  "mwf (auth_tokens a) \<Longrightarrow> mwf (auth_tokens (snd (HandleToken w r a)))"
  "mwf (auth_challenges a) \<Longrightarrow> mwf (auth_challenges (snd (HandleToken w r a)))"
  by (auto simp: HandleToken_def Let_def split: option.splits if_splits)

lemma auth_run_mwf: "auth_run W expiry tr a \<Longrightarrow> mwf (auth_tokens a) \<and> mwf (auth_challenges a)"
  by (induction rule: auth_run.induct)
    (auto simp: NewAuthStore_def HandleLogout_def HandleChallenge_def HandleToken_mwf auth_cleanup_def
      Let_def mwf_filter)

lemma challenges_ok_less:
  "challenges_ok tr a \<Longrightarrow>
     (\<And>c e. mget (auth_challenges a') c = Some e \<Longrightarrow> mget (auth_challenges a) c = Some e) \<Longrightarrow>
   challenges_ok (tr @ ev) a'"
  by (fastforce simp: challenges_ok_def)

lemma HandleToken_challenges_less:
  "mget (auth_challenges (snd (HandleToken w r a))) c = Some e \<Longrightarrow> mget (auth_challenges a) c = Some e"
  using HandleToken_challenges [of w r a c] by auto

lemma auth_run_challenges: "auth_run W expiry tr a \<Longrightarrow> challenges_ok tr a"
proof (induction rule: auth_run.induct)
  case start
  show ?case by (simp add: challenges_ok_def NewAuthStore_def)
next
  case (issue tr a w b r)
  then show ?case by (auto simp: challenges_ok_def HandleChallenge_def Let_def)
next
  case (grant tr a w r q)
  from grant.IH show ?case by (rule challenges_ok_less) (rule HandleToken_challenges_less)
next
  case (refuse tr a w r)
  from challenges_ok_less [OF refuse.IH HandleToken_challenges_less, where ev = "[]"] show ?case by simp
next
  case (logout tr a r)
  then show ?case by (simp add: challenges_ok_def HandleLogout_def Let_def)
next
  case (cleanup tr a w)
  from challenges_ok_less [OF cleanup.IH, of "auth_cleanup w a" "[]"] auth_run_mwf [OF cleanup.hyps]
  show ?case by (auto simp: auth_cleanup_def mget_filter_Some)
qed

lemma auth_tokenExpiry_simps [simp]:
  "auth_tokenExpiry (snd (HandleToken w r a)) = auth_tokenExpiry a"
  "auth_tokenExpiry (snd (HandleChallenge w r a)) = auth_tokenExpiry a"
  "auth_tokenExpiry (snd (HandleLogout r a)) = auth_tokenExpiry a"
  "auth_tokenExpiry (auth_cleanup w a) = auth_tokenExpiry a"
  by (auto simp: HandleToken_def HandleChallenge_def HandleLogout_def auth_cleanup_def Let_def
      split: option.splits if_splits)

lemma tokens_subset:
  "mget (auth_tokens (snd (HandleLogout r a))) t = Some e \<Longrightarrow> mget (auth_tokens a) t = Some e"
  by (auto simp: HandleLogout_def Let_def split: if_splits)

lemma tokens_challenge [simp]: "auth_tokens (snd (HandleChallenge w r a)) = auth_tokens a"
  by (simp add: HandleChallenge_def Let_def split: option.splits)

lemma mget_auth_cleanup:
  "mwf (auth_tokens a) \<Longrightarrow> mget (auth_tokens (auth_cleanup w a)) t =
     (case mget (auth_tokens a) t of Some e \<Rightarrow> if tok_expiresAt e < w_now w then None else Some e
      | None \<Rightarrow> None)"
  unfolding auth_cleanup_def
  by (simp add: mget_filter_vals [where P = "\<lambda>e. \<not> tok_expiresAt e < w_now w"] split: option.splits)

lemma tokens_ok_less:
  "tokens_ok expiry tr a \<Longrightarrow> auth_tokenExpiry a' = auth_tokenExpiry a \<Longrightarrow>
     (\<And>k e. mget (auth_tokens a') k = Some e \<Longrightarrow> mget (auth_tokens a) k = Some e) \<Longrightarrow>
   tokens_ok expiry (tr @ ev) a'"
  by (fastforce simp: tokens_ok_def)

lemma auth_run_tokens: "auth_run W expiry tr a \<Longrightarrow> tokens_ok expiry tr a"
proof (induction rule: auth_run.induct)
  case start
  show ?case by (simp add: tokens_ok_def NewAuthStore_def)
next
  case (issue tr a w b r)
  from issue.IH show ?case by (rule tokens_ok_less) simp_all
next
  case (grant tr a w r q)
  from grant.hyps HandleToken_ok obtain b where g: "grants w a q b" by (metis option.inject)
  note new = HandleToken_granted [OF grant.hyps(3) g]
  show ?case
    unfolding tokens_ok_def
  proof (intro conjI allI impI)
    show "auth_tokenExpiry (snd (HandleToken w r a)) = expiry"
      using grant.IH by (simp add: tokens_ok_def)
    fix k e assume e: "mget (auth_tokens (snd (HandleToken w r a))) k = Some e"
    show "\<exists>c t. Granted (tok_pubkey e) c t \<in> set (tr @ [Granted (tr_Pubkey q) (tr_Challenge q) (w_now w)]) \<and>
        tok_expiresAt e = t + expiry"
    proof (cases "k = raw_url_encode b")
      case True
      with e new grant.IH have "e = \<lparr>tok_pubkey = tr_Pubkey q, tok_expiresAt = w_now w + expiry\<rparr>"
        by (simp add: token_entry_def tokens_ok_def)
      then show ?thesis by auto
    next
      case False
      with e new have "mget (auth_tokens a) k = Some e" by simp
      with grant.IH show ?thesis by (fastforce simp: tokens_ok_def)
    qed
  qed
next
  case (refuse tr a w r)
  have "mget (auth_tokens (snd (HandleToken w r a))) k = Some e \<Longrightarrow> mget (auth_tokens a) k = Some e" for k e
    by (simp add: HandleToken_refused [OF refuse.hyps(2)])
  from tokens_ok_less [OF refuse.IH _ this, where ev = "[]"] show ?case by simp
next
  case (logout tr a r)
  from tokens_ok_less [OF logout.IH _ tokens_subset, where ev = "[]"] show ?case by simp
next
  case (cleanup tr a w)
  have "mget (auth_tokens (auth_cleanup w a)) k = Some e \<Longrightarrow> mget (auth_tokens a) k = Some e" for k e
    using auth_run_mwf [OF cleanup.hyps] by (simp add: auth_cleanup_def mget_filter_Some)
  from tokens_ok_less [OF cleanup.IH _ this, where ev = "[]"] show ?case by simp
qed

lemma check_token_signature_None:
  assumes "same_keys W w" and "check_token_signature w q = None"
  shows "proves_key W (tr_Pubkey q) (tr_Challenge q)"
proof -
  from assms(2) obtain raw key r s where "raw_url_decode (tr_Pubkey q) = Some raw" "length raw = 33"
    "DecompressP256 w raw = Some key" "w_ecdsa w key (sha256_bytes_of (tr_Challenge q)) r s"
    unfolding check_token_signature_def
    by (clarsimp split: option.split_asm if_split_asm prod.split_asm)
  with assms(1) show ?thesis
    unfolding proves_key_def same_keys_def DecompressP256_def by metis
qed

lemma auth_run_signed:
  "auth_run W expiry tr a \<Longrightarrow> Granted pk c t \<in> set tr \<Longrightarrow>
     proves_key W pk c \<and> (\<exists>t0. Issued c t0 \<in> set tr \<and> t \<le> t0 + challengeExpiry)"
proof (induction rule: auth_run.induct)
  case (grant tr a w r q)
  from grant.hyps HandleToken_ok obtain b where g: "grants w a q b" by (metis option.inject)
  then obtain e where e: "mget (auth_challenges a) (tr_Challenge q) = Some e" "w_now w \<le> e"
    and sig: "check_token_signature w q = None" by (auto simp: grants_def)
  from e auth_run_challenges [OF grant.hyps(1)] obtain t0
    where "Issued (tr_Challenge q) t0 \<in> set tr" "w_now w \<le> t0 + challengeExpiry"
    by (auto simp: challenges_ok_def)
  with check_token_signature_None [OF grant.hyps(2) sig] grant.prems grant.IH show ?case by auto
qed auto

section \<open>Properties\<close>

text \<open>A small session to run the properties on.\<close>

definition demo_keys :: world where
  "demo_keys = calm_world\<lparr>w_random := Some ''a''\<rparr>"

definition demo_pubkey :: string where
  "demo_pubkey = ''AxUJmGQ24rmhe5zL3Slm12xAq8bqxlzZMnLbHJ9QHxBl''"

definition demo_token_request :: token_request where
  "demo_token_request = \<lparr>tr_Pubkey = demo_pubkey, tr_Challenge = ''YQ'', tr_Signature = ''MAYCAQMCAQQ=''\<rparr>"

definition demo_login :: request where
  "demo_login = empty_request\<lparr>req_body := Some (''{\"pubkey\":\"'' @ demo_pubkey @
     ''\",\"challenge\":\"YQ\",\"signature\":\"MAYCAQMCAQQ=\"}'')\<rparr>"

definition demo_challenged :: AuthStore where
  "demo_challenged = snd (HandleChallenge demo_keys empty_request (NewAuthStore hour))"

lemma demo_simps [simp]:
  "tr_Pubkey demo_token_request = demo_pubkey" "tr_Challenge demo_token_request = ''YQ''"
  "tr_Signature demo_token_request = ''MAYCAQMCAQQ=''" "demo_pubkey \<noteq> []"
  "w_now demo_keys = 0" "w_random demo_keys = Some ''a''"
  by (simp_all add: demo_token_request_def demo_keys_def calm_world_def demo_pubkey_def)

lemma decode_token_request_object:
  "parse_first b = Some (JObj ms) \<Longrightarrow>
     decode_field dec_string [] ''pubkey'' ms = (p, True) \<Longrightarrow>
     decode_field dec_string [] ''challenge'' ms = (c, True) \<Longrightarrow>
     decode_field dec_string [] ''signature'' ms = (g, True) \<Longrightarrow>
   decode_token_request (Some b) = Some \<lparr>tr_Pubkey = p, tr_Challenge = c, tr_Signature = g\<rparr>"
  by (simp add: decode_token_request_def)

lemma demo_login_body: "decode_token_request (req_body demo_login) = Some demo_token_request"
proof -
  let ?ms = "[(''pubkey'', JStr demo_pubkey), (''challenge'', JStr ''YQ''), (''signature'', JStr ''MAYCAQMCAQQ='')]"
  have "\<exists>r. parse_value 2 (''{\"pubkey\":\"'' @ demo_pubkey @
     ''\",\"challenge\":\"YQ\",\"signature\":\"MAYCAQMCAQQ=\"}'') = Some (JObj ?ms, r)"
    by (rule exI) code_simp
  then have "parse_first (''{\"pubkey\":\"'' @ demo_pubkey @
     ''\",\"challenge\":\"YQ\",\"signature\":\"MAYCAQMCAQQ=\"}'') = Some (JObj ?ms)"
    by (elim exE) (erule parse_first_depth, simp)
  then have "decode_token_request (Some (''{\"pubkey\":\"'' @ demo_pubkey @
     ''\",\"challenge\":\"YQ\",\"signature\":\"MAYCAQMCAQQ=\"}'')) =
       Some \<lparr>tr_Pubkey = demo_pubkey, tr_Challenge = ''YQ'', tr_Signature = ''MAYCAQMCAQQ=''\<rparr>"
    by (rule decode_token_request_object) (code_simp, code_simp, code_simp)
  moreover have "req_body demo_login = Some (''{\"pubkey\":\"'' @ demo_pubkey @
     ''\",\"challenge\":\"YQ\",\"signature\":\"MAYCAQMCAQQ=\"}'')"
    by (simp add: demo_login_def del: append.simps)
  ultimately show ?thesis unfolding demo_token_request_def by simp
qed

lemma demo_challenge: "raw_url_encode ''a'' = ''YQ''"
  by code_simp

lemma demo_signature: "check_token_signature demo_keys demo_token_request = None"
proof -
  have "map_option length (raw_url_decode demo_pubkey) = Some 33" by code_simp
  moreover note demo_signature_bytes
  ultimately show ?thesis
    by (auto simp: check_token_signature_def demo_token_request_def demo_keys_def calm_world_def
        DecompressP256_def)
qed

lemma demo_outstanding: "auth_challenges demo_challenged = [(''YQ'', challengeExpiry)]"
  by (simp add: demo_challenged_def HandleChallenge_def demo_keys_def calm_world_def NewAuthStore_def
      demo_challenge Let_def mput_def)

lemma demo_grants: "grants demo_keys demo_challenged demo_token_request ''a''"
  by (simp add: grants_def demo_signature demo_outstanding mget_def challengeExpiry_def minute_def
      second_def)

text \<open>
  C22 \<open>POST /auth/token\<close> gives a token in exactly one situation: the body decodes to three non-empty
  fields, the challenge is outstanding and not past its expiry, the signature verifies under the
  key, and the random source delivers. Then the challenge is gone and the new token stands for the
  key that signed, until the clock reaches its expiry.
\<close>

theorem token_granted_iff:
  "resp_status (fst (HandleToken w r a)) = 200 \<longleftrightarrow>
     (\<exists>q b t. decode_token_request (req_body r) = Some q \<and>
        tr_Pubkey q \<noteq> [] \<and> tr_Challenge q \<noteq> [] \<and> tr_Signature q \<noteq> [] \<and>
        mget (auth_challenges a) (tr_Challenge q) = Some t \<and> w_now w \<le> t \<and>
        check_token_signature w q = None \<and> w_random w = Some b \<and>
        snd (HandleToken w r a) = a
          \<lparr>auth_challenges := mdel (tr_Challenge q) (auth_challenges a),
           auth_tokens := mput (raw_url_encode b)
             \<lparr>tok_pubkey = tr_Pubkey q, tok_expiresAt = w_now w + auth_tokenExpiry a\<rparr> (auth_tokens a)\<rparr>)"
  (is "?L \<longleftrightarrow> ?R")
proof
  assume ?L
  then obtain q b where q: "decode_token_request (req_body r) = Some q" and g: "grants w a q b"
    using HandleToken_ok by blast
  from HandleToken_granted [OF q g] q g show ?R
    unfolding grants_def token_entry_def by blast
next
  assume ?R
  then have "\<exists>q b. decode_token_request (req_body r) = Some q \<and> grants w a q b"
    unfolding grants_def by blast
  then show ?L using HandleToken_ok by blast
qed

text \<open>
  A challenge is answered at most once. After any complete token request, granted or not, every
  further request for the same challenge is refused with 401 \<open>CHALLENGE_EXPIRED\<close> and changes nothing.
\<close>

theorem challenge_single_use:
  assumes "decode_token_request (req_body r) = Some q"
    and "tr_Pubkey q \<noteq> []" "tr_Challenge q \<noteq> []" "tr_Signature q \<noteq> []"
    and "decode_token_request (req_body r') = Some q'"
    and "tr_Pubkey q' \<noteq> []" "tr_Signature q' \<noteq> []" "tr_Challenge q' = tr_Challenge q"
  shows "HandleToken w' r' (snd (HandleToken w r a)) =
     (writeError w' r' 401 ''challenge expired or unknown'' ''CHALLENGE_EXPIRED'',
      snd (HandleToken w r a))"
  using HandleToken_unknown [OF assms(5,6) _ assms(7)] HandleToken_spends [OF assms(1-4)] assms(3,8)
  by simp

theorem challenge_single_use_witness:
  "resp_status (fst (HandleToken demo_keys demo_login demo_challenged)) = 200 \<and>
   HandleToken demo_keys demo_login (snd (HandleToken demo_keys demo_login demo_challenged)) =
     (writeError demo_keys demo_login 401 ''challenge expired or unknown'' ''CHALLENGE_EXPIRED'',
      snd (HandleToken demo_keys demo_login demo_challenged))"
proof (intro conjI)
  show "resp_status (fst (HandleToken demo_keys demo_login demo_challenged)) = 200"
    using HandleToken_ok demo_login_body demo_grants by blast
  show "HandleToken demo_keys demo_login (snd (HandleToken demo_keys demo_login demo_challenged)) =
     (writeError demo_keys demo_login 401 ''challenge expired or unknown'' ''CHALLENGE_EXPIRED'',
      snd (HandleToken demo_keys demo_login demo_challenged))"
    by (rule challenge_single_use [OF demo_login_body _ _ _ demo_login_body]) simp_all
qed

text \<open>
  C19 Authentication is sound over every run of the store. When the middleware marks a request as
  coming from a key, then a challenge was issued, within its five minutes somebody presented a
  signature over it that verifies under this key, and the token given for it has not expired. And
  no challenge is ever answered by more tokens than it was issued.
\<close>

theorem authenticated_key_signed:
  assumes run: "auth_run W expiry tr a"
    and anon: "req_auth r = []" and auth: "req_auth (auth_Middleware w a r) \<noteq> []"
  shows "(\<exists>c t0 t1. Issued c t0 \<in> set tr \<and> Granted (req_auth (auth_Middleware w a r)) c t1 \<in> set tr \<and>
           t1 \<le> t0 + challengeExpiry \<and> w_now w \<le> t1 + expiry \<and>
           proves_key W (req_auth (auth_Middleware w a r)) c) \<and>
         granted_count c tr \<le> issued_count c tr"
proof
  show "granted_count c tr \<le> issued_count c tr" using auth_run_agreement [OF run, of c] by simp
  obtain e where e: "mget (auth_tokens a) (request_token r) = Some e"
    and live: "w_now w \<le> tok_expiresAt e" and pk: "req_auth (auth_Middleware w a r) = tok_pubkey e"
    using anon auth
    by (auto simp: auth_Middleware_def ValidateToken_def Let_def not_less split: if_splits option.splits)
  from auth_run_tokens [OF run] e obtain c t1
    where g: "Granted (tok_pubkey e) c t1 \<in> set tr" "tok_expiresAt e = t1 + expiry"
    unfolding tokens_ok_def by blast
  from auth_run_signed [OF run g(1)] g live pk
  show "\<exists>c t0 t1. Issued c t0 \<in> set tr \<and> Granted (req_auth (auth_Middleware w a r)) c t1 \<in> set tr \<and>
           t1 \<le> t0 + challengeExpiry \<and> w_now w \<le> t1 + expiry \<and>
           proves_key W (req_auth (auth_Middleware w a r)) c"
    by metis
qed

theorem authenticated_key_signed_witness:
  "\<exists>tr a r. auth_run demo_keys hour tr a \<and> req_auth (auth_Middleware demo_keys a r) = demo_pubkey \<and>
     (\<exists>c t0. Issued c t0 \<in> set tr \<and> proves_key demo_keys demo_pubkey c)"
proof -
  let ?a = "snd (HandleToken demo_keys demo_login demo_challenged)"
  let ?r = "empty_request\<lparr>req_cookie := (\<lambda>c. Some ''YQ'')\<rparr>"
  let ?tr = "([] @ [Issued (raw_url_encode ''a'') (w_now demo_keys)]) @
     [Granted (tr_Pubkey demo_token_request) (tr_Challenge demo_token_request) (w_now demo_keys)]"
  have "auth_run demo_keys hour ([] @ [Issued (raw_url_encode ''a'') (w_now demo_keys)]) demo_challenged"
    unfolding demo_challenged_def by (rule auth_run.issue [OF auth_run.start]) (simp add: demo_keys_def)
  then have run: "auth_run demo_keys hour ?tr ?a"
    by (rule auth_run.grant [OF _ _ demo_login_body])
      (use HandleToken_ok demo_login_body demo_grants in \<open>auto simp: same_keys_def\<close>)
  have "auth_tokens ?a = mput ''YQ'' (token_entry demo_keys demo_challenged demo_token_request)
      (auth_tokens demo_challenged)"
    by (simp add: HandleToken_granted [OF demo_login_body demo_grants] demo_challenge)
  then have pk: "req_auth (auth_Middleware demo_keys ?a ?r) = demo_pubkey"
    by (simp add: auth_Middleware_def request_token_def extractBearerToken_def extractCookieToken_def
        empty_request_def has_prefix_def ValidateToken_def token_entry_def
        demo_challenged_def NewAuthStore_def hour_def minute_def second_def Let_def)
  have anon: "req_auth ?r = []" by (simp add: empty_request_def)
  have "req_auth (auth_Middleware demo_keys ?a ?r) \<noteq> []" unfolding pk by simp
  from authenticated_key_signed [OF run anon this]
  have "\<exists>c t0. Issued c t0 \<in> set ?tr \<and> proves_key demo_keys demo_pubkey c" unfolding pk by blast
  with run pk show ?thesis by blast
qed

end
