(* ===== verification/Auth_Ratelimit.thy ===== *)
theory Auth_Ratelimit
  imports Object_Problem
begin

text \<open>
  \<open>auth/ratelimit.go\<close>: two windows per client address, the refund of a 304, the sweep of expired
  windows and the middleware. The lemmas bound the counters, show that a refused request is a
  full window, that an address is not charged more than twice its limit in a minute, and that the
  sweep is not observable.
\<close>

record window =
  win_count :: int
  win_resetAt :: instant

type_synonym windows = "(string, window) gomap"

record RateLimiter =
  rl_perMin :: windows
  rl_perDay :: windows
  rl_maxPerMin :: int
  rl_maxPerDay :: int

definition NewRateLimiter :: "int \<Rightarrow> int \<Rightarrow> RateLimiter" where
  "NewRateLimiter perMin perDay =
     \<lparr>rl_perMin = [], rl_perDay = [], rl_maxPerMin = perMin, rl_maxPerDay = perDay\<rparr>"

definition getOrCreate :: "windows \<Rightarrow> string \<Rightarrow> instant \<Rightarrow> int \<Rightarrow> window \<times> windows" where
  "getOrCreate m ip now duration = (case mget m ip of
      Some w \<Rightarrow> if win_resetAt w < now
        then (let w' = \<lparr>win_count = 0, win_resetAt = now + duration\<rparr> in (w', mput ip w' m))
        else (w, m)
    | None \<Rightarrow> (let w' = \<lparr>win_count = 0, win_resetAt = now + duration\<rparr> in (w', mput ip w' m)))"

definition count_up :: "window \<Rightarrow> window" where
  "count_up w = w\<lparr>win_count := win_count w + 1\<rparr>"

text \<open>\<open>Allow\<close>: whether the request may pass, and how long to wait if not.\<close>

definition Allow :: "instant \<Rightarrow> string \<Rightarrow> RateLimiter \<Rightarrow> (bool \<times> int) \<times> RateLimiter" where
  "Allow now ip rl =
     (let (wm, perMin) = getOrCreate (rl_perMin rl) ip now minute; rl = rl\<lparr>rl_perMin := perMin\<rparr>
      in if win_count wm \<ge> rl_maxPerMin rl then ((False, win_resetAt wm - now), rl)
         else (let (wd, perDay) = getOrCreate (rl_perDay rl) ip now (24 * hour);
                   rl = rl\<lparr>rl_perDay := perDay\<rparr>
               in if win_count wd \<ge> rl_maxPerDay rl then ((False, win_resetAt wd - now), rl)
                  else ((True, 0), rl\<lparr>rl_perMin := mput ip (count_up wm) perMin,
                          rl_perDay := mput ip (count_up wd) perDay\<rparr>)))"

definition Remaining :: "instant \<Rightarrow> string \<Rightarrow> RateLimiter \<Rightarrow> (int \<times> int) \<times> RateLimiter" where
  "Remaining now ip rl =
     (let (wm, perMin) = getOrCreate (rl_perMin rl) ip now minute;
          (wd, perDay) = getOrCreate (rl_perDay rl) ip now (24 * hour);
          minRem = rl_maxPerMin rl - win_count wm; minRem = (if minRem < 0 then 0 else minRem);
          dayRem = rl_maxPerDay rl - win_count wd; dayRem = (if dayRem < 0 then 0 else dayRem)
      in ((minRem, dayRem), rl\<lparr>rl_perMin := perMin, rl_perDay := perDay\<rparr>))"

definition sweep :: "instant \<Rightarrow> windows \<Rightarrow> windows" where
  "sweep now m = filter (\<lambda>e. \<not> win_resetAt (snd e) < now) m"

definition rl_cleanup :: "instant \<Rightarrow> RateLimiter \<Rightarrow> RateLimiter" where
  "rl_cleanup now rl =
     rl\<lparr>rl_perMin := sweep now (rl_perMin rl), rl_perDay := sweep now (rl_perDay rl)\<rparr>"

definition refund_window :: "instant \<Rightarrow> string \<Rightarrow> windows \<Rightarrow> windows" where
  "refund_window now ip m = (case mget m ip of
      Some w \<Rightarrow> if now < win_resetAt w \<and> 0 < win_count w
        then mput ip (w\<lparr>win_count := win_count w - 1\<rparr>) m else m
    | None \<Rightarrow> m)"

definition Refund :: "instant \<Rightarrow> string \<Rightarrow> RateLimiter \<Rightarrow> RateLimiter" where
  "Refund now ip rl = rl\<lparr>rl_perMin := refund_window now ip (rl_perMin rl),
     rl_perDay := refund_window now ip (rl_perDay rl)\<rparr>"

text \<open>Headers set before the handler runs stay unless the handler sets them again.\<close>

definition under_headers :: "(string \<times> string) list \<Rightarrow> response \<Rightarrow> response" where
  "under_headers hs resp =
     resp\<lparr>resp_headers := fold (\<lambda>(k, v) m. mput k v m) (resp_headers resp) hs\<rparr>"

definition unix_seconds :: "instant \<Rightarrow> int" where
  "unix_seconds t = t div second"

text \<open>
  \<open>Middleware\<close> around a handler \<open>next\<close> over its own state; \<open>now\<close> and \<open>later\<close> are the clock before and
  after the handler.
\<close>

definition rl_Middleware ::
  "world \<Rightarrow> instant \<Rightarrow> request \<Rightarrow> ('s \<Rightarrow> response \<times> 's) \<Rightarrow> RateLimiter \<Rightarrow> 's
     \<Rightarrow> response \<times> RateLimiter \<times> 's" where
  "rl_Middleware w later r serve rl s =
     (let ip = req_remote r; now = w_now w; ((allowed, retryAfter), rl) = Allow now ip rl
      in if \<not> allowed
         then (under_headers
                [(''X-RateLimit-Limit'', itoa (rl_maxPerMin rl)), (''X-RateLimit-Remaining'', ''0''),
                 (''X-RateLimit-Reset'', itoa (unix_seconds (now + retryAfter))),
                 (''Retry-After'', itoa (retryAfter div second + 1))]
                (writeError w r 429 ''rate limit exceeded'' ''RATE_LIMITED''), rl, s)
         else (let ((minRem, dayRem), rl) = Remaining now ip rl;
                   (resp, s) = serve s;
                   rl = (if resp_status resp = 304 then Refund later ip rl else rl)
               in (under_headers
                    [(''X-RateLimit-Limit'', itoa (rl_maxPerMin rl)),
                     (''X-RateLimit-Remaining'', itoa minRem),
                     (''X-RateLimit-Reset'', itoa (unix_seconds (now + minute)))] resp, rl, s)))"

section \<open>The window in force\<close>

text \<open>What \<open>getOrCreate\<close> finds: a stored window that has not expired, or a new one.\<close>

definition window_at :: "windows \<Rightarrow> string \<Rightarrow> instant \<Rightarrow> int \<Rightarrow> window" where
  "window_at m ip now duration = (case mget m ip of
      Some w \<Rightarrow> if win_resetAt w < now then \<lparr>win_count = 0, win_resetAt = now + duration\<rparr> else w
    | None \<Rightarrow> \<lparr>win_count = 0, win_resetAt = now + duration\<rparr>)"

lemma getOrCreate_fst [simp]: "fst (getOrCreate m ip now d) = window_at m ip now d"
  by (auto simp: getOrCreate_def window_at_def Let_def split: option.splits)

lemma getOrCreate_snd:
  "mget (snd (getOrCreate m ip now d)) ip' = (if ip' = ip then Some (window_at m ip now d) else mget m ip')"
  by (auto simp: getOrCreate_def window_at_def Let_def split: option.splits)

lemma getOrCreate_mwf [simp]: "mwf m \<Longrightarrow> mwf (snd (getOrCreate m ip now d))"
  by (auto simp: getOrCreate_def Let_def split: option.splits)

definition min_window :: "RateLimiter \<Rightarrow> string \<Rightarrow> instant \<Rightarrow> window" where
  "min_window rl ip now = window_at (rl_perMin rl) ip now minute"

definition day_window :: "RateLimiter \<Rightarrow> string \<Rightarrow> instant \<Rightarrow> window" where
  "day_window rl ip now = window_at (rl_perDay rl) ip now (24 * hour)"

lemma Allow_iff:
  "fst (fst (Allow now ip rl)) \<longleftrightarrow>
     win_count (min_window rl ip now) < rl_maxPerMin rl \<and> win_count (day_window rl ip now) < rl_maxPerDay rl"
  by (auto simp: Allow_def Let_def min_window_def day_window_def getOrCreate_fst [symmetric]
      simp del: getOrCreate_fst split: prod.splits)

lemma Allow_limits [simp]:
  "rl_maxPerMin (snd (Allow now ip rl)) = rl_maxPerMin rl"
  "rl_maxPerDay (snd (Allow now ip rl)) = rl_maxPerDay rl"
  by (auto simp: Allow_def Let_def split: prod.splits)

text \<open>What \<open>Allow\<close> leaves in the windows: an admitted request is counted in both.\<close>

lemma Allow_windows:
  "mget (rl_perMin (snd (Allow now ip rl))) ip' =
     (if ip' \<noteq> ip then mget (rl_perMin rl) ip'
      else Some (if fst (fst (Allow now ip rl)) then count_up (min_window rl ip now)
                 else min_window rl ip now))"
  "mget (rl_perDay (snd (Allow now ip rl))) ip' =
     (if ip' \<noteq> ip \<or> rl_maxPerMin rl \<le> win_count (min_window rl ip now) then mget (rl_perDay rl) ip'
      else Some (if fst (fst (Allow now ip rl)) then count_up (day_window rl ip now)
                 else day_window rl ip now))"
proof -
  obtain wm pm where m: "getOrCreate (rl_perMin rl) ip now minute = (wm, pm)" by force
  obtain wd pd where d: "getOrCreate (rl_perDay rl) ip now (24 * hour) = (wd, pd)" by force
  from getOrCreate_fst [of "rl_perMin rl" ip now minute] getOrCreate_snd [of "rl_perMin rl" ip now minute ip']
    getOrCreate_fst [of "rl_perDay rl" ip now "24 * hour"] getOrCreate_snd [of "rl_perDay rl" ip now "24 * hour" ip']
  show "mget (rl_perMin (snd (Allow now ip rl))) ip' =
     (if ip' \<noteq> ip then mget (rl_perMin rl) ip'
      else Some (if fst (fst (Allow now ip rl)) then count_up (min_window rl ip now)
                 else min_window rl ip now))"
    and "mget (rl_perDay (snd (Allow now ip rl))) ip' =
     (if ip' \<noteq> ip \<or> rl_maxPerMin rl \<le> win_count (min_window rl ip now) then mget (rl_perDay rl) ip'
      else Some (if fst (fst (Allow now ip rl)) then count_up (day_window rl ip now)
                 else day_window rl ip now))"
    unfolding m d by (auto simp: Allow_def Let_def m d min_window_def day_window_def)
qed

section \<open>Bounds\<close>

definition within :: "int \<Rightarrow> windows \<Rightarrow> bool" where
  "within mx m \<longleftrightarrow> mwf m \<and> (\<forall>ip w. mget m ip = Some w \<longrightarrow> 0 \<le> win_count w \<and> win_count w \<le> max 0 mx)"

definition rl_ok :: "RateLimiter \<Rightarrow> bool" where
  "rl_ok rl \<longleftrightarrow> within (rl_maxPerMin rl) (rl_perMin rl) \<and> within (rl_maxPerDay rl) (rl_perDay rl)"

lemma window_at_within: "within mx m \<Longrightarrow> 0 \<le> win_count (window_at m ip now d) \<and> win_count (window_at m ip now d) \<le> max 0 mx"
  by (auto simp: within_def window_at_def split: option.splits)

lemma getOrCreate_mwf_eq: "getOrCreate m ip now d = (w, m') \<Longrightarrow> mwf m \<Longrightarrow> mwf m'"
  using getOrCreate_mwf [of m ip now d] by simp

lemma Allow_mwf:
  "mwf (rl_perMin rl) \<Longrightarrow> mwf (rl_perMin (snd (Allow now ip rl)))"
  "mwf (rl_perDay rl) \<Longrightarrow> mwf (rl_perDay (snd (Allow now ip rl)))"
  by (auto simp: Allow_def Let_def split: prod.splits dest: getOrCreate_mwf_eq)

lemma rl_ok_new [simp]: "rl_ok (NewRateLimiter perMin perDay)"
  by (simp add: rl_ok_def within_def NewRateLimiter_def)

lemma rl_ok_Allow:
  assumes "rl_ok rl"
  shows "rl_ok (snd (Allow now ip rl))"
proof -
  have w: "within (rl_maxPerMin rl) (rl_perMin rl)" "within (rl_maxPerDay rl) (rl_perDay rl)"
    using assms by (auto simp: rl_ok_def)
  have m: "0 \<le> win_count (min_window rl ip now)" "win_count (min_window rl ip now) \<le> max 0 (rl_maxPerMin rl)"
    and d: "0 \<le> win_count (day_window rl ip now)" "win_count (day_window rl ip now) \<le> max 0 (rl_maxPerDay rl)"
    using window_at_within w by (auto simp: min_window_def day_window_def)
  show ?thesis
    using w m d Allow_mwf [of rl now ip] Allow_iff [of now ip rl]
    by (auto simp: rl_ok_def within_def Allow_windows count_up_def split: if_splits)
qed

lemma within_refund: "within mx m \<Longrightarrow> within mx (refund_window now ip m)"
  by (fastforce simp: within_def refund_window_def split: option.splits if_splits)

lemma rl_ok_Refund: "rl_ok rl \<Longrightarrow> rl_ok (Refund now ip rl)"
  by (simp add: rl_ok_def Refund_def within_refund)

lemma mget_sweep:
  "mwf m \<Longrightarrow> mget (sweep now m) ip = (case mget m ip of
     Some w \<Rightarrow> if win_resetAt w < now then None else Some w | None \<Rightarrow> None)"
  unfolding sweep_def
  by (simp add: mget_filter_vals [where P = "\<lambda>w. \<not> win_resetAt w < now"] split: option.splits)

lemma within_sweep: "within mx m \<Longrightarrow> within mx (sweep now m)"
  using mwf_filter [of m] by (auto simp: within_def mget_sweep sweep_def [symmetric] split: option.splits if_splits)
    (simp add: sweep_def mwf_filter)

lemma rl_ok_cleanup: "rl_ok rl \<Longrightarrow> rl_ok (rl_cleanup now rl)"
  by (simp add: rl_ok_def rl_cleanup_def within_sweep)

lemma refund_undoes_count:
  assumes "mget m ip = Some (count_up w)" and "now < win_resetAt w" and "0 \<le> win_count w"
  shows "mget (refund_window now ip m) ip = Some w"
  using assms by (simp add: refund_window_def count_up_def)

lemma refund_other: "ip' \<noteq> ip \<Longrightarrow> mget (refund_window now ip m) ip' = mget m ip'"
  by (simp add: refund_window_def split: option.splits)

section \<open>The sweep is not observable\<close>

text \<open>Two limiters that agree on every window in force from \<open>now\<close> on.\<close>

definition rl_equiv :: "instant \<Rightarrow> RateLimiter \<Rightarrow> RateLimiter \<Rightarrow> bool" where
  "rl_equiv now a b \<longleftrightarrow> rl_maxPerMin a = rl_maxPerMin b \<and> rl_maxPerDay a = rl_maxPerDay b \<and>
     (\<forall>ip t. now \<le> t \<longrightarrow> min_window a ip t = min_window b ip t \<and> day_window a ip t = day_window b ip t)"

lemma window_at_sweep: "mwf m \<Longrightarrow> t \<le> now \<Longrightarrow> window_at (sweep t m) ip now d = window_at m ip now d"
  by (auto simp: window_at_def mget_sweep split: option.splits)

lemma cleanup_equiv: "rl_ok rl \<Longrightarrow> rl_equiv now rl (rl_cleanup now rl)"
  by (simp add: rl_equiv_def rl_ok_def within_def rl_cleanup_def min_window_def day_window_def window_at_sweep)

lemma Allow_answer:
  "fst (Allow now ip rl) =
     (if win_count (min_window rl ip now) \<ge> rl_maxPerMin rl
      then (False, win_resetAt (min_window rl ip now) - now)
      else if win_count (day_window rl ip now) \<ge> rl_maxPerDay rl
      then (False, win_resetAt (day_window rl ip now) - now) else (True, 0))"
  by (auto simp: Allow_def Let_def min_window_def day_window_def getOrCreate_fst [symmetric]
      simp del: getOrCreate_fst split: prod.splits)

lemma window_at_cong: "mget m ip = mget m' ip \<Longrightarrow> window_at m ip t d = window_at m' ip t d"
  by (simp add: window_at_def)

lemma Allow_min_window:
  "min_window (snd (Allow now ip rl)) ip' t = (if ip' \<noteq> ip then min_window rl ip' t
     else let w = (if fst (fst (Allow now ip rl)) then count_up (min_window rl ip now) else min_window rl ip now)
       in if win_resetAt w < t then \<lparr>win_count = 0, win_resetAt = t + minute\<rparr> else w)"
  by (simp add: min_window_def [of _ _ t] window_at_def Allow_windows)

lemma Allow_day_window:
  "day_window (snd (Allow now ip rl)) ip' t =
     (if ip' \<noteq> ip \<or> rl_maxPerMin rl \<le> win_count (min_window rl ip now) then day_window rl ip' t
      else let w = (if fst (fst (Allow now ip rl)) then count_up (day_window rl ip now) else day_window rl ip now)
        in if win_resetAt w < t then \<lparr>win_count = 0, win_resetAt = t + 24 * hour\<rparr> else w)"
  by (simp add: day_window_def [of _ _ t] window_at_def Allow_windows)

lemma Allow_equiv:
  assumes "rl_equiv n a b" and "n \<le> now"
  shows "fst (Allow now ip a) = fst (Allow now ip b)"
    and "rl_equiv now (snd (Allow now ip a)) (snd (Allow now ip b))"
proof -
  have eq: "min_window a ip' t = min_window b ip' t" "day_window a ip' t = day_window b ip' t"
    if "now \<le> t" for ip' t using assms that by (auto simp: rl_equiv_def)
  have mx: "rl_maxPerMin a = rl_maxPerMin b" "rl_maxPerDay a = rl_maxPerDay b"
    using assms by (auto simp: rl_equiv_def)
  show ans: "fst (Allow now ip a) = fst (Allow now ip b)"
    by (simp add: Allow_answer eq mx)
  show "rl_equiv now (snd (Allow now ip a)) (snd (Allow now ip b))"
    using mx by (simp add: rl_equiv_def Allow_min_window Allow_day_window ans eq)
qed

text \<open>The answers to a sequence of requests.\<close>

fun answers :: "(instant \<times> string) list \<Rightarrow> RateLimiter \<Rightarrow> (bool \<times> int) list" where
  "answers [] rl = []"
| "answers ((now, ip) # reqs) rl = fst (Allow now ip rl) # answers reqs (snd (Allow now ip rl))"

lemma answers_equiv:
  "rl_equiv n a b \<Longrightarrow> sorted_wrt (\<le>) (n # map fst reqs) \<Longrightarrow> answers reqs a = answers reqs b"
proof (induction reqs arbitrary: n a b)
  case (Cons q reqs)
  obtain now ip where q: "q = (now, ip)" by (cases q)
  with Cons.prems have "n \<le> now" "sorted_wrt (\<le>) (now # map fst reqs)" by auto
  with Allow_equiv [OF Cons.prems(1) \<open>n \<le> now\<close>, of ip] Cons.IH show ?case by (simp add: q)
qed simp

section \<open>The states of a running limiter\<close>

inductive rl_reach :: "int \<Rightarrow> int \<Rightarrow> RateLimiter \<Rightarrow> bool" for perMin perDay where
  new: "rl_reach perMin perDay (NewRateLimiter perMin perDay)"
| allow: "rl_reach perMin perDay rl \<Longrightarrow> rl_reach perMin perDay (snd (Allow now ip rl))"
| remaining: "rl_reach perMin perDay rl \<Longrightarrow> rl_reach perMin perDay (snd (Remaining now ip rl))"
| refund: "rl_reach perMin perDay rl \<Longrightarrow> rl_reach perMin perDay (Refund now ip rl)"
| cleanup: "rl_reach perMin perDay rl \<Longrightarrow> rl_reach perMin perDay (rl_cleanup now rl)"

lemma within_getOrCreate: "within mx m \<Longrightarrow> within mx (snd (getOrCreate m ip now d))"
  using window_at_within [of mx m ip now d] by (auto simp: within_def getOrCreate_snd)

lemma Remaining_windows:
  "snd (Remaining now ip rl) = rl\<lparr>rl_perMin := snd (getOrCreate (rl_perMin rl) ip now minute),
     rl_perDay := snd (getOrCreate (rl_perDay rl) ip now (24 * hour))\<rparr>"
  by (simp add: Remaining_def Let_def split: prod.splits)

lemma rl_ok_Remaining: "rl_ok rl \<Longrightarrow> rl_ok (snd (Remaining now ip rl))"
  by (simp add: rl_ok_def Remaining_windows within_getOrCreate)

lemma limits_kept [simp]:
  "rl_maxPerMin (snd (Remaining now ip rl)) = rl_maxPerMin rl"
  "rl_maxPerDay (snd (Remaining now ip rl)) = rl_maxPerDay rl"
  "rl_maxPerMin (Refund now ip rl) = rl_maxPerMin rl" "rl_maxPerDay (Refund now ip rl) = rl_maxPerDay rl"
  "rl_maxPerMin (rl_cleanup now rl) = rl_maxPerMin rl" "rl_maxPerDay (rl_cleanup now rl) = rl_maxPerDay rl"
  by (simp_all add: Refund_def rl_cleanup_def Remaining_windows)

lemma rl_reach_ok:
  "rl_reach perMin perDay rl \<Longrightarrow> rl_ok rl \<and> rl_maxPerMin rl = perMin \<and> rl_maxPerDay rl = perDay"
proof (induction rule: rl_reach.induct)
  case new
  show ?case by (auto simp: NewRateLimiter_def intro: rl_ok_new [unfolded NewRateLimiter_def])
qed (simp_all add: rl_ok_Allow rl_ok_Remaining rl_ok_Refund rl_ok_cleanup)

section \<open>Requests of a minute\<close>

text \<open>
  The limiter under concurrent requests. Its operations hold the mutex, so what happens to it is a
  sequence of them: for a request that the middleware receives \<open>Allow\<close>, and if it is let through
  \<open>Remaining\<close> before the handler and, after it, the refund when the status is 304, each at its own time
  and with the operations of other requests in between; and the sweeps.
\<close>

datatype rl_event = Asks instant string | Looks instant string | Answered instant string int | Sweeps instant

definition rl_step :: "rl_event \<Rightarrow> RateLimiter \<Rightarrow> RateLimiter" where
  "rl_step e rl = (case e of
      Asks now ip \<Rightarrow> snd (Allow now ip rl)
    | Looks now ip \<Rightarrow> snd (Remaining now ip rl)
    | Answered now ip status \<Rightarrow> if status = 304 then Refund now ip rl else rl
    | Sweeps now \<Rightarrow> rl_cleanup now rl)"

text \<open>How many requests of \<open>ip\<close> are let through, less how many are answered with 304.\<close>

definition charge :: "string \<Rightarrow> rl_event \<Rightarrow> RateLimiter \<Rightarrow> int" where
  "charge ip e rl = (case e of
      Asks now i \<Rightarrow> if i = ip \<and> fst (fst (Allow now i rl)) then 1 else 0
    | Answered now i status \<Rightarrow> if i = ip \<and> status = 304 then -1 else 0
    | _ \<Rightarrow> 0)"

fun charged :: "string \<Rightarrow> rl_event list \<Rightarrow> RateLimiter \<Rightarrow> int" where
  "charged ip [] rl = 0"
| "charged ip (e # es) rl = charge ip e rl + charged ip es (rl_step e rl)"

text \<open>The middleware without interruption is three such steps, or one when it refuses.\<close>

lemma rl_Middleware_events:
  "fst (snd (rl_Middleware w later r serve rl s)) =
     (let ip = req_remote r; now = w_now w; (resp, s') = serve s in
      fold rl_step (if fst (fst (Allow now ip rl))
        then [Asks now ip, Looks now ip, Answered later ip (resp_status resp)] else [Asks now ip]) rl)"
  by (simp add: rl_Middleware_def rl_step_def Let_def split: prod.splits)

text \<open>The steps of the minute that begins at \<open>t0\<close>. A refund may come later.\<close>

definition in_minute :: "instant \<Rightarrow> rl_event \<Rightarrow> bool" where
  "in_minute t0 e \<longleftrightarrow> (case e of
      Asks now ip \<Rightarrow> t0 \<le> now \<and> now \<le> t0 + minute
    | Looks now ip \<Rightarrow> t0 \<le> now \<and> now \<le> t0 + minute
    | Answered now ip status \<Rightarrow> True
    | Sweeps now \<Rightarrow> now \<le> t0 + minute)"

text \<open>
  What an address may still be charged up to the end of the minute: what is left in its window, and a
  whole window more when that one ends before. A window made in the minute outlasts it.
\<close>

definition allowance :: "instant \<Rightarrow> string \<Rightarrow> RateLimiter \<Rightarrow> int" where
  "allowance t0 ip rl = (let mx = max 0 (rl_maxPerMin rl) in case mget (rl_perMin rl) ip of
      None \<Rightarrow> mx
    | Some w \<Rightarrow> mx - win_count w + (if t0 + minute \<le> win_resetAt w then 0 else mx))"

lemma allowance_bounds: "rl_ok rl \<Longrightarrow> 0 \<le> allowance t0 ip rl \<and> allowance t0 ip rl \<le> 2 * max 0 (rl_maxPerMin rl)"
  by (fastforce simp: allowance_def rl_ok_def within_def Let_def split: option.split)

lemma allowance_cong:
  "mget (rl_perMin rl') ip = mget (rl_perMin rl) ip \<Longrightarrow> rl_maxPerMin rl' = rl_maxPerMin rl \<Longrightarrow>
     allowance t0 ip rl' = allowance t0 ip rl"
  by (simp add: allowance_def)

lemma allowance_window:
  assumes "rl_ok rl" and "t0 \<le> now" and "now \<le> t0 + minute"
    and "mget (rl_perMin rl') ip = Some (min_window rl ip now)" and "rl_maxPerMin rl' = rl_maxPerMin rl"
  shows "allowance t0 ip rl' \<le> allowance t0 ip rl"
proof (cases "mget (rl_perMin rl) ip")
  case None
  with assms show ?thesis by (simp add: allowance_def min_window_def window_at_def Let_def)
next
  case (Some w)
  then have "0 \<le> win_count w" "win_count w \<le> max 0 (rl_maxPerMin rl)"
    using assms(1) by (auto simp: rl_ok_def within_def)
  with Some assms show ?thesis by (simp add: allowance_def min_window_def window_at_def Let_def)
qed

lemma allowance_counted:
  assumes "mget (rl_perMin a) ip = Some w" and "mget (rl_perMin b) ip = Some (count_up w)"
    and "rl_maxPerMin b = rl_maxPerMin a"
  shows "1 + allowance t0 ip b = allowance t0 ip a"
  using assms by (simp add: allowance_def count_up_def Let_def)

lemma charge_step:
  assumes "rl_ok rl" and "in_minute t0 e"
  shows "charge ip e rl + allowance t0 ip (rl_step e rl) \<le> allowance t0 ip rl"
proof (cases e)
  case (Asks now i)
  let ?rl = "snd (Allow now i rl)"
  have t: "t0 \<le> now" "now \<le> t0 + minute" using assms(2) Asks by (simp_all add: in_minute_def)
  show ?thesis
  proof (cases "i = ip")
    case False
    then have "allowance t0 ip ?rl = allowance t0 ip rl" by (intro allowance_cong) (simp_all add: Allow_windows)
    with False Asks show ?thesis by (simp add: charge_def rl_step_def)
  next
    case True
    define seen where "seen = rl\<lparr>rl_perMin := mput ip (min_window rl ip now) (rl_perMin rl)\<rparr>"
    have le: "allowance t0 ip seen \<le> allowance t0 ip rl"
      by (rule allowance_window [OF assms(1) t]) (simp_all add: seen_def)
    have "charge ip e rl + allowance t0 ip ?rl = allowance t0 ip seen"
    proof (cases "fst (fst (Allow now i rl))")
      case ok: True
      have "1 + allowance t0 ip ?rl = allowance t0 ip seen"
        by (rule allowance_counted [of _ _ "min_window rl ip now"]) (use True ok in \<open>simp_all add: seen_def Allow_windows\<close>)
      with True ok Asks show ?thesis by (simp add: charge_def)
    next
      case no: False
      have "allowance t0 ip ?rl = allowance t0 ip seen"
        by (rule allowance_cong) (use True no in \<open>simp_all add: seen_def Allow_windows\<close>)
      with no Asks show ?thesis by (simp add: charge_def)
    qed
    with le Asks show ?thesis by (simp add: rl_step_def)
  qed
next
  case (Looks now i)
  have t: "t0 \<le> now" "now \<le> t0 + minute" using assms(2) Looks by (simp_all add: in_minute_def)
  have "allowance t0 ip (snd (Remaining now i rl)) \<le> allowance t0 ip rl"
  proof (cases "i = ip")
    case True
    show ?thesis
      by (rule allowance_window [OF assms(1) t]) (simp_all add: True Remaining_windows getOrCreate_snd min_window_def)
  next
    case False
    then show ?thesis by (simp add: allowance_def Remaining_windows getOrCreate_snd)
  qed
  with Looks show ?thesis by (simp add: charge_def rl_step_def)
next
  case (Answered now i status)
  have "(if i = ip then -1 else 0) + allowance t0 ip (Refund now i rl) \<le> allowance t0 ip rl"
    by (cases "i = ip") (auto simp: allowance_def Refund_def refund_other refund_window_def Let_def split: option.splits)
  with Answered show ?thesis by (auto simp: charge_def rl_step_def split: if_splits)
next
  case (Sweeps now)
  have "mwf (rl_perMin rl)" using assms(1) by (simp add: rl_ok_def within_def)
  moreover have "win_count w \<le> max 0 (rl_maxPerMin rl)" if "mget (rl_perMin rl) ip = Some w" for w
    using assms(1) that by (auto simp: rl_ok_def within_def)
  ultimately have "allowance t0 ip (rl_cleanup now rl) \<le> allowance t0 ip rl"
    using assms(2) Sweeps
    by (auto simp: allowance_def rl_cleanup_def mget_sweep in_minute_def Let_def split: option.splits)
  with Sweeps show ?thesis by (simp add: charge_def rl_step_def)
qed

lemma rl_ok_step: "rl_ok rl \<Longrightarrow> rl_ok (rl_step e rl)"
  by (cases e) (simp_all add: rl_step_def rl_ok_Allow rl_ok_Remaining rl_ok_Refund rl_ok_cleanup)

lemma charged_allowance:
  "rl_ok rl \<Longrightarrow> list_all (in_minute t0) es \<Longrightarrow> charged ip es rl \<le> allowance t0 ip rl"
proof (induction es arbitrary: rl)
  case Nil
  then show ?case using allowance_bounds [of rl t0 ip] by simp
next
  case (Cons e es)
  then have "in_minute t0 e" "charged ip es (rl_step e rl) \<le> allowance t0 ip (rl_step e rl)"
    by (simp_all add: rl_ok_step)
  with charge_step [OF Cons.prems(1), of t0 e ip] show ?case by simp
qed

section \<open>A response of 304 is free\<close>

lemma Remaining_after_Allow:
  assumes "fst (fst (Allow now ip rl))" and "now \<le> win_resetAt (min_window rl ip now)"
    "now \<le> win_resetAt (day_window rl ip now)"
  shows "mget (rl_perMin (snd (Remaining now ip (snd (Allow now ip rl))))) ip = Some (count_up (min_window rl ip now))"
    and "mget (rl_perDay (snd (Remaining now ip (snd (Allow now ip rl))))) ip = Some (count_up (day_window rl ip now))"
  using assms Allow_iff [of now ip rl]
  by (auto simp: Remaining_windows getOrCreate_snd Allow_windows window_at_def count_up_def)

lemma window_at_resets: "0 \<le> d \<Longrightarrow> now \<le> win_resetAt (window_at m ip now d)"
  by (simp add: window_at_def split: option.splits)

lemma window_at_count:
  "now \<le> t \<Longrightarrow> 0 \<le> d \<Longrightarrow> mget m' ip = Some (window_at m ip now d) \<Longrightarrow>
     win_count (window_at m' ip t d) = win_count (window_at m ip t d)"
  by (auto simp: window_at_def split: option.splits if_splits)

lemma durations [simp]: "0 \<le> minute" "0 \<le> 24 * hour"
  by (simp_all add: minute_def hour_def second_def)

lemma refund_after_Allow:
  assumes ok: "rl_ok rl" and allowed: "fst (fst (Allow now ip rl))" and later: "now \<le> t"
    and live: "later < win_resetAt (min_window rl ip now)" "later < win_resetAt (day_window rl ip now)"
  defines "rl' \<equiv> Refund later ip (snd (Remaining now ip (snd (Allow now ip rl))))"
  shows "win_count (min_window rl' ip t) = win_count (min_window rl ip t) \<and>
    win_count (day_window rl' ip t) = win_count (day_window rl ip t)"
proof -
  have pos: "0 \<le> win_count (min_window rl ip now)" "0 \<le> win_count (day_window rl ip now)"
    using ok window_at_within by (auto simp: rl_ok_def min_window_def day_window_def)
  have resets: "now \<le> win_resetAt (min_window rl ip now)" "now \<le> win_resetAt (day_window rl ip now)"
    by (simp_all add: min_window_def day_window_def window_at_resets)
  note stored = Remaining_after_Allow [OF allowed resets]
  have "mget (rl_perMin rl') ip = Some (min_window rl ip now)"
    "mget (rl_perDay rl') ip = Some (day_window rl ip now)"
    unfolding rl'_def Refund_def
    using refund_undoes_count [OF stored(1) live(1) pos(1)] refund_undoes_count [OF stored(2) live(2) pos(2)]
    by simp_all
  then show ?thesis
    unfolding min_window_def day_window_def using later window_at_count by simp
qed

lemma resp_status_under_headers [simp]: "resp_status (under_headers hs resp) = resp_status resp"
  by (simp add: under_headers_def)

lemma rl_Middleware_cases:
  "rl_Middleware w later r serve rl s =
     (let ip = req_remote r; now = w_now w; rl1 = snd (Allow now ip rl) in
      if \<not> fst (fst (Allow now ip rl))
      then (fst (rl_Middleware w later r serve rl s), rl1, s)
      else (fst (rl_Middleware w later r serve rl s),
            (if resp_status (fst (serve s)) = 304 then Refund later ip (snd (Remaining now ip rl1))
             else snd (Remaining now ip rl1)), snd (serve s)))"
  by (simp add: rl_Middleware_def Let_def split: prod.splits)

lemma rl_Middleware_status:
  "resp_status (fst (rl_Middleware w later r serve rl s)) =
     (if fst (fst (Allow (w_now w) (req_remote r) rl)) then resp_status (fst (serve s)) else 429)"
  by (auto simp: rl_Middleware_def Let_def writeError_status split: prod.splits)

section \<open>Properties\<close>

definition demo_limiter :: RateLimiter where
  "demo_limiter = snd (Allow 0 ''a'' (NewRateLimiter 1 9))"

lemma demo_limiter_reach: "rl_reach 1 9 demo_limiter"
  unfolding demo_limiter_def by (intro rl_reach.intros)

lemma new_windows [simp]:
  "min_window (NewRateLimiter perMin perDay) ip t = \<lparr>win_count = 0, win_resetAt = t + minute\<rparr>"
  "day_window (NewRateLimiter perMin perDay) ip t = \<lparr>win_count = 0, win_resetAt = t + 24 * hour\<rparr>"
  "rl_maxPerMin (NewRateLimiter perMin perDay) = perMin" "rl_maxPerDay (NewRateLimiter perMin perDay) = perDay"
  by (simp_all add: min_window_def day_window_def window_at_def NewRateLimiter_def)

lemma demo_limiter_full:
  "min_window demo_limiter ''a'' 5 = \<lparr>win_count = 1, win_resetAt = minute\<rparr>"
  by (simp add: demo_limiter_def Allow_min_window Allow_iff count_up_def minute_def second_def)

text \<open>
  C32 What a client gets through in a minute. Whatever the limiter has seen before, and however the
  requests of all clients overlap, the requests of an address that the middleware lets through within
  a minute exceed the 304 answers that the address gets back for free by at most twice the limit per
  minute. The address is the text of \<open>RemoteAddr\<close>: unless a proxy in front sets it, it has the port in it,
  and each connection is a client of its own.
\<close>

theorem minute_bound:
  assumes "rl_reach perMin perDay rl" and "list_all (in_minute t0) es"
  shows "charged ip es rl \<le> 2 * max 0 perMin"
  using charged_allowance [of rl t0 es ip] allowance_bounds [of rl t0 ip] rl_reach_ok [OF assms(1)] assms(2) by auto

text \<open>A limit of one with a 304 in between: two requests are let through, and one is charged.\<close>

theorem minute_bound_witness:
  "charged ''a'' [Asks 5 ''a'', Asks 6 ''b'', Looks 7 ''a'', Answered 8 ''a'' 304, Asks 9 ''a''] (NewRateLimiter 1 9) \<le> 2 \<and>
   charged ''a'' [Asks 5 ''a'', Asks 6 ''b'', Looks 7 ''a'', Answered 8 ''a'' 304, Asks 9 ''a''] (NewRateLimiter 1 9) = 1"
proof
  show "charged ''a'' [Asks 5 ''a'', Asks 6 ''b'', Looks 7 ''a'', Answered 8 ''a'' 304, Asks 9 ''a''] (NewRateLimiter 1 9) \<le> 2"
    using minute_bound [OF rl_reach.new, of 0 "[Asks 5 ''a'', Asks 6 ''b'', Looks 7 ''a'', Answered 8 ''a'' 304, Asks 9 ''a'']" "''a''" 1 9]
    by (simp add: in_minute_def minute_def second_def)
  show "charged ''a'' [Asks 5 ''a'', Asks 6 ''b'', Looks 7 ''a'', Answered 8 ''a'' 304, Asks 9 ''a''] (NewRateLimiter 1 9) = 1"
    by code_simp
qed

text \<open>
  The middleware lets the handler run exactly when both windows of the client have room. A
  refused request gets 429 and leaves the handler's state alone; an admitted one gets the
  handler's status and counts in both windows.
\<close>

theorem limited_exactly_when_full:
  "case rl_Middleware w later r serve rl s of (resp, rl', s') \<Rightarrow>
     (let ip = req_remote r; now = w_now w in
      if win_count (min_window rl ip now) < rl_maxPerMin rl \<and> win_count (day_window rl ip now) < rl_maxPerDay rl
      then resp_status resp = resp_status (fst (serve s)) \<and> s' = snd (serve s) \<and>
        (resp_status resp \<noteq> 304 \<longrightarrow>
           mget (rl_perMin rl') ip = Some (count_up (min_window rl ip now)) \<and>
           mget (rl_perDay rl') ip = Some (count_up (day_window rl ip now)))
      else resp_status resp = 429 \<and> s' = s)"
proof -
  let ?ip = "req_remote r" and ?now = "w_now w"
  obtain resp rl' s' where m: "rl_Middleware w later r serve rl s = (resp, rl', s')"
    by (metis prod_cases3)
  have resets: "?now \<le> win_resetAt (min_window rl ?ip ?now)" "?now \<le> win_resetAt (day_window rl ?ip ?now)"
    by (simp_all add: min_window_def day_window_def window_at_resets)
  have st: "resp_status resp = (if fst (fst (Allow ?now ?ip rl)) then resp_status (fst (serve s)) else 429)"
    using rl_Middleware_status [of w later r serve rl s] m by simp
  show ?thesis
  proof (cases "fst (fst (Allow ?now ?ip rl))")
    case True
    with rl_Middleware_cases [of w later r serve rl s] m st
    have "s' = snd (serve s)" and "resp_status resp \<noteq> 304 \<Longrightarrow> rl' = snd (Remaining ?now ?ip (snd (Allow ?now ?ip rl)))"
      by (auto simp: Let_def split: if_splits)
    with True st Remaining_after_Allow [OF True resets] Allow_iff [of ?now ?ip rl] show ?thesis
      by (simp add: m Let_def)
  next
    case False
    with rl_Middleware_cases [of w later r serve rl s] m have "s' = s" by (simp add: Let_def)
    with False st Allow_iff [of ?now ?ip rl] show ?thesis by (auto simp: m Let_def)
  qed
qed

theorem limited_exactly_when_full_witness:
  "resp_status (fst (rl_Middleware (calm_world\<lparr>w_now := 5\<rparr>) 6 (empty_request\<lparr>req_remote := ''a''\<rparr>)
     (\<lambda>n. (initial_response, n + 1)) demo_limiter (0::int))) = 429"
  using limited_exactly_when_full [where w = "calm_world\<lparr>w_now := 5\<rparr>" and later = 6
      and r = "empty_request\<lparr>req_remote := ''a''\<rparr>" and rl = demo_limiter
      and serve = "\<lambda>n. (initial_response, n + 1)" and s = "0::int"]
  by (simp add: demo_limiter_full rl_reach_ok [OF demo_limiter_reach] split: prod.splits)

text \<open>
  A request that ends in 304 is free: when the response is sent before the windows expire, the
  counts in force at any later time are what they would be had the request not been made.
\<close>

theorem not_modified_is_free:
  assumes "rl_reach perMin perDay rl"
    and "rl_Middleware w later r serve rl s = (resp, rl', s')" and "resp_status resp = 304"
    and "later < win_resetAt (min_window rl (req_remote r) (w_now w))"
    and "later < win_resetAt (day_window rl (req_remote r) (w_now w))" and "w_now w \<le> t"
  shows "win_count (min_window rl' (req_remote r) t) = win_count (min_window rl (req_remote r) t) \<and>
     win_count (day_window rl' (req_remote r) t) = win_count (day_window rl (req_remote r) t)"
proof -
  have ok: "rl_ok rl" using rl_reach_ok [OF assms(1)] by simp
  have allowed: "fst (fst (Allow (w_now w) (req_remote r) rl))" and st: "resp_status (fst (serve s)) = 304"
    using rl_Middleware_status [of w later r serve rl s] assms(2,3) by (auto split: if_splits)
  have "rl' = Refund later (req_remote r) (snd (Remaining (w_now w) (req_remote r)
      (snd (Allow (w_now w) (req_remote r) rl))))"
    using rl_Middleware_cases [of w later r serve rl s] assms(2) allowed st by (simp add: Let_def)
  with refund_after_Allow [OF ok allowed assms(6,4,5)] show ?thesis by simp
qed

theorem not_modified_is_free_witness:
  "\<exists>resp rl' s'. rl_Middleware calm_world 1 empty_request
      (\<lambda>n. (with_status 304 initial_response, n + 1)) (NewRateLimiter 1 9) (0::int) = (resp, rl', s') \<and>
     win_count (min_window rl' [] 2) = 0"
proof -
  let ?m = "rl_Middleware calm_world 1 empty_request (\<lambda>n. (with_status 304 initial_response, n + 1))
      (NewRateLimiter 1 9) (0::int)"
  obtain resp rl' s' where m: "?m = (resp, rl', s')" by (metis prod_cases3)
  have now: "w_now calm_world = 0" "req_remote empty_request = []"
    by (simp_all add: calm_world_def empty_request_def)
  have "resp_status resp = 304"
    using rl_Middleware_status [of calm_world 1 empty_request "\<lambda>n. (with_status 304 initial_response, n + 1)"
        "NewRateLimiter 1 9" "0::int"] m
    by (simp add: Allow_iff)
  from not_modified_is_free [OF rl_reach.new m this, of 2] m show ?thesis
    by (simp add: now minute_def hour_def second_def)
qed

text \<open>
  The sweep of expired windows is unobservable: for requests at or after it, in time order, a
  swept limiter gives the same answers and waiting times as the unswept one.
\<close>

theorem sweep_unobservable:
  assumes "rl_reach perMin perDay rl" and "sorted_wrt (\<le>) (now # map fst reqs)"
  shows "answers reqs (rl_cleanup now rl) = answers reqs rl"
  using answers_equiv [OF cleanup_equiv assms(2)] rl_reach_ok [OF assms(1)] by simp

theorem sweep_unobservable_witness:
  "answers [(5, ''a''), (7, ''a'')] (rl_cleanup 3 demo_limiter) = answers [(5, ''a''), (7, ''a'')] demo_limiter"
  by (rule sweep_unobservable [OF demo_limiter_reach]) simp

end
