(* ===== verification/Serving_Hub.thy ===== *)
theory Serving_Hub
  imports Serving_Projection Serving_Paginate Auth_Tokens Auth_Ratelimit
begin

text \<open>
  The root-mode hub: \<open>serving/hub.go\<close> and the handlers of \<open>serving/handlers.go\<close>. The state is the
  disk, the index and the virtual-host resolver; a handler takes the request and the state and
  returns the response and the new state. Writing one ref is one step, because the handler holds
  the lock of that ref around it (see \<open>Serving_Keyedmutex\<close>).
\<close>

record hub =
  hub_store :: Store
  hub_disk :: disk
  hub_index :: Index
  hub_defaultViewerRef :: ref
  hub_vhost :: "VhostResolver option"
  hub_vhostMode :: string

definition NewHub :: "Store \<Rightarrow> disk \<Rightarrow> Index \<Rightarrow> ref \<Rightarrow> hub" where
  "NewHub store d idx defaultViewerRef = \<lparr>hub_store = store, hub_disk = d, hub_index = idx,
     hub_defaultViewerRef = defaultViewerRef, hub_vhost = None, hub_vhostMode = VhostModeIsolate\<rparr>"

definition hub_baseDomain :: "hub \<Rightarrow> string" where
  "hub_baseDomain h = (case hub_vhost h of Some v \<Rightarrow> vh_baseDomain v | None \<Rightarrow> [])"

definition hub_read :: "world \<Rightarrow> hub \<Rightarrow> ref \<Rightarrow> store_error + bytes option" where
  "hub_read w h ref = Read w (hub_store h) (hub_disk h) ref"

section \<open>The root of a host\<close>

definition handleRootLegacy :: "world \<Rightarrow> request \<Rightarrow> hub \<Rightarrow> response" where
  "handleRootLegacy w r h = (case GetAll (hub_index h) [] ''ROOT'' [] False of
      [] \<Rightarrow> writeError w r 404 ''no root object'' ''NOT_FOUND''
    | m # ms \<Rightarrow> http_redirect (''/'' @ meta_Ref m) initial_response)"

text \<open>The default branch of \<open>handleRoot\<close>: the page a host resolves to, unless it redirects.\<close>

definition serve_root_page :: "world \<Rightarrow> request \<Rightarrow> hub \<Rightarrow> ref \<Rightarrow> response" where
  "serve_root_page w r h resolved =
     (let meta = GetMeta (hub_index h) resolved in
      if (case meta of Some m \<Rightarrow> \<not> meta_IsPublic m \<and>
            \<not> CanRead (meta_Realms m) (req_auth r) (Resolver (hub_index h)) | None \<Rightarrow> False)
      then servePrivatePageLogin initial_response
      else (let etag = (case meta of Some m \<Rightarrow> [CHR 0x22] @ itoa (meta_Revision m) @ ''-html'' @ [CHR 0x22]
                        | None \<Rightarrow> []);
                resp = (if meta = None then initial_response
                        else set_header ''ETag'' etag (set_header ''Vary'' ''Accept'' initial_response))
            in if meta \<noteq> None \<and> not_modified r etag then with_status 304 resp
               else (case hub_read w h resolved of
                   Inr (Some data) \<Rightarrow>
                     (let html = pageOwnHTML data in
                      if html = [] then WriteProblem w r 404 ''page has no HTML'' ''NOT_FOUND'' resp
                      else writePageHTML w html (hub_baseDomain h) resp)
                 | _ \<Rightarrow> WriteProblem w r 404 ''page not found'' ''NOT_FOUND'' resp)))"

definition handleRoot :: "world \<Rightarrow> request \<Rightarrow> hub \<Rightarrow> response \<times> hub" where
  "handleRoot w r h = (case hub_vhost h of
      None \<Rightarrow> (handleRootLegacy w r h, h)
    | Some v \<Rightarrow>
        (let (resolved, v) = Resolve w v (req_host r); h = h\<lparr>hub_vhost := Some v\<rparr> in
         if resolved = [] then
           (if baseHostMatches (req_host r) (vh_baseDomain v) then (handleRootLegacy w r h, h)
            else (writeError w r 404 ''unknown host'' ''NOT_FOUND'', h))
         else if normalizeVhostMode (hub_vhostMode h) = VhostModeRedirect
         then (http_redirect (pageRedirectTarget (hub_vhostMode h) v r resolved resolved) initial_response, h)
         else (serve_root_page w r h resolved, h)))"

section \<open>\<open>GET /{ref}\<close>\<close>

definition serveObject :: "world \<Rightarrow> request \<Rightarrow> hub \<Rightarrow> ref \<Rightarrow> bytes \<Rightarrow> response \<Rightarrow> response \<times> hub" where
  "serveObject w r h ref data resp = (case ParseEnvelope data of
      Inl e \<Rightarrow> (WriteProblem w r 500 ''internal error'' ''INTERNAL'' resp, h)
    | Inr (env, it) \<Rightarrow>
        (let vr = newViewerResolver (hub_store h) (hub_disk h) (hub_index h) ref data (req_auth r);
             selected = selectNegotiatedRepresentation w r vr (hub_defaultViewerRef h);
             resp = setCacheHeaders selected resp;
             pageRef = isolatedPageRef selected;
             (redirect, vhost) = (if pageRef \<noteq> []
               then vhostRedirect w r (hub_vhost h) (hub_vhostMode h) ref pageRef [] resp
               else (None, hub_vhost h));
             h = h\<lparr>hub_vhost := vhost\<rparr>
         in case redirect of
              Some x \<Rightarrow> (x, h)
            | None \<Rightarrow>
                (let etag = sr_etag selected (item_Revision it);
                     resp = set_header ''ETag'' etag (set_header ''Vary'' ''Accept'' resp)
                 in if not_modified r etag then (with_status 304 resp, h)
                    else (sr_write w selected data (hub_baseDomain h) resp, h))))"

text \<open>Reading and serving, with the headers set so far.\<close>

definition read_and_serve :: "world \<Rightarrow> request \<Rightarrow> hub \<Rightarrow> ref \<Rightarrow> response \<Rightarrow> response \<times> hub" where
  "read_and_serve w r h ref resp = (case hub_read w h ref of
      Inl e \<Rightarrow> (WriteProblem w r 500 ''internal error'' ''INTERNAL'' resp, h)
    | Inr None \<Rightarrow> (WriteProblem w r 404 ''object not found'' ''NOT_FOUND'' resp, h)
    | Inr (Some data) \<Rightarrow> serveObject w r h ref data resp)"

text \<open>The branch for a private object the caller may not read.\<close>

definition deny_object :: "world \<Rightarrow> request \<Rightarrow> hub \<Rightarrow> ref \<Rightarrow> response \<times> hub" where
  "deny_object w r h ref =
     (let (login, vhost) = (case hub_read w h ref of
            Inr (Some data) \<Rightarrow>
              servePrivateViewerLogin w r
                (newViewerResolver (hub_store h) (hub_disk h) (hub_index h) ref data (req_auth r))
                (hub_vhost h) (hub_vhostMode h) ref
          | _ \<Rightarrow> (None, hub_vhost h))
      in (case login of Some x \<Rightarrow> x | None \<Rightarrow> writeError w r 404 ''object not found'' ''NOT_FOUND'',
          h\<lparr>hub_vhost := vhost\<rparr>))"

definition handleGetObject :: "world \<Rightarrow> request \<Rightarrow> hub \<Rightarrow> response \<times> hub" where
  "handleGetObject w r h =
     (let ref = req_ref r in
      if \<not> IsValidRef ref then (writeError w r 404 ''object not found'' ''NOT_FOUND'', h)
      else (case GetMeta (hub_index h) ref of
          None \<Rightarrow> read_and_serve w r h ref initial_response
        | Some m \<Rightarrow>
            if \<not> meta_IsPublic m \<and> \<not> CanRead (meta_Realms m) (req_auth r) (Resolver (hub_index h))
            then deny_object w r h ref
            else (case indexedNonHTMLValidator r m of
                Some etag \<Rightarrow>
                  (let resp = set_header ''ETag'' etag (set_header ''Vary'' ''Accept'' initial_response)
                   in if not_modified r etag then (with_status 304 resp, h)
                      else read_and_serve w r h ref resp)
              | None \<Rightarrow> read_and_serve w r h ref initial_response)))"

section \<open>\<open>PUT /{ref}\<close>\<close>

definition maxBodySize :: int where
  "maxBodySize = 10 * 1024 * 1024"

definition realm_error_text :: "world \<Rightarrow> realm_error \<Rightarrow> string" where
  "realm_error_text w e = (case e of
      Wrong_Type t \<Rightarrow> ''type '' @ w_quote w t @ '' is not '' @ w_quote w TypeSharedRealm
    | Missing_Realm \<Rightarrow> ''missing content.realm''
    | Invalid_Content g \<Rightarrow> ''invalid content: '' @ w_error_text w g
    | Not_Owner_Prefixed r \<Rightarrow> ''realm '' @ w_quote w r @ '' is not owner-prefixed ({pubkey}.{Name})''
    | Not_Owner pk r owner \<Rightarrow> ''signer '' @ w_quote w pk @ '' does not own realm '' @ w_quote w r @
        '' (owner='' @ w_quote w owner @ '')''
    | Wrong_ID got want \<Rightarrow> ''item.id '' @ w_quote w got @ '' != RealmID(realm) '' @ w_quote w want
    | Not_Global \<Rightarrow> ''SHARED_REALM object must include '' @ [CHR 0x22] @ ''dataverse001'' @ [CHR 0x22] @
        '' in item.in (decision 6: global propagation)'')"

text \<open>
  The checks before the lock, in the order of the code: the response of the first that fails, or
  what the write needs.
\<close>

definition put_checks ::
  "world \<Rightarrow> request \<Rightarrow> ref \<Rightarrow> bytes \<Rightarrow> Index \<Rightarrow> response + (Item \<times> InField \<times> bytes \<times> instant)" where
  "put_checks w r ref body idx = (case ParseEnvelope body of
      Inl e \<Rightarrow> Inl (writeError w r 400 (parse_error_text w e) ''INVALID_OBJECT'')
    | Inr (env, it) \<Rightarrow>
        (let realms = ResolveIn env it in
         if list_ex (\<lambda>realm. IsPubkeyRealm realm \<and> realm \<noteq> item_Pubkey it) realms
         then Inl (writeError w r 403 ''pubkey-realm does not match item pubkey'' ''REALM_FORBIDDEN'')
         else if \<not> ValidateRealmsForPut realms (item_Pubkey it) (Resolver idx)
         then Inl (writeError w r 400 (''object must belong to dataverse001, server-public, '' @
                ''a self-owned pubkey-realm, or a configured shared realm'') ''INVALID_OBJECT'')
         else (case (if item_Type it = TypeSharedRealm then ParseSharedRealm it else Inr ([], [])) of
             Inl e \<Rightarrow> Inl (writeError w r 400
                 (''invalid SHARED_REALM object: '' @ realm_error_text w e) ''INVALID_SHARED_REALM'')
           | Inr realm_members \<Rightarrow>
               if ref \<noteq> item_Ref it
               then Inl (writeError w r 400 (''URL ref '' @ w_quote w ref @ '' does not match item '' @
                      w_quote w (item_Ref it)) ''REF_MISMATCH'')
               else (case VerifyEnvelope w body of
                   Some e \<Rightarrow> Inl (writeError w r 400 (verify_error_text w e) ''INVALID_SIGNATURE'')
                 | None \<Rightarrow> (case CanonicalJSON body of
                     None \<Rightarrow> Inl (writeError w r 500 ''internal error'' ''INTERNAL'')
                   | Some canonical \<Rightarrow> (case item_Timestamp it of
                       None \<Rightarrow> Inl (writeError w r 400 (''invalid timestamp: '' @ w_error_text w
                           (Time_Error (if item_UpdatedAt it = [] then item_CreatedAt it else item_UpdatedAt it)))
                           ''INVALID_OBJECT'')
                     | Some ts \<Rightarrow> Inr (it, realms, canonical, ts)))))))"

text \<open>The critical section: the conditional check, the backup, the write, the index.\<close>

definition put_commit ::
  "world \<Rightarrow> request \<Rightarrow> hub \<Rightarrow> ref \<Rightarrow> Item \<Rightarrow> InField \<Rightarrow> bytes \<Rightarrow> instant \<Rightarrow> response \<times> hub" where
  "put_commit w r h ref it realms canonical ts =
     (let existing = GetMeta (hub_index h) ref in
      case checkConditionalWrite w r (req_header r ''If-Match'') existing (item_Revision it) of
        Some resp \<Rightarrow> (resp, h)
      | None \<Rightarrow>
          (let d = (case existing of
                 Some m \<Rightarrow> snd (Backup w (hub_store h) ref (meta_Revision m) (hub_disk h))
               | None \<Rightarrow> hub_disk h);
               (err, d) = Write w (hub_store h) ref canonical ts d
           in if err \<noteq> None
              then (writeError w r 500 ''internal error'' ''INTERNAL'', h\<lparr>hub_disk := d\<rparr>)
              else (let idx = idx_Update ref it ts [realms] (hub_index h);
                        vhost = (if item_Type it = ''PAGE'' then map_option (AddPage ref) (hub_vhost h)
                                 else hub_vhost h);
                        resp = set_header ''ETag'' (revisionETag (item_Revision it)) initial_response;
                        resp = with_status (if existing \<noteq> None then 200 else 201) resp
                    in (write_body canonical resp,
                        h\<lparr>hub_disk := d, hub_index := idx, hub_vhost := vhost\<rparr>))))"

definition handlePutObject :: "world \<Rightarrow> request \<Rightarrow> hub \<Rightarrow> response \<times> hub" where
  "handlePutObject w r h =
     (let ref = req_ref r in
      if \<not> IsValidRef ref then (writeError w r 404 ''object not found'' ''NOT_FOUND'', h)
      else (case req_body r of
          None \<Rightarrow> (writeError w r 400 ''failed to read body'' ''INVALID_OBJECT'', h)
        | Some body \<Rightarrow>
            if int (length body) > maxBodySize
            then (writeError w r 413 ''body too large (max 10MB)'' ''INVALID_OBJECT'', h)
            else (case put_checks w r ref body (hub_index h) of
                Inl resp \<Rightarrow> (resp, h)
              | Inr (it, realms, canonical, ts) \<Rightarrow> put_commit w r h ref it realms canonical ts)))"

section \<open>Listings\<close>

text \<open>The part both listing handlers share: page, counts, response.\<close>

definition write_page :: "world \<Rightarrow> request \<Rightarrow> hub \<Rightarrow> ObjectMeta list \<Rightarrow> response" where
  "write_page w r h metas =
     (let limit = parseLimit (req_query r ''limit'') 50 200;
          cursor = parseCursor (req_query r ''cursor'');
          (items, nextCursor, hasMore) = paginateAndLoad w (hub_store h) (hub_disk h) metas cursor limit;
          items = (if req_query r ''include'' = ''inbound_counts''
                   then enrichWithInboundCounts (hub_index h) items else Some items)
      in writeItems items nextCursor hasMore)"

definition handleListObjects :: "world \<Rightarrow> request \<Rightarrow> hub \<Rightarrow> response" where
  "handleListObjects w r h =
     (let membersOnly = req_query r ''members_only'' \<noteq> ''false'';
          metas = GetAll (hub_index h) (req_query r ''by'') (req_query r ''type'') (req_auth r) membersOnly
      in write_page w r h metas)"

definition handleGetInbound :: "world \<Rightarrow> request \<Rightarrow> hub \<Rightarrow> response" where
  "handleGetInbound w r h =
     (let ref = req_ref r in
      if \<not> IsValidRef ref then writeError w r 404 ''object not found'' ''NOT_FOUND''
      else (let filters = \<lparr>filter_Relation = req_query r ''relation'', filter_From = req_query r ''from'',
                  filter_Type = req_query r ''type''\<rparr>;
                membersOnly = req_query r ''members_only'' \<noteq> ''false'';
                metas = GetInbound (hub_index h) ref filters (req_auth r) membersOnly
            in write_page w r h metas))"

section \<open>The projections, the realms of the caller, and the certificate question\<close>

definition handleGetJSON :: "world \<Rightarrow> request \<Rightarrow> hub \<Rightarrow> response" where
  "handleGetJSON w r h = serveJSONForRef w r (hub_store h) (hub_disk h) (hub_index h) (req_ref r)"

definition handleRootJSON :: "world \<Rightarrow> request \<Rightarrow> hub \<Rightarrow> response \<times> hub" where
  "handleRootJSON w r h =
     (case resolveRootTarget w r (hub_index h) (hub_vhost h) (hub_vhostMode h) ''/json'' of
        (Inl resp, vhost) \<Rightarrow> (resp, h\<lparr>hub_vhost := vhost\<rparr>)
      | (Inr ref, vhost) \<Rightarrow>
          (serveJSONForRef w r (hub_store h) (hub_disk h) (hub_index h) ref, h\<lparr>hub_vhost := vhost\<rparr>))"

definition hub_serveRawForRef :: "world \<Rightarrow> request \<Rightarrow> hub \<Rightarrow> ref \<Rightarrow> response \<times> hub" where
  "hub_serveRawForRef w r h ref =
     (let (resp, vhost) = serveRawForRef w r (hub_store h) (hub_disk h) (hub_index h) (hub_vhost h)
            (hub_vhostMode h) (hub_baseDomain h) ref
      in (resp, h\<lparr>hub_vhost := vhost\<rparr>))"

definition handleGetRaw :: "world \<Rightarrow> request \<Rightarrow> hub \<Rightarrow> response \<times> hub" where
  "handleGetRaw w r h = hub_serveRawForRef w r h (req_ref r)"

definition handleRootRaw :: "world \<Rightarrow> request \<Rightarrow> hub \<Rightarrow> response \<times> hub" where
  "handleRootRaw w r h =
     (case resolveRootTarget w r (hub_index h) (hub_vhost h) (hub_vhostMode h) ''/raw'' of
        (Inl resp, vhost) \<Rightarrow> (resp, h\<lparr>hub_vhost := vhost\<rparr>)
      | (Inr ref, vhost) \<Rightarrow> hub_serveRawForRef w r (h\<lparr>hub_vhost := vhost\<rparr>) ref)"

definition hub_servePageForRef :: "world \<Rightarrow> request \<Rightarrow> hub \<Rightarrow> ref \<Rightarrow> response \<times> hub" where
  "hub_servePageForRef w r h ref =
     (let (resp, vhost) = servePageForRef w r (hub_store h) (hub_disk h) (hub_index h) (hub_vhost h)
            (hub_vhostMode h) (hub_baseDomain h) (hub_defaultViewerRef h) ref
      in (resp, h\<lparr>hub_vhost := vhost\<rparr>))"

definition handleGetPage :: "world \<Rightarrow> request \<Rightarrow> hub \<Rightarrow> response \<times> hub" where
  "handleGetPage w r h = hub_servePageForRef w r h (req_ref r)"

definition handleRootPage :: "world \<Rightarrow> request \<Rightarrow> hub \<Rightarrow> response \<times> hub" where
  "handleRootPage w r h =
     (case resolveRootTarget w r (hub_index h) (hub_vhost h) (hub_vhostMode h) ''/page'' of
        (Inl resp, vhost) \<Rightarrow> (resp, h\<lparr>hub_vhost := vhost\<rparr>)
      | (Inr ref, vhost) \<Rightarrow> hub_servePageForRef w r (h\<lparr>hub_vhost := vhost\<rparr>) ref)"

definition handleAuthRealms :: "world \<Rightarrow> request \<Rightarrow> RealmResolver option \<Rightarrow> response" where
  "handleAuthRealms w r resolver =
     (if req_auth r = [] then writeError w r 401 ''authentication required'' ''UNAUTHORIZED''
      else (let realms = (case resolver of Some R \<Rightarrow> rr_RealmsForPubkey R (req_auth r) | None \<Rightarrow> [])
            in write_body (encode_json (JObj [(''realms'', JArr (map JStr realms))])) initial_response))"

text \<open>\<open>http.Error\<close>.\<close>

definition http_error :: "string \<Rightarrow> int \<Rightarrow> response" where
  "http_error msg code = write_body (msg @ [CHR 0x0A]) (with_status code
     (set_header ''X-Content-Type-Options'' ''nosniff''
       (set_header ''Content-Type'' ''text/plain; charset=utf-8'' initial_response)))"

definition TLSAskHandler :: "world \<Rightarrow> request \<Rightarrow> VhostResolver option \<Rightarrow> response \<times> VhostResolver option" where
  "TLSAskHandler w r resolver =
     (let domain = req_query r ''domain'' in
      if domain = [] then (http_error ''missing domain param'' 400, resolver)
      else (case resolver of
          None \<Rightarrow> (http_error ''vhosting disabled'' 403, None)
        | Some v \<Rightarrow> (let (ref, v) = Resolve w v domain in
            if ref \<noteq> [] then (with_status 200 initial_response, Some v)
            else (http_error ''unknown domain'' 403, Some v))))"

end
