(* ===== verification/Main_Config.thy ===== *)
theory Main_Config
  imports Go_Duration Serving_Hub
begin

text \<open>
  \<open>config.go\<close>: the configuration as defaults, overridden by a TOML file, overridden by the
  environment. The TOML package is not part of the program: what it decodes from the file is the
  argument. The property says which layer decides each setting.
\<close>

section \<open>Settings\<close>

record Config =
  cf_Mode :: string
  cf_UpstreamURL :: string
  cf_UpstreamPush :: string
  cf_Addr :: string
  cf_StoreDir :: string
  cf_RateLimitPerMin :: int
  cf_RateLimitPerDay :: int
  cf_DefaultViewerRef :: ref
  cf_BackupEnabled :: bool
  cf_AuthTokenExpiry :: int
  cf_BaseDomain :: string
  cf_VhostMode :: string
  cf_TxtCacheTTL :: int

text \<open>The decoded file; a setting that is not in it is \<open>None\<close>.\<close>

record fileConfig =
  fc_Mode :: "string option"
  fc_UpstreamURL :: "string option"
  fc_UpstreamPush :: "string option"
  fc_Addr :: "string option"
  fc_StoreDir :: "string option"
  fc_RateLimitPerMin :: "int option"
  fc_RateLimitPerDay :: "int option"
  fc_DefaultViewerRef :: "ref option"
  fc_BackupEnabled :: "bool option"
  fc_AuthTokenExpiry :: "string option"
  fc_BaseDomain :: "string option"
  fc_VhostMode :: "string option"
  fc_TxtCacheTTL :: "string option"
  fc_Realms :: "(string, string list) gomap"

definition default_config :: Config where
  "default_config = \<lparr>cf_Mode = ''proxy'', cf_UpstreamURL = ''https://dataverse001.net'',
     cf_UpstreamPush = ''public'', cf_Addr = '':5678'', cf_StoreDir = ''./dataverse001'',
     cf_RateLimitPerMin = 120, cf_RateLimitPerDay = 20000,
     cf_DefaultViewerRef = ''AxyU5_5vWmP2tO_klN4UpbZzRsuJEvJTrdwdg_gODxZJ.b3f5a7c9-2d4e-4f60-9b8a-0c1d2e3f4a5b'',
     cf_BackupEnabled = True, cf_AuthTokenExpiry = 168 * hour, cf_BaseDomain = ''localhost'',
     cf_VhostMode = ''isolate'', cf_TxtCacheTTL = 5 * minute\<rparr>"

text \<open>\<open>if fc.X != nil\<close>, and the same for a duration, which is kept when it does not parse.\<close>

definition file_value :: "'a option \<Rightarrow> 'a \<Rightarrow> 'a" where
  "file_value v old = (case v of Some x \<Rightarrow> x | None \<Rightarrow> old)"

definition file_duration :: "string option \<Rightarrow> int \<Rightarrow> int" where
  "file_duration v old = (case v of None \<Rightarrow> old
     | Some s \<Rightarrow> (case ParseDuration s of Some d \<Rightarrow> d | None \<Rightarrow> old))"

definition applyFile :: "fileConfig \<Rightarrow> Config \<Rightarrow> Config" where
  "applyFile fc cfg = \<lparr>cf_Mode = file_value (fc_Mode fc) (cf_Mode cfg),
     cf_UpstreamURL = file_value (fc_UpstreamURL fc) (cf_UpstreamURL cfg),
     cf_UpstreamPush = file_value (fc_UpstreamPush fc) (cf_UpstreamPush cfg),
     cf_Addr = file_value (fc_Addr fc) (cf_Addr cfg),
     cf_StoreDir = file_value (fc_StoreDir fc) (cf_StoreDir cfg),
     cf_RateLimitPerMin = file_value (fc_RateLimitPerMin fc) (cf_RateLimitPerMin cfg),
     cf_RateLimitPerDay = file_value (fc_RateLimitPerDay fc) (cf_RateLimitPerDay cfg),
     cf_DefaultViewerRef = file_value (fc_DefaultViewerRef fc) (cf_DefaultViewerRef cfg),
     cf_BackupEnabled = file_value (fc_BackupEnabled fc) (cf_BackupEnabled cfg),
     cf_AuthTokenExpiry = file_duration (fc_AuthTokenExpiry fc) (cf_AuthTokenExpiry cfg),
     cf_BaseDomain = file_value (fc_BaseDomain fc) (cf_BaseDomain cfg),
     cf_VhostMode = file_value (fc_VhostMode fc) (cf_VhostMode cfg),
     cf_TxtCacheTTL = file_duration (fc_TxtCacheTTL fc) (cf_TxtCacheTTL cfg)\<rparr>"

text \<open>\<open>if v := os.Getenv(name); v != ""\<close>, with the parse of the setting's type.\<close>

definition env_value :: "(string \<Rightarrow> string) \<Rightarrow> string \<Rightarrow> (string \<Rightarrow> 'a option) \<Rightarrow> 'a \<Rightarrow> 'a" where
  "env_value env name parse old = (let v = env name in
     if v = [] then old else (case parse v of Some x \<Rightarrow> x | None \<Rightarrow> old))"

definition normalize_config :: "Config \<Rightarrow> Config" where
  "normalize_config cfg =
     cfg\<lparr>cf_VhostMode := (if cf_VhostMode cfg \<in> {''isolate'', ''redirect'', ''off''} then cf_VhostMode cfg else ''isolate''),
       cf_UpstreamPush := (if cf_UpstreamPush cfg = ''all'' then ''all'' else ''public'')\<rparr>"

definition applyEnv :: "(string \<Rightarrow> string) \<Rightarrow> Config \<Rightarrow> Config" where
  "applyEnv env cfg = normalize_config \<lparr>cf_Mode = env_value env ''DATAVERSE_MODE'' Some (cf_Mode cfg),
     cf_UpstreamURL = env_value env ''DATAVERSE_UPSTREAM_URL'' Some (cf_UpstreamURL cfg),
     cf_UpstreamPush = env_value env ''DATAVERSE_UPSTREAM_PUSH'' Some (cf_UpstreamPush cfg),
     cf_Addr = env_value env ''HUB_ADDR'' Some (cf_Addr cfg),
     cf_StoreDir = env_value env ''HUB_STORE_DIR'' Some (cf_StoreDir cfg),
     cf_RateLimitPerMin = env_value env ''HUB_RATE_LIMIT_PER_MIN'' atoi (cf_RateLimitPerMin cfg),
     cf_RateLimitPerDay = env_value env ''HUB_RATE_LIMIT_PER_DAY'' atoi (cf_RateLimitPerDay cfg),
     cf_DefaultViewerRef = env_value env ''HUB_DEFAULT_VIEWER_REF'' Some (cf_DefaultViewerRef cfg),
     cf_BackupEnabled = env_value env ''HUB_BACKUP_ENABLED'' (\<lambda>v. Some (v = ''true'')) (cf_BackupEnabled cfg),
     cf_AuthTokenExpiry = env_value env ''HUB_AUTH_TOKEN_EXPIRY'' ParseDuration (cf_AuthTokenExpiry cfg),
     cf_BaseDomain = env_value env ''HUB_BASE_DOMAIN'' Some (cf_BaseDomain cfg),
     cf_VhostMode = env_value env ''HUB_VHOST_MODE'' Some (cf_VhostMode cfg),
     cf_TxtCacheTTL = env_value env ''HUB_TXT_CACHE_TTL'' ParseDuration (cf_TxtCacheTTL cfg)\<rparr>"

text \<open>\<open>loadConfig\<close> once the file, when one is named, was decoded.\<close>

definition loadConfig :: "(string \<Rightarrow> string) \<Rightarrow> fileConfig option \<Rightarrow> Config" where
  "loadConfig env toml =
     applyEnv env (case toml of None \<Rightarrow> default_config | Some fc \<Rightarrow> applyFile fc default_config)"

text \<open>\<open>loadRealmsFromFile\<close>: no realms are \<open>None\<close>, Go's nil map.\<close>

definition loadRealmsFromFile :: "fileConfig option \<Rightarrow> (string, string list) gomap option" where
  "loadRealmsFromFile toml = (case toml of None \<Rightarrow> None
     | Some fc \<Rightarrow> if fc_Realms fc = [] then None else Some (fc_Realms fc))"

section \<open>Which layer decides\<close>

definition layered ::
  "(string \<Rightarrow> string) \<Rightarrow> string \<Rightarrow> (string \<Rightarrow> 'a option) \<Rightarrow> 'a option \<Rightarrow> 'a \<Rightarrow> 'a" where
  "layered env name parse in_file dflt =
     (if env name \<noteq> [] \<and> parse (env name) \<noteq> None then the (parse (env name))
      else case in_file of Some x \<Rightarrow> x | None \<Rightarrow> dflt)"

lemma env_layer: "env_value env name parse (file_value v dflt) = layered env name parse v dflt"
  by (simp add: env_value_def layered_def file_value_def Let_def split: option.split)

lemma env_layer_duration:
  "env_value env name parse (file_duration v dflt) = layered env name parse (Option.bind v ParseDuration) dflt"
  by (simp add: env_value_def layered_def file_duration_def Let_def split: option.split)

definition from_file :: "(fileConfig \<Rightarrow> 'a option) \<Rightarrow> fileConfig option \<Rightarrow> 'a option" where
  "from_file f toml = Option.bind toml f"

lemma from_file_simps [simp]: "from_file f None = None" "from_file f (Some fc) = f fc"
  by (simp_all add: from_file_def)

lemma env_default: "env_value env name parse dflt = layered env name parse None dflt"
  by (simp add: env_value_def layered_def Let_def split: option.split)

text \<open>
  Every setting is decided by the first layer that has a valid value: the environment, then the
  file, then the default; an empty environment variable counts as unset, and a value that does not
  parse is passed over. The virtual-host mode and the push mode that result are always among those
  the server knows, and both durations fit 64 bits.
\<close>
theorem config_layers:
  "(let c = loadConfig env toml in
     cf_Mode c = layered env ''DATAVERSE_MODE'' Some (from_file fc_Mode toml) ''proxy'' \<and>
     cf_UpstreamURL c = layered env ''DATAVERSE_UPSTREAM_URL'' Some (from_file fc_UpstreamURL toml)
       ''https://dataverse001.net'' \<and>
     cf_StoreDir c = layered env ''HUB_STORE_DIR'' Some (from_file fc_StoreDir toml) ''./dataverse001'' \<and>
     cf_RateLimitPerMin c = layered env ''HUB_RATE_LIMIT_PER_MIN'' atoi (from_file fc_RateLimitPerMin toml) 120 \<and>
     cf_RateLimitPerDay c = layered env ''HUB_RATE_LIMIT_PER_DAY'' atoi (from_file fc_RateLimitPerDay toml) 20000 \<and>
     cf_BackupEnabled c = layered env ''HUB_BACKUP_ENABLED'' (\<lambda>v. Some (v = ''true'')) (from_file fc_BackupEnabled toml) True \<and>
     cf_AuthTokenExpiry c = layered env ''HUB_AUTH_TOKEN_EXPIRY'' ParseDuration
       (Option.bind (from_file fc_AuthTokenExpiry toml) ParseDuration) (168 * hour) \<and>
     cf_TxtCacheTTL c = layered env ''HUB_TXT_CACHE_TTL'' ParseDuration
       (Option.bind (from_file fc_TxtCacheTTL toml) ParseDuration) (5 * minute) \<and>
     cf_VhostMode c \<in> {VhostModeIsolate, VhostModeRedirect, VhostModeOff} \<and>
     cf_UpstreamPush c = (if layered env ''DATAVERSE_UPSTREAM_PUSH'' Some (from_file fc_UpstreamPush toml) ''public'' = ''all''
       then ''all'' else ''public'') \<and>
     - (2 ^ 63) \<le> cf_AuthTokenExpiry c \<and> cf_AuthTokenExpiry c < 2 ^ 63 \<and>
     - (2 ^ 63) \<le> cf_TxtCacheTTL c \<and> cf_TxtCacheTTL c < 2 ^ 63)"
proof -
  have range: "- (2 ^ 63) \<le> layered env name ParseDuration (Option.bind v ParseDuration) d \<and>
      layered env name ParseDuration (Option.bind v ParseDuration) d < 2 ^ 63"
    if "- (2 ^ 63) \<le> d" "d < 2 ^ 63" for name v d
    using that ParseDuration_range
    by (auto simp: layered_def split: option.split bind_split)
  have d: "- (2 ^ 63) \<le> 168 * hour" "168 * hour < 2 ^ 63" "- (2 ^ 63) \<le> 5 * minute" "5 * minute < 2 ^ 63"
    by (simp_all add: hour_def minute_def second_def)
  note ranges = range [OF d(1,2), of "''HUB_AUTH_TOKEN_EXPIRY''"] range [OF d(3,4), of "''HUB_TXT_CACHE_TTL''"]
  note config = loadConfig_def applyEnv_def normalize_config_def applyFile_def default_config_def
    VhostModeIsolate_def VhostModeRedirect_def VhostModeOff_def Let_def
  show ?thesis
  proof (cases toml)
    case None
    show ?thesis
      using ranges [of None] by (simp add: None config env_default del: power_numeral)
  next
    case (Some fc)
    show ?thesis
      using ranges(1) [of "fc_AuthTokenExpiry fc"] ranges(2) [of "fc_TxtCacheTTL fc"]
      by (simp add: Some config env_layer env_layer_duration del: power_numeral)
  qed
qed

end
