(* ===== verification/Serving_Router.thy ===== *)
theory Serving_Router
  imports Serving_Hub
begin

text \<open>
  \<open>Hub.Router\<close> of \<open>serving/hub.go\<close>: the routing table, the fallbacks and the chain of middleware around
  the handlers. Which pattern a method and a path match is decided by the chi package, a parameter.
  A run of the server is a sequence of handled requests; the lemmas show which parts of the state
  a handler leaves alone.
\<close>

section \<open>The routing table\<close>

datatype hub_route =
    Auth_Challenge | Auth_Token | Auth_Logout | Auth_Realms | Tls_Ask
  | Root | Root_JSON | Root_Raw | Root_Page | Search
  | Get_Object | Put_Object | Get_Inbound | Get_JSON | Get_Raw | Get_Page

definition hub_routes :: "((string \<times> string) \<times> hub_route) list" where
  "hub_routes =
     [((''GET'', ''/auth/challenge''), Auth_Challenge), ((''POST'', ''/auth/token''), Auth_Token),
      ((''POST'', ''/auth/logout''), Auth_Logout), ((''GET'', ''/auth/realms''), Auth_Realms),
      ((''GET'', ''/ask''), Tls_Ask), ((''GET'', ''/''), Root), ((''GET'', ''/json''), Root_JSON),
      ((''GET'', ''/raw''), Root_Raw), ((''GET'', ''/page''), Root_Page), ((''GET'', ''/search''), Search),
      ((''GET'', ''/{ref}''), Get_Object), ((''PUT'', ''/{ref}''), Put_Object),
      ((''GET'', ''/{ref}/inbound''), Get_Inbound), ((''GET'', ''/{ref}/json''), Get_JSON),
      ((''GET'', ''/{ref}/raw''), Get_Raw), ((''GET'', ''/{ref}/page''), Get_Page)]"

text \<open>What chi answers for a method and a path: a pattern of the table with the value of \<open>ref\<close>.\<close>

datatype chi_match = Matched string ref | No_Path | No_Method

type_synonym chi = "string \<Rightarrow> string \<Rightarrow> chi_match"

section \<open>Fallbacks\<close>

definition problemNotFound :: "world \<Rightarrow> request \<Rightarrow> response" where
  "problemNotFound w r = writeError w r 404 ''no route matches this path'' ''NOT_FOUND''"

definition candidate_methods :: "string list" where
  "candidate_methods = [''GET'', ''HEAD'', ''POST'', ''PUT'', ''PATCH'', ''DELETE'', ''OPTIONS'']"

fun join_strings :: "string \<Rightarrow> string list \<Rightarrow> string" where
  "join_strings sep [] = []"
| "join_strings sep [s] = s"
| "join_strings sep (s # ss) = s @ sep @ join_strings sep ss"

definition allowedMethods :: "chi \<Rightarrow> string \<Rightarrow> string" where
  "allowedMethods chi path = join_strings '', ''
     (filter (\<lambda>m. case chi m path of Matched p ref \<Rightarrow> True | _ \<Rightarrow> False) candidate_methods)"

definition methodNotAllowedProblem :: "world \<Rightarrow> chi \<Rightarrow> request \<Rightarrow> response" where
  "methodNotAllowedProblem w chi r =
     (let allow = allowedMethods chi (req_path r);
          resp = (if allow \<noteq> [] then set_header ''Allow'' allow initial_response else initial_response)
      in WriteProblem w r 405 ''method not allowed for this endpoint'' ''METHOD_NOT_ALLOWED'' resp)"

section \<open>Handlers and middleware\<close>

text \<open>The handler of a route, over the hub and the token store.\<close>

definition hub_handler ::
  "world \<Rightarrow> hub_route \<Rightarrow> request \<Rightarrow> hub \<times> AuthStore \<Rightarrow> response \<times> hub \<times> AuthStore" where
  "hub_handler w route r = (\<lambda>(h, a). case route of
      Auth_Challenge \<Rightarrow> (case HandleChallenge w r a of (resp, a) \<Rightarrow> (resp, h, a))
    | Auth_Token \<Rightarrow> (case HandleToken w r a of (resp, a) \<Rightarrow> (resp, h, a))
    | Auth_Logout \<Rightarrow> (case HandleLogout r a of (resp, a) \<Rightarrow> (resp, h, a))
    | Auth_Realms \<Rightarrow> (handleAuthRealms w r (Resolver (hub_index h)), h, a)
    | Tls_Ask \<Rightarrow> (case TLSAskHandler w r (hub_vhost h) of (resp, v) \<Rightarrow> (resp, h\<lparr>hub_vhost := v\<rparr>, a))
    | Root \<Rightarrow> (case handleRoot w r h of (resp, h) \<Rightarrow> (resp, h, a))
    | Root_JSON \<Rightarrow> (case handleRootJSON w r h of (resp, h) \<Rightarrow> (resp, h, a))
    | Root_Raw \<Rightarrow> (case handleRootRaw w r h of (resp, h) \<Rightarrow> (resp, h, a))
    | Root_Page \<Rightarrow> (case handleRootPage w r h of (resp, h) \<Rightarrow> (resp, h, a))
    | Search \<Rightarrow> (handleListObjects w r h, h, a)
    | Get_Object \<Rightarrow> (case handleGetObject w r h of (resp, h) \<Rightarrow> (resp, h, a))
    | Put_Object \<Rightarrow> (case handlePutObject w r h of (resp, h) \<Rightarrow> (resp, h, a))
    | Get_Inbound \<Rightarrow> (handleGetInbound w r h, h, a)
    | Get_JSON \<Rightarrow> (handleGetJSON w r h, h, a)
    | Get_Raw \<Rightarrow> (case handleGetRaw w r h of (resp, h) \<Rightarrow> (resp, h, a))
    | Get_Page \<Rightarrow> (case handleGetPage w r h of (resp, h) \<Rightarrow> (resp, h, a)))"

definition hub_mux ::
  "world \<Rightarrow> chi \<Rightarrow> string \<Rightarrow> request \<Rightarrow> hub \<times> AuthStore \<Rightarrow> response \<times> hub \<times> AuthStore" where
  "hub_mux w chi verb r s = (case chi verb (req_path r) of
      No_Path \<Rightarrow> (problemNotFound w r, s)
    | No_Method \<Rightarrow> (methodNotAllowedProblem w chi r, s)
    | Matched pattern ref \<Rightarrow> (case map_of hub_routes (verb, pattern) of
          None \<Rightarrow> (problemNotFound w r, s)
        | Some route \<Rightarrow> hub_handler w route (r\<lparr>req_ref := ref\<rparr>) s))"

text \<open>
  The chain of \<open>Router\<close>: the limiter, then the authentication, then the router; \<open>later\<close> is the clock when
  the handler has returned. (\<open>RealIP\<close> has put the client's address into the request.)
\<close>

definition hub_Router ::
  "world \<Rightarrow> instant \<Rightarrow> chi \<Rightarrow> string \<Rightarrow> request \<Rightarrow> RateLimiter \<Rightarrow> hub \<times> AuthStore
     \<Rightarrow> response \<times> RateLimiter \<times> hub \<times> AuthStore" where
  "hub_Router w later chi verb r rl s =
     rl_Middleware w later r (\<lambda>s. hub_mux w chi verb (auth_Middleware w (snd s) r) s) rl s"

section \<open>Runs\<close>

type_synonym hub_event = "world \<times> hub_route \<times> request"

fun hub_run :: "hub_event list \<Rightarrow> hub \<times> AuthStore \<Rightarrow> hub \<times> AuthStore" where
  "hub_run [] s = s"
| "hub_run ((w, route, r) # es) s = hub_run es (snd (hub_handler w route r s))"

text \<open>Whatever passes the router is a run of at most one handler.\<close>

lemma hub_Router_run:
  assumes "hub_Router w later chi verb r rl s = (resp, rl', s')"
  obtains es where "s' = hub_run es s" and "length es \<le> 1"
proof -
  have "s' = s \<or> s' = snd (hub_mux w chi verb (auth_Middleware w (snd s) r) s)"
    using assms by (auto simp: hub_Router_def rl_Middleware_def Let_def case_prod_beta split: if_splits)
  moreover have "snd (hub_mux w chi verb r' s) = s \<or>
      (\<exists>route r''. snd (hub_mux w chi verb r' s) = snd (hub_handler w route r'' s))" for r'
    by (auto simp: hub_mux_def split: chi_match.splits option.splits)
  ultimately consider "s' = s" | route r'' where "s' = snd (hub_handler w route r'' s)" by blast
  then show ?thesis
  proof cases
    case 1
    with that [of "[]"] show ?thesis by simp
  next
    case 2
    with that [of "[(w, route, r'')]"] show ?thesis by simp
  qed
qed

text \<open>Only \<open>PUT\<close> touches the disk and the index.\<close>

lemma read_handlers_keep:
  "hub_store (snd (handleRoot w r h)) = hub_store h" "hub_disk (snd (handleRoot w r h)) = hub_disk h"
  "hub_index (snd (handleRoot w r h)) = hub_index h"
  "hub_store (snd (handleGetObject w r h)) = hub_store h" "hub_disk (snd (handleGetObject w r h)) = hub_disk h"
  "hub_index (snd (handleGetObject w r h)) = hub_index h"
  by (simp_all add: handleRoot_def handleGetObject_def read_and_serve_def serveObject_def deny_object_def
      Let_def case_prod_beta split: option.split sum.split)

lemma projection_handlers_keep:
  "hub_store (snd (hub_serveRawForRef w r h ref)) = hub_store h"
  "hub_disk (snd (hub_serveRawForRef w r h ref)) = hub_disk h"
  "hub_index (snd (hub_serveRawForRef w r h ref)) = hub_index h"
  "hub_store (snd (hub_servePageForRef w r h ref)) = hub_store h"
  "hub_disk (snd (hub_servePageForRef w r h ref)) = hub_disk h"
  "hub_index (snd (hub_servePageForRef w r h ref)) = hub_index h"
  by (simp_all add: hub_serveRawForRef_def hub_servePageForRef_def case_prod_beta)

lemma hub_handler_keeps:
  assumes "route \<noteq> Put_Object"
  shows "hub_store (fst (snd (hub_handler w route r (h, a)))) = hub_store h"
    and "hub_disk (fst (snd (hub_handler w route r (h, a)))) = hub_disk h"
    and "hub_index (fst (snd (hub_handler w route r (h, a)))) = hub_index h"
  using assms
  by (cases route; simp add: hub_handler_def case_prod_beta read_handlers_keep projection_handlers_keep
      handleGetRaw_def handleGetPage_def handleRootJSON_def handleRootRaw_def handleRootPage_def
      split: sum.split prod.split)+

end
