(* ===== verification/Upstream_Client.thy ===== *)
theory Upstream_Client
  imports Http_Types
begin

text \<open>
  \<open>upstream/client.go\<close>: the client of the root hub and its availability flag. The hub at the other end
  is not part of the program: it is a function from the requests it has seen and a new one to its
  answer, so it may answer anything and change its mind. The client records what it has sent. The
  lemmas show that a client marked unavailable sends nothing until a health check succeeds.
\<close>

section \<open>The other end\<close>

record up_request =
  up_method :: string
  up_url :: string
  up_headers :: "(string \<times> string) list"
  up_body :: "bytes option"

record up_response =
  up_status :: int
  up_contentType :: string
  up_data :: "bytes option"
  \<comment> \<open>\<open>None\<close> when reading the body fails\<close>

text \<open>\<open>None\<close> is a transport error.\<close>

type_synonym network = "up_request list \<Rightarrow> up_request \<Rightarrow> up_response option"

section \<open>The client\<close>

record Client =
  cl_baseURL :: string
  cl_available :: bool
  cl_sent :: "up_request list"
  \<comment> \<open>the requests that reached the transport, oldest first\<close>

definition NewClient :: "string \<Rightarrow> Client" where
  "NewClient baseURL = \<lparr>cl_baseURL = baseURL, cl_available = True, cl_sent = []\<rparr>"

definition Available :: "Client \<Rightarrow> bool" where
  "Available u = cl_available u"

definition SetAvailable :: "bool \<Rightarrow> Client \<Rightarrow> Client" where
  "SetAvailable v u = u\<lparr>cl_available := v\<rparr>"

definition BaseURL :: "Client \<Rightarrow> string" where
  "BaseURL u = cl_baseURL u"

definition IsDown :: "int \<Rightarrow> bool" where
  "IsDown statusCode \<longleftrightarrow> statusCode = 502 \<or> statusCode = 503 \<or> statusCode = 504 \<or> statusCode = 429"

text \<open>\<open>http.Client.Do\<close>.\<close>

definition transport :: "network \<Rightarrow> up_request \<Rightarrow> Client \<Rightarrow> up_response option \<times> Client" where
  "transport net req u = (net (cl_sent u) req, u\<lparr>cl_sent := cl_sent u @ [req]\<rparr>)"

text \<open>\<open>Client.Do\<close>, with the body it is given; \<open>None\<close> is an error.\<close>

definition Client_Do ::
  "network \<Rightarrow> up_request \<Rightarrow> bytes option \<Rightarrow> Client \<Rightarrow> up_response option \<times> Client" where
  "Client_Do net req bodyBytes u =
     (if \<not> cl_available u then (None, u)
      else let req = (if bodyBytes \<noteq> None then req\<lparr>up_body := bodyBytes\<rparr> else req) in
        (case transport net req u of
           (None, u) \<Rightarrow> (None, u\<lparr>cl_available := False\<rparr>)
         | (Some resp, u) \<Rightarrow> (Some resp, u\<lparr>cl_available := \<not> IsDown (up_status resp)\<rparr>)))"

text \<open>Whether the check succeeded, and the client after it.\<close>

definition HealthCheck :: "world \<Rightarrow> network \<Rightarrow> Client \<Rightarrow> bool \<times> Client" where
  "HealthCheck w net u =
     (let url = cl_baseURL u @ ''/'' in
      if w_bad_url w url then (False, u)
      else (case transport net \<lparr>up_method = ''HEAD'', up_url = url, up_headers = [], up_body = None\<rparr> u of
          (None, u) \<Rightarrow> (False, u\<lparr>cl_available := False\<rparr>)
        | (Some resp, u) \<Rightarrow>
            if IsDown (up_status resp) then (False, u\<lparr>cl_available := False\<rparr>)
            else (True, u\<lparr>cl_available := True\<rparr>)))"

text \<open>One tick of the background health checker.\<close>

definition health_tick :: "world \<Rightarrow> network \<Rightarrow> Client \<Rightarrow> Client" where
  "health_tick w net u = snd (HealthCheck w net u)"

definition get_json_request :: "string \<Rightarrow> up_request" where
  "get_json_request url = \<lparr>up_method = ''GET'', up_url = url,
     up_headers = [(''Accept'', ''application/json'')], up_body = None\<rparr>"

definition put_json_request :: "string \<Rightarrow> (string \<times> string) list \<Rightarrow> up_request" where
  "put_json_request url extra = \<lparr>up_method = ''PUT'', up_url = url,
     up_headers = (''Content-Type'', ''application/json'') # extra, up_body = None\<rparr>"

section \<open>What is sent\<close>

lemma client_simps [simp]:
  "cl_baseURL (snd (Client_Do net req b u)) = cl_baseURL u"
  "cl_baseURL (snd (HealthCheck w net u)) = cl_baseURL u"
  by (auto simp: Client_Do_def HealthCheck_def transport_def Let_def split: option.splits)

lemma Client_Do_sent:
  "cl_sent (snd (Client_Do net req b u)) = cl_sent u \<or>
   cl_available u \<and> cl_sent (snd (Client_Do net req b u)) =
     cl_sent u @ [if b \<noteq> None then req\<lparr>up_body := b\<rparr> else req]"
  by (auto simp: Client_Do_def transport_def Let_def split: option.splits)

lemma HealthCheck_sent:
  "\<exists>hs. cl_sent (snd (HealthCheck w net u)) = cl_sent u @ hs \<and> list_all (\<lambda>q. up_method q = ''HEAD'') hs"
  by (auto simp: HealthCheck_def transport_def Let_def split: option.splits)

lemma HealthCheck_available: "fst (HealthCheck w net u) \<Longrightarrow> cl_available (snd (HealthCheck w net u))"
  by (auto simp: HealthCheck_def transport_def Let_def split: option.splits if_splits)

lemma Client_Do_unavailable: "\<not> cl_available u \<Longrightarrow> Client_Do net req b u = (None, u)"
  by (simp add: Client_Do_def)

lemma Client_Do_answer:
  "Client_Do net req b u = (Some resp, u') \<Longrightarrow> cl_available u \<and>
     net (cl_sent u) (if b \<noteq> None then req\<lparr>up_body := b\<rparr> else req) = Some resp \<and>
     cl_available u' = (\<not> IsDown (up_status resp)) \<and>
     cl_sent u' = cl_sent u @ [if b \<noteq> None then req\<lparr>up_body := b\<rparr> else req]"
  by (auto simp: Client_Do_def transport_def Let_def split: option.splits if_splits)

end
