(* ===== verification/Upstream_Sync.thy ===== *)
theory Upstream_Sync
  imports Upstream_Client Object_Verify Store_Files
begin

text \<open>
  \<open>upstream/sync.go\<close>: the folder of edits that still have to be pushed to the root hub. A push reads an
  edit, sends it, and only then, under the queue's lock, removes or archives what it sent; new edits
  may be queued in between. The lemmas show that no edit that was queued is ever lost.
\<close>

section \<open>The queue\<close>

definition pending_path :: "path \<Rightarrow> ref \<Rightarrow> path" where
  "pending_path dir ref = join_path dir (ref @ ''.json'')"

definition Sync_Add :: "world \<Rightarrow> path \<Rightarrow> ref \<Rightarrow> bytes \<Rightarrow> disk \<Rightarrow> bool \<times> disk" where
  "Sync_Add w dir ref data d =
     (let target = pending_path dir ref in
      if w_write_fails w target then (False, d) else (True, mput target (data, w_now w) d))"

definition Sync_Remove :: "world \<Rightarrow> path \<Rightarrow> ref \<Rightarrow> disk \<Rightarrow> bool \<times> disk" where
  "Sync_Remove w dir ref d =
     (let p = pending_path dir ref in
      if mget d p = None \<or> w_remove_fails w p then (False, d) else (True, mdel p d))"

definition acknowledge :: "world \<Rightarrow> path \<Rightarrow> ref \<Rightarrow> bytes \<Rightarrow> disk \<Rightarrow> bool \<times> disk" where
  "acknowledge w dir ref sent d =
     (let p = pending_path dir ref in
      case mget d p of
        None \<Rightarrow> (if w_read_fails w p then False else True, d)
      | Some (current, t) \<Rightarrow>
          if w_read_fails w p then (False, d)
          else if current \<noteq> sent then (True, d)
          else if w_remove_fails w p then (False, d)
          else (True, mdel p d))"

text \<open>\<open>preserve\<close>: the archive is a sibling of the queue's directory.\<close>

definition Sync_preserve :: "world \<Rightarrow> path \<Rightarrow> ref \<Rightarrow> bytes \<Rightarrow> string \<Rightarrow> disk \<Rightarrow> bool \<times> disk" where
  "Sync_preserve w dir ref data folder d =
     (case PreserveConflict w (join_path (butlast dir) folder) data d of
        (Inl e, d) \<Rightarrow> (False, d)
      | (Inr p, d) \<Rightarrow> acknowledge w dir ref data d)"

text \<open>\<open>List\<close>; \<open>None\<close> is an error.\<close>

definition Sync_List :: "world \<Rightarrow> path \<Rightarrow> disk \<Rightarrow> ref list option" where
  "Sync_List w dir d =
     (if w_readdir_fails w dir then None
      else Some (map (\<lambda>name. trim_suffix name ''.json'')
        (filter (\<lambda>name. has_suffix name ''.json'' \<and> \<not> has_prefix name ''.'') (file_names dir d))))"

section \<open>Pushing one edit\<close>

text \<open>\<open>fetchObject\<close>: \<open>None\<close> is any of its errors.\<close>

definition fetchObject :: "world \<Rightarrow> network \<Rightarrow> ref \<Rightarrow> Client \<Rightarrow> bytes option \<times> Client" where
  "fetchObject w net ref u =
     (let url = cl_baseURL u @ ''/'' @ ref in
      if w_bad_url w url then (None, u)
      else (case transport net (get_json_request url) u of
          (None, u) \<Rightarrow> (None, u)
        | (Some resp, u) \<Rightarrow>
            if up_status resp \<noteq> 200 then (None, u)
            else (case up_data resp of None \<Rightarrow> (None, u)
              | Some data \<Rightarrow>
                  if VerifyEnvelope w data \<noteq> None then (None, u)
                  else (case ParseEnvelope data of Inl e \<Rightarrow> (None, u)
                    | Inr (env, it) \<Rightarrow> if item_Ref it \<noteq> ref then (None, u) else (Some data, u)))))"

text \<open>
  The first part of \<open>pushOne\<close>, up to the point where it touches the queue: what was sent and what is to
  become of it. \<open>Skip\<close> leaves the edit queued and goes on, \<open>Stall\<close> leaves it and ends the pass.
\<close>

datatype verdict = Skip | Stall | Accepted bytes | Refused bytes string

text \<open>What the answer to the push of \<open>data\<close> means.\<close>

definition push_verdict :: "world \<Rightarrow> network \<Rightarrow> ref \<Rightarrow> bytes \<Rightarrow> int \<Rightarrow> Client \<Rightarrow> verdict \<times> Client" where
  "push_verdict w net ref data status u =
     (if status = 200 \<or> status = 201 then (Accepted data, u)
      else if status = 409 then
        (case fetchObject w net ref u of
           (None, u) \<Rightarrow> (Stall, u)
         | (Some remote, u) \<Rightarrow> ((case SameItem data remote of
               None \<Rightarrow> Stall
             | Some same \<Rightarrow> if same then Accepted data else Refused data ''sync_conflicts''), u))
      else if 400 \<le> status \<and> status < 500 then (Refused data ''sync_rejected'', u)
      else (Stall, u))"

definition push_send :: "world \<Rightarrow> network \<Rightarrow> path \<Rightarrow> ref \<Rightarrow> disk \<Rightarrow> Client \<Rightarrow> verdict \<times> Client" where
  "push_send w net dir ref d u =
     (let p = pending_path dir ref; url = cl_baseURL u @ ''/'' @ ref in
      case mget d p of None \<Rightarrow> (Skip, u)
      | Some (data, t) \<Rightarrow>
          if w_read_fails w p \<or> w_bad_url w url then (Skip, u)
          else (case transport net ((put_json_request url [])\<lparr>up_body := Some data\<rparr>) u of
              (None, u) \<Rightarrow> (Stall, SetAvailable False u)
            | (Some resp, u) \<Rightarrow> push_verdict w net ref data (up_status resp) u))"

text \<open>The rest of \<open>pushOne\<close>; the flag is whether the pass goes on.\<close>

definition push_settle :: "world \<Rightarrow> path \<Rightarrow> ref \<Rightarrow> verdict \<Rightarrow> disk \<Rightarrow> bool \<times> disk" where
  "push_settle w dir ref v d = (case v of
      Skip \<Rightarrow> (True, d)
    | Stall \<Rightarrow> (False, d)
    | Accepted data \<Rightarrow> acknowledge w dir ref data d
    | Refused data folder \<Rightarrow> Sync_preserve w dir ref data folder d)"

definition pushOne :: "world \<Rightarrow> network \<Rightarrow> path \<Rightarrow> ref \<Rightarrow> disk \<times> Client \<Rightarrow> bool \<times> disk \<times> Client" where
  "pushOne w net dir ref = (\<lambda>(d, u).
     (let (v, u) = push_send w net dir ref d u; (continue, d) = push_settle w dir ref v d in (continue, d, u)))"

text \<open>
  One pass of \<open>drain\<close> over the queue, and one round of its loop. The first component of a result is how
  many seconds \<open>sleepOrStop\<close> was called for.
\<close>

fun push_all :: "world \<Rightarrow> network \<Rightarrow> path \<Rightarrow> ref list \<Rightarrow> disk \<times> Client \<Rightarrow> int \<times> disk \<times> Client" where
  "push_all w net dir [] s = (0, s)"
| "push_all w net dir (ref # refs) s = (case pushOne w net dir ref s of
     (continue, s) \<Rightarrow>
       if \<not> continue then (0, s)
       else (case push_all w net dir refs s of (slept, s) \<Rightarrow> (1 + slept, s)))"

definition drain_round :: "world \<Rightarrow> network \<Rightarrow> path \<Rightarrow> disk \<times> Client \<Rightarrow> int \<times> disk \<times> Client" where
  "drain_round w net dir = (\<lambda>(d, u).
     (let u = (if Available u then u else snd (HealthCheck w net u)) in
      if \<not> Available u then (10, d, u)
      else (case Sync_List w dir d of
          None \<Rightarrow> (5, d, u)
        | Some refs \<Rightarrow> if refs = [] then (5, d, u) else push_all w net dir refs (d, u))))"

fun drain :: "world \<Rightarrow> network \<Rightarrow> path \<Rightarrow> nat \<Rightarrow> disk \<times> Client \<Rightarrow> int \<times> disk \<times> Client" where
  "drain w net dir 0 s = (0, s)"
| "drain w net dir (Suc n) s = (case drain_round w net dir s of
     (slept, s) \<Rightarrow> (case drain w net dir n s of (rest, s) \<Rightarrow> (slept + rest, s)))"

section \<open>Runs of the queue\<close>

text \<open>
  The queue with the push that is in flight. There is one pushing goroutine; handlers queue edits at
  any time, also between the sending of an edit and its settling.
\<close>

record sync_state =
  sy_disk :: disk
  sy_client :: Client
  sy_flight :: "(ref \<times> verdict) option"

datatype sync_event = Queue world ref bytes | Send world ref | Settle world | Check world

definition sync_dir :: "path \<Rightarrow> path" where
  "sync_dir base = base @ [''sync_pending'']"

fun sync_step :: "network \<Rightarrow> path \<Rightarrow> sync_event \<Rightarrow> sync_state \<Rightarrow> sync_state" where
  "sync_step net base (Queue w ref data) s =
     s\<lparr>sy_disk := snd (Sync_Add w (sync_dir base) ref data (sy_disk s))\<rparr>"
| "sync_step net base (Send w ref) s = (case sy_flight s of
     None \<Rightarrow> (case push_send w net (sync_dir base) ref (sy_disk s) (sy_client s) of
         (v, u) \<Rightarrow> s\<lparr>sy_client := u, sy_flight := Some (ref, v)\<rparr>)
   | Some f \<Rightarrow> s)"
| "sync_step net base (Settle w) s = (case sy_flight s of
     None \<Rightarrow> s
   | Some (ref, v) \<Rightarrow> s\<lparr>sy_disk := snd (push_settle w (sync_dir base) ref v (sy_disk s)), sy_flight := None\<rparr>)"
| "sync_step net base (Check w) s = s\<lparr>sy_client := snd (HealthCheck w net (sy_client s))\<rparr>"

definition sync_run :: "network \<Rightarrow> path \<Rightarrow> sync_event list \<Rightarrow> sync_state \<Rightarrow> sync_state" where
  "sync_run net base es s = fold (sync_step net base) es s"

text \<open>A push without interruption is a sending and its settling.\<close>

lemma pushOne_run:
  assumes "sy_flight s = None" and "pushOne w net (sync_dir base) ref (sy_disk s, sy_client s) = (b, d, u)"
  shows "sync_run net base [Send w ref, Settle w] s = s\<lparr>sy_disk := d, sy_client := u, sy_flight := None\<rparr>"
  using assms by (simp add: sync_run_def pushOne_def Let_def split: prod.splits)

section \<open>The fates of an edit\<close>

definition held :: "disk \<Rightarrow> path \<Rightarrow> bytes \<Rightarrow> bool" where
  "held d p data \<longleftrightarrow> map_option fst (mget d p) = Some data"

text \<open>The root hub took the edit, or answered with an object of the same item.\<close>

definition upstream_has :: "network \<Rightarrow> Client \<Rightarrow> ref \<Rightarrow> bytes \<Rightarrow> bool" where
  "upstream_has net u ref data \<longleftrightarrow> (\<exists>before req resp after.
     cl_sent u = before @ req # after \<and> net before req = Some resp \<and>
     (req = (put_json_request (cl_baseURL u @ ''/'' @ ref) [])\<lparr>up_body := Some data\<rparr> \<and>
        (up_status resp = 200 \<or> up_status resp = 201) \<or>
      req = get_json_request (cl_baseURL u @ ''/'' @ ref) \<and> up_status resp = 200 \<and>
        (\<exists>remote. up_data resp = Some remote \<and> SameItem data remote = Some True)))"

definition archived :: "path \<Rightarrow> disk \<Rightarrow> bytes \<Rightarrow> bool" where
  "archived base d data \<longleftrightarrow>
     held d (archive_path (join_path base ''sync_conflicts'') data) data \<or>
     held d (archive_path (join_path base ''sync_rejected'') data) data"

definition safe_edit :: "network \<Rightarrow> path \<Rightarrow> sync_state \<Rightarrow> ref \<Rightarrow> bytes \<Rightarrow> bool" where
  "safe_edit net base s ref data \<longleftrightarrow> held (sy_disk s) (pending_path (sync_dir base) ref) data \<or>
     archived base (sy_disk s) data \<or> upstream_has net (sy_client s) ref data"

text \<open>What is in flight was judged by an answer.\<close>

definition flight_ok :: "network \<Rightarrow> sync_state \<Rightarrow> bool" where
  "flight_ok net s \<longleftrightarrow> (case sy_flight s of None \<Rightarrow> True
     | Some (ref, Accepted data) \<Rightarrow> upstream_has net (sy_client s) ref data
     | Some (ref, Refused data folder) \<Rightarrow> folder = ''sync_conflicts'' \<or> folder = ''sync_rejected''
     | _ \<Rightarrow> True)"

definition event_valid :: "sync_event \<Rightarrow> bool" where
  "event_valid e \<longleftrightarrow> (case e of Queue w ref data \<Rightarrow> IsValidRef ref | Send w ref \<Rightarrow> IsValidRef ref | _ \<Rightarrow> True)"

lemma pending_path_eq: "IsValidRef ref \<Longrightarrow> pending_path dir ref = dir @ [ref @ ''.json'']"
  using valid_ref_no_slash [of ref] valid_ref_length [of ref]
  by (auto simp: pending_path_def intro!: join_plain plain_nameI)

lemma pending_path_inject:
  "IsValidRef a \<Longrightarrow> IsValidRef b \<Longrightarrow> pending_path dir a = pending_path dir b \<longleftrightarrow> a = b"
  by (simp add: pending_path_eq)

lemma archive_not_pending:
  assumes "IsValidRef ref" and "folder = ''sync_conflicts'' \<or> folder = ''sync_rejected''"
  shows "archive_path (join_path base folder) data \<noteq> pending_path (sync_dir base) ref"
proof -
  have "plain_name folder" using assms(2) by (auto simp: plain_name_def)
  then show ?thesis using assms by (auto simp: archive_path_eq pending_path_eq sync_dir_def)
qed

lemma upstream_has_mono:
  "upstream_has net u ref data \<Longrightarrow> cl_baseURL u' = cl_baseURL u \<Longrightarrow> cl_sent u' = cl_sent u @ rest \<Longrightarrow>
     upstream_has net u' ref data"
  unfolding upstream_has_def by (elim exE conjE) (rule exI, rule exI, rule exI, rule exI [of _ "after @ rest" for after], auto)

lemma fetchObject_client:
  "cl_baseURL (snd (fetchObject w net ref u)) = cl_baseURL u \<and>
     (\<exists>rest. cl_sent (snd (fetchObject w net ref u)) = cl_sent u @ rest)"
  by (auto simp: fetchObject_def transport_def Let_def split: option.splits sum.splits prod.splits)

lemma fetchObject_Some:
  assumes "fetchObject w net ref u = (Some remote, u')"
  shows "\<exists>resp. net (cl_sent u) (get_json_request (cl_baseURL u @ ''/'' @ ref)) = Some resp \<and>
     up_status resp = 200 \<and> up_data resp = Some remote \<and> cl_baseURL u' = cl_baseURL u \<and>
     cl_sent u' = cl_sent u @ [get_json_request (cl_baseURL u @ ''/'' @ ref)]"
  using assms
  by (auto simp: fetchObject_def transport_def Let_def split: option.splits sum.splits prod.splits if_splits)

lemma push_verdict_client:
  "cl_baseURL (snd (push_verdict w net ref data n u)) = cl_baseURL u \<and>
     (\<exists>rest. cl_sent (snd (push_verdict w net ref data n u)) = cl_sent u @ rest)"
proof (cases "fetchObject w net ref u")
  case (Pair r u')
  with fetchObject_client [of w net ref u] show ?thesis
    by (auto simp: push_verdict_def split: option.split)
qed

lemma push_send_client:
  "cl_baseURL (snd (push_send w net dir ref d u)) = cl_baseURL u \<and>
     (\<exists>rest. cl_sent (snd (push_send w net dir ref d u)) = cl_sent u @ rest)"
proof -
  have "cl_baseURL (snd (push_verdict w net ref data n (u\<lparr>cl_sent := cl_sent u @ [q]\<rparr>))) = cl_baseURL u \<and>
      (\<exists>rest. cl_sent (snd (push_verdict w net ref data n (u\<lparr>cl_sent := cl_sent u @ [q]\<rparr>))) = cl_sent u @ rest)" for data n q
    using push_verdict_client [of w net ref data n "u\<lparr>cl_sent := cl_sent u @ [q]\<rparr>"] by auto
  then show ?thesis
    by (simp add: push_send_def transport_def SetAvailable_def Let_def split: option.split prod.split)
qed

text \<open>A verdict of acceptance rests on an answer of the root hub.\<close>

lemma push_send_verdict:
  assumes "push_send w net dir ref d u = (v, u')"
  shows "flight_ok net (s\<lparr>sy_client := u', sy_flight := Some (ref, v)\<rparr>)"
proof (cases "mget d (pending_path dir ref)")
  case None
  with assms show ?thesis by (auto simp: push_send_def flight_ok_def Let_def)
next
  case (Some f)
  obtain data t where f: "f = (data, t)" by (cases f)
  let ?req = "(put_json_request (cl_baseURL u @ ''/'' @ ref) [])\<lparr>up_body := Some data\<rparr>"
  let ?u = "u\<lparr>cl_sent := cl_sent u @ [?req]\<rparr>"
  show ?thesis
  proof (cases "net (cl_sent u) ?req")
    case None
    with assms Some f show ?thesis
      by (auto simp: push_send_def transport_def flight_ok_def Let_def split: if_splits)
  next
    case (Some resp)
    consider "v = Skip" | "push_verdict w net ref data (up_status resp) ?u = (v, u')"
      using assms Some \<open>mget d (pending_path dir ref) = Some f\<close> f
      by (auto simp: push_send_def transport_def Let_def split: if_splits)
    then show ?thesis
    proof cases
      case 1
      then show ?thesis by (simp add: flight_ok_def)
    next
      case 2
      consider "up_status resp = 200 \<or> up_status resp = 201" "v = Accepted data" "u' = ?u"
        | remote where "fetchObject w net ref ?u = (Some remote, u')" "SameItem data remote = Some True" "v = Accepted data"
        | "case v of Accepted x \<Rightarrow> False | Refused x folder \<Rightarrow> folder = ''sync_conflicts'' \<or> folder = ''sync_rejected'' | _ \<Rightarrow> True"
        using 2 by (auto simp: push_verdict_def split: if_splits option.splits prod.splits)
      then show ?thesis
      proof cases
        case 1
        have "upstream_has net ?u ref data"
          unfolding upstream_has_def using Some 1(1)
          by (intro exI [of _ "cl_sent u"] exI [of _ ?req] exI [of _ resp] exI [of _ "[]"]) simp
        with 1 show ?thesis by (simp add: flight_ok_def)
      next
        case (2 remote)
        let ?get = "get_json_request (cl_baseURL u @ ''/'' @ ref)"
        from fetchObject_Some [OF 2(1)] obtain resp' where g: "net (cl_sent ?u) ?get = Some resp'"
          "up_status resp' = 200" "up_data resp' = Some remote" "cl_baseURL u' = cl_baseURL u"
          "cl_sent u' = cl_sent ?u @ [?get]" by auto
        have "upstream_has net u' ref data"
          unfolding upstream_has_def using g 2(2)
          by (intro exI [of _ "cl_sent ?u"] exI [of _ ?get] exI [of _ resp'] exI [of _ "[]"]) simp
        with 2 show ?thesis by (simp add: flight_ok_def)
      next
        case 3
        then show ?thesis by (simp add: flight_ok_def split: verdict.splits)
      qed
    qed
  qed
qed

section \<open>No edit is lost\<close>

lemma acknowledge_keeps:
  "p \<noteq> pending_path dir ref \<Longrightarrow> held (snd (acknowledge w dir ref sent d)) p x = held d p x"
  "x \<noteq> sent \<Longrightarrow> held d p x \<Longrightarrow> held (snd (acknowledge w dir ref sent d)) p x"
  by (auto simp: acknowledge_def held_def Let_def split: option.splits)

lemma preserve_keeps:
  assumes "held d p x" and "PreserveConflict w a data d = (r, d')"
  shows "held d' p x"
  using PreserveConflict_keeps [OF assms(2)] assms(1) by (auto simp: held_def)

lemma Sync_Add_keeps:
  "p \<noteq> pending_path dir ref \<Longrightarrow> held (snd (Sync_Add w dir ref data d)) p x = held d p x"
  by (simp add: Sync_Add_def held_def Let_def)

lemma archived_pending:
  "IsValidRef ref \<Longrightarrow> archive_path (join_path base ''sync_conflicts'') data \<noteq> pending_path (sync_dir base) ref"
  "IsValidRef ref \<Longrightarrow> archive_path (join_path base ''sync_rejected'') data \<noteq> pending_path (sync_dir base) ref"
  using archive_not_pending by blast+

lemma butlast_sync_dir [simp]: "butlast (sync_dir base) = base"
  by (simp add: sync_dir_def)

text \<open>Settling a judged push leaves every edit in one of its fates.\<close>

lemma settle_safe:
  assumes "safe_edit net base s ref data" and "IsValidRef ref" and "IsValidRef q"
    and "flight_ok net s" and "sy_flight s = Some (q, v)"
  shows "safe_edit net base (s\<lparr>sy_disk := snd (push_settle w (sync_dir base) q v (sy_disk s)), sy_flight := None\<rparr>) ref data"
proof -
  let ?p = "pending_path (sync_dir base)" and ?d = "sy_disk s"
  have ack: "held (snd (acknowledge w (sync_dir base) q b d)) (?p ref) data"
    if "held d (?p ref) data" "\<not> (q = ref \<and> b = data)" for b d
    using that acknowledge_keeps assms(2,3) pending_path_inject by metis
  have arch: "archived base (snd (acknowledge w (sync_dir base) q b d)) data" if "archived base d data" for b d
    using that acknowledge_keeps(1) archived_pending [OF assms(3)] by (simp add: archived_def)
  show ?thesis
  proof (cases v)
    case (Accepted b)
    have "upstream_has net (sy_client s) q b" using assms(4,5) Accepted by (simp add: flight_ok_def)
    with assms(1) ack [of ?d b] arch [of ?d b] show ?thesis
      by (auto simp: Accepted safe_edit_def push_settle_def)
  next
    case (Refused b folder)
    have folder: "folder = ''sync_conflicts'' \<or> folder = ''sync_rejected''"
      using assms(4,5) Refused by (simp add: flight_ok_def)
    obtain r d' where r: "PreserveConflict w (join_path base folder) b ?d = (r, d')" by fastforce
    note kept = preserve_keeps [OF _ r]
    have pend: "held ?d (?p ref) data \<Longrightarrow> held d' (?p ref) data" by (rule kept)
    have arch': "archived base ?d data \<Longrightarrow> archived base d' data" using kept by (auto simp: archived_def)
    show ?thesis
    proof (cases r)
      case (Inl e)
      with assms(1) pend arch' show ?thesis
        by (auto simp: Refused safe_edit_def push_settle_def Sync_preserve_def r)
    next
      case (Inr p)
      have "held d' (archive_path (join_path base folder) b) b"
        using PreserveConflict_saved [OF r [unfolded Inr]] by (auto simp: held_def)
      then have "archived base d' b" using folder by (auto simp: archived_def)
      with assms(1) pend arch' ack [of d' b] arch [of d' b] show ?thesis
        by (auto simp: Refused safe_edit_def push_settle_def Sync_preserve_def r Inr)
    qed
  qed (use assms(1) in \<open>auto simp: safe_edit_def push_settle_def\<close>)
qed

definition queues :: "ref \<Rightarrow> sync_event \<Rightarrow> bool" where
  "queues ref e \<longleftrightarrow> (case e of Queue w r b \<Rightarrow> r = ref | _ \<Rightarrow> False)"

definition flight_valid :: "sync_state \<Rightarrow> bool" where
  "flight_valid s \<longleftrightarrow> (case sy_flight s of None \<Rightarrow> True | Some (q, v) \<Rightarrow> IsValidRef q)"

lemma upstream_has_step:
  assumes "upstream_has net (sy_client s) ref data"
  shows "upstream_has net (sy_client (sync_step net base e s)) ref data"
proof (cases e)
  case (Send w q)
  obtain v u where vu: "push_send w net (sync_dir base) q (sy_disk s) (sy_client s) = (v, u)" by fastforce
  with push_send_client [of w net "sync_dir base" q "sy_disk s" "sy_client s"] upstream_has_mono [OF assms, of u]
  have "upstream_has net u ref data" by auto
  with assms show ?thesis by (simp add: Send vu split: option.split)
next
  case (Check w)
  from HealthCheck_sent [of w net "sy_client s"] upstream_has_mono [OF assms, of "snd (HealthCheck w net (sy_client s))"]
  show ?thesis by (auto simp: Check)
qed (use assms in \<open>auto split: option.split\<close>)

lemma step_flight:
  assumes "flight_ok net s" and "flight_valid s" and "event_valid e"
  shows "flight_ok net (sync_step net base e s) \<and> flight_valid (sync_step net base e s)"
proof (cases e)
  case (Send w q)
  obtain v u where vu: "push_send w net (sync_dir base) q (sy_disk s) (sy_client s) = (v, u)" by fastforce
  from push_send_verdict [OF vu, of s] assms show ?thesis
    by (auto simp: Send vu flight_valid_def event_valid_def split: option.split)
next
  case (Check w)
  have "upstream_has net (snd (HealthCheck w net (sy_client s))) q b" if "upstream_has net (sy_client s) q b" for q b
    using upstream_has_step [OF that, of base "Check w"] by simp
  with assms show ?thesis
    by (auto simp: Check flight_ok_def flight_valid_def split: option.splits verdict.splits)
qed (use assms in \<open>auto simp: flight_ok_def flight_valid_def split: option.splits\<close>)

lemma step_safe:
  assumes "safe_edit net base s ref data" and "IsValidRef ref" and "flight_ok net s" and "flight_valid s"
    and "event_valid e" and "\<not> queues ref e"
  shows "safe_edit net base (sync_step net base e s) ref data"
proof (cases e)
  case (Queue w q b)
  have q: "IsValidRef q" "q \<noteq> ref" using assms(5,6) by (auto simp: Queue event_valid_def queues_def)
  with assms(1,2) archived_pending [OF q(1)] show ?thesis
    by (simp add: Queue safe_edit_def archived_def Sync_Add_keeps pending_path_inject)
next
  case (Send w q)
  have "safe_edit net base (s\<lparr>sy_client := u, sy_flight := f\<rparr>) ref data"
    if "push_send w net (sync_dir base) q (sy_disk s) (sy_client s) = (v, u)" for v u f
    using assms(1) that push_send_client [of w net "sync_dir base" q "sy_disk s" "sy_client s"]
      upstream_has_mono [of net "sy_client s" ref data u]
    by (auto simp: safe_edit_def)
  with assms(1) show ?thesis by (simp add: Send split: option.split prod.split)
next
  case (Settle w)
  show ?thesis
  proof (cases "sy_flight s")
    case None
    with assms(1) show ?thesis by (simp add: Settle)
  next
    case (Some f)
    obtain q v where f: "f = (q, v)" by (cases f)
    with assms(4) Some have "IsValidRef q" by (simp add: flight_valid_def)
    from settle_safe [OF assms(1,2) this assms(3)] Some f show ?thesis by (simp add: Settle)
  qed
next
  case (Check w)
  then show ?thesis using assms(1) upstream_has_step [of net s ref data base "Check w"] by (auto simp: safe_edit_def)
qed

lemma run_flight:
  "flight_ok net s \<Longrightarrow> flight_valid s \<Longrightarrow> list_all event_valid es \<Longrightarrow>
     flight_ok net (sync_run net base es s) \<and> flight_valid (sync_run net base es s)"
  unfolding sync_run_def using step_flight by (induction es arbitrary: s) auto

lemma run_safe:
  "safe_edit net base s ref data \<Longrightarrow> IsValidRef ref \<Longrightarrow> flight_ok net s \<Longrightarrow> flight_valid s \<Longrightarrow>
     list_all event_valid es \<Longrightarrow> list_all (\<lambda>e. \<not> queues ref e) es \<Longrightarrow>
     safe_edit net base (sync_run net base es s) ref data"
  unfolding sync_run_def using step_safe step_flight by (induction es arbitrary: s) auto

text \<open>
  C5 No queued edit is ever lost. Over every run of the queue, with edits queued at any point of a push
  in flight, an unreliable root hub and failing file operations: once an edit was queued, then as
  long as no newer edit of the same object replaces it, it is still in the queue, or its bytes are
  in the conflict or rejection archive, or the root hub answered the push of exactly these bytes
  with success or later returned a signed object with the same item.
\<close>
theorem edits_never_lost:
  assumes "sy_flight s = None" and "list_all event_valid (es @ Queue w ref data # es')"
    and "list_all (\<lambda>e. \<not> queues ref e) es'"
    and "fst (Sync_Add w (sync_dir base) ref data (sy_disk (sync_run net base es s)))"
  shows "held (sy_disk (sync_run net base (es @ Queue w ref data # es') s)) (pending_path (sync_dir base) ref) data \<or>
    archived base (sy_disk (sync_run net base (es @ Queue w ref data # es') s)) data \<or>
    upstream_has net (sy_client (sync_run net base (es @ Queue w ref data # es') s)) ref data"
proof -
  let ?s = "sync_run net base es s"
  let ?t = "sync_step net base (Queue w ref data) ?s"
  have valid: "list_all event_valid es" "event_valid (Queue w ref data)" "list_all event_valid es'"
    using assms(2) by simp_all
  have "flight_ok net s" "flight_valid s" using assms(1) by (simp_all add: flight_ok_def flight_valid_def)
  from run_flight [OF this valid(1), of base] step_flight [OF _ _ valid(2), of net ?s base]
  have fl: "flight_ok net ?t" "flight_valid ?t" by auto
  have "held (sy_disk ?t) (pending_path (sync_dir base) ref) data"
    using assms(4) by (auto simp: Sync_Add_def held_def Let_def split: if_splits)
  then have "safe_edit net base ?t ref data" by (simp add: safe_edit_def)
  from run_safe [OF this _ fl valid(3) assms(3)] valid(2)
  show ?thesis by (simp add: safe_edit_def sync_run_def event_valid_def)
qed

text \<open>A root hub that refuses everything.\<close>

definition refusing :: network where
  "refusing sent req = Some \<lparr>up_status = 403, up_contentType = [], up_data = Some []\<rparr>"

definition sync_start :: sync_state where
  "sync_start = \<lparr>sy_disk = [], sy_client = NewClient ''https://hub.test'', sy_flight = None\<rparr>"

theorem edits_never_lost_witness:
  "held (sy_disk (sync_run refusing [''data''] [Queue calm_world demo_ref ''edit'', Send calm_world demo_ref,
      Settle calm_world] sync_start)) (pending_path (sync_dir [''data'']) demo_ref) ''edit'' \<or>
   archived [''data''] (sy_disk (sync_run refusing [''data''] [Queue calm_world demo_ref ''edit'',
      Send calm_world demo_ref, Settle calm_world] sync_start)) ''edit'' \<or>
   upstream_has refusing (sy_client (sync_run refusing [''data''] [Queue calm_world demo_ref ''edit'',
      Send calm_world demo_ref, Settle calm_world] sync_start)) demo_ref ''edit''"
proof -
  have "fst (Sync_Add calm_world (sync_dir [''data'']) demo_ref ''edit''
      (sy_disk (sync_run refusing [''data''] [] sync_start)))"
    by (simp add: Sync_Add_def calm_world_def Let_def)
  from edits_never_lost [OF _ _ _ this, where es' = "[Send calm_world demo_ref, Settle calm_world]"]
  show ?thesis by (simp add: sync_start_def event_valid_def queues_def demo_ref_valid)
qed

section \<open>Answers that are not final\<close>

text \<open>
  A root hub in trouble is retried without a pause. When it answers every push with a server error,
  the rounds of the drain loop follow each other with no sleep in between: every round sends the
  first pending edit once more, and nothing else changes.
\<close>
theorem server_error_retried_at_once:
  assumes "cl_available u" and "Sync_List w dir d = Some (ref # refs)"
    and "mget d (pending_path dir ref) = Some (data, t)" and "\<not> w_read_fails w (pending_path dir ref)"
    and "\<not> w_bad_url w (cl_baseURL u @ ''/'' @ ref)"
    and "\<And>sent req. net sent req = Some resp" and "500 \<le> up_status resp"
  shows "\<exists>u'. drain w net dir n (d, u) = (0, d, u') \<and> cl_sent u' = cl_sent u @
    replicate n ((put_json_request (cl_baseURL u @ ''/'' @ ref) [])\<lparr>up_body := Some data\<rparr>)"
  using assms(1,5)
proof (induction n arbitrary: u)
  case (Suc n)
  let ?req = "(put_json_request (cl_baseURL u @ ''/'' @ ref) [])\<lparr>up_body := Some data\<rparr>"
  let ?u = "u\<lparr>cl_sent := cl_sent u @ [?req]\<rparr>"
  have "push_send w net dir ref d u = (Stall, ?u)"
    using assms(3,4,6,7) Suc.prems by (simp add: push_send_def push_verdict_def transport_def Let_def)
  then have "drain_round w net dir (d, u) = (0, d, ?u)"
    using assms(2) Suc.prems by (simp add: drain_round_def pushOne_def push_settle_def Available_def Let_def)
  moreover obtain u' where "drain w net dir n (d, ?u) = (0, d, u')" "cl_sent u' = cl_sent ?u @ replicate n ?req"
    using Suc.IH [of ?u] Suc.prems by auto
  ultimately show ?case by simp
qed simp

definition pending_disk :: disk where
  "pending_disk = mput [''data'', ''sync_pending'', demo_ref @ ''.json''] (''edit'', 0) []"

lemma pending_disk_holds: "mget pending_disk (pending_path (sync_dir [''data'']) demo_ref) = Some (''edit'', 0)"
  by (simp add: pending_disk_def pending_path_eq demo_ref_valid sync_dir_def)

definition failing :: network where
  "failing sent req = Some \<lparr>up_status = 500, up_contentType = [], up_data = Some []\<rparr>"

theorem server_error_retried_at_once_witness:
  "\<exists>u'. drain calm_world failing (sync_dir [''data'']) 3 (pending_disk, NewClient ''https://hub.test'') = (0, pending_disk, u') \<and>
     length (cl_sent u') = 3"
proof -
  have "Sync_List calm_world (sync_dir [''data'']) pending_disk = Some [demo_ref]" by code_simp
  from server_error_retried_at_once [OF _ this pending_disk_holds, of "NewClient ''https://hub.test''" failing _ 3]
  show ?thesis by (fastforce simp: failing_def NewClient_def calm_world_def)
qed

text \<open>
  A rate limit is taken for a final refusal. When the root hub answers the push of a pending edit
  with 429, a status the client itself counts as the root hub being down, the edit leaves the queue
  for the archive of rejected edits, and is not sent again.
\<close>
theorem rate_limited_edit_dropped:
  assumes "IsValidRef ref" and "mget d (pending_path (sync_dir base) ref) = Some (data, t)"
    and "\<not> w_read_fails w (pending_path (sync_dir base) ref)"
    and "\<not> w_remove_fails w (pending_path (sync_dir base) ref)"
    and "\<not> w_bad_url w (cl_baseURL u @ ''/'' @ ref)"
    and "\<And>sent req. net sent req = Some resp" and "up_status resp = 429"
    and "PreserveConflict w (join_path base ''sync_rejected'') data d = (Inr p, d1)"
    and "pushOne w net (sync_dir base) ref (d, u) = (continue, d', u')"
  shows "IsDown (up_status resp) \<and> continue \<and> mget d' (pending_path (sync_dir base) ref) = None \<and>
    held d' (archive_path (join_path base ''sync_rejected'') data) data"
proof -
  let ?p = "pending_path (sync_dir base) ref"
  have send: "push_send w net (sync_dir base) ref d u = (Refused data ''sync_rejected'',
      u\<lparr>cl_sent := cl_sent u @ [(put_json_request (cl_baseURL u @ ''/'' @ ref) [])\<lparr>up_body := Some data\<rparr>]\<rparr>)"
    using assms(2,3,5,6,7) by (simp add: push_send_def push_verdict_def transport_def Let_def)
  have kept: "mget d1 ?p = Some (data, t)" by (rule PreserveConflict_keeps [OF assms(8,2)])
  have "push_settle w (sync_dir base) ref (Refused data ''sync_rejected'') d = (True, mdel ?p d1)"
    using assms(3,4,8) kept by (simp add: push_settle_def Sync_preserve_def acknowledge_def Let_def)
  then have res: "continue" "d' = mdel ?p d1" using assms(9) send by (simp_all add: pushOne_def)
  have "held d1 (archive_path (join_path base ''sync_rejected'') data) data"
    using PreserveConflict_saved [OF assms(8)] by (auto simp: held_def)
  moreover have "archive_path (join_path base ''sync_rejected'') data \<noteq> ?p"
    using archived_pending(2) [OF assms(1)] .
  ultimately show ?thesis using res assms(7) by (simp add: held_def IsDown_def)
qed

definition limiting :: network where
  "limiting sent req = Some \<lparr>up_status = 429, up_contentType = [], up_data = Some []\<rparr>"

theorem rate_limited_edit_dropped_witness:
  "\<exists>d' u'. pushOne calm_world limiting (sync_dir [''data'']) demo_ref (pending_disk, NewClient ''https://hub.test'') =
      (True, d', u') \<and> mget d' (pending_path (sync_dir [''data'']) demo_ref) = None"
proof -
  obtain continue d' u' where one: "pushOne calm_world limiting (sync_dir [''data'']) demo_ref
      (pending_disk, NewClient ''https://hub.test'') = (continue, d', u')" by (metis prod_cases3)
  have "archive_path (join_path [''data''] ''sync_rejected'') ''edit'' \<noteq> [''data'', ''sync_pending'', demo_ref @ ''.json'']"
    using archived_pending(2) [OF demo_ref_valid, of "[''data'']" "''edit''"]
    by (simp add: pending_path_eq demo_ref_valid sync_dir_def)
  then have "\<exists>p d1. PreserveConflict calm_world (join_path [''data''] ''sync_rejected'') ''edit'' pending_disk = (Inr p, d1)"
    by (simp add: PreserveConflict_def calm_world_def pending_disk_def Let_def)
  then obtain p d1 where "PreserveConflict calm_world (join_path [''data''] ''sync_rejected'') ''edit'' pending_disk = (Inr p, d1)"
    by blast
  from rate_limited_edit_dropped [OF demo_ref_valid pending_disk_holds _ _ _ _ _ this one] one
  show ?thesis by (auto simp: limiting_def calm_world_def)
qed

end
