(* ===== verification/Proxy_Cache.thy ===== *)
theory Proxy_Cache
  imports Serving_Router Upstream_Sync
begin

text \<open>
  The caching half of \<open>serving/proxy.go\<close>: how a proxy keeps its store in step with the root hub. What a
  proxy serves from is a hub of its own; beside it there are the upstream client and the goroutines
  that were started and have not run yet. The lemmas say what may become of a cached object, and
  what is sent to the root hub.
\<close>

section \<open>State\<close>

text \<open>\<open>go p.pushToUpstream(...)\<close>, \<open>go p.fetchAndCacheFromUpstream(...)\<close> and \<open>go p.cacheUpstreamListRefs(...)\<close>.\<close>

datatype task = Push_Task ref bytes | Fetch_Task ref | List_Task bytes

record Proxy =
  px_hub :: hub
  \<comment> \<open>store, index, default viewer and virtual hosts\<close>
  px_UpstreamPush :: string
  px_client :: Client
  px_tasks :: "task list"

definition NewProxy :: "Store \<Rightarrow> disk \<Rightarrow> Index \<Rightarrow> ref \<Rightarrow> Client \<Rightarrow> string \<Rightarrow> Proxy" where
  "NewProxy store d idx defaultViewerRef up push = \<lparr>px_hub = NewHub store d idx defaultViewerRef,
     px_UpstreamPush = push, px_client = up, px_tasks = []\<rparr>"

definition px_url :: "Proxy \<Rightarrow> ref \<Rightarrow> string" where
  "px_url p ref = cl_baseURL (px_client p) @ ''/'' @ ref"

definition px_read :: "world \<Rightarrow> Proxy \<Rightarrow> ref \<Rightarrow> store_error + bytes option" where
  "px_read w p ref = hub_read w (px_hub p) ref"

definition px_index :: "Proxy \<Rightarrow> Index" where
  "px_index p = hub_index (px_hub p)"

text \<open>\<open>p.upstream.Do\<close>.\<close>

definition px_do :: "network \<Rightarrow> up_request \<Rightarrow> bytes option \<Rightarrow> Proxy \<Rightarrow> up_response option \<times> Proxy" where
  "px_do net req body p = (case Client_Do net req body (px_client p) of
     (resp, u) \<Rightarrow> (resp, p\<lparr>px_client := u\<rparr>))"

definition px_go :: "task \<Rightarrow> Proxy \<Rightarrow> Proxy" where
  "px_go t p = p\<lparr>px_tasks := px_tasks p @ [t]\<rparr>"

section \<open>Caching\<close>

datatype cache_error =
    Cache_Parse | Cache_Ref | Cache_Read | Cache_Compare | Cache_Verify | Cache_Archive | Cache_Backup
  | Cache_Write | Cache_Conflict ref int

text \<open>The write, the index and the hash map, as \<open>CacheLocally\<close> and the local writes end.\<close>

definition px_store_object ::
  "world \<Rightarrow> ref \<Rightarrow> Item \<Rightarrow> InField \<Rightarrow> bytes \<Rightarrow> instant \<Rightarrow> disk \<Rightarrow> Proxy \<Rightarrow> bool \<times> Proxy" where
  "px_store_object w ref it realms data ts d p =
     (let h = px_hub p; (err, d) = Write w (hub_store h) ref data ts d in
      if err \<noteq> None then (False, p\<lparr>px_hub := h\<lparr>hub_disk := d\<rparr>\<rparr>)
      else (True, p\<lparr>px_hub := h\<lparr>hub_disk := d, hub_index := idx_Update ref it ts [realms] (hub_index h),
              hub_vhost := (if item_Type it = ''PAGE'' then map_option (AddPage ref) (hub_vhost h) else hub_vhost h)\<rparr>\<rparr>))"

text \<open>The candidate has the revision that is stored: the same item, or a conflict that keeps both.\<close>

definition cache_same_revision ::
  "world \<Rightarrow> ref \<Rightarrow> bytes \<Rightarrow> int \<Rightarrow> Proxy \<Rightarrow> cache_error option \<times> Proxy" where
  "cache_same_revision w ref data revision p = (case px_read w p ref of
      Inl e \<Rightarrow> (Some Cache_Read, p)
    | Inr local \<Rightarrow> (case SameItem (case local of Some b \<Rightarrow> b | None \<Rightarrow> []) data of
        None \<Rightarrow> (Some Cache_Compare, p)
      | Some same \<Rightarrow>
          if same then (None, p)
          else if VerifyEnvelope w data \<noteq> None then (Some Cache_Verify, p)
          else let h = px_hub p in
            (case Store_PreserveConflict w (hub_store h) data (hub_disk h) of
               (Inl e, d) \<Rightarrow> (Some Cache_Archive, p\<lparr>px_hub := h\<lparr>hub_disk := d\<rparr>\<rparr>)
             | (Inr path, d) \<Rightarrow> (Some (Cache_Conflict ref revision), p\<lparr>px_hub := h\<lparr>hub_disk := d\<rparr>\<rparr>))))"

definition CacheLocally :: "world \<Rightarrow> ref \<Rightarrow> bytes \<Rightarrow> Proxy \<Rightarrow> cache_error option \<times> Proxy" where
  "CacheLocally w ref data p = (case ParseEnvelope data of
      Inl e \<Rightarrow> (Some Cache_Parse, p)
    | Inr (env, it) \<Rightarrow>
        if item_Ref it \<noteq> ref then (Some Cache_Ref, p)
        else (let h = px_hub p; existing = GetMeta (hub_index h) ref in
          case existing of
            Some m \<Rightarrow>
              if meta_Revision m > item_Revision it
              then (None, case px_read w p ref of
                  Inr (Some localData) \<Rightarrow> px_go (Push_Task ref localData) p
                | _ \<Rightarrow> p)
              else if meta_Revision m = item_Revision it
              then cache_same_revision w ref data (item_Revision it) p
              else (case Backup w (hub_store h) ref (meta_Revision m) (hub_disk h) of
                  (Some e, d) \<Rightarrow> (Some Cache_Backup, p\<lparr>px_hub := h\<lparr>hub_disk := d\<rparr>\<rparr>)
                | (None, d) \<Rightarrow>
                    (case px_store_object w ref it (ResolveIn env it) data
                       (case item_Timestamp it of Some t \<Rightarrow> t | None \<Rightarrow> zero_time) d p of
                       (ok, p) \<Rightarrow> (if ok then None else Some Cache_Write, p)))
          | None \<Rightarrow>
              (case px_store_object w ref it (ResolveIn env it) data
                 (case item_Timestamp it of Some t \<Rightarrow> t | None \<Rightarrow> zero_time) (hub_disk h) p of
                 (ok, p) \<Rightarrow> (if ok then None else Some Cache_Write, p))))"

definition conflict_text :: "ref \<Rightarrow> int \<Rightarrow> string" where
  "conflict_text ref revision = ''revision conflict for '' @ ref @ '' at revision '' @ itoa revision @
     ''; both edits retained; resolve with a higher revision''"

definition writeCacheError :: "world \<Rightarrow> request \<Rightarrow> Proxy \<Rightarrow> ref \<Rightarrow> cache_error \<Rightarrow> response" where
  "writeCacheError w r p ref e =
     (if (case GetMeta (px_index p) ref of None \<Rightarrow> False
          | Some m \<Rightarrow> \<not> CanRead (meta_Realms m) (req_auth r) (Resolver (px_index p)))
      then writeError w r 404 ''object not found'' ''NOT_FOUND''
      else (case e of
          Cache_Conflict ref' n \<Rightarrow> writeError w r 409 (conflict_text ref' n) ''REVISION_CONFLICT''
        | _ \<Rightarrow> writeError w r 500 ''could not safely cache upstream object'' ''INTERNAL''))"

section \<open>Pushing and fetching in the background\<close>

text \<open>The guard: only objects of the global realm are pushed, unless the proxy is told to push all.\<close>

definition push_allowed :: "Proxy \<Rightarrow> bytes \<Rightarrow> bool" where
  "push_allowed p data \<longleftrightarrow> (case ParseEnvelope data of
      Inl e \<Rightarrow> True
    | Inr (env, it) \<Rightarrow> IsGlobalObject (ResolveIn env it) \<or> px_UpstreamPush p = ''all'')"

definition pushToUpstream :: "world \<Rightarrow> network \<Rightarrow> ref \<Rightarrow> bytes \<Rightarrow> Proxy \<Rightarrow> Proxy" where
  "pushToUpstream w net ref data p =
     (if \<not> push_allowed p data then p
      else if w_bad_url w (px_url p ref) then p
      else snd (px_do net (put_json_request (px_url p ref) []) (Some data) p))"

definition fetchAndCacheFromUpstream :: "world \<Rightarrow> network \<Rightarrow> ref \<Rightarrow> Proxy \<Rightarrow> Proxy" where
  "fetchAndCacheFromUpstream w net ref p =
     (if w_bad_url w (px_url p ref) then p
      else (case px_do net (get_json_request (px_url p ref)) None p of
          (None, p) \<Rightarrow> p
        | (Some resp, p) \<Rightarrow>
            if up_status resp \<noteq> 200 then p
            else (case up_data resp of None \<Rightarrow> p | Some body \<Rightarrow> snd (CacheLocally w ref body p))))"

definition ensureFresh :: "world \<Rightarrow> network \<Rightarrow> ref \<Rightarrow> Proxy \<Rightarrow> Proxy" where
  "ensureFresh w net ref p =
     (if w_bad_url w (px_url p ref) then p
      else (case px_do net (get_json_request (px_url p ref)) None p of
          (None, p) \<Rightarrow> p
        | (Some resp, p) \<Rightarrow>
            if up_status resp = 200 then
              (case up_data resp of None \<Rightarrow> p | Some body \<Rightarrow> snd (CacheLocally w ref body p))
            else if up_status resp = 404 then
              (case px_read w p ref of Inr (Some data) \<Rightarrow> px_go (Push_Task ref data) p | _ \<Rightarrow> p)
            else p))"

text \<open>Viewer objects that are not global stay under the proxy's own authority.\<close>

definition ensureViewerDependencyFresh :: "world \<Rightarrow> network \<Rightarrow> ref \<Rightarrow> Proxy \<Rightarrow> Proxy" where
  "ensureViewerDependencyFresh w net ref p =
     (let local_only = (case GetMeta (px_index p) ref of
            Some m \<Rightarrow> \<not> IsGlobalObject (meta_Realms m)
          | None \<Rightarrow> (case px_read w p ref of
              Inr (Some data) \<Rightarrow> (case ParseEnvelope data of
                  Inr (env, it) \<Rightarrow> \<not> IsGlobalObject (ResolveIn env it) | Inl e \<Rightarrow> False)
            | _ \<Rightarrow> False))
      in if local_only then p else ensureFresh w net ref p)"

text \<open>A stored object, parsed.\<close>

definition px_item :: "world \<Rightarrow> Proxy \<Rightarrow> ref \<Rightarrow> Item option" where
  "px_item w p ref = (case px_read w p ref of
      Inr (Some data) \<Rightarrow> (case ParseEnvelope data of Inr (env, it) \<Rightarrow> Some it | Inl e \<Rightarrow> None)
    | _ \<Rightarrow> None)"

definition type_deps :: "world \<Rightarrow> network \<Rightarrow> ref \<Rightarrow> ref \<Rightarrow> Proxy \<Rightarrow> Proxy" where
  "type_deps w net ref typeRef p =
     (if typeRef = [] \<or> typeRef = ref then p
      else let p = ensureViewerDependencyFresh w net typeRef p in
        (case px_item w p typeRef of
           None \<Rightarrow> p
         | Some typeItem \<Rightarrow>
             if item_Type typeItem \<noteq> ''TYPE'' then p
             else let pageRef = firstRelationRef typeItem ''page'' in
               if pageRef \<noteq> [] \<and> pageRef \<noteq> ref \<and> pageRef \<noteq> typeRef
               then ensureViewerDependencyFresh w net pageRef p else p))"

definition default_deps :: "world \<Rightarrow> network \<Rightarrow> ref \<Rightarrow> Proxy \<Rightarrow> Proxy" where
  "default_deps w net ref p =
     (let defaultRef = hub_defaultViewerRef (px_hub p) in
      if defaultRef = [] \<or> ref = defaultRef then p
      else let p = ensureViewerDependencyFresh w net defaultRef p in
        (case px_item w p defaultRef of
           None \<Rightarrow> p
         | Some defaultItem \<Rightarrow>
             if item_Type defaultItem = ''PAGE'' then p
             else let pageRef = firstRelationRef defaultItem ''page'' in
               if pageRef \<noteq> [] \<and> pageRef \<noteq> ref \<and> pageRef \<noteq> defaultRef
               then ensureViewerDependencyFresh w net pageRef p else p))"

definition ensurePageDepsFresh :: "world \<Rightarrow> network \<Rightarrow> ref \<Rightarrow> Proxy \<Rightarrow> Proxy" where
  "ensurePageDepsFresh w net ref p = (case px_item w p ref of
      None \<Rightarrow> p
    | Some it \<Rightarrow>
        if item_Type it = ''PAGE'' then p
        else let pageRef = firstRelationRef it ''page'';
                 p = (if pageRef \<noteq> [] \<and> pageRef \<noteq> ref then ensureViewerDependencyFresh w net pageRef p else p);
                 p = type_deps w net ref (firstRelationRef it ''type_def'') p
          in default_deps w net ref p)"

end
