(* ===== verification/Proxy_Handlers.thy ===== *)
theory Proxy_Handlers
  imports Proxy_Cache
begin

text \<open>
  The handlers of the caching proxy, \<open>serving/proxy.go\<close> and the proxy half of \<open>serving/projection.go\<close>:
  refreshing an object from the root hub before it is served, writing with the root hub as the
  authority for global objects, and lists merged from both sides.
\<close>

section \<open>Relaying the root hub\<close>

text \<open>\<open>json.Unmarshal\<close> into a \<open>Problem\<close>: the detail and the code, \<open>None\<close> for an error.\<close>

definition decode_Problem :: "json \<Rightarrow> (string \<times> string) option" where
  "decode_Problem j = (case j of
      JNull \<Rightarrow> Some ([], [])
    | JObj ms \<Rightarrow>
        (let (a, ok1) = decode_field dec_string [] ''title'' ms;
             (b, ok2) = decode_field dec_int 0 ''status'' ms;
             (detail, ok3) = decode_field dec_string [] ''detail'' ms;
             (c, ok4) = decode_field dec_string [] ''next_action'' ms;
             (code, ok5) = decode_field dec_string [] ''code'' ms
         in if ok1 \<and> ok2 \<and> ok3 \<and> ok4 \<and> ok5 then Some (detail, code) else None)
    | _ \<Rightarrow> None)"

text \<open>A body that cannot be read is relayed as empty.\<close>

definition up_body_bytes :: "up_response \<Rightarrow> bytes" where
  "up_body_bytes resp = (case up_data resp of Some b \<Rightarrow> b | None \<Rightarrow> [])"

definition forwardResponse :: "world \<Rightarrow> request \<Rightarrow> up_response \<Rightarrow> response" where
  "forwardResponse w r resp =
     (let body = up_body_bytes resp; ct = up_contentType resp in
      case (if has_prefix ct ProblemMediaType then Option.bind (parse_json body) decode_Problem else None) of
        Some (detail, code) \<Rightarrow> writeError w r (up_status resp) detail code
      | None \<Rightarrow>
          write_body body (with_status (up_status resp)
            (if ct \<noteq> [] then set_header ''Content-Type'' ct initial_response else initial_response)))"

section \<open>Refreshing an object\<close>

text \<open>
  \<open>syncFromUpstream\<close>: the response when it wrote one, and \<open>None\<close> when the caller serves from the cache.
\<close>

definition sync_deps :: "world \<Rightarrow> network \<Rightarrow> ref \<Rightarrow> bool \<Rightarrow> Proxy \<Rightarrow> response option \<times> Proxy" where
  "sync_deps w net ref syncPageDeps p = (None, if syncPageDeps then ensurePageDepsFresh w net ref p else p)"

definition syncFromUpstream ::
  "world \<Rightarrow> network \<Rightarrow> request \<Rightarrow> ref \<Rightarrow> bool \<Rightarrow> Proxy \<Rightarrow> response option \<times> Proxy" where
  "syncFromUpstream w net r ref syncPageDeps p =
     (if w_bad_url w (px_url p ref) then (Some (writeError w r 500 ''internal error'' ''INTERNAL''), p)
      else (case px_do net (get_json_request (px_url p ref)) None p of
          (None, p) \<Rightarrow> (None, p)
        | (Some resp, p) \<Rightarrow>
            if up_status resp = 304 then sync_deps w net ref syncPageDeps p
            else if up_status resp = 200 then
              (case up_data resp of
                 None \<Rightarrow> (Some (writeError w r 500 ''internal error'' ''INTERNAL''), p)
               | Some body \<Rightarrow> (case CacheLocally w ref body p of
                     (Some e, p) \<Rightarrow> (Some (writeCacheError w r p ref e), p)
                   | (None, p) \<Rightarrow> sync_deps w net ref syncPageDeps p))
            else if up_status resp = 404 then
              (case px_read w p ref of
                 Inr (Some localData) \<Rightarrow> sync_deps w net ref syncPageDeps (px_go (Push_Task ref localData) p)
               | _ \<Rightarrow> (Some (writeError w r 404 ''object not found'' ''NOT_FOUND''), p))
            else if IsDown (up_status resp) then (None, p)
            else (Some (forwardResponse w r resp), p)))"

section \<open>Serving from the cache\<close>

definition with_hub :: "(hub \<Rightarrow> response \<times> hub) \<Rightarrow> Proxy \<Rightarrow> response \<times> Proxy" where
  "with_hub f p = (case f (px_hub p) of (resp, h) \<Rightarrow> (resp, p\<lparr>px_hub := h\<rparr>))"

text \<open>\<open>serveObjectData\<close> has the text of the hub's \<open>serveObject\<close>; a read that fails is a 404 here.\<close>

definition serveObjectData :: "world \<Rightarrow> request \<Rightarrow> hub \<Rightarrow> ref \<Rightarrow> bytes \<Rightarrow> response \<Rightarrow> response \<times> hub" where
  "serveObjectData w r h ref data resp = serveObject w r h ref data resp"

definition cache_serve :: "world \<Rightarrow> request \<Rightarrow> ref \<Rightarrow> response \<Rightarrow> hub \<Rightarrow> response \<times> hub" where
  "cache_serve w r ref resp h = (case hub_read w h ref of
      Inr (Some data) \<Rightarrow> serveObjectData w r h ref data resp
    | _ \<Rightarrow> (WriteProblem w r 404 ''object not found'' ''NOT_FOUND'' resp, h))"

definition serveFromLocalCache :: "world \<Rightarrow> request \<Rightarrow> ref \<Rightarrow> hub \<Rightarrow> response \<times> hub" where
  "serveFromLocalCache w r ref h = (case GetMeta (hub_index h) ref of
      None \<Rightarrow> cache_serve w r ref initial_response h
    | Some m \<Rightarrow>
        if \<not> meta_IsPublic m \<and> \<not> CanRead (meta_Realms m) (req_auth r) (Resolver (hub_index h))
        then deny_object w r h ref
        else (case indexedNonHTMLValidator r m of
            Some etag \<Rightarrow>
              (let resp = set_header ''ETag'' etag (set_header ''Vary'' ''Accept'' initial_response)
               in if not_modified r etag then (with_status 304 resp, h) else cache_serve w r ref resp h)
          | None \<Rightarrow> cache_serve w r ref initial_response h))"

definition px_handleGetObject :: "world \<Rightarrow> network \<Rightarrow> request \<Rightarrow> Proxy \<Rightarrow> response \<times> Proxy" where
  "px_handleGetObject w net r p =
     (let ref = req_ref r in
      if \<not> IsValidRef ref then (writeError w r 404 ''object not found'' ''NOT_FOUND'', p)
      else (case syncFromUpstream w net r ref (acceptsHTML r) p of
          (Some resp, p) \<Rightarrow> (resp, p)
        | (None, p) \<Rightarrow> with_hub (serveFromLocalCache w r ref) p))"

text \<open>The root of a host is served as by the hub, from the local index and store.\<close>

definition px_handleRoot :: "world \<Rightarrow> request \<Rightarrow> Proxy \<Rightarrow> response \<times> Proxy" where
  "px_handleRoot w r p = with_hub (handleRoot w r) p"

section \<open>The explicit representations\<close>

definition px_serveJSONForRef :: "world \<Rightarrow> network \<Rightarrow> request \<Rightarrow> ref \<Rightarrow> Proxy \<Rightarrow> response \<times> Proxy" where
  "px_serveJSONForRef w net r ref p =
     (if \<not> IsValidRef ref then (writeError w r 404 ''object not found'' ''NOT_FOUND'', p)
      else (case syncFromUpstream w net r ref False p of
          (Some resp, p) \<Rightarrow> (resp, p)
        | (None, p) \<Rightarrow> (let h = px_hub p in
            (case authorizeProjection w r ref (hub_index h) of
               Inl e \<Rightarrow> e
             | Inr meta \<Rightarrow> serveJSON w r (hub_store h) (hub_disk h) ref meta, p))))"

definition px_serveRawForRef :: "world \<Rightarrow> network \<Rightarrow> request \<Rightarrow> ref \<Rightarrow> Proxy \<Rightarrow> response \<times> Proxy" where
  "px_serveRawForRef w net r ref p =
     (if \<not> IsValidRef ref then (writeError w r 404 ''object not found'' ''NOT_FOUND'', p)
      else (case syncFromUpstream w net r ref False p of
          (Some resp, p) \<Rightarrow> (resp, p)
        | (None, p) \<Rightarrow> with_hub (\<lambda>h. (case authorizeProjection w r ref (hub_index h) of
              Inl e \<Rightarrow> (e, h)
            | Inr meta \<Rightarrow> (case rawVhostRedirect w r (hub_vhost h) (hub_vhostMode h) ref meta of
                (Some resp, vhost) \<Rightarrow> (resp, h\<lparr>hub_vhost := vhost\<rparr>)
              | (None, vhost) \<Rightarrow>
                  (serveRaw w r (hub_store h) (hub_disk h) ref meta (hub_baseDomain h), h\<lparr>hub_vhost := vhost\<rparr>)))) p))"

definition px_servePageForRef :: "world \<Rightarrow> network \<Rightarrow> request \<Rightarrow> ref \<Rightarrow> Proxy \<Rightarrow> response \<times> Proxy" where
  "px_servePageForRef w net r ref p =
     (if \<not> IsValidRef ref then (writeError w r 404 ''object not found'' ''NOT_FOUND'', p)
      else (case syncFromUpstream w net r ref True p of
          (Some resp, p) \<Rightarrow> (resp, p)
        | (None, p) \<Rightarrow> with_hub (\<lambda>h. (case authorizeProjection w r ref (hub_index h) of
              Inl e \<Rightarrow> (e, h)
            | Inr meta \<Rightarrow> (case serveProjectionPage w r (hub_store h) (hub_disk h) (hub_index h) ref
                  (hub_defaultViewerRef h) (hub_baseDomain h) (hub_vhost h) (hub_vhostMode h) of
                (resp, vhost) \<Rightarrow> (resp, h\<lparr>hub_vhost := vhost\<rparr>)))) p))"

text \<open>The root aliases run the pipeline of the target of \<open>/\<close>.\<close>

definition px_root ::
  "world \<Rightarrow> request \<Rightarrow> string \<Rightarrow> (ref \<Rightarrow> Proxy \<Rightarrow> response \<times> Proxy) \<Rightarrow> Proxy \<Rightarrow> response \<times> Proxy" where
  "px_root w r sfx serve p =
     (let h = px_hub p in
      case resolveRootTarget w r (hub_index h) (hub_vhost h) (hub_vhostMode h) sfx of
        (Inl resp, vhost) \<Rightarrow> (resp, p\<lparr>px_hub := h\<lparr>hub_vhost := vhost\<rparr>\<rparr>)
      | (Inr ref, vhost) \<Rightarrow> serve ref (p\<lparr>px_hub := h\<lparr>hub_vhost := vhost\<rparr>\<rparr>))"

definition px_handleGetJSON :: "world \<Rightarrow> network \<Rightarrow> request \<Rightarrow> Proxy \<Rightarrow> response \<times> Proxy" where
  "px_handleGetJSON w net r p = px_serveJSONForRef w net r (req_ref r) p"

definition px_handleRootJSON :: "world \<Rightarrow> network \<Rightarrow> request \<Rightarrow> Proxy \<Rightarrow> response \<times> Proxy" where
  "px_handleRootJSON w net r p = px_root w r ''/json'' (px_serveJSONForRef w net r) p"

definition px_handleGetRaw :: "world \<Rightarrow> network \<Rightarrow> request \<Rightarrow> Proxy \<Rightarrow> response \<times> Proxy" where
  "px_handleGetRaw w net r p = px_serveRawForRef w net r (req_ref r) p"

definition px_handleRootRaw :: "world \<Rightarrow> network \<Rightarrow> request \<Rightarrow> Proxy \<Rightarrow> response \<times> Proxy" where
  "px_handleRootRaw w net r p = px_root w r ''/raw'' (px_serveRawForRef w net r) p"

definition px_handleGetPage :: "world \<Rightarrow> network \<Rightarrow> request \<Rightarrow> Proxy \<Rightarrow> response \<times> Proxy" where
  "px_handleGetPage w net r p = px_servePageForRef w net r (req_ref r) p"

definition px_handleRootPage :: "world \<Rightarrow> network \<Rightarrow> request \<Rightarrow> Proxy \<Rightarrow> response \<times> Proxy" where
  "px_handleRootPage w net r p = px_root w r ''/page'' (px_servePageForRef w net r) p"

section \<open>Writing\<close>

text \<open>The checks before anything is sent or stored.\<close>

definition px_put_checks ::
  "world \<Rightarrow> request \<Rightarrow> ref \<Rightarrow> bytes \<Rightarrow> Index \<Rightarrow> response + (Item \<times> InField \<times> bytes)" where
  "px_put_checks w r ref body idx = (case ParseEnvelope body of
      Inl e \<Rightarrow> Inl (writeError w r 400 (parse_error_text w e) ''INVALID_OBJECT'')
    | Inr (env, it) \<Rightarrow>
        (let realms = ResolveIn env it in
         if list_ex (\<lambda>pr. pr \<noteq> item_Pubkey it) (PubkeyRealms realms)
         then Inl (writeError w r 403 ''pubkey-realm does not match item pubkey'' ''REALM_FORBIDDEN'')
         else if \<not> ValidateRealmsForPut realms (item_Pubkey it) (Resolver idx)
         then Inl (writeError w r 400 (''object must belong to dataverse001, server-public, '' @
                ''a self-owned pubkey-realm, or a configured shared realm'') ''INVALID_OBJECT'')
         else (case (if item_Type it = TypeSharedRealm then ParseSharedRealm it else Inr ([], [])) of
             Inl e \<Rightarrow> Inl (writeError w r 400
                 (''invalid SHARED_REALM object: '' @ realm_error_text w e) ''INVALID_SHARED_REALM'')
           | Inr realm_members \<Rightarrow>
               if ref \<noteq> item_Ref it
               then Inl (writeError w r 400 (''URL ref '' @ w_quote w ref @ '' does not match item '' @
                      w_quote w (item_Ref it)) ''REF_MISMATCH'')
               else (case VerifyEnvelope w body of
                   Some e \<Rightarrow> Inl (writeError w r 400 (verify_error_text w e) ''INVALID_SIGNATURE'')
                 | None \<Rightarrow> (case CanonicalJSON body of
                     None \<Rightarrow> Inl (writeError w r 500 ''internal error'' ''INTERNAL'')
                   | Some canonical \<Rightarrow> Inr (it, realms, canonical))))))"

text \<open>
  The critical section of a local write up to the backup: the response that refuses it, or the
  timestamp and the disk to write to.
\<close>

definition local_write_begin ::
  "world \<Rightarrow> request \<Rightarrow> ref \<Rightarrow> Item \<Rightarrow> hub \<Rightarrow> response + (instant \<times> disk)" where
  "local_write_begin w r ref it h =
     (let existing = GetMeta (hub_index h) ref in
      case checkConditionalWrite w r (req_header r ''If-Match'') existing (item_Revision it) of
        Some resp \<Rightarrow> Inl resp
      | None \<Rightarrow> (case item_Timestamp it of
          None \<Rightarrow> Inl (writeError w r 400 (''invalid timestamp: '' @ w_error_text w
              (Time_Error (if item_UpdatedAt it = [] then item_CreatedAt it else item_UpdatedAt it))) ''INVALID_OBJECT'')
        | Some ts \<Rightarrow> Inr (ts, case existing of
              Some m \<Rightarrow> snd (Backup w (hub_store h) ref (meta_Revision m) (hub_disk h))
            | None \<Rightarrow> hub_disk h)))"

definition storePrivateLocally ::
  "world \<Rightarrow> request \<Rightarrow> ref \<Rightarrow> Item \<Rightarrow> bytes \<Rightarrow> InField \<Rightarrow> Proxy \<Rightarrow> response \<times> Proxy" where
  "storePrivateLocally w r ref it canonical realms p = (case local_write_begin w r ref it (px_hub p) of
      Inl resp \<Rightarrow> (resp, p)
    | Inr (ts, d) \<Rightarrow> (case px_store_object w ref it realms canonical ts d p of
        (ok, p) \<Rightarrow>
          if \<not> ok then (writeError w r 500 ''internal error'' ''INTERNAL'', p)
          else (write_body canonical (with_status 201
                 (set_header ''ETag'' (revisionETag (item_Revision it)) initial_response)), p)))"

definition pending_dir :: "Proxy \<Rightarrow> path" where
  "pending_dir p = sync_dir (store_dir (hub_store (px_hub p)))"

text \<open>The queued copy is written before the stored one.\<close>

definition storeLocallyWithPending ::
  "world \<Rightarrow> request \<Rightarrow> ref \<Rightarrow> Item \<Rightarrow> bytes \<Rightarrow> InField \<Rightarrow> Proxy \<Rightarrow> response \<times> Proxy" where
  "storeLocallyWithPending w r ref it canonical realms p = (case local_write_begin w r ref it (px_hub p) of
      Inl resp \<Rightarrow> (resp, p)
    | Inr (ts, d) \<Rightarrow> (case Sync_Add w (pending_dir p) ref canonical d of
        (queued, d) \<Rightarrow>
          if \<not> queued
          then (writeError w r 500 ''internal error'' ''INTERNAL'', p\<lparr>px_hub := (px_hub p)\<lparr>hub_disk := d\<rparr>\<rparr>)
          else (case px_store_object w ref it realms canonical ts d p of
              (ok, p) \<Rightarrow>
                if \<not> ok then (writeError w r 500 ''internal error'' ''INTERNAL'', p)
                else (write_body (encode_json (JObj [(''ref'', JStr ref), (''status'', JStr ''pending_sync'')]))
                       (with_status 202
                         (set_header ''ETag'' (revisionETag (item_Revision it)) initial_response)), p))))"

text \<open>The answer of the root hub to a forwarded write.\<close>

definition relay_put ::
  "world \<Rightarrow> request \<Rightarrow> ref \<Rightarrow> Item \<Rightarrow> bytes \<Rightarrow> up_response \<Rightarrow> Proxy \<Rightarrow> response \<times> Proxy" where
  "relay_put w r ref it canonical resp p =
     (if up_status resp = 200 \<or> up_status resp = 201 then
        (case CacheLocally w ref canonical p of
           (Some e, p) \<Rightarrow> (writeCacheError w r p ref e, p)
         | (None, p) \<Rightarrow> (write_body canonical (with_status (up_status resp)
               (set_header ''ETag'' (revisionETag (item_Revision it)) initial_response)), p))
      else if up_status resp = 409 then (forwardResponse w r resp, px_go (Fetch_Task ref) p)
      else (forwardResponse w r resp, p))"

definition px_put ::
  "world \<Rightarrow> network \<Rightarrow> request \<Rightarrow> ref \<Rightarrow> Item \<Rightarrow> InField \<Rightarrow> bytes \<Rightarrow> Proxy \<Rightarrow> response \<times> Proxy" where
  "px_put w net r ref it realms canonical p =
     (let ifMatch = req_header r ''If-Match'' in
      if \<not> IsGlobalObject realms \<and> px_UpstreamPush p \<noteq> ''all''
      then storePrivateLocally w r ref it canonical realms p
      else if w_bad_url w (px_url p ref) then (writeError w r 500 ''internal error'' ''INTERNAL'', p)
      else (case px_do net (put_json_request (px_url p ref)
               (if ifMatch \<noteq> [] then [(''If-Match'', ifMatch)] else [])) (Some canonical) p of
          (None, p) \<Rightarrow> storeLocallyWithPending w r ref it canonical realms p
        | (Some resp, p) \<Rightarrow> relay_put w r ref it canonical resp p))"

definition px_handlePutObject :: "world \<Rightarrow> network \<Rightarrow> request \<Rightarrow> Proxy \<Rightarrow> response \<times> Proxy" where
  "px_handlePutObject w net r p =
     (let ref = req_ref r in
      if \<not> IsValidRef ref then (writeError w r 404 ''object not found'' ''NOT_FOUND'', p)
      else (case req_body r of
          None \<Rightarrow> (writeError w r 400 ''failed to read body'' ''INVALID_OBJECT'', p)
        | Some body \<Rightarrow>
            if int (length body) > maxBodySize
            then (writeError w r 413 ''body too large (max 10MB)'' ''INVALID_OBJECT'', p)
            else (case px_put_checks w r ref body (px_index p) of
                Inl resp \<Rightarrow> (resp, p)
              | Inr (it, realms, canonical) \<Rightarrow> px_put w net r ref it realms canonical p)))"

section \<open>Lists\<close>

definition local_metas :: "request \<Rightarrow> Index \<Rightarrow> ObjectMeta list" where
  "local_metas r idx =
     (let membersOnly = req_query r ''members_only'' \<noteq> ''false'' in
      if req_ref r \<noteq> []
      then GetInbound idx (req_ref r) \<lparr>filter_Relation = req_query r ''relation'', filter_From = req_query r ''from'',
             filter_Type = req_query r ''type''\<rparr> (req_auth r) membersOnly
      else GetAll idx (req_query r ''by'') (req_query r ''type'') (req_auth r) membersOnly)"

definition serveLocalList :: "world \<Rightarrow> request \<Rightarrow> hub \<Rightarrow> response" where
  "serveLocalList w r h = write_page w r h (local_metas r (hub_index h))"

record ListResponse =
  lr_Items :: "bytes list"
  lr_Cursor :: "string option"
  lr_HasMore :: bool

definition dec_cursor :: "string option decoder" where
  "dec_cursor v j = (case j of JNull \<Rightarrow> (None, True) | JStr s \<Rightarrow> (Some s, True) | _ \<Rightarrow> (v, False))"

text \<open>Into \<open>[]json.RawMessage\<close>, from the raw value of each member of the name.\<close>

definition decode_raw_items :: "(string \<times> bytes) list \<Rightarrow> bytes list \<times> bool" where
  "decode_raw_items ms = foldl (\<lambda>(v, ok) (k, raw). case parse_json raw of
       Some JNull \<Rightarrow> ([], ok) | Some (JArr xs) \<Rightarrow> (raw_elems raw, ok) | _ \<Rightarrow> (v, False))
     ([], True) (filter (\<lambda>m. fold_name (fst m) = ''items'') ms)"

definition decode_ListResponse :: "bytes \<Rightarrow> ListResponse option" where
  "decode_ListResponse body = (case parse_json body of
      Some JNull \<Rightarrow> Some \<lparr>lr_Items = [], lr_Cursor = None, lr_HasMore = False\<rparr>
    | Some (JObj ms) \<Rightarrow>
        (let (items, ok1) = decode_raw_items (raw_members body);
             (cursor, ok2) = decode_field dec_cursor None ''cursor'' ms;
             (more', ok3) = decode_field dec_bool False ''has_more'' ms
         in if ok1 \<and> ok2 \<and> ok3 then Some \<lparr>lr_Items = items, lr_Cursor = cursor, lr_HasMore = more'\<rparr> else None)
    | _ \<Rightarrow> None)"

text \<open>\<open>extractSortKey\<close>: the five string fields of the item.\<close>

record sort_fields =
  sf_Pubkey :: string
  sf_ID :: string
  sf_Ref :: string
  sf_UpdatedAt :: string
  sf_CreatedAt :: string

definition dec_sort_fields :: "sort_fields decoder" where
  "dec_sort_fields v j = (case j of
      JNull \<Rightarrow> (v, True)
    | JObj ms \<Rightarrow>
        (let (a, ok1) = decode_field dec_string (sf_Pubkey v) ''pubkey'' ms;
             (b, ok2) = decode_field dec_string (sf_ID v) ''id'' ms;
             (c, ok3) = decode_field dec_string (sf_Ref v) ''ref'' ms;
             (d, ok4) = decode_field dec_string (sf_UpdatedAt v) ''updated_at'' ms;
             (e, ok5) = decode_field dec_string (sf_CreatedAt v) ''created_at'' ms
         in (\<lparr>sf_Pubkey = a, sf_ID = b, sf_Ref = c, sf_UpdatedAt = d, sf_CreatedAt = e\<rparr>,
             ok1 \<and> ok2 \<and> ok3 \<and> ok4 \<and> ok5))
    | _ \<Rightarrow> (v, False))"

definition extractSortKey :: "bytes \<Rightarrow> instant \<times> ref" where
  "extractSortKey raw =
     (let none = (zero_time, []) in
      case parse_json raw of
        Some (JObj ms) \<Rightarrow>
          (case decode_field dec_sort_fields
             \<lparr>sf_Pubkey = [], sf_ID = [], sf_Ref = [], sf_UpdatedAt = [], sf_CreatedAt = []\<rparr> ''item'' ms of
             (f, ok) \<Rightarrow>
               if \<not> ok then none
               else let ref = (if sf_Ref f = [] \<and> sf_Pubkey f \<noteq> [] \<and> sf_ID f \<noteq> []
                               then sf_Pubkey f @ ''.'' @ sf_ID f else sf_Ref f);
                        ts = (if sf_UpdatedAt f = [] then sf_CreatedAt f else sf_UpdatedAt f)
                    in (case parse_rfc3339 ts of Some t \<Rightarrow> t | None \<Rightarrow> zero_time, ref))
      | _ \<Rightarrow> none)"

text \<open>Merging two lists by time and reference, newest first.\<close>

record sortableItem =
  si_data :: bytes
  si_ref :: ref
  si_updatedAt :: instant

definition upstream_first :: "sortableItem \<Rightarrow> sortableItem \<Rightarrow> bool" where
  "upstream_first u l \<longleftrightarrow> si_updatedAt l < si_updatedAt u \<or>
     (si_updatedAt u = si_updatedAt l \<and> \<not> go_less (si_ref u) (si_ref l))"

fun merge_items :: "sortableItem list \<Rightarrow> sortableItem list \<Rightarrow> sortableItem list" where
  "merge_items [] ls = ls"
| "merge_items us [] = us"
| "merge_items (u # us) (l # ls) =
     (if upstream_first u l then u # merge_items us (l # ls) else l # merge_items (u # us) ls)"

definition upstream_items :: "bytes list \<Rightarrow> sortableItem list" where
  "upstream_items items = map (\<lambda>raw. case extractSortKey raw of
     (ts, ref) \<Rightarrow> \<lparr>si_data = raw, si_ref = ref, si_updatedAt = ts\<rparr>) items"

fun local_items :: "world \<Rightarrow> hub \<Rightarrow> ObjectMeta list \<Rightarrow> sortableItem list" where
  "local_items w h [] = []"
| "local_items w h (m # ms) = (case hub_read w h (meta_Ref m) of
     Inr (Some data) \<Rightarrow> \<lparr>si_data = (if meta_Type m = ''BLOB'' then stripBlobData data else data),
         si_ref = meta_Ref m, si_updatedAt = meta_UpdatedAt m\<rparr> # local_items w h ms
   | _ \<Rightarrow> local_items w h ms)"

definition private_metas :: "ObjectMeta list \<Rightarrow> ObjectMeta list" where
  "private_metas metas = filter (\<lambda>m. \<not> IsGlobalObject (meta_Realms m)) metas"

definition after_cursor :: "request \<Rightarrow> ObjectMeta list \<Rightarrow> ObjectMeta list" where
  "after_cursor r metas = (case parseCursor (req_query r ''cursor'') of
      None \<Rightarrow> metas | Some c \<Rightarrow> skip_to_cursor c metas)"

text \<open>The merged page: its items, and the cursor and flag that go with it.\<close>

definition merged_page ::
  "sortableItem list \<Rightarrow> int \<Rightarrow> bool \<Rightarrow> sortableItem list \<times> Cursor option \<times> bool" where
  "merged_page merged limit upMore =
     (let hasMore = (upMore \<or> int (length merged) > limit);
          page = (if int (length merged) > limit then take (nat limit) merged else merged);
          next = (if hasMore \<and> 0 < length page
            then Some \<lparr>cur_T = si_updatedAt (last page), cur_Ref = si_ref (last page)\<rparr> else None)
      in (page, next, hasMore))"

definition mergeLocalIntoUpstream :: "world \<Rightarrow> request \<Rightarrow> hub \<Rightarrow> ListResponse \<Rightarrow> response" where
  "mergeLocalIntoUpstream w r h up =
     (let metas = private_metas (local_metas r (hub_index h)) in
      if metas = [] then writeList (lr_Items up) (lr_Cursor up) (lr_HasMore up)
      else let limit = parseLimit (req_query r ''limit'') 50 200;
               metas = after_cursor r metas;
               merged = merge_items (upstream_items (lr_Items up)) (local_items w h metas);
               (page, next, hasMore) = merged_page merged limit (lr_HasMore up);
               items = map (\<lambda>m. (si_data m, si_ref m)) page;
               items = (if req_query r ''include'' = ''inbound_counts''
                        then enrichWithInboundCounts (hub_index h) items else Some items)
           in writeItems items (map_option (encode_cursor w) next) hasMore)"

text \<open>
  A list from the root hub must not show another edit of the same revision than \<open>GET\<close> does: every
  item that is stored at the same revision, and that the caller may read, is reconciled first.
\<close>

fun reconcile_items ::
  "world \<Rightarrow> network \<Rightarrow> request \<Rightarrow> bytes list \<Rightarrow> Proxy \<Rightarrow> response option \<times> Proxy" where
  "reconcile_items w net r [] p = (None, p)"
| "reconcile_items w net r (candidate # rest) p = (case ParseEnvelope candidate of
      Inl e \<Rightarrow> reconcile_items w net r rest p
    | Inr (env, it) \<Rightarrow>
        if (case GetMeta (px_index p) (item_Ref it) of None \<Rightarrow> True
            | Some m \<Rightarrow> meta_Revision m \<noteq> item_Revision it \<or>
                \<not> CanRead (meta_Realms m) (req_auth r) (Resolver (px_index p)))
        then reconcile_items w net r rest p
        else if item_Type it = ''BLOB'' then
          (case syncFromUpstream w net r (item_Ref it) False p of
             (Some resp, p) \<Rightarrow> (Some resp, p)
           | (None, p) \<Rightarrow> reconcile_items w net r rest p)
        else (case CacheLocally w (item_Ref it) candidate p of
             (Some e, p) \<Rightarrow> (Some (writeCacheError w r p (item_Ref it) e), p)
           | (None, p) \<Rightarrow> reconcile_items w net r rest p))"

definition forwardListEndpoint ::
  "world \<Rightarrow> network \<Rightarrow> request \<Rightarrow> string \<Rightarrow> Proxy \<Rightarrow> response \<times> Proxy" where
  "forwardListEndpoint w net r upstreamPath p =
     (let url = cl_baseURL (px_client p) @ upstreamPath in
      if w_bad_url w url then (writeError w r 500 ''internal error'' ''INTERNAL'', p)
      else (case px_do net (get_json_request url) None p of
          (None, p) \<Rightarrow> (serveLocalList w r (px_hub p), p)
        | (Some resp, p) \<Rightarrow>
            if IsDown (up_status resp) \<or> up_status resp = 404 then (serveLocalList w r (px_hub p), p)
            else if up_status resp < 200 \<or> 300 \<le> up_status resp then (forwardResponse w r resp, p)
            else let body = up_body_bytes resp in
              (case decode_ListResponse body of
                 None \<Rightarrow> (write_body body (with_status (up_status resp) initial_response), p)
               | Some up \<Rightarrow> (case reconcile_items w net r (lr_Items up) p of
                     (Some resp, p) \<Rightarrow> (resp, p)
                   | (None, p) \<Rightarrow> (let p = px_go (List_Task body) p
                       in (mergeLocalIntoUpstream w r (px_hub p) up, p))))))"

definition handleSearch :: "world \<Rightarrow> network \<Rightarrow> request \<Rightarrow> Proxy \<Rightarrow> response \<times> Proxy" where
  "handleSearch w net r p = forwardListEndpoint w net r (''/search?'' @ req_rawquery r) p"

definition handleInbound :: "world \<Rightarrow> network \<Rightarrow> request \<Rightarrow> Proxy \<Rightarrow> response \<times> Proxy" where
  "handleInbound w net r p =
     (let ref = req_ref r in
      if \<not> IsValidRef ref then (writeError w r 404 ''object not found'' ''NOT_FOUND'', p)
      else forwardListEndpoint w net r (''/'' @ ref @ ''/inbound?'' @ req_rawquery r) p)"

section \<open>Background tasks\<close>

fun cache_list_refs :: "world \<Rightarrow> network \<Rightarrow> bytes list \<Rightarrow> Proxy \<Rightarrow> Proxy" where
  "cache_list_refs w net [] p = p"
| "cache_list_refs w net (raw # rest) p =
     (let ref = snd (extractSortKey raw) in
      if ref = [] \<or> GetMeta (px_index p) ref \<noteq> None then cache_list_refs w net rest p
      else cache_list_refs w net rest (ensureFresh w net ref p))"

definition cacheUpstreamListRefs :: "world \<Rightarrow> network \<Rightarrow> bytes \<Rightarrow> Proxy \<Rightarrow> Proxy" where
  "cacheUpstreamListRefs w net body p = (case decode_ListResponse body of
      None \<Rightarrow> p | Some resp \<Rightarrow> cache_list_refs w net (lr_Items resp) p)"

definition run_task :: "world \<Rightarrow> network \<Rightarrow> task \<Rightarrow> Proxy \<Rightarrow> Proxy" where
  "run_task w net t p = (case t of
      Push_Task ref data \<Rightarrow> pushToUpstream w net ref data p
    | Fetch_Task ref \<Rightarrow> fetchAndCacheFromUpstream w net ref p
    | List_Task body \<Rightarrow> cacheUpstreamListRefs w net body p)"

end
