(* ===== verification/Store_Realms.thy ===== *)
theory Store_Realms
  imports Store_Index
begin

text \<open>
  The index and the realm graph it feeds (\<open>storage/index.go\<close> with \<open>realm/graph.go\<close>). An index is
  changed one object at a time; shown is that the realms it knows are always exactly the valid
  \<open>SHARED_REALM\<close> objects among the objects it knows, each with its own revision and members.
\<close>

definition entry_of :: "Item \<Rightarrow> string list \<Rightarrow> realmEntry" where
  "entry_of it ms = \<lparr>re_owner = item_Pubkey it, re_members = ms, re_revision = item_Revision it,
     re_ref = item_Ref it\<rparr>"

text \<open>The realm entry an object declares for a name.\<close>

definition declares :: "objects \<Rightarrow> string \<Rightarrow> realmEntry \<Rightarrow> bool" where
  "declares objs n e \<longleftrightarrow> (\<exists>ref it ts rs ms. objs ref = Some (it, ts, rs) \<and>
     ParseSharedRealm it = Inr (n, ms) \<and> e = entry_of it ms)"

text \<open>Every object is known under its own reference, as the write handler makes sure.\<close>

definition keyed :: "objects \<Rightarrow> bool" where
  "keyed objs \<longleftrightarrow> (\<forall>ref it ts rs. objs ref = Some (it, ts, rs) \<longrightarrow> item_Ref it = ref)"

definition graph_repr :: "objects \<Rightarrow> Index \<Rightarrow> bool" where
  "graph_repr objs idx \<longleftrightarrow> (case idx_graph idx of None \<Rightarrow> True
     | Some g \<Rightarrow> \<forall>n e. mget (gr_realms g) n = Some e \<longleftrightarrow> declares objs n e)"

definition indexed :: "objects \<Rightarrow> Index \<Rightarrow> bool" where
  "indexed objs idx \<longleftrightarrow> represents objs idx \<and> keyed objs \<and> graph_repr objs idx"

section \<open>One realm per reference\<close>

lemma declared_ref:
  "declares objs n e \<Longrightarrow> keyed objs \<Longrightarrow> RealmRef n = Some (re_ref e) \<and>
     (\<exists>it ts rs ms. objs (re_ref e) = Some (it, ts, rs) \<and> ParseSharedRealm it = Inr (n, ms) \<and> e = entry_of it ms)"
  unfolding declares_def keyed_def entry_of_def using ParseSharedRealm_ref by fastforce

lemma declared_unique:
  "declares objs n e \<Longrightarrow> declares objs n' e' \<Longrightarrow> keyed objs \<Longrightarrow> re_ref e = re_ref e' \<Longrightarrow> n = n' \<and> e = e'"
  using declared_ref [of objs n e] declared_ref [of objs n' e'] by fastforce

lemma declaresI:
  "objs ref = Some (it, ts, rs) \<Longrightarrow> ParseSharedRealm it = Inr (n, ms) \<Longrightarrow> declares objs n (entry_of it ms)"
  unfolding declares_def by blast

lemma declares_put:
  assumes "objs ref = None"
  shows "declares (objs(ref \<mapsto> (it, ts, rs))) n e \<longleftrightarrow>
       (\<exists>ms. ParseSharedRealm it = Inr (n, ms) \<and> e = entry_of it ms) \<or> declares objs n e"
    (is "declares ?objs n e \<longleftrightarrow> ?now \<or> _")
proof
  assume "declares ?objs n e"
  then obtain q jt ts' rs' ms where q: "?objs q = Some (jt, ts', rs')" "ParseSharedRealm jt = Inr (n, ms)"
    and e: "e = entry_of jt ms" unfolding declares_def by blast
  show "?now \<or> declares objs n e"
  proof (cases "q = ref")
    case True
    with q e show ?thesis by simp
  next
    case False
    with q e declaresI [of objs q] show ?thesis by simp
  qed
next
  assume "?now \<or> declares objs n e"
  then show "declares ?objs n e"
  proof
    assume ?now
    then show ?thesis using declaresI [of ?objs ref it ts rs] by auto
  next
    assume "declares objs n e"
    then obtain q jt ts' rs' ms where q: "objs q = Some (jt, ts', rs')" "ParseSharedRealm jt = Inr (n, ms)"
      and e: "e = entry_of jt ms" unfolding declares_def by blast
    from q(1) assms have "?objs q = Some (jt, ts', rs')" by auto
    with e q(2) show ?thesis unfolding declares_def by blast
  qed
qed

lemma declares_del:
  assumes "keyed objs"
  shows "declares (objs(ref := None)) n e \<longleftrightarrow> declares objs n e \<and> re_ref e \<noteq> ref"
  using assms unfolding declares_def keyed_def entry_of_def by (fastforce split: if_splits)

section \<open>The graph follows the objects\<close>

lemma graph_Remove_entry:
  assumes wf: "mwf (gr_realms g)"
    and one: "\<And>n e n' e'. mget (gr_realms g) n = Some e \<Longrightarrow> mget (gr_realms g) n' = Some e' \<Longrightarrow>
      re_ref e = re_ref e' \<Longrightarrow> n = n'"
  shows "mget (gr_realms (graph_Remove ref g)) n = Some e \<longleftrightarrow>
    mget (gr_realms g) n = Some e \<and> re_ref e \<noteq> ref"
proof (cases "find (\<lambda>(name, e). re_ref e = ref) (gr_realms g)")
  case None
  then have "re_ref e \<noteq> ref" if "mget (gr_realms g) n = Some e" for n e
    using that wf by (auto simp: find_None_iff mget_iff_in)
  with None show ?thesis by (auto simp: graph_Remove_def)
next
  case (Some q)
  obtain k f where q: "q = (k, f)" by (cases q)
  from find_entry [OF wf Some [unfolded q]] have k: "mget (gr_realms g) k = Some f" "re_ref f = ref" by auto
  have only: "n = k" if "mget (gr_realms g) n = Some e" "re_ref e = ref"
    using one [OF that(1) k(1)] that(2) k(2) by simp
  have "mget (gr_realms g) n = Some e \<and> re_ref e \<noteq> ref \<longleftrightarrow> n \<noteq> k \<and> mget (gr_realms g) n = Some e"
  proof (cases "n = k")
    case True
    with k show ?thesis by auto
  next
    case False
    with only show ?thesis by blast
  qed
  moreover have "gr_realms (graph_Remove ref g) = mdel k (gr_realms g)"
    using Some q by (simp add: graph_Remove_def)
  ultimately show ?thesis by simp
qed

lemma graph_of_index:
  "represents objs idx \<Longrightarrow> idx_graph idx = Some g \<Longrightarrow> graph_ok g"
  using representsD(6) [of objs idx] by (simp add: idx_merged_ok graph_opt_ok_def)

lemma parsed_type: "ParseSharedRealm it = Inr (n, ms) \<Longrightarrow> item_Type it = TypeSharedRealm"
  by (simp add: ParseSharedRealm_def split: if_splits)

lemma graph_repr_remove:
  assumes rep: "represents objs idx" and key: "keyed objs" and gr: "graph_repr objs idx"
  shows "graph_repr (objs(ref := None)) (removeLocked ref idx)"
proof (cases "objs ref")
  case None
  then have "objs(ref := None) = objs" by auto
  with gr removeLocked_absent [OF rep None] show ?thesis by simp
next
  case (Some x)
  obtain it ts rs where x: "x = (it, ts, rs)" by (cases x)
  have m: "mget (idx_meta idx) ref = Some (meta_of ref it ts rs)"
    using representsD(2) [OF rep, of ref] Some x by simp
  show ?thesis
  proof (cases "idx_graph idx")
    case None
    then show ?thesis using removeLocked_fields(5) [OF m] by (simp add: graph_repr_def)
  next
    case g: (Some g)
    have repr: "mget (gr_realms g) n = Some e \<longleftrightarrow> declares objs n e" for n e
      using gr g by (simp add: graph_repr_def)
    show ?thesis
    proof (cases "item_Type it = TypeSharedRealm")
      case True
      have one: "n = n'" if "mget (gr_realms g) n = Some e" "mget (gr_realms g) n' = Some e'" "re_ref e = re_ref e'"
        for n e n' e'
        using declared_unique [OF _ _ key that(3)] that(1,2) repr by blast
      have "mget (gr_realms (graph_Remove ref g)) n = Some e \<longleftrightarrow> mget (gr_realms g) n = Some e \<and> re_ref e \<noteq> ref"
        for n e by (rule graph_Remove_entry [OF graph_okD(1) [OF graph_of_index [OF rep g]]]) (rule one)
      then show ?thesis
        using removeLocked_fields(5) [OF m] True g repr
        by (simp add: graph_repr_def declares_del [OF key] meta_of_def)
    next
      case False
      have "re_ref e \<noteq> ref" if "declares objs n e" for n e
        using declared_ref [OF that key] Some x False parsed_type by auto
      then show ?thesis
        using removeLocked_fields(5) [OF m] False g repr
        by (auto simp: graph_repr_def declares_del [OF key] meta_of_def)
    qed
  qed
qed

lemma graph_repr_add:
  assumes rep: "represents objs idx" and key: "keyed objs" and gr: "graph_repr objs idx"
    and new: "objs ref = None" and ref: "item_Ref it = ref"
  shows "graph_repr (objs(ref \<mapsto> (it, ts, rs))) (addLocked ref it ts realms idx)"
proof (cases "idx_graph idx")
  case None
  then show ?thesis by (simp add: graph_repr_def addLocked_fields)
next
  case g: (Some g)
  have repr: "mget (gr_realms g) n = Some e \<longleftrightarrow> declares objs n e" for n e
    using gr g by (simp add: graph_repr_def)
  show ?thesis
  proof (cases "ParseSharedRealm it")
    case (Inl e)
    then show ?thesis
      using g repr by (simp add: graph_repr_def addLocked_fields graph_Add_ignores declares_put [where objs = objs and ref = ref, OF new])
  next
    case (Inr p)
    obtain k ms where p: "p = (k, ms)" by (cases p)
    have "mget (gr_realms g) k = None"
    proof (rule ccontr)
      assume "mget (gr_realms g) k \<noteq> None"
      then obtain e where "declares objs k e" using repr by blast
      from declared_ref [OF this key] ParseSharedRealm_ref [OF Inr [unfolded p]] ref new show False by auto
    qed
    then have at: "mget (gr_realms (graph_Add it g)) k = Some (entry_of it ms)"
      using graph_Add_entry [OF graph_of_index [OF rep g] Inr [unfolded p]] by (simp add: entry_of_def)
    have other: "\<not> declares objs k e" for e using \<open>mget (gr_realms g) k = None\<close> repr [of k] by auto
    have "mget (gr_realms (graph_Add it g)) n = Some e \<longleftrightarrow>
        (\<exists>ms. ParseSharedRealm it = Inr (n, ms) \<and> e = entry_of it ms) \<or> declares objs n e" for n e
      using at other graph_Add_other [OF Inr [unfolded p], of n g] repr Inr p by (cases "n = k") auto
    then show ?thesis
      using g parsed_type [OF Inr [unfolded p]]
      by (simp add: graph_repr_def addLocked_fields declares_put [where objs = objs and ref = ref, OF new])
  qed
qed

lemma indexed_remove: "indexed objs idx \<Longrightarrow> indexed (objs(ref := None)) (idx_Remove ref idx)"
  using removeLocked_represents graph_repr_remove
  by (auto simp: indexed_def idx_Remove_def keyed_def split: if_splits)

lemma indexed_update:
  assumes "indexed objs idx" and "item_Ref it = ref"
  shows "indexed (objs(ref \<mapsto> (it, ts, resolved_realms it realms))) (idx_Update ref it ts realms idx)"
proof -
  have r: "indexed (objs(ref := None)) (removeLocked ref idx)"
    using indexed_remove [OF assms(1)] by (simp add: idx_Remove_def)
  have "graph_repr ((objs(ref := None))(ref \<mapsto> (it, ts, resolved_realms it realms)))
      (addLocked ref it ts realms (removeLocked ref idx))"
    by (rule graph_repr_add) (use r assms(2) in \<open>auto simp: indexed_def\<close>)
  moreover have "keyed (objs(ref \<mapsto> (it, ts, resolved_realms it realms)))"
    using assms by (auto simp: indexed_def keyed_def)
  ultimately show ?thesis
    using idx_Update_represents [of objs idx] assms(1) by (simp add: indexed_def idx_Update_def)
qed

lemma indexed_new: "toml_ok shared \<Longrightarrow> indexed Map.empty (NewIndex shared)"
  unfolding indexed_def
  by (intro conjI NewIndex_represents)
    (simp_all add: keyed_def graph_repr_def declares_def NewIndex_def NewGraphSharedRealms_def)

section \<open>Properties\<close>

inductive idx_reach :: "SharedRealms option \<Rightarrow> objects \<Rightarrow> Index \<Rightarrow> bool" for shared where
  new: "idx_reach shared Map.empty (NewIndex shared)"
| update: "idx_reach shared objs idx \<Longrightarrow> item_Ref it = ref \<Longrightarrow>
    idx_reach shared (objs(ref \<mapsto> (it, ts, resolved_realms it realms))) (idx_Update ref it ts realms idx)"
| remove: "idx_reach shared objs idx \<Longrightarrow> idx_reach shared (objs(ref := None)) (idx_Remove ref idx)"

lemma idx_reach_indexed: "idx_reach shared objs idx \<Longrightarrow> toml_ok shared \<Longrightarrow> indexed objs idx"
  by (induction rule: idx_reach.induct) (auto intro: indexed_new indexed_update indexed_remove)

lemma idx_reach_fields:
  "idx_reach shared objs idx \<Longrightarrow> idx_shared idx = shared \<and> idx_graph idx \<noteq> None"
proof (induction rule: idx_reach.induct)
  case new
  show ?case by (simp add: NewIndex_def)
next
  case (update objs idx it ref ts realms)
  have "idx_shared (removeLocked ref idx) = idx_shared idx" "idx_graph (removeLocked ref idx) \<noteq> None"
    using update.IH by (auto simp: removeLocked_def Let_def split: option.splits)
  with update.IH show ?case by (auto simp: idx_Update_def addLocked_fields)
next
  case (remove objs idx ref)
  then show ?case by (auto simp: idx_Remove_def removeLocked_def Let_def split: option.splits)
qed

text \<open>
  C24 Whatever updates and removals an index has seen, the shared realms it knows are exactly the
  configured ones and those that a stored, valid \<open>SHARED_REALM\<close> object declares, and a key is a
  member of a declared realm exactly when the stored revision of that object lists it: replacing or
  deleting the object withdraws the memberships it gave.
\<close>

theorem realms_follow_objects:
  assumes "idx_reach shared objs idx" and "toml_ok shared"
  shows "(merged_IsSharedRealm (idx_merged idx) n \<longleftrightarrow> toml_IsSharedRealm shared n \<or> (\<exists>e. declares objs n e)) \<and>
    (merged_IsMember (idx_merged idx) n pk \<longleftrightarrow> toml_IsMember shared n pk \<or>
       pk \<noteq> [] \<and> (\<exists>e. declares objs n e \<and> pk \<in> set (re_members e)))"
proof -
  obtain g where g: "idx_graph idx = Some g" and sh: "idx_shared idx = shared"
    using idx_reach_fields [OF assms(1)] by auto
  have repr: "mget (gr_realms g) n = Some e \<longleftrightarrow> declares objs n e" for e
    using idx_reach_indexed [OF assms] g by (simp add: indexed_def graph_repr_def)
  have "mg_Graph (idx_merged idx) = Some g" "mg_Toml (idx_merged idx) = shared"
    by (simp_all add: idx_merged_def NewMerged_def g sh)
  then show ?thesis
    by (simp add: merged_shared_iff merged_member_iff graph_IsMember_iff graph_IsSharedRealm_def repr)
qed

theorem realms_follow_objects_witness:
  "merged_IsMember (idx_merged (idx_Update (item_Ref (demo_realm_object 1 [demo_member]))
      (demo_realm_object 1 [demo_member]) 5 [[''dataverse001'']] (NewIndex (Some [])))) demo_realm demo_member"
proof -
  let ?it = "demo_realm_object 1 [demo_member]"
  have r: "idx_reach (Some []) (Map.empty(item_Ref ?it \<mapsto> (?it, 5, resolved_realms ?it [[''dataverse001'']])))
      (idx_Update (item_Ref ?it) ?it 5 [[''dataverse001'']] (NewIndex (Some [])))"
    by (rule idx_reach.update [OF idx_reach.new]) simp
  have "demo_member \<noteq> []" by (simp add: demo_member_def)
  moreover have "declares (Map.empty(item_Ref ?it \<mapsto> (?it, 5, resolved_realms ?it [[''dataverse001'']])))
      demo_realm (entry_of ?it [demo_member])"
    unfolding declares_def using demo_parse [of 1] by fastforce
  moreover have "demo_member \<in> set (re_members (entry_of ?it [demo_member]))" by (simp add: entry_of_def)
  moreover have "toml_ok (Some [])" by (simp add: toml_ok_def mwf_def)
  ultimately show ?thesis using realms_follow_objects [OF r] by blast
qed

end
