(* ===== verification/Object_Sample.thy ===== *)
theory Object_Sample
  imports Object_Verify Store_Files
begin

text \<open>
  A signed note at two revisions, as bytes, with what the operations of package \<open>object\<close> make of it.
  It is the object of the concrete runs of the handlers.
\<close>

definition sample_key :: string where
  "sample_key = ''AxUJmGQ24rmhe5zL3Slm12xAq8bqxlzZMnLbHJ9QHxBl''"

definition sample_id :: string where
  "sample_id = ''b3f5a7c9-6d4e-4f60-9b70-0a1c2d3e4f50''"

definition sample_raw :: "string \<Rightarrow> json" where
  "sample_raw revision = JObj [(''id'', JStr sample_id), (''pubkey'', JStr sample_key),
     (''created_at'', JStr ''1970-01-01T00:00:00Z''), (''revision'', JNum revision), (''type'', JStr ''NOTE'')]"

definition sample_json :: "string \<Rightarrow> json" where
  "sample_json revision = JObj [(''in'', JArr [JStr ''dataverse001'']), (''signature'', JStr ''MAYCAQMCAQQ=''),
     (''item'', sample_raw revision)]"

definition sample_body :: "string \<Rightarrow> bytes" where
  "sample_body revision = ''{\"in\":[\"dataverse001\"],\"signature\":\"MAYCAQMCAQQ=\",\"item\":{\"id\":\"'' @ sample_id @
     ''\",\"pubkey\":\"'' @ sample_key @ ''\",\"created_at\":\"1970-01-01T00:00:00Z\",\"revision\":'' @ revision @
     '',\"type\":\"NOTE\"}}''"

definition sample_canonical :: "string \<Rightarrow> bytes" where
  "sample_canonical revision = ''{\"in\":[\"dataverse001\"],\"item\":{\"created_at\":\"1970-01-01T00:00:00Z\",\"id\":\"'' @
     sample_id @ ''\",\"pubkey\":\"'' @ sample_key @ ''\",\"revision\":'' @ revision @
     '',\"type\":\"NOTE\"},\"signature\":\"MAYCAQMCAQQ=\"}''"

definition sample_item :: "int \<Rightarrow> Item" where
  "sample_item n = zero_Item\<lparr>item_ID := sample_id, item_Pubkey := sample_key,
     item_CreatedAt := ''1970-01-01T00:00:00Z'', item_Revision := n, item_Type := ''NOTE''\<rparr>"

definition sample_envelope :: "string \<Rightarrow> Envelope" where
  "sample_envelope revision = \<lparr>env_Is = [], env_In = [''dataverse001''], env_Signature = ''MAYCAQMCAQQ='',
     env_Item = Some (sample_raw revision)\<rparr>"

section \<open>Parsing\<close>

lemma sample_parse_json:
  "parse_json (sample_body ''1'') = Some (sample_json ''1'')"
  "parse_json (sample_body ''2'') = Some (sample_json ''2'')"
  "parse_json (sample_canonical ''1'') = Some (JObj [(''in'', JArr [JStr ''dataverse001'']),
     (''item'', JObj [(''created_at'', JStr ''1970-01-01T00:00:00Z''), (''id'', JStr sample_id),
        (''pubkey'', JStr sample_key), (''revision'', JNum ''1''), (''type'', JStr ''NOTE'')]),
     (''signature'', JStr ''MAYCAQMCAQQ='')])"
proof -
  have "parse_depth 2 (sample_body ''1'') = Some (sample_json ''1'')" by code_simp
  then show "parse_json (sample_body ''1'') = Some (sample_json ''1'')" by (rule parse_depth_json) simp
  have "parse_depth 2 (sample_body ''2'') = Some (sample_json ''2'')" by code_simp
  then show "parse_json (sample_body ''2'') = Some (sample_json ''2'')" by (rule parse_depth_json) simp
  show "parse_json (sample_canonical ''1'') = Some (JObj [(''in'', JArr [JStr ''dataverse001'']),
     (''item'', JObj [(''created_at'', JStr ''1970-01-01T00:00:00Z''), (''id'', JStr sample_id),
        (''pubkey'', JStr sample_key), (''revision'', JNum ''1''), (''type'', JStr ''NOTE'')]),
     (''signature'', JStr ''MAYCAQMCAQQ='')])"
    by (rule parse_depth_json [where n = 2]) (code_simp, simp)
qed

lemma sample_decode:
  "decode_Envelope (sample_json r) = Some (sample_envelope r)"
  "decode_Item (sample_raw ''1'') = Some (sample_item 1)"
  "decode_Item (sample_raw ''2'') = Some (sample_item 2)"
  by code_simp+

lemma sample_ParseEnvelope:
  "ParseEnvelope (sample_body ''1'') = Inr (sample_envelope ''1'', sample_item 1)"
  "ParseEnvelope (sample_body ''2'') = Inr (sample_envelope ''2'', sample_item 2)"
  by (simp_all add: ParseEnvelope_def unmarshal_Envelope_def unmarshal_Item_def sample_parse_json
      sample_decode sample_envelope_def)

lemma sample_CanonicalJSON:
  "CanonicalJSON (sample_body ''1'') = Some (sample_canonical ''1'')"
  "CanonicalJSON (sample_body ''2'') = Some (sample_canonical ''2'')"
proof -
  have "canonical_tree (sample_json ''1'') = Some (sample_canonical ''1'')"
    "canonical_tree (sample_json ''2'') = Some (sample_canonical ''2'')" by code_simp+
  then show "CanonicalJSON (sample_body ''1'') = Some (sample_canonical ''1'')"
    "CanonicalJSON (sample_body ''2'') = Some (sample_canonical ''2'')"
    by (simp_all add: CanonicalJSON_def sample_parse_json)
qed

lemma sample_item_simps [simp]:
  "item_Revision (sample_item n) = n" "item_Type (sample_item n) = ''NOTE''"
  "item_Pubkey (sample_item n) = sample_key" "item_In (sample_item n) = []"
  "item_Ref (sample_item n) = demo_ref"
  by (simp_all add: sample_item_def zero_Item_def item_Ref_def sample_key_def sample_id_def demo_ref_def)

lemma sample_realms [simp]: "ResolveIn (sample_envelope r) (sample_item n) = [''dataverse001'']"
  by (simp add: ResolveIn_def sample_envelope_def)

lemma sample_timestamp: "item_Timestamp (sample_item n) = Some 0"
  by code_simp

lemma sample_verified:
  "VerifyEnvelope calm_world (sample_body ''1'') = None"
  "VerifyEnvelope calm_world (sample_body ''2'') = None"
proof -
  have key: "map_option length (raw_url_decode sample_key) = Some 33" by code_simp
  note sig = demo_signature_bytes
  have can: "canonical_tree (sample_raw ''1'') \<noteq> None" "canonical_tree (sample_raw ''2'') \<noteq> None" by code_simp+
  have ne: "sample_key \<noteq> []" "sample_id \<noteq> []" by (simp_all add: sample_key_def sample_id_def)
  have "check_signature calm_world sample_key raw ''MAYCAQMCAQQ='' = None" if "canonical_tree raw \<noteq> None" for raw
    using that key sig by (auto simp: check_signature_def DecompressP256_def calm_world_def)
  with can ne show "VerifyEnvelope calm_world (sample_body ''1'') = None"
    "VerifyEnvelope calm_world (sample_body ''2'') = None"
    unfolding VerifyEnvelope_None sample_ParseEnvelope
    by (simp_all add: sample_item_def zero_Item_def sample_envelope_def ResolveIn_def)
qed

end
