(* ===== verification/Serving_Writes.thy ===== *)
theory Serving_Writes
  imports Serving_Router Store_Realms Object_Sample
begin

text \<open>
  What writing an object to the hub achieves: \<open>handlePutObject\<close> over single requests and over runs of
  the server. Shown are the exact outcome of a write, that everything a run stores was signed,
  that revisions only grow, and what a failing disk does to an object that is being replaced.
\<close>

section \<open>Acceptance\<close>

text \<open>The checks before the lock, as one predicate.\<close>

definition accepted_put ::
  "world \<Rightarrow> ref \<Rightarrow> bytes \<Rightarrow> Index \<Rightarrow> Item \<Rightarrow> InField \<Rightarrow> bytes \<Rightarrow> instant \<Rightarrow> bool" where
  "accepted_put w ref body idx it realms canonical ts \<longleftrightarrow>
     (\<exists>env. ParseEnvelope body = Inr (env, it) \<and> realms = ResolveIn env it) \<and>
     list_all (\<lambda>realm. \<not> IsPubkeyRealm realm \<or> realm = item_Pubkey it) realms \<and>
     ValidateRealmsForPut realms (item_Pubkey it) (Resolver idx) \<and>
     (item_Type it = TypeSharedRealm \<longrightarrow> (\<exists>p. ParseSharedRealm it = Inr p)) \<and>
     item_Ref it = ref \<and> VerifyEnvelope w body = None \<and> CanonicalJSON body = Some canonical \<and>
     item_Timestamp it = Some ts"

lemma put_checks_Inr:
  "put_checks w r ref body idx = Inr (it, realms, canonical, ts) \<longleftrightarrow>
     accepted_put w ref body idx it realms canonical ts"
  unfolding put_checks_def accepted_put_def Let_def
  by (auto simp: list_ex_iff list_all_iff split: sum.splits option.splits if_splits)

lemma writeError_not_ok: "put_checks w r ref body idx = Inl resp \<Longrightarrow> 400 \<le> resp_status resp"
  unfolding put_checks_def Let_def by (auto split: sum.splits option.splits if_splits)

lemma accepted_realms: "accepted_put w ref body idx it realms canonical ts \<Longrightarrow> realms \<noteq> []"
  by (auto simp: accepted_put_def VerifyEnvelope_None)

section \<open>The critical section\<close>

text \<open>The disk after the backup of what is stored.\<close>

definition backed_up :: "world \<Rightarrow> Store \<Rightarrow> ref \<Rightarrow> ObjectMeta option \<Rightarrow> disk \<Rightarrow> disk" where
  "backed_up w s ref existing d = (case existing of
      Some m \<Rightarrow> snd (Backup w s ref (meta_Revision m) d) | None \<Rightarrow> d)"

lemma Read_backed_up:
  assumes "IsValidRef ref" and "Read w' s (backed_up w s ref existing d) ref = Inr x"
  shows "x = None \<or> Read w' s d ref = Inr x"
  using assms(2) backup_not_live [OF assms(1,1)]
  by (auto simp: backed_up_def Read_def Backup_def Let_def split: option.splits if_splits)

lemma Read_backed_up_other:
  "IsValidRef ref \<Longrightarrow> IsValidRef q \<Longrightarrow> q \<noteq> ref \<Longrightarrow>
     Read w' s (backed_up w s ref existing d) q = Read w' s d q"
  by (simp add: backed_up_def Backup_other split: option.split)

text \<open>The three ways through the critical section.\<close>

lemma put_commit_cases:
  assumes "put_commit w r h ref it realms canonical ts = (resp, h')"
  obtains (refused) "checkConditionalWrite w r (req_header r ''If-Match'') (GetMeta (hub_index h) ref)
        (item_Revision it) = Some resp" "h' = h"
  | (failed) e d where "checkConditionalWrite w r (req_header r ''If-Match'') (GetMeta (hub_index h) ref)
        (item_Revision it) = None"
      "Write w (hub_store h) ref canonical ts
         (backed_up w (hub_store h) ref (GetMeta (hub_index h) ref) (hub_disk h)) = (Some e, d)"
      "h' = h\<lparr>hub_disk := d\<rparr>" "resp_status resp = 500"
  | (stored) d where "checkConditionalWrite w r (req_header r ''If-Match'') (GetMeta (hub_index h) ref)
        (item_Revision it) = None"
      "Write w (hub_store h) ref canonical ts
         (backed_up w (hub_store h) ref (GetMeta (hub_index h) ref) (hub_disk h)) = (None, d)"
      "hub_store h' = hub_store h" "hub_disk h' = d"
      "hub_index h' = idx_Update ref it ts [realms] (hub_index h)"
      "resp_status resp = (if GetMeta (hub_index h) ref = None then 201 else 200)"
      "resp_body resp = canonical" "resp_header resp ''ETag'' = revisionETag (item_Revision it)"
proof (cases "checkConditionalWrite w r (req_header r ''If-Match'') (GetMeta (hub_index h) ref) (item_Revision it)")
  case (Some x)
  with assms have "x = resp" "h' = h" by (simp_all add: put_commit_def Let_def)
  with Some refused show ?thesis by blast
next
  case None
  obtain err d where wr: "Write w (hub_store h) ref canonical ts
      (backed_up w (hub_store h) ref (GetMeta (hub_index h) ref) (hub_disk h)) = (err, d)" by fastforce
  show ?thesis
  proof (cases err)
    case (Some e)
    from assms None wr Some have "h' = h\<lparr>hub_disk := d\<rparr>" "resp_status resp = 500"
      by (auto simp: put_commit_def backed_up_def Let_def)
    then show ?thesis using failed [OF None wr [unfolded Some]] by blast
  next
    case err: None
    show ?thesis
      by (rule stored [OF None wr [unfolded err]])
        (use assms None wr err in \<open>auto simp: put_commit_def backed_up_def Let_def\<close>)
  qed
qed

lemma put_cases:
  assumes "handlePutObject w r h = (resp, h')"
  obtains (refused) "h' = h" "400 \<le> resp_status resp"
  | (committed) body it realms canonical ts where "IsValidRef (req_ref r)" "req_body r = Some body"
      "int (length body) \<le> maxBodySize"
      "accepted_put w (req_ref r) body (hub_index h) it realms canonical ts"
      "put_commit w r h (req_ref r) it realms canonical ts = (resp, h')"
proof (cases "IsValidRef (req_ref r)")
  case False
  with assms refused show ?thesis by (auto simp: handlePutObject_def Let_def)
next
  case True
  show ?thesis
  proof (cases "req_body r")
    case None
    with True assms refused show ?thesis by (auto simp: handlePutObject_def Let_def)
  next
    case (Some body)
    consider "maxBodySize < int (length body)"
      | x where "int (length body) \<le> maxBodySize" "put_checks w r (req_ref r) body (hub_index h) = Inl x"
      | it realms canonical ts where "int (length body) \<le> maxBodySize"
          "put_checks w r (req_ref r) body (hub_index h) = Inr (it, realms, canonical, ts)"
      by (cases "put_checks w r (req_ref r) body (hub_index h)") force+
    then show ?thesis
    proof cases
      case 1
      with True Some assms refused show ?thesis by (auto simp: handlePutObject_def Let_def)
    next
      case (2 x)
      with True Some assms refused writeError_not_ok [OF 2(2)] show ?thesis
        by (auto simp: handlePutObject_def Let_def)
    next
      case (3 it realms canonical ts)
      show ?thesis
        by (rule committed [OF True Some 3(1)])
          (use True Some assms 3 in \<open>auto simp: handlePutObject_def Let_def put_checks_Inr\<close>)
    qed
  qed
qed

lemma conditional_not_ok:
  "checkConditionalWrite w r ifMatch existing n = Some resp \<Longrightarrow> 400 \<le> resp_status resp"
  by (auto dest: checkConditionalWrite_status)

section \<open>One write\<close>

lemma GetMeta_objs: "represents objs idx \<Longrightarrow> GetMeta idx ref = map_option (\<lambda>(it, ts, rs). meta_of ref it ts rs) (objs ref)"
  by (simp add: GetMeta_def representsD(2))

lemma indexedD: "indexed objs idx \<Longrightarrow> represents objs idx"
  by (simp add: indexed_def)

lemma Write_stored:
  "Write w s ref b t d = (None, d') \<Longrightarrow> mget d' (live_path s ref) = Some (b, t)"
  by (auto simp: Write_def Let_def split: if_splits)

lemma indexed_put:
  assumes "indexed objs idx" and "accepted_put w ref body idx it realms canonical ts"
  shows "indexed (objs(ref \<mapsto> (it, ts, realms))) (idx_Update ref it ts [realms] idx)"
proof -
  have "item_Ref it = ref" and "realms \<noteq> []"
    using assms(2) accepted_realms by (auto simp: accepted_put_def)
  then show ?thesis using indexed_update [OF assms(1), of it ref ts "[realms]"]
    by (simp add: resolved_realms_def)
qed

lemma put_others:
  assumes "handlePutObject w r h = (resp, h')" and "IsValidRef q" and "q \<noteq> req_ref r"
  shows "hub_read w' h' q = hub_read w' h q"
  using assms(1)
proof (cases rule: put_cases)
  case refused
  then show ?thesis by simp
next
  case (committed body it realms canonical ts)
  note other = Read_Write_other [OF committed(1) assms(2,3)] Read_backed_up_other [OF committed(1) assms(2,3)]
  from committed(5) show ?thesis
  proof (cases rule: put_commit_cases)
    case refused
    then show ?thesis by simp
  next
    case (failed e d)
    with other show ?thesis by (metis hub_read_def hub.select_convs(1,2) hub.surjective hub.update_convs(2) snd_conv)
  next
    case (stored d)
    with other show ?thesis by (metis hub_read_def snd_conv)
  qed
qed

text \<open>
  C2 The outcome of a write. An answer below 400 means that the request was accepted as a whole (it
  parsed, its realms admit its signer, it is the object of the URL, its signature verifies), that
  its revision is greater than the stored one, and that afterwards the file holds its canonical
  bytes, the index the item with its realms, and the answer the entity tag of the new revision; it
  is 201 for a new object and 200 for a new revision. Any other answer leaves the index as it was,
  and unless it is a 500 the disk too. No other object is touched in any case.
\<close>
theorem put_outcome:
  assumes "indexed objs (hub_index h)" and "handlePutObject w r h = (resp, h')"
  shows "(if resp_status resp < 400
     then \<exists>body it realms canonical ts. req_body r = Some body \<and>
       accepted_put w (req_ref r) body (hub_index h) it realms canonical ts \<and>
       resp_status resp = (if objs (req_ref r) = None then 201 else 200) \<and>
       resp_header resp ''ETag'' = revisionETag (item_Revision it) \<and> resp_body resp = canonical \<and>
       (case objs (req_ref r) of None \<Rightarrow> True | Some (old, x) \<Rightarrow> item_Revision old < item_Revision it) \<and>
       mget (hub_disk h') (live_path (hub_store h') (req_ref r)) = Some (canonical, ts) \<and>
       indexed (objs(req_ref r \<mapsto> (it, ts, realms))) (hub_index h')
     else hub_index h' = hub_index h \<and> (resp_status resp = 500 \<or> hub_disk h' = hub_disk h)) \<and>
     (IsValidRef q \<and> q \<noteq> req_ref r \<longrightarrow> hub_read w' h' q = hub_read w' h q)"
proof (intro conjI impI)
  show "hub_read w' h' q = hub_read w' h q" if "IsValidRef q \<and> q \<noteq> req_ref r"
    using put_others [OF assms(2)] that by blast
  note meta = GetMeta_objs [OF indexedD [OF assms(1)], of "req_ref r"]
  from assms(2) show "if resp_status resp < 400
     then \<exists>body it realms canonical ts. req_body r = Some body \<and>
       accepted_put w (req_ref r) body (hub_index h) it realms canonical ts \<and>
       resp_status resp = (if objs (req_ref r) = None then 201 else 200) \<and>
       resp_header resp ''ETag'' = revisionETag (item_Revision it) \<and> resp_body resp = canonical \<and>
       (case objs (req_ref r) of None \<Rightarrow> True | Some (old, x) \<Rightarrow> item_Revision old < item_Revision it) \<and>
       mget (hub_disk h') (live_path (hub_store h') (req_ref r)) = Some (canonical, ts) \<and>
       indexed (objs(req_ref r \<mapsto> (it, ts, realms))) (hub_index h')
     else hub_index h' = hub_index h \<and> (resp_status resp = 500 \<or> hub_disk h' = hub_disk h)"
  proof (cases rule: put_cases)
    case refused
    then show ?thesis by simp
  next
    case (committed body it realms canonical ts)
    from committed(5) show ?thesis
    proof (cases rule: put_commit_cases)
      case refused
      with conditional_not_ok show ?thesis by fastforce
    next
      case (failed e d)
      then show ?thesis by simp
    next
      case (stored d)
      have "indexed (objs(req_ref r \<mapsto> (it, ts, realms))) (hub_index h')"
        using indexed_put [OF assms(1) committed(4)] stored(5) by simp
      moreover have "mget (hub_disk h') (live_path (hub_store h') (req_ref r)) = Some (canonical, ts)"
        using Write_stored [OF stored(2)] stored(3,4) by simp
      moreover have "case objs (req_ref r) of None \<Rightarrow> True | Some (old, x) \<Rightarrow> item_Revision old < item_Revision it"
        using stored(1) unfolding checkConditionalWrite_None meta
        by (auto simp: meta_of_def split: option.splits)
      moreover have "resp_status resp = (if objs (req_ref r) = None then 201 else 200)"
        using stored(6) by (simp add: meta)
      ultimately show ?thesis using committed(2,4) stored(7,8) by auto
    qed
  qed
qed

section \<open>Concrete writes\<close>

lemma calm_world_simps [simp]:
  "w_now calm_world = 0" "w_read_fails calm_world p = False" "w_write_fails calm_world p = False"
  "w_chtimes_fails calm_world p = False" "w_mkdir_fails calm_world p = False" "w_rename_fails calm_world p = False"
  by (simp_all add: calm_world_def)

definition sample_put :: "string \<Rightarrow> request" where
  "sample_put revision = empty_request\<lparr>req_ref := demo_ref, req_body := Some (sample_body revision)\<rparr>"

definition sample_hub :: hub where
  "sample_hub = NewHub demo_store [] (NewIndex (Some [])) []"

lemma sample_accepted:
  "accepted_put calm_world demo_ref (sample_body ''1'') idx (sample_item 1) [''dataverse001''] (sample_canonical ''1'') 0"
  "accepted_put calm_world demo_ref (sample_body ''2'') idx (sample_item 2) [''dataverse001''] (sample_canonical ''2'') 0"
proof -
  have "\<not> IsPubkeyRealm ''dataverse001''" "''NOTE'' \<noteq> TypeSharedRealm" by code_simp+
  moreover have "ValidateRealmsForPut [''dataverse001''] pk R" for pk R
    by simp
  ultimately show
    "accepted_put calm_world demo_ref (sample_body ''1'') idx (sample_item 1) [''dataverse001''] (sample_canonical ''1'') 0"
    "accepted_put calm_world demo_ref (sample_body ''2'') idx (sample_item 2) [''dataverse001''] (sample_canonical ''2'') 0"
    by (simp_all add: accepted_put_def sample_ParseEnvelope sample_CanonicalJSON sample_verified sample_timestamp)
qed

lemma sample_length: "int (length (sample_body ''1'')) \<le> maxBodySize" "int (length (sample_body ''2'')) \<le> maxBodySize"
  by code_simp+

lemma sample_committed:
  "handlePutObject calm_world (sample_put ''1'') h =
     put_commit calm_world (sample_put ''1'') h demo_ref (sample_item 1) [''dataverse001''] (sample_canonical ''1'') 0"
  "handlePutObject calm_world (sample_put ''2'') h =
     put_commit calm_world (sample_put ''2'') h demo_ref (sample_item 2) [''dataverse001''] (sample_canonical ''2'') 0"
  using sample_accepted(1) [of "hub_index h", folded put_checks_Inr [of _ "sample_put ''1''"]]
    sample_accepted(2) [of "hub_index h", folded put_checks_Inr [of _ "sample_put ''2''"]]
    sample_length demo_ref_valid
  by (simp_all add: handlePutObject_def sample_put_def Let_def)

lemma sample_unconditional:
  "checkConditionalWrite w (sample_put x) (req_header (sample_put x) ''If-Match'') existing n = None \<longleftrightarrow>
     (case existing of None \<Rightarrow> True | Some m \<Rightarrow> meta_Revision m < n)"
proof -
  have "trim_space [] = []" by code_simp
  then show ?thesis
    by (auto simp: checkConditionalWrite_None evaluateIfMatch_def sample_put_def empty_request_def split: option.splits)
qed

lemma sample_index: "indexed Map.empty (hub_index sample_hub)"
  unfolding sample_hub_def NewHub_def by (simp add: indexed_new toml_ok_def)

lemma sample_first:
  obtains resp h' where "handlePutObject calm_world (sample_put ''1'') sample_hub = (resp, h')"
    and "resp_status resp = 201" and "hub_store h' = demo_store"
    and "hub_disk h' = mput (live_path demo_store demo_ref) (sample_canonical ''1'', 0) []"
    and "hub_index h' = idx_Update demo_ref (sample_item 1) 0 [[''dataverse001'']] (NewIndex (Some []))"
proof -
  obtain resp h' where eq: "handlePutObject calm_world (sample_put ''1'') sample_hub = (resp, h')" by fastforce
  have new: "GetMeta (hub_index sample_hub) demo_ref = None"
    using GetMeta_objs [OF indexedD [OF sample_index]] by simp
  have go: "checkConditionalWrite calm_world (sample_put ''1'') (req_header (sample_put ''1'') ''If-Match'') None 1 = None"
    unfolding sample_unconditional by simp
  have h: "hub_store sample_hub = demo_store" "hub_disk sample_hub = []" "hub_index sample_hub = NewIndex (Some [])"
    by (simp_all add: sample_hub_def NewHub_def)
  from eq [unfolded sample_committed(1)] show ?thesis
    by (cases rule: put_commit_cases)
      (use new go that [OF eq] in \<open>auto simp: h backed_up_def Write_def Let_def\<close>)
qed

theorem put_outcome_witness:
  "\<exists>resp h'. handlePutObject calm_world (sample_put ''1'') sample_hub = (resp, h') \<and> resp_status resp = 201 \<and>
     resp_body resp = sample_canonical ''1'' \<and> hub_read calm_world h' demo_ref = Inr (Some (sample_canonical ''1''))"
proof (rule sample_first)
  fix resp h' assume eq: "handlePutObject calm_world (sample_put ''1'') sample_hub = (resp, h')"
    and st: "resp_status resp = 201"
  have "resp_body resp = sample_canonical ''1'' \<and>
      mget (hub_disk h') (live_path (hub_store h') demo_ref) = Some (sample_canonical ''1'', 0)"
    using put_outcome [OF sample_index eq] st sample_accepted
    by (auto simp: sample_put_def accepted_put_def sample_ParseEnvelope sample_CanonicalJSON sample_timestamp)
  then show ?thesis using eq st by (auto simp: hub_read_def Read_def Let_def)
qed

section \<open>Runs\<close>

text \<open>What an event of a run stores, when it is a write of a signed object.\<close>

definition signed_bytes :: "hub_event \<Rightarrow> ref \<Rightarrow> bytes \<Rightarrow> bool" where
  "signed_bytes e ref data = (case e of (w, route, r) \<Rightarrow> route = Put_Object \<and> (case req_body r of
      None \<Rightarrow> False
    | Some body \<Rightarrow> VerifyEnvelope w body = None \<and> CanonicalJSON body = Some data \<and>
        (case ParseEnvelope body of Inl x \<Rightarrow> False | Inr (env, it) \<Rightarrow> item_Ref it = ref)))"

definition signed_meta :: "hub_event \<Rightarrow> ref \<Rightarrow> ObjectMeta \<Rightarrow> bool" where
  "signed_meta e ref m = (case e of (w, route, r) \<Rightarrow> route = Put_Object \<and> (case req_body r of
      None \<Rightarrow> False
    | Some body \<Rightarrow> VerifyEnvelope w body = None \<and> (case ParseEnvelope body of Inl x \<Rightarrow> False
        | Inr (env, it) \<Rightarrow> item_Ref it = ref \<and> (case item_Timestamp it of None \<Rightarrow> False
            | Some ts \<Rightarrow> m = meta_of ref it ts (ResolveIn env it)))))"

lemma Write_fst: "Write w s ref b t d = (x, d') \<Longrightarrow> d' = snd (Write w s ref b t d)"
  by simp

lemma committed_read:
  assumes "IsValidRef ref" and "put_commit w r h ref it realms canonical ts = (resp, h')"
    and "hub_read w' h' ref = Inr (Some data)"
  shows "hub_read w' h ref = Inr (Some data) \<or> data = canonical"
  using assms(2)
proof (cases rule: put_commit_cases)
  case refused
  with assms(3) show ?thesis by simp
next
  case (failed e d)
  with assms(3) have "Read w' (hub_store h) (snd (Write w (hub_store h) ref canonical ts
      (backed_up w (hub_store h) ref (GetMeta (hub_index h) ref) (hub_disk h)))) ref = Inr (Some data)"
    by (simp add: hub_read_def)
  from Read_Write_same [OF this] Read_backed_up [OF assms(1), of w' "hub_store h" w "GetMeta (hub_index h) ref" "hub_disk h" "Some data"]
  show ?thesis by (auto simp: hub_read_def)
next
  case (stored d)
  with assms(3) have "Read w' (hub_store h) (snd (Write w (hub_store h) ref canonical ts
      (backed_up w (hub_store h) ref (GetMeta (hub_index h) ref) (hub_disk h)))) ref = Inr (Some data)"
    by (simp add: hub_read_def)
  from Read_Write_same [OF this] Read_backed_up [OF assms(1), of w' "hub_store h" w "GetMeta (hub_index h) ref" "hub_disk h" "Some data"]
  show ?thesis by (auto simp: hub_read_def)
qed

lemma put_read:
  assumes "IsValidRef ref" and "handlePutObject w r h = (resp, h')"
    and "hub_read w' h' ref = Inr (Some data)"
  shows "hub_read w' h ref = Inr (Some data) \<or> signed_bytes (w, Put_Object, r) ref data"
proof (cases "ref = req_ref r")
  case False
  with put_others [OF assms(2,1)] assms(3) show ?thesis by simp
next
  case ref: True
  from assms(2) show ?thesis
  proof (cases rule: put_cases)
    case refused
    with assms(3) show ?thesis by simp
  next
    case (committed body it realms canonical ts)
    with committed_read [OF committed(1,5)] assms(3) show ?thesis
      by (auto simp: ref signed_bytes_def accepted_put_def)
  qed
qed

text \<open>The effect of any handler on the index: none, or the entry of one accepted object.\<close>

lemma put_index:
  assumes "handlePutObject w r h = (resp, h')"
  obtains "hub_index h' = hub_index h"
  | body it realms canonical ts where "req_body r = Some body"
      "accepted_put w (req_ref r) body (hub_index h) it realms canonical ts"
      "hub_index h' = idx_Update (req_ref r) it ts [realms] (hub_index h)"
      "case GetMeta (hub_index h) (req_ref r) of None \<Rightarrow> True | Some m \<Rightarrow> meta_Revision m < item_Revision it"
  using assms
proof (cases rule: put_cases)
  case refused
  with that(1) show ?thesis by simp
next
  case (committed body it realms canonical ts)
  from committed(5) show ?thesis
  proof (cases rule: put_commit_cases)
    case refused
    with that(1) show ?thesis by simp
  next
    case (failed e d)
    with that(1) show ?thesis by simp
  next
    case (stored d)
    then show ?thesis using that(2) [OF committed(2,4) stored(5)] by (simp add: checkConditionalWrite_None)
  qed
qed

lemma hub_handler_put: "snd (hub_handler w Put_Object r (h, a)) = (snd (handlePutObject w r h), a)"
  by (simp add: hub_handler_def split: prod.split)

lemma handler_index:
  assumes "indexed objs (hub_index h)" and "snd (hub_handler w route r (h, a)) = (h', a')"
  shows "\<exists>objs'. indexed objs' (hub_index h') \<and> (\<forall>ref m'. GetMeta (hub_index h') ref = Some m' \<longrightarrow>
     GetMeta (hub_index h) ref = Some m' \<or> signed_meta (w, route, r) ref m' \<and>
       (case GetMeta (hub_index h) ref of None \<Rightarrow> True | Some m \<Rightarrow> meta_Revision m < meta_Revision m')) \<and>
     (\<forall>ref. GetMeta (hub_index h) ref \<noteq> None \<longrightarrow> GetMeta (hub_index h') ref \<noteq> None)"
proof (cases "route = Put_Object")
  case False
  then have "hub_index h' = hub_index h" using hub_handler_keeps(3) assms(2) by (metis fst_conv)
  with assms(1) show ?thesis by auto
next
  case put: True
  with assms(2) obtain resp where h': "handlePutObject w r h = (resp, h')"
    by (cases "handlePutObject w r h") (simp add: hub_handler_put)
  then show ?thesis
  proof (cases rule: put_index)
    case 1
    with assms(1) show ?thesis by auto
  next
    case (2 body it realms canonical ts)
    let ?objs = "objs(req_ref r \<mapsto> (it, ts, realms))"
    have new: "indexed ?objs (hub_index h')" using indexed_put [OF assms(1) 2(2)] 2(3) by simp
    note meta = GetMeta_objs [OF indexedD [OF new]] GetMeta_objs [OF indexedD [OF assms(1)]]
    let ?m = "meta_of (req_ref r) it ts realms"
    have get: "GetMeta (hub_index h') ref = (if ref = req_ref r then Some ?m else GetMeta (hub_index h) ref)" for ref
      by (simp add: meta)
    have "signed_meta (w, route, r) (req_ref r) ?m"
      using 2(1,2) by (auto simp: put signed_meta_def accepted_put_def)
    moreover have "meta_Revision ?m = item_Revision it" by (simp add: meta_of_def)
    ultimately have "\<forall>ref m'. GetMeta (hub_index h') ref = Some m' \<longrightarrow>
       GetMeta (hub_index h) ref = Some m' \<or> signed_meta (w, route, r) ref m' \<and>
         (case GetMeta (hub_index h) ref of None \<Rightarrow> True | Some m \<Rightarrow> meta_Revision m < meta_Revision m')"
      using 2(4) by (auto simp: get split: option.splits)
    moreover have "\<forall>ref. GetMeta (hub_index h) ref \<noteq> None \<longrightarrow> GetMeta (hub_index h') ref \<noteq> None"
      by (simp add: get)
    ultimately show ?thesis using new by blast
  qed
qed

lemma run_index:
  assumes "indexed objs (hub_index (fst s))" and "GetMeta (hub_index (fst (hub_run es s))) ref = Some m"
  shows "GetMeta (hub_index (fst s)) ref = Some m \<or> list_ex (\<lambda>e. signed_meta e ref m) es"
  using assms
proof (induction es s arbitrary: objs rule: hub_run.induct)
  case (2 w route r es s)
  obtain h a where s: "s = (h, a)" by (cases s)
  obtain h' a' where s': "snd (hub_handler w route r (h, a)) = (h', a')" by fastforce
  from handler_index [OF _ s'] 2(2) s obtain objs' where new: "indexed objs' (hub_index h')"
    and step: "GetMeta (hub_index h') ref = Some m \<Longrightarrow> GetMeta (hub_index h) ref = Some m \<or> signed_meta (w, route, r) ref m"
    by fastforce
  from 2(1) [of objs'] new step 2(3) show ?case by (auto simp: s s')
qed simp

lemma run_revisions:
  assumes "indexed objs (hub_index (fst s))" and "GetMeta (hub_index (fst s)) ref = Some m"
  shows "\<exists>m'. GetMeta (hub_index (fst (hub_run es s))) ref = Some m' \<and>
     (m' = m \<or> meta_Revision m < meta_Revision m')"
  using assms
proof (induction es s arbitrary: objs m rule: hub_run.induct)
  case (2 w route r es s)
  obtain h a where s: "s = (h, a)" by (cases s)
  obtain h' a' where s': "snd (hub_handler w route r (h, a)) = (h', a')" by fastforce
  from handler_index [OF _ s'] 2(2,3) s obtain objs' m1 where new: "indexed objs' (hub_index h')"
    and m1: "GetMeta (hub_index h') ref = Some m1" "m1 = m \<or> meta_Revision m < meta_Revision m1"
    by (simp add: s) (metis (no_types, lifting) fst_conv not_None_eq option.sel option.simps(5))
  from 2(1) [of objs' m1] new m1 obtain m' where "GetMeta (hub_index (fst (hub_run es (h', a')))) ref = Some m'"
    "m' = m1 \<or> meta_Revision m1 < meta_Revision m'" by (auto simp: s s')
  with m1(2) show ?case by (auto simp: s s')
qed simp

lemma run_read:
  assumes "IsValidRef ref" and "hub_read w' (fst (hub_run es s)) ref = Inr (Some data)"
  shows "hub_read w' (fst s) ref = Inr (Some data) \<or> list_ex (\<lambda>e. signed_bytes e ref data) es"
  using assms
proof (induction es s rule: hub_run.induct)
  case (2 w route r es s)
  obtain h a where s: "s = (h, a)" by (cases s)
  obtain h' a' where s': "snd (hub_handler w route r (h, a)) = (h', a')" by fastforce
  have "hub_read w' h ref = Inr (Some data) \<or> signed_bytes (w, route, r) ref data"
    if "hub_read w' h' ref = Inr (Some data)"
  proof (cases "route = Put_Object")
    case False
    with hub_handler_keeps [OF False, of w r h a] s' that show ?thesis by (simp add: hub_read_def)
  next
    case True
    with s' that put_read [OF assms(1), of w r h _ h'] show ?thesis
      by (cases "handlePutObject w r h") (auto simp: hub_handler_put)
  qed
  with 2 show ?case by (auto simp: s s')
qed simp

text \<open>
  C1 Everything the hub stores was signed. Over every run of the server, whatever its requests, its
  clock and the failures of its disk: the bytes read for an object are those that were there before
  the run, or the canonical form of the body of one of the run's own \<open>PUT\<close> requests, whose signature
  verifies and whose item is that object; and what the index says of it comes from such a request
  as well.
\<close>
theorem stored_objects_signed:
  assumes "IsValidRef ref" and "indexed objs (hub_index (fst s))"
  shows "(hub_read w (fst (hub_run es s)) ref = Inr (Some data) \<longrightarrow>
      hub_read w (fst s) ref = Inr (Some data) \<or> list_ex (\<lambda>e. signed_bytes e ref data) es) \<and>
    (GetMeta (hub_index (fst (hub_run es s))) ref = Some m \<longrightarrow>
      GetMeta (hub_index (fst s)) ref = Some m \<or> list_ex (\<lambda>e. signed_meta e ref m) es)"
  using run_read [OF assms(1)] run_index [OF assms(2)] by blast

definition sample_state :: "hub \<times> AuthStore" where
  "sample_state = (sample_hub, NewAuthStore hour)"

theorem stored_objects_signed_witness:
  "hub_read calm_world (fst (hub_run [(calm_world, Put_Object, sample_put ''1'')] sample_state)) demo_ref =
     Inr (Some (sample_canonical ''1'')) \<and>
   signed_bytes (calm_world, Put_Object, sample_put ''1'') demo_ref (sample_canonical ''1'')"
proof -
  have run: "hub_read calm_world (fst (hub_run [(calm_world, Put_Object, sample_put ''1'')] sample_state)) demo_ref =
     Inr (Some (sample_canonical ''1''))"
    by (rule sample_first) (simp add: sample_state_def hub_handler_put hub_read_def Read_def Let_def)
  have start: "indexed Map.empty (hub_index (fst sample_state))" by (simp add: sample_state_def sample_index)
  have "hub_read calm_world (fst sample_state) demo_ref = Inr None"
    by (simp add: sample_state_def sample_hub_def NewHub_def hub_read_def Read_def Let_def)
  with run stored_objects_signed [OF demo_ref_valid start] show ?thesis by fastforce
qed

text \<open>
  C11 Revisions only grow. Over every run of the server an object that is indexed stays indexed, and
  what is indexed for it is the same or has a greater revision.
\<close>
theorem revisions_only_grow:
  assumes "indexed objs (hub_index (fst s))" and "GetMeta (hub_index (fst s)) ref = Some m"
  shows "\<exists>m'. GetMeta (hub_index (fst (hub_run es s))) ref = Some m' \<and>
    (m' = m \<or> meta_Revision m < meta_Revision m')"
  by (rule run_revisions [OF assms])

theorem revisions_only_grow_witness:
  "\<exists>m m'. GetMeta (hub_index (fst (hub_run [(calm_world, Put_Object, sample_put ''1'')] sample_state))) demo_ref = Some m \<and>
     meta_Revision m = 1 \<and>
     GetMeta (hub_index (fst (hub_run [(calm_world, Put_Object, sample_put ''2'')]
       (hub_run [(calm_world, Put_Object, sample_put ''1'')] sample_state)))) demo_ref = Some m' \<and>
     1 \<le> meta_Revision m'"
proof -
  let ?objs = "[demo_ref \<mapsto> (sample_item 1, 0, [''dataverse001''])]"
  have idx: "indexed ?objs (hub_index (fst (hub_run [(calm_world, Put_Object, sample_put ''1'')] sample_state)))"
    by (rule sample_first)
      (use indexed_put [OF sample_index sample_accepted(1)] in
        \<open>simp add: sample_state_def hub_handler_put sample_hub_def NewHub_def\<close>)
  let ?m = "meta_of demo_ref (sample_item 1) 0 [''dataverse001'']"
  have m: "GetMeta (hub_index (fst (hub_run [(calm_world, Put_Object, sample_put ''1'')] sample_state))) demo_ref = Some ?m"
    using GetMeta_objs [OF indexedD [OF idx]] by simp
  have "meta_Revision ?m = 1" by (simp add: meta_of_def)
  with m revisions_only_grow [OF idx m, of "[(calm_world, Put_Object, sample_put ''2'')]"] show ?thesis by fastforce
qed

text \<open>
  C39 A write that fails loses the object it was to replace. With backups on, an update moves the
  stored file away before it writes the new one; when the write then fails, the client gets a 500
  and the object cannot be read any more, while the index still lists it. The old bytes are only in
  the backup directory.
\<close>
theorem failed_update_loses_object:
  assumes "IsValidRef (req_ref r)" and "req_body r = Some body" and "int (length body) \<le> maxBodySize"
    and "accepted_put w (req_ref r) body (hub_index h) it realms canonical ts"
    and "req_header r ''If-Match'' = []"
    and "GetMeta (hub_index h) (req_ref r) = Some m" and "meta_Revision m < item_Revision it"
    and "store_backup (hub_store h)" and "mget (hub_disk h) (live_path (hub_store h) (req_ref r)) = Some f"
    and "\<not> w_mkdir_fails w (join_path (store_dir (hub_store h)) ''bk'')"
    and "\<not> w_rename_fails w (live_path (hub_store h) (req_ref r))"
    and "w_write_fails w (live_path (hub_store h) (req_ref r))"
    and "handlePutObject w r h = (resp, h')"
  shows "resp_status resp = 500 \<and> hub_read calm_world h' (req_ref r) = Inr None \<and>
    GetMeta (hub_index h') (req_ref r) = Some m \<and>
    mget (hub_disk h') (backup_path (hub_store h) (req_ref r) (meta_Revision m)) = Some f"
proof -
  have checks: "put_checks w r (req_ref r) body (hub_index h) = Inr (it, realms, canonical, ts)"
    using assms(4) by (simp add: put_checks_Inr)
  have "\<not> maxBodySize < int (length body)" using assms(3) by simp
  with assms(13) have commit: "put_commit w r h (req_ref r) it realms canonical ts = (resp, h')"
    by (simp add: handlePutObject_def Let_def assms(1,2) checks)
  have "trim_space [] = []" by code_simp
  then have go: "checkConditionalWrite w r (req_header r ''If-Match'') (Some m) (item_Revision it) = None"
    using assms(7) by (simp add: checkConditionalWrite_None evaluateIfMatch_def assms(5))
  let ?d = "backed_up w (hub_store h) (req_ref r) (Some m) (hub_disk h)"
  have backup: "fst (Backup w (hub_store h) (req_ref r) (meta_Revision m) (hub_disk h)) = None"
    using assms(8-11) by (simp add: Backup_def Let_def)
  note moved = Backup_moves [OF assms(1,8,9), of w "meta_Revision m" ?d]
  have moved: "mget ?d (backup_path (hub_store h) (req_ref r) (meta_Revision m)) = Some f"
    "mget ?d (live_path (hub_store h) (req_ref r)) = None"
    using moved backup by (simp_all add: backed_up_def prod_eq_iff)
  from commit show ?thesis
  proof (cases rule: put_commit_cases)
    case refused
    with go assms(6) show ?thesis by simp
  next
    case (failed e d)
    with assms(12) have "d = ?d" by (auto simp: Write_def assms(6))
    with failed(3,4) moved assms(6) show ?thesis by (simp add: hub_read_def Read_def Let_def)
  next
    case (stored d)
    with assms(12) show ?thesis by (simp add: Write_def)
  qed
qed


text \<open>The sample object once stored, as the state of a hub.\<close>

definition sample_stored :: hub where
  "sample_stored = snd (handlePutObject calm_world (sample_put ''1'') sample_hub)"

definition sample_full_disk :: world where
  "sample_full_disk = calm_world\<lparr>w_write_fails := (\<lambda>p. True)\<rparr>"

lemma sample_accepted_full:
  "accepted_put sample_full_disk demo_ref (sample_body ''2'') idx (sample_item 2) [''dataverse001''] (sample_canonical ''2'') 0"
proof -
  have eqs: "w_ecdsa sample_full_disk = w_ecdsa calm_world"
    "DecompressP256 sample_full_disk = DecompressP256 calm_world"
    by (simp_all add: sample_full_disk_def DecompressP256_def fun_eq_iff)
  have "check_signature sample_full_disk = check_signature calm_world"
    unfolding check_signature_def fun_eq_iff
    by (unfold eqs) simp
  then have "VerifyEnvelope sample_full_disk b = VerifyEnvelope calm_world b" for b
    unfolding VerifyEnvelope_def by (rule ssubst) (rule refl)
  then show ?thesis using sample_accepted(2) [of idx] by (simp add: accepted_put_def)
qed

theorem failed_update_loses_object_witness:
  "\<exists>resp h'. handlePutObject sample_full_disk (sample_put ''2'') sample_stored = (resp, h') \<and>
     hub_read calm_world sample_stored demo_ref = Inr (Some (sample_canonical ''1'')) \<and>
     resp_status resp = 500 \<and> hub_read calm_world h' demo_ref = Inr None"
proof (rule sample_first)
  fix resp h assume first: "handlePutObject calm_world (sample_put ''1'') sample_hub = (resp, h)"
    and h: "hub_store h = demo_store" "hub_disk h = mput (live_path demo_store demo_ref) (sample_canonical ''1'', 0) []"
      "hub_index h = idx_Update demo_ref (sample_item 1) 0 [[''dataverse001'']] (NewIndex (Some []))"
  have st: "sample_stored = h" using first by (simp add: sample_stored_def)
  obtain resp' h' where eq: "handlePutObject sample_full_disk (sample_put ''2'') h = (resp', h')" by fastforce
  let ?m = "meta_of demo_ref (sample_item 1) 0 [''dataverse001'']"
  have idx: "indexed [demo_ref \<mapsto> (sample_item 1, 0, [''dataverse001''])] (hub_index h)"
    using indexed_put [OF sample_index sample_accepted(1)] by (simp add: h sample_hub_def NewHub_def)
  have m: "GetMeta (hub_index h) demo_ref = Some ?m" using GetMeta_objs [OF indexedD [OF idx]] by simp
  have put: "req_ref (sample_put ''2'') = demo_ref" "req_body (sample_put ''2'') = Some (sample_body ''2'')"
    "req_header (sample_put ''2'') ''If-Match'' = []"
    by (simp_all add: sample_put_def empty_request_def)
  have w: "w_mkdir_fails sample_full_disk p = False" "w_rename_fails sample_full_disk p = False"
    "w_write_fails sample_full_disk p" for p
    by (simp_all add: sample_full_disk_def calm_world_def)
  have b: "store_backup demo_store" by (simp add: demo_store_def)
  have "resp_status resp' = 500 \<and> hub_read calm_world h' demo_ref = Inr None"
    using failed_update_loses_object [where r = "sample_put ''2''" and h = h and m = ?m and w = sample_full_disk,
        unfolded put, OF demo_ref_valid refl sample_length(2) sample_accepted_full refl m _ _ _ _ _ _ eq]
    by (simp add: h w b meta_of_def)
  moreover have "hub_read calm_world h demo_ref = Inr (Some (sample_canonical ''1''))"
    by (simp add: h hub_read_def Read_def Let_def)
  ultimately show ?thesis using eq st by blast
qed

section \<open>What an unauthorized caller learns\<close>

lemma handleGetObject_denied:
  assumes "IsValidRef (req_ref r)" and "\<not> acceptsHTML r" and "GetMeta (hub_index h) (req_ref r) = Some m"
    and "\<not> meta_IsPublic m" and "\<not> CanRead (meta_Realms m) (req_auth r) (Resolver (hub_index h))"
  shows "fst (handleGetObject w r h) = writeError w r 404 ''object not found'' ''NOT_FOUND''"
  using assms
  by (simp add: handleGetObject_def deny_object_def servePrivateViewerLogin_def Let_def case_prod_beta
      split: sum.split option.split)

lemma handleGetObject_missing:
  assumes "IsValidRef (req_ref r)" and "GetMeta (hub_index h) (req_ref r) = None"
    and "hub_read w h (req_ref r) = Inr None"
  shows "fst (handleGetObject w r h) = writeError w r 404 ''object not found'' ''NOT_FOUND''"
  using assms by (simp add: handleGetObject_def read_and_serve_def writeError_def Let_def)

lemma projections_denied:
  assumes "GetMeta (hub_index h) (req_ref r) = Some m"
    and "\<not> meta_IsPublic m" and "\<not> CanRead (meta_Realms m) (req_auth r) (Resolver (hub_index h))"
  shows "handleGetJSON w r h = writeError w r 404 ''object not found'' ''NOT_FOUND''"
    and "fst (handleGetRaw w r h) = writeError w r 404 ''object not found'' ''NOT_FOUND''"
    and "fst (handleGetPage w r h) = writeError w r 404 ''object not found'' ''NOT_FOUND''"
  using authorizeProjection_denied [OF assms]
  by (simp_all add: handleGetJSON_def serveJSONForRef_def handleGetRaw_def hub_serveRawForRef_def
      serveRawForRef_def handleGetPage_def hub_servePageForRef_def servePageForRef_def)

lemma projections_missing:
  assumes "GetMeta (hub_index h) (req_ref r) = None" and "hub_read w h (req_ref r) = Inr None"
  shows "handleGetJSON w r h = writeError w r 404 ''object not found'' ''NOT_FOUND''"
    and "fst (handleGetRaw w r h) = writeError w r 404 ''object not found'' ''NOT_FOUND''"
    and "fst (handleGetPage w r h) = writeError w r 404 ''object not found'' ''NOT_FOUND''"
  using assms
  by (simp_all add: handleGetJSON_def serveJSONForRef_def handleGetRaw_def hub_serveRawForRef_def
      serveRawForRef_def handleGetPage_def hub_servePageForRef_def servePageForRef_def hub_read_def
      authorizeProjection_def serveJSON_missing rawVhostRedirect_def serveRaw_def raw_content_missing
      serveProjectionPage_missing)

text \<open>
  C18 A private object is indistinguishable from one that does not exist. For a caller outside its
  realms, \<open>GET /{ref}\<close> without HTML and the three explicit representations answer, byte for byte and
  header for header, what a hub answers that has never seen the object, whatever the object is,
  whatever else either hub stores, and whether or not virtual hosts are on.
\<close>
theorem private_is_missing:
  assumes "IsValidRef (req_ref r)" and "\<not> acceptsHTML r" and "GetMeta (hub_index h) (req_ref r) = Some m"
    and "\<not> meta_IsPublic m" and "\<not> CanRead (meta_Realms m) (req_auth r) (Resolver (hub_index h))"
    and "GetMeta (hub_index h') (req_ref r) = None" and "hub_read w h' (req_ref r) = Inr None"
  shows "fst (handleGetObject w r h) = fst (handleGetObject w r h') \<and>
    handleGetJSON w r h = handleGetJSON w r h' \<and>
    fst (handleGetRaw w r h) = fst (handleGetRaw w r h') \<and>
    fst (handleGetPage w r h) = fst (handleGetPage w r h')"
  using handleGetObject_denied [OF assms(1-5)] handleGetObject_missing [OF assms(1,6,7)]
    projections_denied [OF assms(3-5)] projections_missing [OF assms(6,7)] by simp

definition sample_private :: hub where
  "sample_private = sample_hub\<lparr>hub_index := idx_Update demo_ref demo_note 5 [[''alice'']] (NewIndex (Some []))\<rparr>"

theorem private_is_missing_witness:
  "handleGetJSON calm_world (empty_request\<lparr>req_ref := demo_ref, req_auth := ''bob''\<rparr>) sample_private =
   handleGetJSON calm_world (empty_request\<lparr>req_ref := demo_ref, req_auth := ''bob''\<rparr>) sample_hub"
proof -
  let ?r = "empty_request\<lparr>req_ref := demo_ref, req_auth := ''bob''\<rparr>"
  let ?m = "meta_of demo_ref demo_note 5 [''alice'']"
  have html: "\<not> acceptsHTML ?r" by code_simp
  have rep: "represents [demo_ref \<mapsto> (demo_note, 5, [''alice''])] (hub_index sample_private)"
    using idx_Update_represents [OF NewIndex_represents, of "Some []" demo_ref demo_note 5 "[[''alice'']]"]
    by (simp add: sample_private_def resolved_realms_def toml_ok_def)
  have m: "GetMeta (hub_index sample_private) (req_ref ?r) = Some ?m"
    using GetMeta_objs [OF rep] by simp
  have "IsPublicObject [''alice''] = False" by code_simp
  then have priv: "\<not> meta_IsPublic ?m" by (simp add: meta_of_def del: IsPublicObject_iff)
  have "\<not> CanRead (meta_Realms ?m) (req_auth ?r) (Resolver (hub_index sample_private))" by code_simp
  from private_is_missing [OF _ html m priv this, of sample_hub calm_world] demo_ref_valid
    GetMeta_objs [OF indexedD [OF sample_index]]
  show ?thesis by (simp add: sample_hub_def NewHub_def hub_read_def Read_def Let_def)
qed

end
