(* ===== verification/Proxy_Runs.thy ===== *)
theory Proxy_Runs
  imports Proxy_Handlers Serving_Writes
begin

text \<open>
  \<open>Proxy.Router\<close> and the runs of a proxy: requests, the goroutines they start, in any order, and
  health checks. Every operation of the proxy is a composition of a few actions, the abstract
  specification \<open>px_act\<close>; what holds of a run is shown by rule induction over the actions.
\<close>

section \<open>The router\<close>

text \<open>The table has the patterns of the hub's, with handlers of the proxy.\<close>

definition px_handler ::
  "world \<Rightarrow> network \<Rightarrow> hub_route \<Rightarrow> request \<Rightarrow> Proxy \<times> AuthStore \<Rightarrow> response \<times> Proxy \<times> AuthStore" where
  "px_handler w net route r = (\<lambda>(p, a). case route of
      Auth_Challenge \<Rightarrow> (case HandleChallenge w r a of (resp, a) \<Rightarrow> (resp, p, a))
    | Auth_Token \<Rightarrow> (case HandleToken w r a of (resp, a) \<Rightarrow> (resp, p, a))
    | Auth_Logout \<Rightarrow> (case HandleLogout r a of (resp, a) \<Rightarrow> (resp, p, a))
    | Auth_Realms \<Rightarrow> (handleAuthRealms w r (Resolver (px_index p)), p, a)
    | Tls_Ask \<Rightarrow> (case TLSAskHandler w r (hub_vhost (px_hub p)) of
        (resp, v) \<Rightarrow> (resp, p\<lparr>px_hub := (px_hub p)\<lparr>hub_vhost := v\<rparr>\<rparr>, a))
    | Root \<Rightarrow> (case px_handleRoot w r p of (resp, p) \<Rightarrow> (resp, p, a))
    | Root_JSON \<Rightarrow> (case px_handleRootJSON w net r p of (resp, p) \<Rightarrow> (resp, p, a))
    | Root_Raw \<Rightarrow> (case px_handleRootRaw w net r p of (resp, p) \<Rightarrow> (resp, p, a))
    | Root_Page \<Rightarrow> (case px_handleRootPage w net r p of (resp, p) \<Rightarrow> (resp, p, a))
    | Search \<Rightarrow> (case handleSearch w net r p of (resp, p) \<Rightarrow> (resp, p, a))
    | Get_Object \<Rightarrow> (case px_handleGetObject w net r p of (resp, p) \<Rightarrow> (resp, p, a))
    | Put_Object \<Rightarrow> (case px_handlePutObject w net r p of (resp, p) \<Rightarrow> (resp, p, a))
    | Get_Inbound \<Rightarrow> (case handleInbound w net r p of (resp, p) \<Rightarrow> (resp, p, a))
    | Get_JSON \<Rightarrow> (case px_handleGetJSON w net r p of (resp, p) \<Rightarrow> (resp, p, a))
    | Get_Raw \<Rightarrow> (case px_handleGetRaw w net r p of (resp, p) \<Rightarrow> (resp, p, a))
    | Get_Page \<Rightarrow> (case px_handleGetPage w net r p of (resp, p) \<Rightarrow> (resp, p, a)))"

definition px_mux ::
  "world \<Rightarrow> network \<Rightarrow> chi \<Rightarrow> string \<Rightarrow> request \<Rightarrow> Proxy \<times> AuthStore \<Rightarrow> response \<times> Proxy \<times> AuthStore" where
  "px_mux w net chi verb r s = (case chi verb (req_path r) of
      No_Path \<Rightarrow> (problemNotFound w r, s)
    | No_Method \<Rightarrow> (methodNotAllowedProblem w chi r, s)
    | Matched pattern ref \<Rightarrow> (case map_of hub_routes (verb, pattern) of
          None \<Rightarrow> (problemNotFound w r, s)
        | Some route \<Rightarrow> px_handler w net route (r\<lparr>req_ref := ref\<rparr>) s))"

definition px_Router ::
  "world \<Rightarrow> network \<Rightarrow> instant \<Rightarrow> chi \<Rightarrow> string \<Rightarrow> request \<Rightarrow> RateLimiter \<Rightarrow> Proxy \<times> AuthStore
     \<Rightarrow> response \<times> RateLimiter \<times> Proxy \<times> AuthStore" where
  "px_Router w net later chi verb r rl s =
     rl_Middleware w later r (\<lambda>s. px_mux w net chi verb (auth_Middleware w (snd s) r) s) rl s"

section \<open>Runs\<close>

datatype px_event = Request world hub_route request | Task world nat | Health world

text \<open>A started goroutine may run at any later time.\<close>

fun px_step :: "network \<Rightarrow> px_event \<Rightarrow> Proxy \<times> AuthStore \<Rightarrow> Proxy \<times> AuthStore" where
  "px_step net (Request w route r) s = snd (px_handler w net route r s)"
| "px_step net (Task w i) (p, a) =
     (if i < length (px_tasks p)
      then (run_task w net (px_tasks p ! i) (p\<lparr>px_tasks := take i (px_tasks p) @ drop (Suc i) (px_tasks p)\<rparr>), a)
      else (p, a))"
| "px_step net (Health w) (p, a) = (p\<lparr>px_client := health_tick w net (px_client p)\<rparr>, a)"

definition px_run :: "network \<Rightarrow> px_event list \<Rightarrow> Proxy \<times> AuthStore \<Rightarrow> Proxy \<times> AuthStore" where
  "px_run net es s = fold (px_step net) es s"

section \<open>Actions\<close>

text \<open>What may be sent to the root hub under the setting \<open>upstream_push\<close>.\<close>

definition may_leave :: "string \<Rightarrow> bytes \<Rightarrow> bool" where
  "may_leave push data \<longleftrightarrow> push = ''all'' \<or>
     (case ParseEnvelope data of Inl e \<Rightarrow> True | Inr (env, it) \<Rightarrow> IsGlobalObject (ResolveIn env it)) \<or>
     (\<exists>body env it. ParseEnvelope body = Inr (env, it) \<and> CanonicalJSON body = Some data \<and>
        IsGlobalObject (ResolveIn env it))"

definition newer_than_stored :: "Proxy \<Rightarrow> ref \<Rightarrow> Item \<Rightarrow> bool" where
  "newer_than_stored p ref it \<longleftrightarrow> (case GetMeta (px_index p) ref of
      None \<Rightarrow> True | Some m \<Rightarrow> meta_Revision m < item_Revision it)"

text \<open>
  References that name a file: well-formed ones, and those of the objects that the root hub offers,
  alone or in a list.
\<close>

definition offered :: "network \<Rightarrow> ref \<Rightarrow> bool" where
  "offered net ref \<longleftrightarrow> (\<exists>sent req resp data b env it. net sent req = Some resp \<and> up_data resp = Some data \<and>
     (b = data \<or> (\<exists>up. decode_ListResponse data = Some up \<and> b \<in> set (lr_Items up))) \<and>
     ParseEnvelope b = Inr (env, it) \<and> item_Ref it = ref)"

text \<open>What happens to the disk; \<open>Q\<close> are the references of which an edit may be queued.\<close>

inductive disk_act :: "network \<Rightarrow> (ref \<Rightarrow> bool) \<Rightarrow> Proxy \<Rightarrow> disk \<Rightarrow> bool" for net Q p where
  backed_up: "IsValidRef ref \<or> offered net ref \<Longrightarrow>
    disk_act net Q p (snd (Backup w (hub_store (px_hub p)) ref n (hub_disk (px_hub p))))"
| stored: "IsValidRef ref \<or> offered net ref \<Longrightarrow>
    disk_act net Q p (snd (Write w (hub_store (px_hub p)) ref data ts (hub_disk (px_hub p))))"
| archived: "disk_act net Q p (snd (Store_PreserveConflict w (hub_store (px_hub p)) data (hub_disk (px_hub p))))"
| queued: "Q ref \<Longrightarrow> IsValidRef ref \<Longrightarrow> may_leave (px_UpstreamPush p) data \<Longrightarrow>
    disk_act net Q p (snd (Sync_Add w (pending_dir p) ref data (hub_disk (px_hub p))))"

inductive px_act :: "network \<Rightarrow> (ref \<Rightarrow> bool) \<Rightarrow> Proxy \<Rightarrow> Proxy \<Rightarrow> bool" for net Q where
  get: "px_act net Q p (snd (px_do net (get_json_request url) None p))"
| put: "may_leave (px_UpstreamPush p) data \<Longrightarrow> px_act net Q p (snd (px_do net (put_json_request url hs) (Some data) p))"
| check: "px_act net Q p (p\<lparr>px_client := snd (HealthCheck w net (px_client p))\<rparr>)"
| tasks: "px_act net Q p (p\<lparr>px_tasks := ts\<rparr>)"
| vhosts: "px_act net Q p (p\<lparr>px_hub := (px_hub p)\<lparr>hub_vhost := v\<rparr>\<rparr>)"
| disk: "disk_act net Q p d \<Longrightarrow> px_act net Q p (p\<lparr>px_hub := (px_hub p)\<lparr>hub_disk := d\<rparr>\<rparr>)"
| index: "item_Ref it = ref \<Longrightarrow> newer_than_stored p ref it \<Longrightarrow>
    px_act net Q p (p\<lparr>px_hub := (px_hub p)\<lparr>hub_index := idx_Update ref it ts [realms] (hub_index (px_hub p))\<rparr>\<rparr>)"

abbreviation px_acts :: "network \<Rightarrow> (ref \<Rightarrow> bool) \<Rightarrow> Proxy \<Rightarrow> Proxy \<Rightarrow> bool" where
  "px_acts net Q \<equiv> (px_act net Q)\<^sup>*\<^sup>*"

named_theorems acts

lemma acts_get [acts]: "px_do net (get_json_request url) None p = (resp, p') \<Longrightarrow> px_acts net Q p p'"
  using px_act.get [of net Q p url] by auto

lemma acts_put [acts]:
  "px_do net (put_json_request url hs) (Some data) p = (resp, p') \<Longrightarrow> may_leave (px_UpstreamPush p) data \<Longrightarrow>
     px_acts net Q p p'"
  using px_act.put [of p data net Q url hs] by auto

lemma acts_go [acts]: "px_acts net Q p (px_go t p)"
  unfolding px_go_def by (rule r_into_rtranclp, rule px_act.tasks)

lemma acts_vhost [acts]: "px_acts net Q p (p\<lparr>px_hub := (px_hub p)\<lparr>hub_vhost := v\<rparr>\<rparr>)"
  by (rule r_into_rtranclp, rule px_act.vhosts)

abbreviation with_disk :: "Proxy \<Rightarrow> disk \<Rightarrow> Proxy" where
  "with_disk p d \<equiv> p\<lparr>px_hub := (px_hub p)\<lparr>hub_disk := d\<rparr>\<rparr>"

lemma acts_disk: "disk_act net Q p d \<Longrightarrow> px_acts net Q p (with_disk p d)"
  by (rule r_into_rtranclp, rule px_act.disk)

lemma acts_trans: "px_acts net Q p q \<Longrightarrow> px_acts net Q q r \<Longrightarrow> px_acts net Q p r"
  by (rule rtranclp_trans)

lemma acts_get_then:
  "px_do net (get_json_request url) None p = (resp, q) \<Longrightarrow> px_acts net Q q r \<Longrightarrow> px_acts net Q p r"
  using acts_get acts_trans by blast

section \<open>Every operation is a composition of actions\<close>

lemma store_object_acts:
  assumes "item_Ref it = ref" and "newer_than_stored p ref it" and "IsValidRef ref \<or> offered net ref"
    and "px_acts net Q p (with_disk p d)" and "px_store_object w ref it realms data ts d p = (ok, p')"
  shows "px_acts net Q p p'"
proof -
  obtain err d' where wr: "Write w (hub_store (px_hub p)) ref data ts d = (err, d')" by fastforce
  have "disk_act net Q (with_disk p d) d'"
    using disk_act.stored [OF assms(3), of Q "with_disk p d" w data ts] wr by simp
  from acts_trans [OF assms(4) acts_disk [OF this]] have disk: "px_acts net Q p (with_disk p d')" by simp
  show ?thesis
  proof (cases err)
    case (Some e)
    with assms(5) wr disk show ?thesis by (auto simp: px_store_object_def Let_def)
  next
    case None
    let ?q = "with_disk p d'"
    let ?i = "idx_Update ref it ts [realms] (hub_index (px_hub ?q))"
    let ?r = "?q\<lparr>px_hub := (px_hub ?q)\<lparr>hub_index := ?i\<rparr>\<rparr>"
    let ?v = "if item_Type it = ''PAGE'' then map_option (AddPage ref) (hub_vhost (px_hub p)) else hub_vhost (px_hub p)"
    have "newer_than_stored ?q ref it" using assms(2) by (simp add: newer_than_stored_def px_index_def)
    then have "px_acts net Q ?q ?r" by (intro r_into_rtranclp px_act.index assms(1))
    moreover have "px_acts net Q ?r (?r\<lparr>px_hub := (px_hub ?r)\<lparr>hub_vhost := ?v\<rparr>\<rparr>)" by (rule acts_vhost)
    moreover have "p' = ?r\<lparr>px_hub := (px_hub ?r)\<lparr>hub_vhost := ?v\<rparr>\<rparr>"
      using assms(5) wr None by (auto simp: px_store_object_def Let_def)
    ultimately show ?thesis using disk by (metis (no_types, lifting) acts_trans)
  qed
qed

lemma same_revision_acts:
  assumes "cache_same_revision w ref data n p = (e, p')"
  shows "px_acts net Q p p'"
proof -
  obtain x d where "Store_PreserveConflict w (hub_store (px_hub p)) data (hub_disk (px_hub p)) = (x, d)" by fastforce
  with disk_act.archived [of net Q p w data] have "px_acts net Q p (with_disk p d)" by (intro acts_disk) simp
  with assms \<open>Store_PreserveConflict _ _ _ _ = _\<close> show ?thesis
    by (auto simp: cache_same_revision_def Let_def split: sum.splits option.splits if_splits)
qed

text \<open>The bytes of an object that the root hub offers, or of any object with a well-formed reference.\<close>

definition named :: "network \<Rightarrow> bytes \<Rightarrow> bool" where
  "named net data \<longleftrightarrow> (\<forall>env it. ParseEnvelope data = Inr (env, it) \<longrightarrow>
     IsValidRef (item_Ref it) \<or> offered net (item_Ref it))"

lemma named_answer: "net sent req = Some resp \<Longrightarrow> up_data resp = Some data \<Longrightarrow> named net data"
  unfolding named_def offered_def by blast

lemma named_listed:
  "net sent req = Some resp \<Longrightarrow> up_data resp = Some data \<Longrightarrow> decode_ListResponse data = Some up \<Longrightarrow>
     b \<in> set (lr_Items up) \<Longrightarrow> named net b"
  unfolding named_def offered_def by blast

lemma px_do_answer: "px_do net req b p = (Some resp, q) \<Longrightarrow> \<exists>sent req. net sent req = Some resp"
  by (auto simp: px_do_def Client_Do_def transport_def Let_def split: if_splits option.splits)

lemma CacheLocally_acts:
  assumes c: "CacheLocally w ref data p = (e, p')" and named: "IsValidRef ref \<or> named net data"
  shows "px_acts net Q p p'"
proof (cases "ParseEnvelope data")
  case (Inl x)
  then show ?thesis using c by (simp add: CacheLocally_def)
next
  case (Inr x)
  obtain env it where x: "x = (env, it)" by (cases x)
  let ?ts = "case item_Timestamp it of Some t \<Rightarrow> t | None \<Rightarrow> zero_time"
  have store: "px_acts net Q p q"
    if "item_Ref it = ref" "newer_than_stored p ref it" "px_acts net Q p (with_disk p d)"
      "px_store_object w ref it (ResolveIn env it) data ?ts d p = (ok, q)" for d ok q
    using named Inr x that(1) by (intro store_object_acts [OF that(1,2) _ that(3,4)]) (auto simp: named_def)
  have backup: "px_acts net Q p (with_disk p d)"
    if "item_Ref it = ref" "Backup w (hub_store (px_hub p)) ref n (hub_disk (px_hub p)) = (e', d)" for n e' d
  proof -
    have "IsValidRef ref \<or> offered net ref" using named Inr x that(1) by (auto simp: named_def)
    from disk_act.backed_up [OF this, of Q p w n] that(2) show ?thesis by (intro acts_disk) simp
  qed
  show ?thesis
  proof (cases "item_Ref it = ref")
    case False
    with c Inr x show ?thesis by (simp add: CacheLocally_def)
  next
    case ref: True
    show ?thesis
    proof (cases "GetMeta (hub_index (px_hub p)) ref")
      case None
      then have "newer_than_stored p ref it" by (simp add: newer_than_stored_def px_index_def)
      with store [OF ref, of "hub_disk (px_hub p)"] c None Inr x ref show ?thesis
        by (auto simp: CacheLocally_def Let_def split: prod.splits)
    next
      case (Some m)
      consider "item_Revision it < meta_Revision m" | "item_Revision it = meta_Revision m"
        | "meta_Revision m < item_Revision it" by linarith
      then show ?thesis
      proof cases
        case 1
        with c Some Inr x ref acts_go show ?thesis
          by (auto simp: CacheLocally_def Let_def split: sum.splits option.splits)
      next
        case 2
        with c Some Inr x ref same_revision_acts show ?thesis by (simp add: CacheLocally_def Let_def)
      next
        case 3
        with Some have newer: "newer_than_stored p ref it" by (simp add: newer_than_stored_def px_index_def)
        obtain err d where b: "Backup w (hub_store (px_hub p)) ref (meta_Revision m) (hub_disk (px_hub p)) = (err, d)"
          by fastforce
        with 3 store [OF ref newer backup [OF ref b]] backup [OF ref b] c Some Inr x ref show ?thesis
          by (auto simp: CacheLocally_def Let_def split: prod.splits option.splits)
      qed
    qed
  qed
qed

lemma push_acts [acts]: "px_acts net Q p (pushToUpstream w net ref data p)"
proof (cases "push_allowed p data")
  case True
  then have "may_leave (px_UpstreamPush p) data"
    by (auto simp: push_allowed_def may_leave_def split: sum.splits)
  with acts_put show ?thesis
    by (cases "px_do net (put_json_request (px_url p ref) []) (Some data) p") (auto simp: pushToUpstream_def)
qed (simp add: pushToUpstream_def)

lemma cached_answer_acts:
  assumes "px_do net req b p = (Some resp, q)" and "up_data resp = Some body"
  shows "px_acts net Q q (snd (CacheLocally w ref body q))"
proof -
  obtain e q' where c: "CacheLocally w ref body q = (e, q')" by fastforce
  from px_do_answer [OF assms(1)] named_answer [OF _ assms(2)] have "named net body" by blast
  with CacheLocally_acts [OF c] show ?thesis by (simp add: c)
qed

lemma fetch_acts [acts]: "px_acts net Q p (fetchAndCacheFromUpstream w net ref p)"
proof (cases "px_do net (get_json_request (px_url p ref)) None p")
  case (Pair resp q)
  have "px_acts net Q q (snd (CacheLocally w ref body q))" if "resp = Some a" "up_data a = Some body" for a body
    using cached_answer_acts [OF Pair [unfolded that(1)] that(2)] .
  with Pair acts_get [OF Pair] acts_get_then [OF Pair] show ?thesis
    by (auto simp: fetchAndCacheFromUpstream_def split: option.split)
qed

lemma ensureFresh_acts [acts]: "px_acts net Q p (ensureFresh w net ref p)"
proof (cases "px_do net (get_json_request (px_url p ref)) None p")
  case (Pair resp q)
  have "px_acts net Q q (snd (CacheLocally w ref body q))" if "resp = Some a" "up_data a = Some body" for a body
    using cached_answer_acts [OF Pair [unfolded that(1)] that(2)] .
  with Pair acts_get [OF Pair] acts_get_then [OF Pair] acts_go show ?thesis
    by (auto simp: ensureFresh_def split: option.split sum.split)
qed

lemma dependency_acts [acts]: "px_acts net Q p (ensureViewerDependencyFresh w net ref p)"
  using ensureFresh_acts by (simp add: ensureViewerDependencyFresh_def Let_def)

lemma dependency_then: "px_acts net Q (ensureViewerDependencyFresh w net ref p) q \<Longrightarrow> px_acts net Q p q"
  using acts_trans [OF dependency_acts] .

lemma type_deps_acts: "px_acts net Q p (type_deps w net ref typeRef p)"
  by (auto simp: type_deps_def Let_def intro: dependency_acts dependency_then split: option.split)

lemma default_deps_acts: "px_acts net Q p (default_deps w net ref p)"
  by (auto simp: default_deps_def Let_def intro: dependency_acts dependency_then split: option.split)

lemma page_deps_acts [acts]: "px_acts net Q p (ensurePageDepsFresh w net ref p)"
  by (auto simp: ensurePageDepsFresh_def Let_def split: option.split
      intro: dependency_then acts_trans [OF type_deps_acts default_deps_acts])

lemma sync_acts [acts]:
  assumes "syncFromUpstream w net r ref deps p = (resp, p')"
  shows "px_acts net Q p p'"
proof (cases "px_do net (get_json_request (px_url p ref)) None p")
  case (Pair answer q)
  have deps: "px_acts net Q q' q''" if "sync_deps w net ref deps q' = (resp', q'')" for q' q'' resp'
    using that page_deps_acts by (auto simp: sync_deps_def)
  have cached: "px_acts net Q q q'" if "answer = Some a" "up_data a = Some body" "CacheLocally w ref body q = (e, q')" for a body e q'
    using cached_answer_acts [OF Pair [unfolded that(1)] that(2), of Q w ref] that(3) by simp
  have "px_acts net Q q p' \<or> p' = p"
    using assms Pair deps cached acts_go acts_trans
    unfolding syncFromUpstream_def
    by (clarsimp split: if_splits option.splits sum.splits prod.splits) metis+
  with acts_get_then [OF Pair] show ?thesis by auto
qed

lemma sync_then:
  "syncFromUpstream w net r ref deps p = (resp, q) \<Longrightarrow> px_acts net Q q p' \<Longrightarrow> px_acts net Q p p'"
  using sync_acts acts_trans by blast

text \<open>The hub's half of a read only moves the virtual hosts.\<close>

definition only_vhosts :: "hub \<Rightarrow> hub \<Rightarrow> bool" where
  "only_vhosts h h' \<longleftrightarrow> (\<exists>v. h' = h\<lparr>hub_vhost := v\<rparr>)"

lemma only_vhosts_refl [simp]: "only_vhosts h h"
  unfolding only_vhosts_def by (intro exI [of _ "hub_vhost h"]) simp

lemma only_vhosts_upd [simp]: "only_vhosts h (h\<lparr>hub_vhost := v\<rparr>)"
  unfolding only_vhosts_def by blast

lemma with_hub_acts:
  assumes "with_hub f p = (resp, p')" and "\<And>h. only_vhosts h (snd (f h))"
  shows "px_acts net Q p p'"
  using assms(1) assms(2) [of "px_hub p"] acts_vhost
  by (auto simp: with_hub_def only_vhosts_def split: prod.splits)

lemma serving_only_vhosts [simp]:
  "only_vhosts h (snd (serveObject w r h ref data resp))"
  "only_vhosts h (snd (deny_object w r h ref))"
  "only_vhosts h (snd (handleRoot w r h))"
  by (simp_all add: serveObject_def deny_object_def handleRoot_def Let_def case_prod_beta split: option.split sum.split)

lemma cache_only_vhosts [simp]:
  "only_vhosts h (snd (cache_serve w r ref resp h))"
  "only_vhosts h (snd (serveFromLocalCache w r ref h))"
proof -
  show c: "only_vhosts h (snd (cache_serve w r ref resp h))" for resp
    by (simp add: cache_serve_def serveObjectData_def split: sum.split option.split)
  show "only_vhosts h (snd (serveFromLocalCache w r ref h))"
    using c by (simp add: serveFromLocalCache_def Let_def split: option.split)
qed

lemma read_handlers_acts:
  "px_handleRoot w r p = (resp, p') \<Longrightarrow> px_acts net Q p p'"
  "px_handleGetObject w net r p = (resp, p') \<Longrightarrow> px_acts net Q p p'"
  "px_serveJSONForRef w net r ref p = (resp, p') \<Longrightarrow> px_acts net Q p p'"
  "px_serveRawForRef w net r ref p = (resp, p') \<Longrightarrow> px_acts net Q p p'"
  "px_servePageForRef w net r ref p = (resp, p') \<Longrightarrow> px_acts net Q p p'"
proof -
  show "px_handleRoot w r p = (resp, p') \<Longrightarrow> px_acts net Q p p'"
    unfolding px_handleRoot_def by (erule with_hub_acts) simp
  show "px_handleGetObject w net r p = (resp, p') \<Longrightarrow> px_acts net Q p p'"
    by (auto simp: px_handleGetObject_def Let_def split: if_splits prod.splits option.splits
        elim: sync_acts elim!: sync_then with_hub_acts)
  show "px_serveJSONForRef w net r ref p = (resp, p') \<Longrightarrow> px_acts net Q p p'"
    by (auto simp: px_serveJSONForRef_def Let_def split: if_splits prod.splits option.splits elim: sync_acts)
  have raw: "only_vhosts h (snd (case authorizeProjection w r ref (hub_index h) of
      Inl e \<Rightarrow> (e, h)
    | Inr meta \<Rightarrow> (case rawVhostRedirect w r (hub_vhost h) (hub_vhostMode h) ref meta of
        (Some resp, vhost) \<Rightarrow> (resp, h\<lparr>hub_vhost := vhost\<rparr>)
      | (None, vhost) \<Rightarrow>
          (serveRaw w r (hub_store h) (hub_disk h) ref meta (hub_baseDomain h), h\<lparr>hub_vhost := vhost\<rparr>))))" for h
    by (simp split: sum.split prod.split option.split)
  then show "px_serveRawForRef w net r ref p = (resp, p') \<Longrightarrow> px_acts net Q p p'"
    by (auto simp: px_serveRawForRef_def Let_def split: if_splits prod.splits option.splits
        elim: sync_acts elim!: sync_then with_hub_acts)
  have page: "only_vhosts h (snd (case authorizeProjection w r ref (hub_index h) of
      Inl e \<Rightarrow> (e, h)
    | Inr meta \<Rightarrow> (case serveProjectionPage w r (hub_store h) (hub_disk h) (hub_index h) ref
          (hub_defaultViewerRef h) (hub_baseDomain h) (hub_vhost h) (hub_vhostMode h) of
        (resp, vhost) \<Rightarrow> (resp, h\<lparr>hub_vhost := vhost\<rparr>))))" for h
    by (simp split: sum.split prod.split)
  then show "px_servePageForRef w net r ref p = (resp, p') \<Longrightarrow> px_acts net Q p p'"
    by (auto simp: px_servePageForRef_def Let_def split: if_splits prod.splits option.splits
        elim: sync_acts elim!: sync_then with_hub_acts)
qed

lemma root_acts:
  assumes "px_root w r sfx serve p = (resp, p')"
    and "\<And>ref q resp q'. serve ref q = (resp, q') \<Longrightarrow> px_acts net Q q q'"
  shows "px_acts net Q p p'"
proof -
  obtain t v where t: "resolveRootTarget w r (hub_index (px_hub p)) (hub_vhost (px_hub p))
      (hub_vhostMode (px_hub p)) sfx = (t, v)" by fastforce
  let ?q = "p\<lparr>px_hub := (px_hub p)\<lparr>hub_vhost := v\<rparr>\<rparr>"
  have q: "px_acts net Q p ?q" by (rule acts_vhost)
  show ?thesis
  proof (cases t)
    case (Inl e)
    with assms(1) t q show ?thesis by (simp add: px_root_def Let_def)
  next
    case (Inr ref)
    with assms(1) t have "serve ref ?q = (resp, p')" by (simp add: px_root_def Let_def)
    from acts_trans [OF q assms(2) [OF this]] show ?thesis .
  qed
qed

lemma local_write_newer:
  "local_write_begin w r ref it (px_hub p) = Inr (ts, d) \<Longrightarrow> newer_than_stored p ref it"
  by (auto simp: local_write_begin_def newer_than_stored_def px_index_def Let_def checkConditionalWrite_None
      split: option.splits)

lemma local_write_acts:
  assumes "local_write_begin w r ref it (px_hub p) = Inr (ts, d)" and "IsValidRef ref"
  shows "px_acts net Q p (with_disk p d)"
proof -
  have "d = hub_disk (px_hub p) \<or> (\<exists>n. d = snd (Backup w (hub_store (px_hub p)) ref n (hub_disk (px_hub p))))"
    using assms(1) by (auto simp: local_write_begin_def Let_def split: option.splits)
  with disk_act.backed_up [of ref net Q p w] assms(2) show ?thesis
    by (auto intro: acts_disk)
qed

lemma storePrivately_acts:
  assumes "storePrivateLocally w r ref it canonical realms p = (resp, p')" and "item_Ref it = ref" and "IsValidRef ref"
  shows "px_acts net Q p p'"
proof -
  have "px_acts net Q p q"
    if "local_write_begin w r ref it (px_hub p) = Inr (ts, d)"
      "px_store_object w ref it realms canonical ts d p = (ok, q)" for ts d ok q
    using store_object_acts [OF assms(2) local_write_newer [OF that(1)] _ local_write_acts [OF that(1) assms(3)] that(2)]
      assms(3) by blast
  with assms(1) show ?thesis by (auto simp: storePrivateLocally_def split: sum.splits prod.splits if_splits)
qed

lemma storePending_acts:
  assumes "storeLocallyWithPending w r ref it canonical realms p = (resp, p')" and "item_Ref it = ref"
    and "IsValidRef ref" and "Q ref" and "may_leave (px_UpstreamPush p) canonical"
  shows "px_acts net Q p p'"
proof -
  have queued: "px_acts net Q p (with_disk p e)"
    if "local_write_begin w r ref it (px_hub p) = Inr (ts, d)" "Sync_Add w (pending_dir p) ref canonical d = (ok, e)"
    for ts d ok e
  proof -
    have "disk_act net Q (with_disk p d) (snd (Sync_Add w (pending_dir p) ref canonical d))"
      using disk_act.queued [of Q ref "with_disk p d" canonical net w] assms(3,4,5) by (simp add: pending_dir_def)
    from acts_trans [OF local_write_acts [OF that(1) assms(3)] acts_disk [OF this]] that(2) show ?thesis by simp
  qed
  have "px_acts net Q p q"
    if "local_write_begin w r ref it (px_hub p) = Inr (ts, d)" "Sync_Add w (pending_dir p) ref canonical d = (ok, e)"
      "px_store_object w ref it realms canonical ts e p = (ok', q)" for ts d e ok ok' q
    using store_object_acts [OF assms(2) local_write_newer [OF that(1)] _ queued [OF that(1,2)] that(3)]
      assms(3) by blast
  with queued assms(1) show ?thesis
    by (fastforce simp: storeLocallyWithPending_def split: sum.splits prod.splits if_splits)
qed

lemma relay_acts:
  "relay_put w r ref it canonical resp p = (resp', p') \<Longrightarrow> IsValidRef ref \<Longrightarrow> px_acts net Q p p'"
  using CacheLocally_acts acts_go
  by (fastforce simp: relay_put_def split: if_splits option.splits prod.splits)

lemma px_put_acts:
  assumes "px_put w net r ref it realms canonical p = (resp, p')" and "item_Ref it = ref"
    and "IsGlobalObject realms \<Longrightarrow> may_leave (px_UpstreamPush p) canonical"
    and "IsValidRef ref" and "Q ref"
  shows "px_acts net Q p p'"
proof (cases "\<not> IsGlobalObject realms \<and> px_UpstreamPush p \<noteq> ''all''")
  case True
  with assms(1) storePrivately_acts [OF _ assms(2,4)] show ?thesis by (simp add: px_put_def Let_def)
next
  case False
  then have leave: "may_leave (px_UpstreamPush p) canonical" using assms(3) by (auto simp: may_leave_def)
  let ?hs = "if req_header r ''If-Match'' \<noteq> [] then [(''If-Match'', req_header r ''If-Match'')] else []"
  obtain answer q where do: "px_do net (put_json_request (px_url p ref) ?hs) (Some canonical) p = (answer, q)" by fastforce
  note q = acts_put [OF do leave]
  have "px_UpstreamPush q = px_UpstreamPush p" using do by (auto simp: px_do_def split: prod.splits)
  then have "p' = p \<or> px_acts net Q q p'"
    using assms(1) False do leave storePending_acts [where Q = Q and ref = ref, OF _ assms(2,4,5), of w r canonical realms q] relay_acts [OF _ assms(4)]
    by (auto simp: px_put_def Let_def split: if_splits option.splits)
  with acts_trans [OF q] show ?thesis by auto
qed

lemma px_put_checks_Inr:
  assumes "px_put_checks w r ref body idx = Inr (it, realms, canonical)"
  shows "\<exists>env. ParseEnvelope body = Inr (env, it) \<and> realms = ResolveIn env it"
    and "item_Ref it = ref" and "VerifyEnvelope w body = None" and "CanonicalJSON body = Some canonical"
    and "ValidateRealmsForPut realms (item_Pubkey it) (Resolver idx)"
  using assms by (auto simp: px_put_checks_def Let_def split: sum.splits option.splits if_splits)

lemma handlePut_acts:
  assumes "px_handlePutObject w net r p = (resp, p')" and "Q (req_ref r)"
  shows "px_acts net Q p p'"
proof -
  have "px_acts net Q p p'"
    if "px_put_checks w r (req_ref r) body (px_index p) = Inr (it, realms, canonical)"
      "px_put w net r (req_ref r) it realms canonical p = (resp, p')" "IsValidRef (req_ref r)" for body it realms canonical
    using px_put_acts [where Q = Q and ref = "req_ref r", OF that(2) _ _ that(3) assms(2)] px_put_checks_Inr [OF that(1)] by (auto simp: may_leave_def)
  with assms(1) show ?thesis
    by (auto simp: px_handlePutObject_def Let_def split: if_splits option.splits sum.splits prod.splits)
qed

lemma reconcile_acts:
  "reconcile_items w net r items p = (resp, p') \<Longrightarrow> list_all (named net) items \<Longrightarrow> px_acts net Q p p'"
proof (induction items arbitrary: p)
  case (Cons candidate rest)
  have cached: "px_acts net Q p q" if "CacheLocally w ref candidate p = (e, q)" for ref e q
    using CacheLocally_acts [OF that] Cons.prems(2) by simp
  have rest: "px_acts net Q q p'" if "reconcile_items w net r rest q = (resp, p')" for q
    using Cons.IH [OF that] Cons.prems(2) by simp
  show ?case
    using Cons.prems(1) sync_acts [of w net r _ False p] cached rest acts_trans
    by (simp split: sum.splits prod.splits if_splits option.splits) blast+
qed simp

lemma list_acts: "forwardListEndpoint w net r path p = (resp, p') \<Longrightarrow> px_acts net Q p p'"
proof (cases "px_do net (get_json_request (cl_baseURL (px_client p) @ path)) None p")
  case (Pair answer q)
  assume list: "forwardListEndpoint w net r path p = (resp, p')"
  have named: "list_all (named net) (lr_Items up)"
    if "answer = Some a" "decode_ListResponse (up_body_bytes a) = Some up" for a up
  proof (cases "up_data a")
    case None
    with that(2) have "decode_ListResponse [] = Some up" by (simp add: up_body_bytes_def)
    moreover have "decode_ListResponse [] = None" by code_simp
    ultimately show ?thesis by simp
  next
    case (Some data)
    with that(2) px_do_answer [OF Pair [unfolded that(1)]] named_listed show ?thesis
      by (fastforce simp: up_body_bytes_def list_all_iff)
  qed
  have "p' = p \<or> p' = q \<or> px_acts net Q q p'"
    using list Pair reconcile_acts [OF _ named] acts_go acts_trans
    by (auto simp: forwardListEndpoint_def Let_def split: if_splits option.splits prod.splits) blast+
  with acts_get [OF Pair] acts_trans [OF acts_get [OF Pair]] show ?thesis by auto
qed

lemma other_handlers_acts:
  "px_handleGetJSON w net r p = (resp, p') \<Longrightarrow> px_acts net Q p p'"
  "px_handleGetRaw w net r p = (resp, p') \<Longrightarrow> px_acts net Q p p'"
  "px_handleGetPage w net r p = (resp, p') \<Longrightarrow> px_acts net Q p p'"
  "px_handleRootJSON w net r p = (resp, p') \<Longrightarrow> px_acts net Q p p'"
  "px_handleRootRaw w net r p = (resp, p') \<Longrightarrow> px_acts net Q p p'"
  "px_handleRootPage w net r p = (resp, p') \<Longrightarrow> px_acts net Q p p'"
  "handleSearch w net r p = (resp, p') \<Longrightarrow> px_acts net Q p p'"
  "handleInbound w net r p = (resp, p') \<Longrightarrow> px_acts net Q p p'"
  unfolding px_handleGetJSON_def px_handleGetRaw_def px_handleGetPage_def px_handleRootJSON_def
    px_handleRootRaw_def px_handleRootPage_def handleSearch_def
  by (erule read_handlers_acts root_acts list_acts, (erule read_handlers_acts)?)+
    (auto simp: handleInbound_def Let_def split: if_splits elim: list_acts)

lemmas handlers_acts = read_handlers_acts(1,2) other_handlers_acts handlePut_acts

lemma handler_acts:
  assumes "px_handler w net route r (p, a) = (resp, p', a')" and "route = Put_Object \<Longrightarrow> Q (req_ref r)"
  shows "px_acts net Q p p'"
proof (cases route)
  case Tls_Ask
  with assms acts_vhost [of net Q p] show ?thesis by (simp add: px_handler_def case_prod_beta) blast
qed (use assms in \<open>simp add: px_handler_def case_prod_beta\<close>;
    metis handlers_acts prod.collapse rtranclp.rtrancl_refl)+

lemma cache_refs_acts: "px_acts net Q p (cache_list_refs w net items p)"
  by (induction items arbitrary: p) (auto simp: Let_def intro: acts_trans [OF ensureFresh_acts])

lemma task_acts: "px_acts net Q p (run_task w net t p)"
  by (cases t) (auto simp: run_task_def cacheUpstreamListRefs_def
      intro: push_acts fetch_acts cache_refs_acts split: option.split)

text \<open>Only a \<open>PUT\<close> of an object queues an edit of it.\<close>

definition may_queue :: "(ref \<Rightarrow> bool) \<Rightarrow> px_event \<Rightarrow> bool" where
  "may_queue Q e \<longleftrightarrow> (\<forall>w r. e = Request w Put_Object r \<longrightarrow> Q (req_ref r))"

lemma step_acts: "may_queue Q e \<Longrightarrow> px_acts net Q (fst s) (fst (px_step net e s))"
proof (cases s)
  case (Pair p a)
  assume queue: "may_queue Q e"
  show ?thesis
  proof (cases e)
    case (Request w route r)
    obtain resp p' a' where h: "px_handler w net route r (p, a) = (resp, p', a')" by (metis prod_cases3)
    have "route = Put_Object \<Longrightarrow> Q (req_ref r)" using queue by (simp add: Request may_queue_def)
    from handler_acts [where Q = Q, OF h this] h show ?thesis by (simp add: Pair Request)
  next
    case (Task w i)
    let ?q = "p\<lparr>px_tasks := take i (px_tasks p) @ drop (Suc i) (px_tasks p)\<rparr>"
    have "px_acts net Q p ?q" by (rule r_into_rtranclp, rule px_act.tasks)
    from acts_trans [OF this task_acts] show ?thesis by (simp add: Pair Task)
  next
    case (Health w)
    have "px_acts net Q p (p\<lparr>px_client := snd (HealthCheck w net (px_client p))\<rparr>)"
      by (rule r_into_rtranclp, rule px_act.check)
    then show ?thesis by (simp add: Pair Health health_tick_def)
  qed
qed

lemma run_acts: "list_all (may_queue Q) es \<Longrightarrow> px_acts net Q (fst s) (fst (px_run net es s))"
proof (induction es arbitrary: s)
  case (Cons e es)
  then have "may_queue Q e" "list_all (may_queue Q) es" by simp_all
  from acts_trans [OF step_acts [OF this(1)] Cons.IH [OF this(2)]] show ?case by (simp add: px_run_def)
qed (simp add: px_run_def)

lemma any_run_acts: "px_acts net (\<lambda>ref. True) (fst s) (fst (px_run net es s))"
  by (rule run_acts) (simp add: may_queue_def list_all_iff)

end
