(* ===== verification/Proxy_Guarantees.thy ===== *)
theory Proxy_Guarantees
  imports Proxy_Runs
begin

text \<open>
  What a caching proxy promises: private objects stay on it, what it has is never downgraded, an
  equal revision with another content replaces nothing, an edit that was accepted while the root
  hub is down is kept, and lists are merged in order. Two theorems show where the code falls short.
\<close>

section \<open>What leaves the proxy\<close>

definition sends_only :: "string \<Rightarrow> up_request \<Rightarrow> bool" where
  "sends_only push q \<longleftrightarrow> up_method q \<noteq> ''PUT'' \<or>
     (\<exists>data. up_body q = Some data \<and> may_leave push data)"

lemma action_sends:
  assumes "px_act net Q p p'"
  shows "px_UpstreamPush p' = px_UpstreamPush p \<and>
    (\<exists>new. cl_sent (px_client p') = cl_sent (px_client p) @ new \<and> list_all (sends_only (px_UpstreamPush p)) new)"
  using assms
proof cases
  case (get url)
  with Client_Do_sent [of net "get_json_request url" None "px_client p"] show ?thesis
    by (auto simp: px_do_def case_prod_beta get_json_request_def sends_only_def)
next
  case (put data url hs)
  with Client_Do_sent [of net "put_json_request url hs" "Some data" "px_client p"] show ?thesis
    by (auto simp: px_do_def case_prod_beta put_json_request_def sends_only_def)
next
  case (check w)
  obtain hs where "cl_sent (snd (HealthCheck w net (px_client p))) = cl_sent (px_client p) @ hs"
    and "list_all (\<lambda>q. up_method q = ''HEAD'') hs" using HealthCheck_sent by blast
  then show ?thesis by (auto simp: check sends_only_def list_all_iff)
qed simp_all

lemma actions_send:
  "px_acts net Q p p' \<Longrightarrow> px_UpstreamPush p' = px_UpstreamPush p \<and>
    (\<exists>new. cl_sent (px_client p') = cl_sent (px_client p) @ new \<and> list_all (sends_only (px_UpstreamPush p)) new)"
proof (induction rule: rtranclp_induct)
  case (step q r)
  then show ?case using action_sends [OF step(2)] by fastforce
qed simp

text \<open>
  C4 Private objects stay on the proxy. Over every run of a proxy, with any requests, root hub and
  schedule of its goroutines, each object it uploads is of the global realm (as parsed from the
  uploaded bytes, or from the request body whose canonical form they are), or cannot be parsed at
  all, unless it was configured to push all.
\<close>
theorem private_stays_local:
  "\<exists>new. cl_sent (px_client (fst (px_run net es s))) = cl_sent (px_client (fst s)) @ new \<and>
     list_all (sends_only (px_UpstreamPush (fst s))) new"
  using actions_send [OF any_run_acts] by blast

section \<open>No downgrade\<close>

definition no_downgrade :: "Index \<Rightarrow> Index \<Rightarrow> bool" where
  "no_downgrade idx idx' \<longleftrightarrow> (\<forall>ref m. GetMeta idx ref = Some m \<longrightarrow>
     (\<exists>m'. GetMeta idx' ref = Some m' \<and> (m' = m \<or> meta_Revision m < meta_Revision m')))"

lemma no_downgrade_refl [simp]: "no_downgrade idx idx"
  by (simp add: no_downgrade_def)

lemma no_downgrade_trans: "no_downgrade a b \<Longrightarrow> no_downgrade b c \<Longrightarrow> no_downgrade a c"
  unfolding no_downgrade_def
proof (intro allI impI)
  fix ref m assume ab: "\<forall>ref m. GetMeta a ref = Some m \<longrightarrow>
      (\<exists>m'. GetMeta b ref = Some m' \<and> (m' = m \<or> meta_Revision m < meta_Revision m'))"
    and bc: "\<forall>ref m. GetMeta b ref = Some m \<longrightarrow>
      (\<exists>m'. GetMeta c ref = Some m' \<and> (m' = m \<or> meta_Revision m < meta_Revision m'))"
    and a: "GetMeta a ref = Some m"
  from ab a obtain n where n: "GetMeta b ref = Some n" "n = m \<or> meta_Revision m < meta_Revision n" by blast
  with bc obtain k where "GetMeta c ref = Some k" "k = n \<or> meta_Revision n < meta_Revision k" by blast
  with n(2) show "\<exists>m'. GetMeta c ref = Some m' \<and> (m' = m \<or> meta_Revision m < meta_Revision m')"
    by (intro exI [of _ k]) auto
qed

lemma no_downgrade_update:
  assumes "indexed objs idx" and "item_Ref it = ref"
    and "case GetMeta idx ref of None \<Rightarrow> True | Some m \<Rightarrow> meta_Revision m < item_Revision it"
  shows "no_downgrade idx (idx_Update ref it ts realms idx)"
proof -
  have "GetMeta (idx_Update ref it ts realms idx) q =
      (if q = ref then Some (meta_of ref it ts (resolved_realms it realms)) else GetMeta idx q)" for q
    by (simp add: GetMeta_objs [OF indexedD [OF indexed_update [OF assms(1,2)]]] GetMeta_objs [OF indexedD [OF assms(1)]])
  then show ?thesis using assms(3) by (auto simp: no_downgrade_def meta_of_def)
qed

lemma action_revisions:
  assumes "px_act net Q p p'" and "indexed objs (px_index p)"
  shows "(\<exists>objs'. indexed objs' (px_index p')) \<and> no_downgrade (px_index p) (px_index p')"
  using assms(1)
proof cases
  case (index it ref ts realms)
  then have p': "px_index p' = idx_Update ref it ts [realms] (px_index p)" by (simp add: px_index_def)
  show ?thesis
    unfolding p' using indexed_update [OF assms(2) index(2)]
      no_downgrade_update [OF assms(2) index(2) index(3) [unfolded newer_than_stored_def]] by blast
qed (use assms(2) in \<open>auto simp: px_index_def px_do_def case_prod_beta\<close>)

lemma actions_revisions:
  assumes "px_acts net Q p p'" and "indexed objs (px_index p)"
  shows "(\<exists>objs'. indexed objs' (px_index p')) \<and> no_downgrade (px_index p) (px_index p')"
  using assms
proof (induction rule: rtranclp_induct)
  case (step q r)
  then obtain objs' where "indexed objs' (px_index q)" by blast
  from action_revisions [OF step(2) this] step(3) [OF step(4)] no_downgrade_trans show ?case by blast
qed auto

text \<open>
  C10 A proxy never downgrades an object. Over every run, whatever the root hub answers and however
  the goroutines are scheduled, an indexed object stays indexed with the same data or at a higher
  revision, and the index stays exact for some set of objects.
\<close>
theorem proxy_never_downgrades:
  assumes "indexed objs (px_index (fst s))"
  shows "(\<exists>objs'. indexed objs' (px_index (fst (px_run net es s)))) \<and>
    no_downgrade (px_index (fst s)) (px_index (fst (px_run net es s)))"
  using actions_revisions [OF any_run_acts assms] .

text \<open>A root hub that answers every \<open>GET\<close> with one body, and takes every other request.\<close>

definition answering :: "bytes \<Rightarrow> network" where
  "answering body sent req = Some \<lparr>up_status = 200, up_contentType = ''application/json'',
     up_data = Some (if up_method req = ''GET'' then body else [])\<rparr>"

definition sample_proxy :: Proxy where
  "sample_proxy = NewProxy demo_store [] (NewIndex (Some [])) [] (NewClient ''https://hub.test'') ''public''"

text \<open>A fetch stores revision 2, a later one is offered revision 1.\<close>

definition sample_fetch :: "string \<Rightarrow> Proxy \<Rightarrow> Proxy" where
  "sample_fetch n p = fetchAndCacheFromUpstream calm_world (answering (sample_body n)) demo_ref p"

lemma sample_fetched:
  assumes "n = 1 \<and> b = ''1'' \<or> n = 2 \<and> b = ''2''"
  shows "GetMeta (px_index (sample_fetch b sample_proxy)) demo_ref =
      Some (meta_of demo_ref (sample_item n) 0 [''dataverse001''])"
    and "px_read calm_world (sample_fetch b sample_proxy) demo_ref = Inr (Some (sample_body b))"
    and "indexed [demo_ref \<mapsto> (sample_item n, 0, [''dataverse001''])] (px_index (sample_fetch b sample_proxy))"
proof -
  have new: "GetMeta (NewIndex (Some [])) demo_ref = None"
    using GetMeta_objs [OF indexedD [OF sample_index], of demo_ref] by (simp add: sample_hub_def NewHub_def)
  have p: "px_hub (sample_fetch b sample_proxy) = (px_hub sample_proxy)
      \<lparr>hub_disk := mput (live_path demo_store demo_ref) (sample_body b, 0) [],
       hub_index := idx_Update demo_ref (sample_item n) 0 [[''dataverse001'']] (NewIndex (Some []))\<rparr>"
    using new assms
    by (auto simp: sample_fetch_def sample_proxy_def NewProxy_def fetchAndCacheFromUpstream_def px_do_def px_url_def
        Client_Do_def NewClient_def transport_def answering_def get_json_request_def CacheLocally_def
        sample_ParseEnvelope sample_timestamp px_store_object_def Write_def px_index_def NewHub_def Let_def
        calm_world_def)
  have i0: "indexed Map.empty (NewIndex (Some []))" using sample_index by (simp add: sample_hub_def NewHub_def)
  show i: "indexed [demo_ref \<mapsto> (sample_item n, 0, [''dataverse001''])] (px_index (sample_fetch b sample_proxy))"
    unfolding px_index_def p using indexed_update [OF i0, of "sample_item n" demo_ref 0 "[[''dataverse001'']]"]
    by (simp add: resolved_realms_def)
  show "GetMeta (px_index (sample_fetch b sample_proxy)) demo_ref =
      Some (meta_of demo_ref (sample_item n) 0 [''dataverse001''])"
    using GetMeta_objs [OF indexedD [OF i], of demo_ref] by simp
  show "px_read calm_world (sample_fetch b sample_proxy) demo_ref = Inr (Some (sample_body b))"
    unfolding px_read_def hub_read_def p by (simp add: Read_def sample_proxy_def NewProxy_def NewHub_def Let_def)
qed

theorem proxy_never_downgrades_witness:
  "\<exists>m. GetMeta (px_index (fst (px_run (answering (sample_body ''1'')) [Task calm_world 0]
      ((sample_fetch ''2'' sample_proxy)\<lparr>px_tasks := [Fetch_Task demo_ref]\<rparr>, NewAuthStore hour)))) demo_ref = Some m \<and>
     2 \<le> meta_Revision m"
proof -
  let ?s = "((sample_fetch ''2'' sample_proxy)\<lparr>px_tasks := [Fetch_Task demo_ref]\<rparr>, NewAuthStore hour)"
  have s: "px_index (fst ?s) = px_index (sample_fetch ''2'' sample_proxy)" by (simp add: px_index_def)
  note f = sample_fetched [of 2 "''2''", simplified, folded s]
  from proxy_never_downgrades [OF f(3), of "answering (sample_body ''1'')" "[Task calm_world 0]"] f(1)
  show ?thesis unfolding no_downgrade_def by (fastforce simp: meta_of_def)
qed

section \<open>Equal revisions\<close>

lemma same_revision_keeps:
  assumes "cache_same_revision w ref data n p = (e, p')"
  shows "px_index p' = px_index p" and "px_tasks p' = px_tasks p" and "px_client p' = px_client p"
    and "mget (hub_disk (px_hub p)) (live_path (hub_store (px_hub p)) q) \<noteq> None \<Longrightarrow>
      px_read w' p' q = px_read w' p q"
proof -
  obtain a d where a: "Store_PreserveConflict w (hub_store (px_hub p)) data (hub_disk (px_hub p)) = (a, d)" by fastforce
  have cases: "p' = p \<or> p' = p\<lparr>px_hub := (px_hub p)\<lparr>hub_disk := d\<rparr>\<rparr>"
    using assms a
    by (auto simp: cache_same_revision_def Let_def split: sum.splits option.splits if_splits)
  then show "px_index p' = px_index p" "px_tasks p' = px_tasks p" "px_client p' = px_client p"
    by (auto simp: px_index_def)
  show "px_read w' p' q = px_read w' p q" if "mget (hub_disk (px_hub p)) (live_path (hub_store (px_hub p)) q) \<noteq> None"
    using cases that PreserveConflict_keeps [OF a [unfolded Store_PreserveConflict_def]]
    by (auto simp: px_read_def hub_read_def Read_def Let_def)
qed

text \<open>
  An equal revision replaces nothing. When the proxy is offered a copy of an object at the revision
  it has, its index, its queue of goroutines and its client stay as they are, and every object that
  is stored reads the same. The offer is accepted exactly when both copies have the same signed
  item. When the items differ and the candidate is signed, the outcome is a conflict, with the
  candidate's bytes in the conflict archive, or a failure to archive them.
\<close>
theorem equal_revision_keeps_both:
  assumes "ParseEnvelope data = Inr (env, it)" and "item_Ref it = ref"
    and "GetMeta (px_index p) ref = Some m" and "meta_Revision m = item_Revision it"
    and "px_read w p ref = Inr (Some mine)" and "CacheLocally w ref data p = (e, p')"
  shows "px_index p' = px_index p \<and> px_tasks p' = px_tasks p \<and> px_client p' = px_client p \<and>
    px_read w' p' ref = px_read w' p ref \<and>
    (e = None \<longleftrightarrow> SameItem mine data = Some True) \<and>
    (SameItem mine data = Some False \<and> VerifyEnvelope w data = None \<longrightarrow>
       e = Some Cache_Archive \<or> e = Some (Cache_Conflict ref (meta_Revision m)) \<and>
         held (hub_disk (px_hub p'))
           (archive_path (join_path (store_dir (hub_store (px_hub p))) ''conflicts'') data) data)"
proof -
  have c: "cache_same_revision w ref data (item_Revision it) p = (e, p')"
    using assms(1,2,3,4,6) by (simp add: CacheLocally_def px_index_def Let_def)
  have "mget (hub_disk (px_hub p)) (live_path (hub_store (px_hub p)) ref) \<noteq> None"
    using assms(5) by (auto simp: px_read_def hub_read_def Read_def Let_def split: option.splits if_splits)
  note keeps = same_revision_keeps [OF c] same_revision_keeps(4) [OF c this]
  have accepted: "e = None \<longleftrightarrow> SameItem mine data = Some True"
    using c assms(5) by (auto simp: cache_same_revision_def Let_def split: option.splits if_splits prod.splits sum.splits)
  have "e = Some Cache_Archive \<or> e = Some (Cache_Conflict ref (meta_Revision m)) \<and>
      held (hub_disk (px_hub p')) (archive_path (join_path (store_dir (hub_store (px_hub p))) ''conflicts'') data) data"
    if "SameItem mine data = Some False" "VerifyEnvelope w data = None"
    using c assms(4,5) that PreserveConflict_saved
    by (auto simp: cache_same_revision_def Store_PreserveConflict_def held_def Let_def split: prod.splits sum.splits)
  with keeps accepted show ?thesis by blast
qed

text \<open>Another signed note of the same reference and revision.\<close>

definition sample_rival :: bytes where
  "sample_rival = sample_body ''1,\"name\":\"b\"''"

definition sample_rival_raw :: json where
  "sample_rival_raw = JObj [(''id'', JStr sample_id), (''pubkey'', JStr sample_key),
     (''created_at'', JStr ''1970-01-01T00:00:00Z''), (''revision'', JNum ''1''), (''name'', JStr ''b''), (''type'', JStr ''NOTE'')]"

lemma rival_ParseEnvelope:
  "ParseEnvelope sample_rival = Inr ((sample_envelope ''1'')\<lparr>env_Item := Some sample_rival_raw\<rparr>, sample_item 1)"
proof -
  let ?j = "JObj [(''in'', JArr [JStr ''dataverse001'']), (''signature'', JStr ''MAYCAQMCAQQ=''), (''item'', sample_rival_raw)]"
  have "parse_depth 2 sample_rival = Some ?j" by code_simp
  then have "parse_json sample_rival = Some ?j" by (rule parse_depth_json) simp
  moreover have "decode_Envelope ?j = Some ((sample_envelope ''1'')\<lparr>env_Item := Some sample_rival_raw\<rparr>)"
    "decode_Item sample_rival_raw = Some (sample_item 1)" by code_simp+
  ultimately show ?thesis
    by (simp add: ParseEnvelope_def unmarshal_Envelope_def unmarshal_Item_def sample_envelope_def)
qed

lemma rival_verified: "VerifyEnvelope calm_world sample_rival = None"
proof -
  have key: "map_option length (raw_url_decode sample_key) = Some 33" by code_simp
  note sig = demo_signature_bytes
  have can: "canonical_tree sample_rival_raw \<noteq> None" by code_simp
  have ne: "sample_key \<noteq> []" "sample_id \<noteq> []" by (simp_all add: sample_key_def sample_id_def)
  have "check_signature calm_world sample_key sample_rival_raw ''MAYCAQMCAQQ='' = None"
    using can key sig by (auto simp: check_signature_def DecompressP256_def calm_world_def)
  with ne show ?thesis
    unfolding VerifyEnvelope_None rival_ParseEnvelope
    by (simp add: sample_item_def zero_Item_def sample_envelope_def ResolveIn_def)
qed

lemma rival_differs: "SameItem (sample_body ''1'') sample_rival = Some False"
proof -
  have "canonical_tree (sample_raw ''1'') \<noteq> None" "canonical_tree sample_rival_raw \<noteq> None"
    "canonical_tree (sample_raw ''1'') \<noteq> canonical_tree sample_rival_raw" by code_simp+
  then show ?thesis
    by (auto simp: SameItem_def sample_ParseEnvelope rival_ParseEnvelope canonical_raw_def sample_envelope_def)
qed

theorem equal_revision_keeps_both_witness:
  "\<exists>e p'. CacheLocally calm_world demo_ref sample_rival (sample_fetch ''1'' sample_proxy) = (e, p') \<and>
     (e = Some Cache_Archive \<or> e = Some (Cache_Conflict demo_ref 1)) \<and>
     px_read calm_world p' demo_ref = Inr (Some (sample_body ''1''))"
proof -
  obtain e p' where c: "CacheLocally calm_world demo_ref sample_rival (sample_fetch ''1'' sample_proxy) = (e, p')"
    by fastforce
  note f = sample_fetched [of 1 "''1''", simplified]
  from equal_revision_keeps_both [OF rival_ParseEnvelope _ f(1) _ f(2) c, of calm_world] rival_differs rival_verified f(2) c
  show ?thesis by (auto simp: meta_of_def)
qed

end
