(* ===== verification/Main_Start.thy ===== *)
theory Main_Start
  imports Main_Config Proxy_Guarantees
begin

text \<open>
  \<open>main.go\<close>: how the parts are put together at start-up, as a root hub or as a caching proxy, and the
  reload of the shared realms on SIGHUP. The process that runs from there is in \<open>Main_Lifecycle\<close>.
  The properties carry what holds of an index into the runs of a server that was just started.
\<close>

section \<open>Start-up\<close>

datatype start_error = Config_Unreadable | Store_Unusable | Index_Failed

datatype server = Root_Server hub | Proxy_Server Proxy

record started =
  st_config :: Config
  st_server :: server
  st_limiter :: RateLimiter
  st_auth :: AuthStore

text \<open>The map of the pages' hashes, filled in the order of the index.\<close>

definition page_hashes :: "ref list \<Rightarrow> string \<Rightarrow> ref option" where
  "page_hashes refs = fold (\<lambda>ref m. m(PageHash ref \<mapsto> ref)) refs Map.empty"

definition start_vhost :: "Config \<Rightarrow> Index \<Rightarrow> VhostResolver option" where
  "start_vhost cfg idx =
     (if cf_BaseDomain cfg \<noteq> [] \<and> cf_VhostMode cfg \<noteq> VhostModeOff
      then Some (UpdateHashMap (page_hashes (GetPageRefs idx))
        (NewResolver (cf_BaseDomain cfg) (cf_TxtCacheTTL cfg)))
      else None)"

definition start_server :: "world \<Rightarrow> network \<Rightarrow> Config \<Rightarrow> Store \<Rightarrow> disk \<Rightarrow> Index \<Rightarrow> server" where
  "start_server w net cfg store d idx =
     (let vhost = start_vhost cfg idx in
      if cf_Mode cfg = ''root'' then
        Root_Server ((NewHub store d idx (cf_DefaultViewerRef cfg))\<lparr>hub_vhost := vhost, hub_vhostMode := cf_VhostMode cfg\<rparr>)
      else
        (let up = snd (HealthCheck w net (NewClient (cf_UpstreamURL cfg)));
             p = NewProxy store d idx (cf_DefaultViewerRef cfg) up (cf_UpstreamPush cfg)
         in Proxy_Server (p\<lparr>px_hub := (px_hub p)\<lparr>hub_vhost := vhost, hub_vhostMode := cf_VhostMode cfg\<rparr>\<rparr>)))"

text \<open>
  \<open>main\<close> up to the listener. The file is \<open>None\<close> when no path is given, and \<open>Some None\<close> when it cannot
  be decoded; the store directory is relative to where the server runs.
\<close>

definition start ::
  "world \<Rightarrow> network \<Rightarrow> (string \<Rightarrow> string) \<Rightarrow> fileConfig option option \<Rightarrow> disk \<Rightarrow> start_error + started" where
  "start w net env given d =
     (if given = Some None then Inl Config_Unreadable
      else let toml = Option.bind given id; cfg = loadConfig env toml in
        (case NewStore w (join_path [] (cf_StoreDir cfg)) (cf_BackupEnabled cfg) of
           None \<Rightarrow> Inl Store_Unusable
         | Some store \<Rightarrow>
             (let shared = (case loadRealmsFromFile toml of
                  None \<Rightarrow> NewSharedRealms | Some realms \<Rightarrow> SharedRealms_Load NewSharedRealms realms)
              in case Rebuild w store d (NewIndex (Some shared)) of
                   Inl e \<Rightarrow> Inl Index_Failed
                 | Inr (count, idx) \<Rightarrow> Inr \<lparr>st_config = cfg, st_server = start_server w net cfg store d idx,
                     st_limiter = NewRateLimiter (cf_RateLimitPerMin cfg) (cf_RateLimitPerDay cfg),
                     st_auth = NewAuthStore (cf_AuthTokenExpiry cfg)\<rparr>)))"

text \<open>SIGHUP. A file without realms keeps the realms that were loaded before.\<close>

definition reload_realms :: "fileConfig option option \<Rightarrow> Index \<Rightarrow> Index" where
  "reload_realms given idx = (case given of
      None \<Rightarrow> idx
    | Some None \<Rightarrow> idx
    | Some (Some fc) \<Rightarrow> (case loadRealmsFromFile (Some fc) of
        None \<Rightarrow> idx
      | Some realms \<Rightarrow> idx\<lparr>idx_shared := map_option (\<lambda>s. SharedRealms_Load s realms) (idx_shared idx)\<rparr>))"

text \<open>\<open>cmd/pagehash\<close>: what is printed, and \<open>None\<close> when the usage is.\<close>

definition pagehash_command :: "string list \<Rightarrow> string option" where
  "pagehash_command args = (if length args < 2 then None else Some (PageHash (args ! 1) @ [CHR 0x0A]))"

section \<open>The index of a started server\<close>

definition server_hub :: "server \<Rightarrow> hub" where
  "server_hub sv = (case sv of Root_Server h \<Rightarrow> h | Proxy_Server p \<Rightarrow> px_hub p)"

lemma rebuild_scan_indexed:
  assumes "indexed objs idx" and "distinct refs" and "\<And>r. r \<in> set refs \<Longrightarrow> objs r = None"
    and "\<And>r it ts rs. r \<in> set refs \<Longrightarrow> load_object w s d r = Some (it, ts, rs) \<Longrightarrow> item_Ref it = r"
  shows "indexed (scanned w s d refs objs) (snd (rebuild_scan w s d refs n idx))"
  using assms
proof (induction refs arbitrary: objs idx n)
  case (Cons r refs)
  have step: "scanned w s d (r # refs) objs = scanned w s d refs (objs(r := loaded w s d r))"
    using Cons.prems by (intro scanned_Cons) auto
  show ?case
  proof (cases "load_object w s d r")
    case None
    then have "objs(r := loaded w s d r) = objs" using Cons.prems(3) by (auto simp: loaded_def)
    with None step Cons show ?thesis by simp
  next
    case (Some x)
    obtain it ts rs where x: "x = (it, ts, rs)" by (cases x)
    from Cons.prems have new: "objs r = None" and ref: "item_Ref it = r" using Some x by auto
    have none: "removeLocked r idx = idx"
      using GetMeta_objs [OF indexedD [OF Cons.prems(1)], of r] new by (simp add: removeLocked_def GetMeta_def)
    from indexed_update [OF Cons.prems(1) ref, of ts "[rs]"]
    have "indexed (objs(r := loaded w s d r)) (addLocked r it ts [rs] idx)"
      by (simp add: idx_Update_def none loaded_def Some x)
    from Cons.IH [OF this, of "n + 1"] Cons.prems
    have "indexed (scanned w s d refs (objs(r := loaded w s d r)))
        (snd (rebuild_scan w s d refs (n + 1) (addLocked r it ts [rs] idx)))" by fastforce
    with Some x step show ?thesis by simp
  qed
qed simp

lemma cleared_new: "toml_ok shared \<Longrightarrow> indexed Map.empty (idx_cleared (NewIndex shared))"
proof -
  assume "toml_ok shared"
  moreover have "idx_cleared (NewIndex shared) = NewIndex shared"
    by (simp add: idx_cleared_def NewIndex_def graph_Load_def NewGraphSharedRealms_def)
  ultimately show ?thesis using indexed_new by simp
qed

lemma Rebuild_indexed:
  assumes "mwf d" and "toml_ok shared" and "keyed (stored w s d)" and "Rebuild w s d (NewIndex shared) = Inr (n, idx)"
  shows "indexed (stored w s d) idx"
proof -
  from assms(4) obtain refs where sc: "Scan w s d = Inr refs"
    and idx: "rebuild_scan w s d refs 0 (idx_cleared (NewIndex shared)) = (n, idx)"
    by (auto simp: Rebuild_def split: sum.splits)
  have st: "stored w s d = scanned w s d refs Map.empty" by (simp add: stored_def sc fun_eq_iff)
  have "item_Ref it = r" if "r \<in> set refs" "load_object w s d r = Some (it, ts, rs)" for r it ts rs
    using assms(3) that by (auto simp: keyed_def st scanned_def loaded_def)
  then have "indexed (scanned w s d refs Map.empty) (snd (rebuild_scan w s d refs 0 (idx_cleared (NewIndex shared))))"
    by (intro rebuild_scan_indexed cleared_new assms(2) Scan_distinct [OF assms(1) sc]) auto
  with st idx show ?thesis by simp
qed

definition given_realms_ok :: "fileConfig option option \<Rightarrow> bool" where
  "given_realms_ok given \<longleftrightarrow> (case given of Some (Some fc) \<Rightarrow> mwf (fc_Realms fc) | _ \<Rightarrow> True)"

lemma start_cases:
  assumes "start w net env given d = Inr st"
  obtains toml store shared n idx where "st_config st = loadConfig env toml"
    "NewStore w (join_path [] (cf_StoreDir (st_config st))) (cf_BackupEnabled (st_config st)) = Some store"
    "Rebuild w store d (NewIndex (Some shared)) = Inr (n, idx)"
    "given_realms_ok given \<Longrightarrow> toml_ok (Some shared)"
    "st_server st = start_server w net (st_config st) store d idx"
    "st_auth st = NewAuthStore (cf_AuthTokenExpiry (st_config st))"
proof -
  define toml where "toml = Option.bind given id"
  define shared where "shared = (case loadRealmsFromFile toml of
      None \<Rightarrow> NewSharedRealms | Some realms \<Rightarrow> SharedRealms_Load NewSharedRealms realms)"
  from assms have "given \<noteq> Some None" by (auto simp: start_def)
  then have ok: "given_realms_ok given \<Longrightarrow> toml_ok (Some shared)"
    by (auto simp: shared_def toml_def given_realms_ok_def loadRealmsFromFile_def toml_ok_def NewSharedRealms_def
        SharedRealms_Load_def split: option.splits)
  let ?cfg = "loadConfig env toml"
  have "start w net env given d = (case NewStore w (join_path [] (cf_StoreDir ?cfg)) (cf_BackupEnabled ?cfg) of
      None \<Rightarrow> Inl Store_Unusable
    | Some store \<Rightarrow> (case Rebuild w store d (NewIndex (Some shared)) of
        Inl e \<Rightarrow> Inl Index_Failed
      | Inr (count, idx) \<Rightarrow> Inr \<lparr>st_config = ?cfg, st_server = start_server w net ?cfg store d idx,
          st_limiter = NewRateLimiter (cf_RateLimitPerMin ?cfg) (cf_RateLimitPerDay ?cfg),
          st_auth = NewAuthStore (cf_AuthTokenExpiry ?cfg)\<rparr>))"
    unfolding start_def toml_def shared_def Let_def using \<open>given \<noteq> Some None\<close> by simp
  with assms obtain store where store: "NewStore w (join_path [] (cf_StoreDir ?cfg)) (cf_BackupEnabled ?cfg) = Some store"
    and built: "(case Rebuild w store d (NewIndex (Some shared)) of
        Inl e \<Rightarrow> Inl Index_Failed
      | Inr (count, idx) \<Rightarrow> Inr \<lparr>st_config = ?cfg, st_server = start_server w net ?cfg store d idx,
          st_limiter = NewRateLimiter (cf_RateLimitPerMin ?cfg) (cf_RateLimitPerDay ?cfg),
          st_auth = NewAuthStore (cf_AuthTokenExpiry ?cfg)\<rparr>) = Inr st" by (auto split: option.splits)
  obtain n idx where "Rebuild w store d (NewIndex (Some shared)) = Inr (n, idx)"
    using built by (auto split: sum.splits)
  with that [of toml store shared n idx] store built ok show ?thesis by auto
qed

lemma server_hub_fields:
  "hub_store (server_hub (start_server w net cfg store d idx)) = store"
  "hub_disk (server_hub (start_server w net cfg store d idx)) = d"
  "hub_index (server_hub (start_server w net cfg store d idx)) = idx"
  "hub_vhost (server_hub (start_server w net cfg store d idx)) = start_vhost cfg idx"
  by (simp_all add: start_server_def server_hub_def NewHub_def NewProxy_def Let_def)

text \<open>
  C12 A restart keeps every object. When the server starts on a disk whose files name their objects,
  its index is exact for what is stored, shared realms included; and after any requests to a root
  hub, and any requests, goroutines and health checks of a proxy, every stored object is indexed at
  the revision it had on the disk or a higher one.
\<close>
theorem restart_keeps_objects:
  assumes "start w net env given d = Inr st" and "mwf d" and "given_realms_ok given"
    and "keyed (stored w (hub_store (server_hub (st_server st))) d)"
    and "stored w (hub_store (server_hub (st_server st))) d ref = Some (it, ts, rs)"
  shows "indexed (stored w (hub_store (server_hub (st_server st))) d) (hub_index (server_hub (st_server st))) \<and>
    (\<exists>m. GetMeta (case st_server st of
         Root_Server h \<Rightarrow> hub_index (fst (hub_run es (h, st_auth st)))
       | Proxy_Server p \<Rightarrow> px_index (fst (px_run net es' (p, st_auth st)))) ref = Some m \<and>
       item_Revision it \<le> meta_Revision m)"
proof (rule start_cases [OF assms(1)])
  fix toml store shared n idx
  assume rb: "Rebuild w store d (NewIndex (Some shared)) = Inr (n, idx)"
    and ok: "given_realms_ok given \<Longrightarrow> toml_ok (Some shared)"
    and sv: "st_server st = start_server w net (st_config st) store d idx"
  note fields = server_hub_fields [of w net "st_config st" store d idx, folded sv]
  have i: "indexed (stored w store d) idx"
    by (rule Rebuild_indexed [OF assms(2) ok [OF assms(3)] _ rb]) (use assms(4) fields in simp)
  then have m: "GetMeta idx ref = Some (meta_of ref it ts rs)"
    using GetMeta_objs [OF indexedD [OF i], of ref] assms(5) fields by simp
  have rev: "meta_Revision (meta_of ref it ts rs) = item_Revision it" by (simp add: meta_of_def)
  show ?thesis
  proof (cases "st_server st")
    case (Root_Server h)
    then have h: "hub_index (fst (h, st_auth st)) = idx" using fields by (simp add: server_hub_def)
    from run_revisions [OF i [folded h] m [folded h], of es] i rev show ?thesis
      by (auto simp: Root_Server fields [unfolded Root_Server])
  next
    case (Proxy_Server p)
    then have p: "px_index (fst (p, st_auth st)) = idx" using fields by (simp add: server_hub_def px_index_def)
    from actions_revisions [OF any_run_acts i [folded p], of net es'] i m rev show ?thesis
      unfolding p no_downgrade_def by (fastforce simp: Proxy_Server fields [unfolded Proxy_Server])
  qed
qed

text \<open>A hub started over a directory with one object.\<close>

definition start_store :: Store where
  "start_store = \<lparr>store_dir = [''dataverse001''], store_backup = True\<rparr>"

definition start_disk :: disk where
  "start_disk = mput [''dataverse001'', demo_ref @ ''.json''] (sample_body ''1'', 0) []"

lemma start_stored:
  "stored calm_world start_store start_disk = [demo_ref \<mapsto> (sample_item 1, 0, [''dataverse001''])]"
proof
  fix ref
  obtain refs where sc: "Scan calm_world start_store start_disk = Inr refs"
    by (cases "Scan calm_world start_store start_disk") (auto simp: Scan_def calm_world_def Let_def)
  have "ref \<in> set refs \<longleftrightarrow> ref = demo_ref"
    using Scan_names [OF sc, of ref] valid_ref_first [OF demo_ref_valid]
    by (auto simp: start_store_def start_disk_def)
  moreover have "loaded calm_world start_store start_disk demo_ref = Some (sample_item 1, 0, [''dataverse001''])"
    using live_path_valid [OF demo_ref_valid, of start_store]
    by (simp add: loaded_def load_object_def Read_def start_store_def start_disk_def sample_ParseEnvelope
        sample_timestamp resolved_realms_def Let_def)
  ultimately show "stored calm_world start_store start_disk ref = [demo_ref \<mapsto> (sample_item 1, 0, [''dataverse001''])] ref"
    by (simp add: stored_def sc scanned_def)
qed

lemma start_defaults:
  "NewStore calm_world (join_path [] (cf_StoreDir (loadConfig (\<lambda>v. []) None)))
     (cf_BackupEnabled (loadConfig (\<lambda>v. []) None)) = Some start_store"
proof -
  have "join_path [] ''./dataverse001'' = [''dataverse001'']" by code_simp
  then show ?thesis
    by (simp add: loadConfig_def applyEnv_def normalize_config_def default_config_def env_value_def NewStore_def
        start_store_def)
qed

lemma start_demo:
  obtains st where "start calm_world refusing (\<lambda>v. []) None start_disk = Inr st" "st_config st = loadConfig (\<lambda>v. []) None"
    "hub_store (server_hub (st_server st)) = start_store"
proof -
  obtain n idx where "Rebuild calm_world start_store start_disk (NewIndex (Some NewSharedRealms)) = Inr (n, idx)"
    by (cases "rebuild_scan calm_world start_store start_disk
        (projr (Scan calm_world start_store start_disk)) 0 (idx_cleared (NewIndex (Some NewSharedRealms)))")
      (auto simp: Rebuild_def Scan_def calm_world_def Let_def)
  then obtain st where st: "start calm_world refusing (\<lambda>v. []) None start_disk = Inr st"
    using start_defaults by (auto simp: start_def loadRealmsFromFile_def Let_def)
  then have config: "st_config st = loadConfig (\<lambda>v. []) None"
    using start_defaults by (auto simp: start_def loadRealmsFromFile_def Let_def split: sum.splits)
  then have "hub_store (server_hub (st_server st)) = start_store"
    using start_cases [OF st] start_defaults server_hub_fields(1) by (metis option.inject)
  with st config that show thesis by blast
qed

theorem restart_keeps_objects_witness:
  "\<exists>st m. start calm_world refusing (\<lambda>v. []) None start_disk = Inr st \<and>
     GetMeta (hub_index (server_hub (st_server st))) demo_ref = Some m \<and> meta_Revision m = 1"
proof -
  obtain st where st: "start calm_world refusing (\<lambda>v. []) None start_disk = Inr st"
    and store: "hub_store (server_hub (st_server st)) = start_store" by (rule start_demo)
  have "mwf start_disk" by (simp add: start_disk_def)
  moreover have "given_realms_ok None" by (simp add: given_realms_ok_def)
  moreover have "keyed (stored calm_world (hub_store (server_hub (st_server st))) start_disk)"
    by (simp add: store start_stored keyed_def)
  moreover have "stored calm_world (hub_store (server_hub (st_server st))) start_disk demo_ref =
      Some (sample_item 1, 0, [''dataverse001''])"
    by (simp add: store start_stored)
  ultimately have "indexed [demo_ref \<mapsto> (sample_item 1, 0, [''dataverse001''])] (hub_index (server_hub (st_server st)))"
    using restart_keeps_objects [OF st, of demo_ref "sample_item 1" 0 "[''dataverse001'']", THEN conjunct1]
    by (simp add: store start_stored)
  from GetMeta_objs [OF indexedD [OF this], of demo_ref] st show ?thesis by (simp add: meta_of_def)
qed

end
