(* ===== verification/Proxy_Offline.thy ===== *)
theory Proxy_Offline
  imports Proxy_Guarantees
begin

text \<open>
  Writing to a proxy while its root hub is away, together with the queue of pending edits; and two
  theorems on the edges of that behaviour: what an answer of a failing gateway does, and what the
  refresh of a viewer dependency can send.
\<close>

section \<open>Writing while offline\<close>

lemma px_put_checks_Inl: "px_put_checks w r ref body idx = Inl resp \<Longrightarrow> 400 \<le> resp_status resp"
  unfolding px_put_checks_def Let_def by (auto split: sum.splits option.splits if_splits)

lemma local_write_Inl: "local_write_begin w r ref it h = Inl resp \<Longrightarrow> 400 \<le> resp_status resp"
  by (auto simp: local_write_begin_def Let_def dest!: conditional_not_ok split: option.splits)

lemma pending_not_live:
  "IsValidRef ref \<Longrightarrow> IsValidRef q \<Longrightarrow> pending_path (sync_dir (store_dir s)) ref \<noteq> live_path s q"
  by (simp add: pending_path_eq live_path_valid sync_dir_def)

lemma held_Write:
  assumes "p \<noteq> live_path s ref" and "held d p x"
  shows "held (snd (Write w s ref b t d)) p x"
  using assms by (auto simp: held_def Write_def Let_def)

text \<open>An answer of 202 from the local path.\<close>

lemma storePending_202:
  assumes "storeLocallyWithPending w r ref it canonical realms p = (resp, p')" and "resp_status resp = 202"
    and "IsValidRef ref"
  shows "\<exists>ts. item_Timestamp it = Some ts \<and> newer_than_stored p ref it \<and>
    mget (hub_disk (px_hub p')) (live_path (hub_store (px_hub p)) ref) = Some (canonical, ts) \<and>
    held (hub_disk (px_hub p')) (pending_path (pending_dir p) ref) canonical \<and>
    px_index p' = idx_Update ref it ts [realms] (px_index p) \<and> px_client p' = px_client p"
proof (cases "local_write_begin w r ref it (px_hub p)")
  case (Inl x)
  with assms local_write_Inl [OF Inl] show ?thesis by (simp add: storeLocallyWithPending_def)
next
  case (Inr x)
  obtain ts d where x: "x = (ts, d)" by (cases x)
  obtain queued d' where q: "Sync_Add w (pending_dir p) ref canonical d = (queued, d')" by fastforce
  obtain err d'' where wr: "Write w (hub_store (px_hub p)) ref canonical ts d' = (err, d'')" by fastforce
  from assms(1,2) Inr x q wr have ok: "queued" "err = None"
    by (auto simp: storeLocallyWithPending_def px_store_object_def Let_def split: if_splits)
  have "held d' (pending_path (pending_dir p) ref) canonical"
    using q ok(1) by (auto simp: Sync_Add_def held_def Let_def split: if_splits)
  from held_Write [OF pending_not_live [OF assms(3,3)] this [unfolded pending_dir_def], of w canonical ts] wr
  have "held d'' (pending_path (pending_dir p) ref) canonical" by (simp add: pending_dir_def)
  moreover have "item_Timestamp it = Some ts"
    using Inr x by (auto simp: local_write_begin_def Let_def split: option.splits)
  moreover note local_write_newer [OF Inr [unfolded x]] Write_stored [OF wr [unfolded ok(2)]]
  ultimately show ?thesis
    using assms(1) Inr x q wr ok
    by (auto simp: storeLocallyWithPending_def px_store_object_def px_index_def Let_def)
qed

lemma forward_status [simp]: "resp_status (forwardResponse w r resp) = up_status resp"
  by (simp add: forwardResponse_def Let_def split: option.split)

text \<open>When an upload ends in 202, and what an upload without an answer leaves.\<close>

lemma relay_not_202: "relay_put w r ref it canonical a p = (resp, p') \<Longrightarrow> up_status a \<noteq> 202 \<Longrightarrow> resp_status resp \<noteq> 202"
  by (auto simp: relay_put_def writeCacheError_def writeError_status split: if_splits prod.splits option.splits cache_error.splits)

definition no_202 :: "network \<Rightarrow> Client \<Rightarrow> bool" where
  "no_202 net u \<longleftrightarrow> (cl_available u \<longrightarrow> (\<forall>q a. net (cl_sent u) q = Some a \<longrightarrow> up_status a \<noteq> 202))"

lemma unanswered:
  assumes "no_202 net (px_client p)"
    and "px_do net req body p = (x, q)"
  shows "q = p\<lparr>px_client := px_client q\<rparr>" and "x = Some a \<Longrightarrow> up_status a \<noteq> 202"
proof -
  show "q = p\<lparr>px_client := px_client q\<rparr>" using assms(2) by (simp add: px_do_def split: prod.splits) (metis Proxy.surjective Proxy.update_convs(3) Proxy.select_convs(3))
  show "x = Some a \<Longrightarrow> up_status a \<noteq> 202"
    using assms by (auto simp: no_202_def px_do_def Client_Do_def transport_def Let_def split: if_splits option.splits prod.splits)
qed

lemma px_put_202:
  assumes "no_202 net (px_client p)"
    and "px_put w net r ref it realms canonical p = (resp, p')" and "resp_status resp = 202"
  shows "\<exists>u. storeLocallyWithPending w r ref it canonical realms (p\<lparr>px_client := u\<rparr>) = (resp, p')"
proof -
  let ?hs = "if req_header r ''If-Match'' \<noteq> [] then [(''If-Match'', req_header r ''If-Match'')] else []"
  obtain x q where up: "px_do net (put_json_request (px_url p ref) ?hs) (Some canonical) p = (x, q)" by fastforce
  note q = unanswered(1) [OF assms(1) up]
  have "storePrivateLocally w r ref it canonical realms p = (resp, p') \<Longrightarrow> resp_status resp \<noteq> 202"
    using local_write_Inl by (fastforce simp: storePrivateLocally_def split: sum.splits prod.splits if_splits)
  with assms(2,3) have put: "(case x of None \<Rightarrow> storeLocallyWithPending w r ref it canonical realms q
      | Some a \<Rightarrow> relay_put w r ref it canonical a q) = (resp, p')"
    unfolding px_put_def Let_def up by (auto split: if_splits)
  show ?thesis
  proof (cases x)
    case None
    with put have "storeLocallyWithPending w r ref it canonical realms q = (resp, p')" by simp
    then show ?thesis using q by metis
  next
    case (Some a)
    with put have "relay_put w r ref it canonical a q = (resp, p')" by simp
    from relay_not_202 [OF this unanswered(2) [OF assms(1) up Some]] assms(3) show ?thesis by simp
  qed
qed

text \<open>
  An edit accepted while the root hub is away is kept. When a proxy answers a \<open>PUT\<close> with 202 and has
  not just passed on a 202 of the root hub, because the client is marked unavailable or the upload
  got no answer, then the object passed every check, is newer than what was stored, is indexed and stored in canonical form with its own timestamp; and however the
  queue runs on, until a newer edit of the object is queued its bytes are pending, archived as
  a conflict or rejected, or known to the root hub.
\<close>
theorem offline_put_kept:
  assumes "no_202 net (px_client p)"
    and "px_handlePutObject w net r p = (resp, p')" and "resp_status resp = 202" and "list_all event_valid es" and "list_all (\<lambda>e. \<not> queues (req_ref r) e) es"
  shows "\<exists>body it realms canonical ts. req_body r = Some body \<and>
    px_put_checks w r (req_ref r) body (px_index p) = Inr (it, realms, canonical) \<and>
    item_Timestamp it = Some ts \<and> newer_than_stored p (req_ref r) it \<and>
    px_index p' = idx_Update (req_ref r) it ts [realms] (px_index p) \<and>
    mget (hub_disk (px_hub p')) (live_path (hub_store (px_hub p)) (req_ref r)) = Some (canonical, ts) \<and>
    safe_edit net (store_dir (hub_store (px_hub p)))
      (sync_run net (store_dir (hub_store (px_hub p))) es
        \<lparr>sy_disk = hub_disk (px_hub p'), sy_client = px_client p', sy_flight = None\<rparr>) (req_ref r) canonical"
proof -
  let ?ref = "req_ref r"
  have valid: "IsValidRef ?ref" using assms(2,3) by (auto simp: px_handlePutObject_def Let_def split: if_splits)
  obtain body x where body: "req_body r = Some body" and x: "px_put_checks w r ?ref body (px_index p) = Inr x"
    and put: "px_put w net r ?ref (fst x) (fst (snd x)) (snd (snd x)) p = (resp, p')"
    using assms(2,3) valid px_put_checks_Inl
    by (fastforce simp: px_handlePutObject_def Let_def split: option.splits if_splits sum.splits)
  obtain it realms canonical where xs: "x = (it, realms, canonical)" by (cases x)
  obtain u where pending: "storeLocallyWithPending w r ?ref it canonical realms (p\<lparr>px_client := u\<rparr>) = (resp, p')"
    using px_put_202 [OF assms(1) put [unfolded xs fst_conv snd_conv] assms(3)] by blast
  have same: "px_index (p\<lparr>px_client := u\<rparr>) = px_index p" "pending_dir (p\<lparr>px_client := u\<rparr>) = pending_dir p"
    by (simp_all add: px_index_def pending_dir_def)
  from storePending_202 [OF pending assms(3) valid] obtain ts where ts: "item_Timestamp it = Some ts"
    "newer_than_stored p ?ref it" "px_index p' = idx_Update ?ref it ts [realms] (px_index p)"
    "mget (hub_disk (px_hub p')) (live_path (hub_store (px_hub p)) ?ref) = Some (canonical, ts)"
    "held (hub_disk (px_hub p')) (pending_path (pending_dir p) ?ref) canonical"
    by (auto simp: same newer_than_stored_def)
  let ?s = "\<lparr>sy_disk = hub_disk (px_hub p'), sy_client = px_client p', sy_flight = None\<rparr>"
  have "safe_edit net (store_dir (hub_store (px_hub p))) ?s ?ref canonical"
    using ts(5) by (simp add: safe_edit_def pending_dir_def)
  from run_safe [OF this valid _ _ assms(4,5)] have "safe_edit net (store_dir (hub_store (px_hub p)))
      (sync_run net (store_dir (hub_store (px_hub p))) es ?s) ?ref canonical"
    by (simp add: flight_ok_def flight_valid_def)
  with body x xs ts show ?thesis by blast
qed

lemma sample_px_checks:
  "px_put_checks calm_world r demo_ref (sample_body ''1'') idx = Inr (sample_item 1, [''dataverse001''], sample_canonical ''1'')"
proof -
  have "\<not> IsPubkeyRealm ''dataverse001''" "''NOTE'' \<noteq> TypeSharedRealm" by code_simp+
  then show ?thesis
    by (simp add: px_put_checks_def PubkeyRealms_def sample_ParseEnvelope sample_CanonicalJSON sample_verified Let_def)
qed

lemma sample_px_put:
  "px_handlePutObject calm_world net (sample_put ''1'') p =
     px_put calm_world net (sample_put ''1'') demo_ref (sample_item 1) [''dataverse001''] (sample_canonical ''1'') p"
  using sample_length demo_ref_valid
  by (simp add: px_handlePutObject_def sample_put_def sample_px_checks Let_def)

definition sample_offline :: Proxy where
  "sample_offline = sample_proxy\<lparr>px_client := SetAvailable False (px_client sample_proxy)\<rparr>"

lemma sample_px_index: "GetMeta (hub_index (px_hub sample_proxy)) demo_ref = None"
  using GetMeta_objs [OF indexedD [OF sample_index], of demo_ref]
  by (simp add: sample_hub_def sample_proxy_def NewProxy_def NewHub_def)

lemma sample_begin:
  "local_write_begin calm_world (sample_put ''1'') demo_ref (sample_item 1) (px_hub sample_proxy) =
     Inr (0, hub_disk (px_hub sample_proxy))"
  using sample_unconditional [of calm_world "''1''" None 1]
  by (simp add: local_write_begin_def sample_px_index sample_timestamp Let_def)

lemma sample_pending:
  assumes "px_hub p = px_hub sample_proxy"
  shows "resp_status (fst (storeLocallyWithPending calm_world (sample_put ''1'') demo_ref (sample_item 1)
      (sample_canonical ''1'') [''dataverse001''] p)) = 202"
  by (simp add: storeLocallyWithPending_def assms sample_begin Sync_Add_def px_store_object_def Write_def Let_def
      split: prod.split)

theorem offline_put_kept_witness:
  "\<exists>resp p'. px_handlePutObject calm_world refusing (sample_put ''1'') sample_offline = (resp, p') \<and>
     safe_edit refusing (store_dir demo_store)
       (sync_run refusing (store_dir demo_store) [Check calm_world, Send calm_world demo_ref, Settle calm_world]
         \<lparr>sy_disk = hub_disk (px_hub p'), sy_client = px_client p', sy_flight = None\<rparr>) demo_ref (sample_canonical ''1'')"
proof -
  obtain resp p' where put: "px_handlePutObject calm_world refusing (sample_put ''1'') sample_offline = (resp, p')" by fastforce
  have hub: "px_hub sample_offline = px_hub sample_proxy" "store_dir (hub_store (px_hub sample_offline)) = store_dir demo_store"
    by (simp_all add: sample_offline_def sample_proxy_def NewProxy_def NewHub_def)
  have global: "IsGlobalObject [''dataverse001'']" by code_simp
  have off: "\<not> cl_available (px_client sample_offline)" by (simp add: sample_offline_def SetAvailable_def)
  have "px_handlePutObject calm_world refusing (sample_put ''1'') sample_offline =
      storeLocallyWithPending calm_world (sample_put ''1'') demo_ref (sample_item 1) (sample_canonical ''1'') [''dataverse001''] sample_offline"
    unfolding sample_px_put using off global
    by (simp add: px_put_def px_do_def Client_Do_unavailable px_url_def calm_world_def Let_def)
  then have "resp_status resp = 202" using sample_pending [OF hub(1)] put by (metis fst_conv)
  from offline_put_kept [OF _ put this, of "[Check calm_world, Send calm_world demo_ref, Settle calm_world]"]
  show ?thesis using put hub(2) off
    by (auto simp: no_202_def sample_put_def sample_px_checks event_valid_def queues_def demo_ref_valid)
qed

section \<open>A failing gateway\<close>

text \<open>
  A gateway error loses the write. When the root hub's gateway answers an upload with 502, 503, 504
  or 429, the statuses the client counts as the root hub being down, the proxy relays the error
  and keeps nothing: its disk, index and goroutines are as before. It has only marked the root hub
  unavailable, so that the same request, sent again, is stored and queued with 202.
\<close>
theorem gateway_error_not_queued:
  assumes "IsValidRef (req_ref r)" and "req_body r = Some body" and "int (length body) \<le> maxBodySize"
    and "px_put_checks w r (req_ref r) body (px_index p) = Inr (it, realms, canonical)"
    and "IsGlobalObject realms" and "\<not> w_bad_url w (px_url p (req_ref r))"
    and "cl_available (px_client p)" and "\<And>q. net (cl_sent (px_client p)) q = Some resp"
    and "IsDown (up_status resp)"
    and "local_write_begin w r (req_ref r) it (px_hub p) = Inr (ts, d)"
    and "fst (Sync_Add w (pending_dir p) (req_ref r) canonical d)"
    and "fst (Write w (hub_store (px_hub p)) (req_ref r) canonical ts (snd (Sync_Add w (pending_dir p) (req_ref r) canonical d))) = None"
    and "px_handlePutObject w net r p = (a, p')" and "px_handlePutObject w net r p' = (a', p'')"
  shows "resp_status a = up_status resp \<and> px_hub p' = px_hub p \<and> px_tasks p' = px_tasks p \<and>
    \<not> cl_available (px_client p') \<and> resp_status a' = 202"
proof -
  let ?ref = "req_ref r"
  have step: "px_handlePutObject w net r q = px_put w net r ?ref it realms canonical q" if "px_hub q = px_hub p" for q
    using assms(1-4) that by (simp add: px_handlePutObject_def px_index_def Let_def)
  let ?hs = "if req_header r ''If-Match'' \<noteq> [] then [(''If-Match'', req_header r ''If-Match'')] else []"
  let ?q = "(put_json_request (px_url p ?ref) ?hs)\<lparr>up_body := Some canonical\<rparr>"
  define u where "u = (px_client p)\<lparr>cl_sent := cl_sent (px_client p) @ [?q], cl_available := False\<rparr>"
  have do: "px_do net (put_json_request (px_url p ?ref) ?hs) (Some canonical) p = (Some resp, p\<lparr>px_client := u\<rparr>)"
    and u: "\<not> cl_available u" "cl_baseURL u = cl_baseURL (px_client p)"
    using assms(7,8,9) by (simp_all add: px_do_def Client_Do_def transport_def u_def Let_def)
  have relay: "relay_put w r ?ref it canonical resp q = (forwardResponse w r resp, q)" for q
    using assms(9) by (auto simp: relay_put_def IsDown_def)
  have "(a, p') = (forwardResponse w r resp, p\<lparr>px_client := u\<rparr>)"
    using assms(5,6,13) step do relay by (simp add: px_put_def Let_def)
  then have a: "resp_status a = up_status resp" and p': "p' = p\<lparr>px_client := u\<rparr>" by simp_all
  have "(a', p'') = storeLocallyWithPending w r ?ref it canonical realms p'"
    using assms(5,6,14) step [of p'] u by (simp add: p' px_put_def px_do_def px_url_def Client_Do_unavailable Let_def)
  then have "resp_status a' = 202"
    using assms(10-12) by (auto simp: p' storeLocallyWithPending_def px_store_object_def pending_dir_def Let_def
        split: prod.splits)
  with a p' u(1) show ?thesis by simp
qed

definition sample_gateway :: network where
  "sample_gateway sent req = Some \<lparr>up_status = 503, up_contentType = [], up_data = Some []\<rparr>"

theorem gateway_error_not_queued_witness:
  "\<exists>a p' a' p''. px_handlePutObject calm_world sample_gateway (sample_put ''1'') sample_proxy = (a, p') \<and>
     px_handlePutObject calm_world sample_gateway (sample_put ''1'') p' = (a', p'') \<and>
     resp_status a = 503 \<and> resp_status a' = 202"
proof -
  obtain a p' a' p'' where put: "px_handlePutObject calm_world sample_gateway (sample_put ''1'') sample_proxy = (a, p')"
    "px_handlePutObject calm_world sample_gateway (sample_put ''1'') p' = (a', p'')" by (meson surj_pair)
  have r: "req_ref (sample_put ''1'') = demo_ref" "req_body (sample_put ''1'') = Some (sample_body ''1'')"
    by (simp_all add: sample_put_def)
  have global: "IsGlobalObject [''dataverse001'']" by code_simp
  note go = gateway_error_not_queued [where r = "sample_put ''1''" and net = sample_gateway and w = calm_world
      and p = sample_proxy, unfolded r, OF demo_ref_valid refl sample_length(1) sample_px_checks global]
  show ?thesis
    using go [OF _ _ _ _ sample_begin _ _ put] put
    by (simp add: sample_gateway_def calm_world_def sample_proxy_def NewProxy_def NewClient_def IsDown_def
        Sync_Add_def Write_def Let_def)
qed

section \<open>Refreshing a viewer dependency\<close>

text \<open>
  C40 The reference of a page relation is used as a file name. When a client asks for the HTML of a
  stored object whose page relation names a file of the proxy's disk that is not an object, for
  example one outside the store's directory, and the root hub answers 404, then the proxy starts a
  goroutine that uploads the contents of that file to the root hub.
\<close>
theorem stray_file_uploaded:
  assumes "IsValidRef (req_ref r)" and "acceptsHTML r" and "hub_defaultViewerRef (px_hub p) = []"
    and "px_read w p (req_ref r) = Inr (Some local)" and "ParseEnvelope local = Inr (env, it)"
    and "item_Type it \<noteq> ''PAGE''" and "firstRelationRef it ''type_def'' = []"
    and "firstRelationRef it ''page'' = q" and "q \<noteq> []" and "q \<noteq> req_ref r"
    and "GetMeta (px_index p) q = None" and "px_read w p q = Inr (Some data)" and "ParseEnvelope data = Inl e"
    and "cl_available (px_client p)" and "\<And>sent req. net sent req = Some resp" and "up_status resp = 404"
    and "\<not> w_bad_url w (px_url p (req_ref r))" and "\<not> w_bad_url w (px_url p q)"
    and "px_handleGetObject w net r p = (a, p')"
  shows "px_tasks p' = px_tasks p @ [Push_Task (req_ref r) local, Push_Task q data] \<and>
    cl_sent (px_client (run_task w net (Push_Task q data) p')) =
      cl_sent (px_client p') @ [(put_json_request (px_url p q) [])\<lparr>up_body := Some data\<rparr>]"
proof -
  let ?ref = "req_ref r"
  define u where "u url c = c\<lparr>cl_sent := cl_sent c @ [get_json_request url]\<rparr>" for url and c :: Client
  have do: "px_do net (get_json_request url) None q' = (Some resp, q'\<lparr>px_client := u url (px_client q')\<rparr>)"
    if "cl_available (px_client q')" for url q'
    using that assms(15,16) by (simp add: px_do_def Client_Do_def transport_def IsDown_def u_def)
  let ?p1 = "px_go (Push_Task ?ref local) (p\<lparr>px_client := u (px_url p ?ref) (px_client p)\<rparr>)"
  let ?p2 = "px_go (Push_Task q data) (?p1\<lparr>px_client := u (px_url p q) (px_client ?p1)\<rparr>)"
  have p1: "px_url ?p1 q = px_url p q" "cl_available (px_client ?p1)" "px_index ?p1 = px_index p"
    "\<And>x. px_read w ?p1 x = px_read w p x" "px_hub ?p1 = px_hub p"
    using assms(14) by (simp_all add: px_go_def px_url_def px_index_def px_read_def u_def)
  have "ensureViewerDependencyFresh w net q ?p1 = ?p2"
    using assms(11,12,13,16,18) do [of ?p1] p1
    by (simp add: ensureViewerDependencyFresh_def ensureFresh_def px_read_def Let_def)
  then have "ensurePageDepsFresh w net ?ref ?p1 = ?p2"
    using assms(3-10) p1 by (simp add: ensurePageDepsFresh_def px_item_def type_deps_def default_deps_def px_go_def Let_def)
  then have "syncFromUpstream w net r ?ref (acceptsHTML r) p = (None, ?p2)"
    using assms(2,4,14,16,17) do [of p]
    by (simp add: syncFromUpstream_def sync_deps_def px_read_def)
  then have "px_tasks p' = px_tasks ?p2" "px_client p' = px_client ?p2" "px_UpstreamPush p' = px_UpstreamPush ?p2"
    using assms(1,19) by (auto simp: px_handleGetObject_def with_hub_def Let_def split: prod.splits)
  then show ?thesis
    using assms(13-16,18)
    by (simp add: px_go_def u_def run_task_def pushToUpstream_def push_allowed_def px_do_def Client_Do_def
        transport_def px_url_def put_json_request_def Let_def)
qed

text \<open>A note whose page relation leads out of the store, and a file outside it.\<close>

definition stray_object :: bytes where
  "stray_object = ''{\"item\":{\"relations\":{\"page\":[{\"ref\":\"../key\"}]}}}''"

definition stray_secret :: bytes where
  "stray_secret = ''{\"key\":1}''"

definition stray_proxy :: Proxy where
  "stray_proxy = sample_proxy\<lparr>px_hub := (px_hub sample_proxy)\<lparr>hub_disk :=
     mput [''key.json''] (stray_secret, 0) (mput (live_path demo_store demo_ref) (stray_object, 0) [])\<rparr>\<rparr>"

definition stray_request :: request where
  "stray_request = empty_request\<lparr>req_ref := demo_ref, req_header := (\<lambda>k. if k = ''Accept'' then ''text/html'' else [])\<rparr>"

definition stray_answer :: up_response where
  "stray_answer = \<lparr>up_status = 404, up_contentType = [], up_data = Some []\<rparr>"

definition stray_network :: network where
  "stray_network sent req = Some stray_answer"

lemma stray_parsed:
  "\<exists>env it. ParseEnvelope stray_object = Inr (env, it) \<and> item_Type it = [] \<and>
     firstRelationRef it ''type_def'' = [] \<and> firstRelationRef it ''page'' = ''../key''"
proof -
  let ?raw = "JObj [(''relations'', JObj [(''page'', JArr [JObj [(''ref'', JStr ''../key'')]])])]"
  have "parse_depth 5 stray_object = Some (JObj [(''item'', ?raw)])" by code_simp
  then have p: "parse_json stray_object = Some (JObj [(''item'', ?raw)])" by (rule parse_depth_json) simp
  obtain env where env: "decode_Envelope (JObj [(''item'', ?raw)]) = Some env" "env_Item env = Some ?raw"
  proof -
    have "map_option env_Item (decode_Envelope (JObj [(''item'', ?raw)])) = Some (Some ?raw)" by code_simp
    with that show thesis by (auto simp: map_option_case split: option.splits)
  qed
  obtain it where it: "decode_Item ?raw = Some it" "item_Type it = []"
    "firstRelationRef it ''type_def'' = []" "firstRelationRef it ''page'' = ''../key''"
  proof -
    have "map_option (\<lambda>it. (item_Type it, firstRelationRef it ''type_def'', firstRelationRef it ''page'')) (decode_Item ?raw) =
        Some ([], [], ''../key'')" by code_simp
    with that show thesis by (auto simp: map_option_case split: option.splits)
  qed
  from p env it show ?thesis by (simp add: ParseEnvelope_def unmarshal_Envelope_def unmarshal_Item_def)
qed

lemma stray_secret_parsed: "\<exists>e. ParseEnvelope stray_secret = Inl e"
proof -
  have "parse_depth 2 stray_secret = Some (JObj [(''key'', JNum ''1'')])" by code_simp
  then have p: "parse_json stray_secret = Some (JObj [(''key'', JNum ''1'')])" by (rule parse_depth_json) simp
  have "map_option env_Item (decode_Envelope (JObj [(''key'', JNum ''1'')])) = Some None" by code_simp
  with p show ?thesis
    by (auto simp: ParseEnvelope_def unmarshal_Envelope_def unmarshal_Item_def map_option_case split: option.splits)
qed

theorem stray_file_uploaded_witness:
  "\<exists>a p'. px_handleGetObject calm_world stray_network stray_request stray_proxy = (a, p') \<and>
     px_tasks p' = [Push_Task demo_ref stray_object, Push_Task ''../key'' stray_secret]"
proof -
  obtain a p' where get: "px_handleGetObject calm_world stray_network stray_request stray_proxy = (a, p')" by fastforce
  obtain env it where it: "ParseEnvelope stray_object = Inr (env, it)" "item_Type it = []"
    "firstRelationRef it ''type_def'' = []" "firstRelationRef it ''page'' = ''../key''" using stray_parsed by blast
  have html: "acceptsHTML stray_request" by code_simp
  have key: "live_path demo_store ''../key'' = [''key.json'']" by code_simp
  have ref: "live_path demo_store demo_ref \<noteq> [''key.json'']" "demo_ref \<noteq> ''../key''" by code_simp+
  obtain e where bad: "ParseEnvelope stray_secret = Inl e" using stray_secret_parsed by blast
  have reads: "px_read calm_world stray_proxy demo_ref = Inr (Some stray_object)"
    "px_read calm_world stray_proxy ''../key'' = Inr (Some stray_secret)"
    using ref by (simp_all add: px_read_def hub_read_def Read_def stray_proxy_def sample_proxy_def NewProxy_def NewHub_def key Let_def)
  have idx: "GetMeta (px_index stray_proxy) ''../key'' = None"
    using GetMeta_objs [OF indexedD [OF sample_index], of "''../key''"]
    by (simp add: sample_hub_def px_index_def stray_proxy_def sample_proxy_def NewProxy_def NewHub_def)
  have r: "req_ref stray_request = demo_ref" by (simp add: stray_request_def)
  have p: "hub_defaultViewerRef (px_hub stray_proxy) = []" "cl_available (px_client stray_proxy)"
    "px_tasks stray_proxy = []"
    by (simp_all add: stray_proxy_def sample_proxy_def NewProxy_def NewHub_def NewClient_def)
  have "px_tasks p' = px_tasks stray_proxy @ [Push_Task (req_ref stray_request) stray_object, Push_Task ''../key'' stray_secret]"
    by (rule stray_file_uploaded [where resp = stray_answer, THEN conjunct1, OF _ html p(1) _ it(1) _ it(3,4) _ _ idx reads(2) bad p(2) _ _ _ _ get])
      (use reads(1) it(2) ref r demo_ref_valid in \<open>simp_all add: stray_network_def stray_answer_def calm_world_def\<close>)
  with get p(3) r show ?thesis by simp
qed

end
