(* ===== verification/Upstream_Drain.thy ===== *)
theory Upstream_Drain
  imports Upstream_Sync
begin

text \<open>
  The drain goroutine of \<open>upstream/sync.go\<close> step by step: \<open>drain\<close> with its \<open>select\<close>, its two looks at the
  availability flag and \<open>sleepOrStop\<close>. Between two steps other goroutines may run. The lemmas show that
  an undisturbed round is \<open>drain_round\<close>, that every step is a step of the queue, and that a closed stop
  channel ends the goroutine after a few steps wherever it was.
\<close>

section \<open>Steps\<close>

text \<open>Where the goroutine is. \<open>Drain_Sleep\<close> is \<open>sleepOrStop\<close>, with the references that follow after it.\<close>

datatype drain_pc =
    Drain_Select
  | Drain_Available
  | Drain_Again
  | Drain_List
  | Drain_Push ref "ref list"
  | Drain_Settle "ref list"
  | Drain_Sleep int "ref list"
  | Drain_Exited

definition drain_next :: "ref list \<Rightarrow> drain_pc" where
  "drain_next refs = (case refs of [] \<Rightarrow> Drain_Select | ref # refs \<Rightarrow> Drain_Push ref refs)"

text \<open>
  One step; \<open>stop\<close> says whether the stop channel is closed, and \<open>None\<close> that the goroutine is blocked or has
  ended.
\<close>

definition drain_step ::
  "network \<Rightarrow> path \<Rightarrow> bool \<Rightarrow> world \<Rightarrow> drain_pc \<Rightarrow> sync_state \<Rightarrow> (drain_pc \<times> sync_state) option" where
  "drain_step net base stop w pc s = (case pc of
      Drain_Select \<Rightarrow> Some (if stop then Drain_Exited else Drain_Available, s)
    | Drain_Available \<Rightarrow>
        Some (if Available (sy_client s) then (Drain_List, s) else (Drain_Again, sync_step net base (Check w) s))
    | Drain_Again \<Rightarrow> Some (if Available (sy_client s) then Drain_List else Drain_Sleep 10 [], s)
    | Drain_List \<Rightarrow> Some (case Sync_List w (sync_dir base) (sy_disk s) of
          None \<Rightarrow> Drain_Sleep 5 []
        | Some refs \<Rightarrow> if refs = [] then Drain_Sleep 5 [] else drain_next refs, s)
    | Drain_Push ref refs \<Rightarrow> Some (Drain_Settle refs, sync_step net base (Send w ref) s)
    | Drain_Settle refs \<Rightarrow> (case sy_flight s of
          None \<Rightarrow> None
        | Some (ref, v) \<Rightarrow>
            Some (if fst (push_settle w (sync_dir base) ref v (sy_disk s)) then Drain_Sleep 1 refs else Drain_Select,
              sync_step net base (Settle w) s))
    | Drain_Sleep n refs \<Rightarrow> if stop then Some (Drain_Exited, s) else None
    | Drain_Exited \<Rightarrow> None)"

text \<open>The timer of \<open>sleepOrStop\<close>. When both channels are ready, \<open>select\<close> may take either.\<close>

definition drain_timer :: "drain_pc \<Rightarrow> drain_pc option" where
  "drain_timer pc = (case pc of Drain_Sleep n refs \<Rightarrow> Some (drain_next refs) | _ \<Rightarrow> None)"

text \<open>The references that the goroutine still holds.\<close>

definition drain_refs :: "drain_pc \<Rightarrow> ref list" where
  "drain_refs pc = (case pc of Drain_Push ref refs \<Rightarrow> ref # refs | Drain_Settle refs \<Rightarrow> refs
     | Drain_Sleep n refs \<Rightarrow> refs | _ \<Rightarrow> [])"

lemma drain_next_simps [simp]:
  "drain_refs (drain_next refs) = refs" "drain_next refs \<noteq> Drain_Settle rs" "drain_next refs \<noteq> Drain_Exited"
  by (cases refs; simp add: drain_next_def drain_refs_def)+

text \<open>A pushed edit is in flight exactly between its two steps.\<close>

definition drain_ok :: "drain_pc \<Rightarrow> sync_state \<Rightarrow> bool" where
  "drain_ok pc s \<longleftrightarrow> (sy_flight s \<noteq> None \<longleftrightarrow> (\<exists>refs. pc = Drain_Settle refs))"

lemma drain_ok_timer: "drain_ok pc s \<Longrightarrow> drain_timer pc = Some pc' \<Longrightarrow> drain_ok pc' s"
  by (auto simp: drain_timer_def drain_ok_def split: drain_pc.splits)

lemma drain_ok_step: "drain_ok pc s \<Longrightarrow> drain_step net base stop w pc s = Some (pc', s') \<Longrightarrow> drain_ok pc' s'"
  by (cases pc) (auto simp: drain_step_def drain_ok_def split: if_splits option.splits prod.splits)

lemma drain_timer_refs: "drain_timer pc = Some pc' \<Longrightarrow> drain_refs pc' = drain_refs pc"
  by (auto simp: drain_timer_def drain_refs_def [of "Drain_Sleep n refs" for n refs] split: drain_pc.splits)

lemma drain_step_refs:
  assumes "drain_step net base stop w pc s = Some (pc', s')" and "q \<in> set (drain_refs pc')"
  shows "q \<in> set (drain_refs pc) \<or> (\<exists>refs. Sync_List w (sync_dir base) (sy_disk s) = Some refs \<and> q \<in> set refs)"
  using assms
  by (cases pc) (auto simp: drain_step_def drain_refs_def [of Drain_Select] drain_refs_def [of Drain_Available]
      drain_refs_def [of Drain_Again] drain_refs_def [of Drain_List] drain_refs_def [of Drain_Exited]
      drain_refs_def [of "Drain_Push r rs" for r rs] drain_refs_def [of "Drain_Settle rs" for rs]
      drain_refs_def [of "Drain_Sleep n rs" for n rs] split: if_splits option.splits prod.splits)

section \<open>A step of the goroutine is a step of the queue\<close>

lemma drain_step_events:
  assumes "drain_step net base stop w pc s = Some (pc', s')" and "drain_ok pc s"
    and "list_all IsValidRef (drain_refs pc)"
  shows "\<exists>es. s' = sync_run net base es s \<and> list_all event_valid es \<and> (\<forall>ref. list_all (\<lambda>e. \<not> queues ref e) es)"
proof -
  have one: "?thesis" if "s' = sync_step net base e s" "event_valid e" "\<And>ref. \<not> queues ref e" for e
    using that by (intro exI [of _ "[e]"]) (simp add: sync_run_def)
  have none: "?thesis" if "s' = s"
    using that by (intro exI [of _ "[]"]) (simp add: sync_run_def)
  show ?thesis
  proof (cases pc)
    case Drain_Available
    with assms(1) one [of "Check w"] none show ?thesis
      by (auto simp: drain_step_def event_valid_def queues_def split: if_splits)
  next
    case (Drain_Push ref refs)
    with assms(3) have "IsValidRef ref" by (simp add: drain_refs_def)
    with assms(1) Drain_Push one [of "Send w ref"] show ?thesis
      by (auto simp: drain_step_def event_valid_def queues_def)
  next
    case (Drain_Settle refs)
    then obtain f where "sy_flight s = Some f" using assms(2) by (auto simp: drain_ok_def)
    with assms(1) Drain_Settle one [of "Settle w"] show ?thesis
      by (auto simp: drain_step_def event_valid_def queues_def split: prod.splits)
  qed (use assms(1) none in \<open>auto simp: drain_step_def split: if_splits\<close>)
qed

section \<open>The goroutine stops soon\<close>

text \<open>How far the goroutine is from its end once it was told to stop, with timers that may still fire.\<close>

definition drain_rank :: "drain_pc \<Rightarrow> nat \<times> nat" where
  "drain_rank pc = (case pc of
      Drain_Available \<Rightarrow> (3, 0) | Drain_Again \<Rightarrow> (2, 0) | Drain_List \<Rightarrow> (1, 0)
    | Drain_Push ref refs \<Rightarrow> (0, 3 * length refs + 4) | Drain_Settle refs \<Rightarrow> (0, 3 * length refs + 3)
    | Drain_Sleep n refs \<Rightarrow> (0, 3 * length refs + 2) | Drain_Select \<Rightarrow> (0, 1) | Drain_Exited \<Rightarrow> (0, 0))"

abbreviation drain_less :: "((nat \<times> nat) \<times> nat \<times> nat) set" where
  "drain_less \<equiv> less_than <*lex*> less_than"

lemma drain_rank_next: "drain_rank (drain_next refs) = (0, 3 * length refs + 1)"
  by (cases refs) (simp_all add: drain_next_def drain_rank_def)

lemma drain_stops_step:
  assumes "drain_step net base True w pc s = Some (pc', s')"
  shows "(drain_rank pc', drain_rank pc) \<in> drain_less"
  using assms drain_rank_next
  by (cases pc) (auto simp: drain_step_def drain_rank_next drain_rank_def [of "Drain_Available"] drain_rank_def [of Drain_Select]
      drain_rank_def [of Drain_Again] drain_rank_def [of Drain_List] drain_rank_def [of Drain_Exited]
      drain_rank_def [of "Drain_Push r rs" for r rs] drain_rank_def [of "Drain_Settle rs" for rs]
      drain_rank_def [of "Drain_Sleep n rs" for n rs] split: if_splits option.splits prod.splits)

lemma drain_stops_timer: "drain_timer pc = Some pc' \<Longrightarrow> (drain_rank pc', drain_rank pc) \<in> drain_less"
  by (auto simp: drain_timer_def drain_rank_next drain_rank_def [of "Drain_Sleep n rs" for n rs] split: drain_pc.splits)

lemma drain_can_step: "drain_ok pc s \<Longrightarrow> pc \<noteq> Drain_Exited \<Longrightarrow> drain_step net base True w pc s \<noteq> None"
  by (cases pc) (auto simp: drain_step_def drain_ok_def split: option.splits prod.splits)

section \<open>An undisturbed round\<close>

text \<open>Steps of the goroutine alone, with the seconds that it sleeps.\<close>

inductive drain_steps ::
  "network \<Rightarrow> path \<Rightarrow> world \<Rightarrow> drain_pc \<times> sync_state \<Rightarrow> int \<Rightarrow> drain_pc \<times> sync_state \<Rightarrow> bool"
  for net base w where
  stay: "drain_steps net base w x 0 x"
| go: "drain_step net base False w pc s = Some x \<Longrightarrow> drain_steps net base w x n y \<Longrightarrow>
    drain_steps net base w (pc, s) n y"
| sleep: "drain_steps net base w (drain_next refs, s) n y \<Longrightarrow>
    drain_steps net base w (Drain_Sleep k refs, s) (k + n) y"

lemma drain_slept:
  "drain_steps net base w (drain_next refs, s) n y \<Longrightarrow> m = k + n \<Longrightarrow>
     drain_steps net base w (Drain_Sleep k refs, s) m y"
  using drain_steps.sleep by blast

lemma push_all_steps:
  assumes "sy_flight s = None" and "push_all w net (sync_dir base) refs (sy_disk s, sy_client s) = (k, d, u)"
  shows "drain_steps net base w (drain_next refs, s) k (Drain_Select, s\<lparr>sy_disk := d, sy_client := u\<rparr>)"
  using assms
proof (induction refs arbitrary: s k)
  case Nil
  then have "s\<lparr>sy_disk := d, sy_client := u\<rparr> = s" "k = 0" by auto
  then show ?case by (simp add: drain_next_def drain_steps.stay)
next
  case (Cons ref refs)
  obtain v u1 where send: "push_send w net (sync_dir base) ref (sy_disk s) (sy_client s) = (v, u1)" by fastforce
  obtain goes d1 where settle: "push_settle w (sync_dir base) ref v (sy_disk s) = (goes, d1)" by fastforce
  let ?s = "s\<lparr>sy_disk := d1, sy_client := u1\<rparr>"
  let ?fin = "(Drain_Select, s\<lparr>sy_disk := d, sy_client := u\<rparr>)"
  have two: "drain_steps net base w (Drain_Push ref refs, s) n ?fin"
    if "drain_steps net base w (if goes then Drain_Sleep 1 refs else Drain_Select, ?s) n ?fin" for n
  proof -
    let ?m = "s\<lparr>sy_client := u1, sy_flight := Some (ref, v)\<rparr>"
    have "?s = s\<lparr>sy_client := u1, sy_flight := None, sy_disk := d1\<rparr>" using Cons.prems(1) by simp
    then have "drain_step net base False w (Drain_Settle refs) ?m = Some (if goes then Drain_Sleep 1 refs else Drain_Select, ?s)"
      by (simp add: drain_step_def settle)
    moreover have "drain_step net base False w (Drain_Push ref refs) s = Some (Drain_Settle refs, ?m)"
      by (simp add: drain_step_def Cons.prems(1) send)
    ultimately show ?thesis using that drain_steps.go by blast
  qed
  show ?case
  proof (cases goes)
    case False
    with Cons.prems(2) have "k = 0" "d1 = d" "u1 = u" by (simp_all add: pushOne_def send settle)
    with False show ?thesis by (simp add: drain_next_def two drain_steps.stay)
  next
    case True
    then obtain n where n: "push_all w net (sync_dir base) refs (d1, u1) = (n, d, u)" "k = 1 + n"
      using Cons.prems(2) by (auto simp: pushOne_def send settle split: prod.splits)
    from Cons.IH [of ?s n] n(1) Cons.prems(1)
    have "drain_steps net base w (drain_next refs, ?s) n ?fin" by simp
    from drain_slept [OF this n(2)] two [of k] True show ?thesis by (simp add: drain_next_def)
  qed
qed

text \<open>
  The big and the small steps of the drain goroutine agree: when nobody disturbs it, it makes one
  round of \<open>drain_round\<close> out of its single steps, with the same effect on the queue and the client
  and the same seconds of sleep, and is back at the top of its loop.
\<close>
theorem drain_round_refined:
  assumes "sy_flight s = None" and "drain_round w net (sync_dir base) (sy_disk s, sy_client s) = (k, d, u)"
  shows "drain_steps net base w (Drain_Select, s) k (Drain_Select, s\<lparr>sy_disk := d, sy_client := u\<rparr>)"
proof -
  let ?fin = "(Drain_Select, s\<lparr>sy_disk := d, sy_client := u\<rparr>)"
  have idle: "drain_steps net base w (Drain_Sleep k [], s\<lparr>sy_client := u\<rparr>) k ?fin" if "d = sy_disk s"
    by (rule drain_slept [where n = 0]) (simp_all add: drain_next_def drain_steps.stay that)
  have listed: "drain_steps net base w (Drain_List, s\<lparr>sy_client := u1\<rparr>) k ?fin"
    if "Available u1"
      "(case Sync_List w (sync_dir base) (sy_disk s) of None \<Rightarrow> (5, sy_disk s, u1)
        | Some refs \<Rightarrow> if refs = [] then (5, sy_disk s, u1)
            else push_all w net (sync_dir base) refs (sy_disk s, u1)) = (k, d, u)" for u1
  proof -
    let ?q = "s\<lparr>sy_client := u1\<rparr>"
    have busy: "drain_steps net base w (drain_next refs, ?q) k ?fin"
      if "push_all w net (sync_dir base) refs (sy_disk s, u1) = (k, d, u)" for refs
      using push_all_steps [of ?q w net base refs k d u] that assms(1) by simp
    show ?thesis
    proof (cases "Sync_List w (sync_dir base) (sy_disk s)")
      case None
      with that(2) have "k = 5" "d = sy_disk s" "u = u1" by simp_all
      with None idle show ?thesis
        by - (rule drain_steps.go [where x = "(Drain_Sleep 5 [], ?q)"], simp_all add: drain_step_def)
    next
      case (Some refs)
      show ?thesis
      proof (cases "refs = []")
        case True
        with Some that(2) have "k = 5" "d = sy_disk s" "u = u1" by simp_all
        with Some True idle show ?thesis
          by - (rule drain_steps.go [where x = "(Drain_Sleep 5 [], ?q)"], simp_all add: drain_step_def)
      next
        case False
        with Some that(2) busy [of refs] show ?thesis
          by - (rule drain_steps.go [where x = "(drain_next refs, ?q)"], simp_all add: drain_step_def)
      qed
    qed
  qed
  have available: "drain_steps net base w (Drain_Available, s) k ?fin"
  proof (cases "Available (sy_client s)")
    case True
    have q: "s\<lparr>sy_client := sy_client s\<rparr> = s" by simp
    from True assms(2) listed [of "sy_client s", unfolded q] show ?thesis
      by - (rule drain_steps.go [where x = "(Drain_List, s)"], simp_all add: drain_step_def drain_round_def Let_def cong: option.case_cong if_cong)
  next
    case False
    let ?u = "snd (HealthCheck w net (sy_client s))" and ?q = "s\<lparr>sy_client := snd (HealthCheck w net (sy_client s))\<rparr>"
    have "drain_steps net base w (Drain_Again, ?q) k ?fin"
    proof (cases "Available ?u")
      case True
      with False assms(2) listed [of ?u] show ?thesis
        by - (rule drain_steps.go [where x = "(Drain_List, ?q)"], simp_all add: drain_step_def drain_round_def Let_def cong: option.case_cong if_cong)
    next
      case off: False
      with False assms(2) have "k = 10" "d = sy_disk s" "u = ?u" by (simp_all add: drain_round_def)
      with off idle show ?thesis
        by - (rule drain_steps.go [where x = "(Drain_Sleep 10 [], ?q)"], simp_all add: drain_step_def)
    qed
    with False show ?thesis
      by - (rule drain_steps.go [where x = "(Drain_Again, ?q)"], simp_all add: drain_step_def)
  qed
  then show ?thesis
    by - (rule drain_steps.go [where x = "(Drain_Available, s)"], simp_all add: drain_step_def)
qed

theorem drain_round_refined_witness:
  "\<exists>k d u. drain_steps refusing [''data''] calm_world (Drain_Select, sync_start) k
     (Drain_Select, sync_start\<lparr>sy_disk := d, sy_client := u\<rparr>)"
proof -
  obtain k d u where "drain_round calm_world refusing (sync_dir [''data'']) (sy_disk sync_start, sy_client sync_start) = (k, d, u)"
    by (metis prod_cases3)
  from drain_round_refined [OF _ this] show ?thesis by (auto simp: sync_start_def)
qed

end
