(* ===== verification/Proxy_Queue.thy ===== *)
theory Proxy_Queue
  imports Proxy_Offline Upstream_Drain
begin

text \<open>
  The handlers of a proxy and its drain goroutine work on one disk and one client. The lemmas show
  what each of them leaves to the other as long as the root hub offers no object whose reference
  names a file of the queue: the queue holds nothing but edits that may be uploaded, under
  well-formed references, and a queued edit keeps its fate. \<open>Proxy_Planted\<close> shows what such an object
  does.
\<close>

section \<open>The part of a proxy that the queue uses\<close>

definition queue_view :: "(ref \<times> verdict) option \<Rightarrow> Proxy \<Rightarrow> sync_state" where
  "queue_view flight p = \<lparr>sy_disk = hub_disk (px_hub p), sy_client = px_client p, sy_flight = flight\<rparr>"

definition with_queue :: "sync_state \<Rightarrow> Proxy \<Rightarrow> Proxy" where
  "with_queue s p = p\<lparr>px_hub := (px_hub p)\<lparr>hub_disk := sy_disk s\<rparr>, px_client := sy_client s\<rparr>"

abbreviation px_base :: "Proxy \<Rightarrow> path" where
  "px_base p \<equiv> store_dir (hub_store (px_hub p))"

lemma queue_view_simps [simp]:
  "sy_disk (queue_view f p) = hub_disk (px_hub p)" "sy_client (queue_view f p) = px_client p"
  "sy_flight (queue_view f p) = f"
  by (simp_all add: queue_view_def)

lemma with_queue_simps [simp]:
  "hub_disk (px_hub (with_queue s p)) = sy_disk s" "px_client (with_queue s p) = sy_client s"
  "hub_store (px_hub (with_queue s p)) = hub_store (px_hub p)" "px_UpstreamPush (with_queue s p) = px_UpstreamPush p"
  "px_index (with_queue s p) = px_index p" "queue_view (sy_flight s) (with_queue s p) = s"
  by (simp_all add: with_queue_def queue_view_def px_index_def)

section \<open>What the operations leave alone\<close>

lemma Write_frame: "p \<noteq> live_path s ref \<Longrightarrow> mget (snd (Write w s ref b t d)) p = mget d p"
  by (simp add: Write_def Let_def)

lemma Backup_frame:
  "p \<noteq> live_path s ref \<Longrightarrow> p \<noteq> backup_path s ref n \<Longrightarrow> mget (snd (Backup w s ref n d)) p = mget d p"
  by (simp add: Backup_def Let_def split: option.split)

lemma PreserveConflict_frame: "p \<noteq> archive_path dir data \<Longrightarrow> mget (snd (PreserveConflict w dir data d)) p = mget d p"
  by (simp add: PreserveConflict_def Let_def split: option.split)

lemma acknowledge_frame: "p \<noteq> pending_path dir ref \<Longrightarrow> mget (snd (acknowledge w dir ref sent d)) p = mget d p"
  by (simp add: acknowledge_def Let_def split: option.split)

lemma archive_folder_eq:
  "archive_path (join_path base ''conflicts'') data = base @ [''conflicts'', hex_encode (sha256 (map ord_of data)) @ ''.json'']"
  "archive_path (join_path base ''sync_conflicts'') data = base @ [''sync_conflicts'', hex_encode (sha256 (map ord_of data)) @ ''.json'']"
  "archive_path (join_path base ''sync_rejected'') data = base @ [''sync_rejected'', hex_encode (sha256 (map ord_of data)) @ ''.json'']"
  by (simp_all add: archive_path_eq plain_name_def)

section \<open>References that name a file of the queue\<close>

text \<open>
  A reference becomes a file name as it is, and \<open>CacheLocally\<close> does not check its shape: one with
  slashes can name a file in the folder of pending edits or in its archives, for the object itself
  or for a backup of it.
\<close>

definition queue_folders :: "path \<Rightarrow> path set" where
  "queue_folders base = {base @ [''sync_pending''], base @ [''sync_conflicts''], base @ [''sync_rejected'']}"

definition names_queue :: "Store \<Rightarrow> ref \<Rightarrow> bool" where
  "names_queue s ref \<longleftrightarrow> butlast (live_path s ref) \<in> queue_folders (store_dir s) \<or>
     (\<exists>n. butlast (backup_path s ref n) \<in> queue_folders (store_dir s))"

text \<open>What the theorems ask of a root hub: no object that it offers has such a reference.\<close>

definition spares_queue :: "network \<Rightarrow> Store \<Rightarrow> bool" where
  "spares_queue net s \<longleftrightarrow> (\<forall>ref. offered net ref \<longrightarrow> \<not> names_queue s ref)"

lemma no_slash_spares: "CHR ''/'' \<notin> set ref \<Longrightarrow> \<not> names_queue s ref"
proof -
  assume ref: "CHR ''/'' \<notin> set ref"
  have "plain_name (ref @ ''.json'')" "plain_name (ref @ ''.r'' @ itoa n @ ''.json'')" for n
    using ref itoa_no_slash [of n] by (auto intro!: plain_nameI)
  moreover have "plain_name ''bk''" by (simp add: plain_name_def)
  ultimately show ?thesis
    by (simp add: names_queue_def live_path_def backup_path_def queue_folders_def butlast_append)
qed

text \<open>A root hub all of whose references could be those of a route.\<close>

lemma no_slash_hub: "(\<And>ref. offered net ref \<Longrightarrow> CHR ''/'' \<notin> set ref) \<Longrightarrow> spares_queue net s"
  by (simp add: spares_queue_def no_slash_spares)

lemma acting_spares: "spares_queue net s \<Longrightarrow> IsValidRef ref \<or> offered net ref \<Longrightarrow> \<not> names_queue s ref"
  using no_slash_spares valid_ref_no_slash by (auto simp: spares_queue_def)

lemma spared_paths:
  assumes "\<not> names_queue s ref" and "folder = ''sync_pending'' \<or> folder = ''sync_conflicts'' \<or> folder = ''sync_rejected''"
  shows "store_dir s @ [folder, name] \<noteq> live_path s ref" and "store_dir s @ [folder, name] \<noteq> backup_path s ref n"
proof -
  have "butlast (store_dir s @ [folder, name]) \<in> queue_folders (store_dir s)"
    using assms(2) by (auto simp: queue_folders_def butlast_append)
  with assms(1) show "store_dir s @ [folder, name] \<noteq> live_path s ref" "store_dir s @ [folder, name] \<noteq> backup_path s ref n"
    unfolding names_queue_def by metis+
qed

section \<open>What an action leaves in the queue\<close>

text \<open>The files of the queue after an action: as before, or an edit that the action queued.\<close>

lemma disk_act_pending:
  assumes "disk_act net Q p d'" and "spares_queue net (hub_store (px_hub p))"
  shows "mget d' (sync_dir (px_base p) @ [name]) = mget (hub_disk (px_hub p)) (sync_dir (px_base p) @ [name]) \<or>
    (\<exists>ref data t. Q ref \<and> IsValidRef ref \<and> name = ref @ ''.json'' \<and> may_leave (px_UpstreamPush p) data \<and>
       mget d' (sync_dir (px_base p) @ [name]) = Some (data, t))"
  using assms(1)
proof cases
  case (backed_up ref w n)
  note spared = spared_paths [OF acting_spares [OF assms(2) backed_up(2)], of "''sync_pending''" name]
  with backed_up(1) show ?thesis by (intro disjI1) (simp add: Backup_frame sync_dir_def)
next
  case (stored ref w data ts)
  note spared = spared_paths [OF acting_spares [OF assms(2) stored(2)], of "''sync_pending''" name]
  with stored(1) show ?thesis by (intro disjI1) (simp add: Write_frame sync_dir_def)
next
  case (archived w data)
  then show ?thesis
    by (intro disjI1) (simp add: Store_PreserveConflict_def PreserveConflict_frame archive_folder_eq sync_dir_def)
next
  case (queued ref data w)
  then show ?thesis
    by (auto simp: Sync_Add_def pending_dir_def pending_path_eq Let_def)
qed

text \<open>Edits that were archived stay archived.\<close>

lemma disk_act_archived:
  assumes "disk_act net Q p d'" and "spares_queue net (hub_store (px_hub p))" and "archived (px_base p) (hub_disk (px_hub p)) data"
  shows "archived (px_base p) d' data"
proof -
  let ?keeps = "\<lambda>folder. mget d' (archive_path (join_path (px_base p) folder) data) =
      mget (hub_disk (px_hub p)) (archive_path (join_path (px_base p) folder) data)"
  have "?keeps ''sync_conflicts'' \<and> ?keeps ''sync_rejected''"
    using assms(1)
  proof cases
    case (backed_up ref w n)
    note spared = spared_paths [OF acting_spares [OF assms(2) backed_up(2)]]
    from backed_up(1) show ?thesis by (simp add: Backup_frame spared archive_folder_eq)
  next
    case (stored ref w b ts)
    note spared = spared_paths [OF acting_spares [OF assms(2) stored(2)]]
    from stored(1) show ?thesis by (simp add: Write_frame spared archive_folder_eq)
  next
    case (archived w b)
    then show ?thesis by (simp add: Store_PreserveConflict_def PreserveConflict_frame archive_folder_eq)
  next
    case (queued ref b w)
    then show ?thesis by (simp add: Sync_Add_def pending_dir_def pending_path_eq archive_folder_eq sync_dir_def Let_def)
  qed
  with assms(3) show ?thesis by (simp add: archived_def held_def)
qed

section \<open>Handlers and the queue\<close>

text \<open>Everything in the queue is an edit of a well-formed reference that may be uploaded.\<close>

definition queue_ok :: "string \<Rightarrow> path \<Rightarrow> disk \<Rightarrow> bool" where
  "queue_ok push base d \<longleftrightarrow> (\<forall>name f. mget d (sync_dir base @ [name]) = Some f \<longrightarrow>
     (\<exists>ref. IsValidRef ref \<and> name = ref @ ''.json'') \<and> may_leave push (fst f))"

lemma queue_okD: "queue_ok push base d \<Longrightarrow> mget d (sync_dir base @ [name]) = Some f \<Longrightarrow> may_leave push (fst f)"
  unfolding queue_ok_def by blast

lemma queue_ok_listed:
  assumes "queue_ok push base d" and "Sync_List w (sync_dir base) d = Some refs"
  shows "list_all IsValidRef refs"
  unfolding list_all_iff
proof
  fix ref assume "ref \<in> set refs"
  with assms(2) obtain name where "name \<in> set (file_names (sync_dir base) d)" "ref = trim_suffix name ''.json''"
    by (auto simp: Sync_List_def split: if_splits)
  moreover from this(1) obtain f where "mget d (sync_dir base @ [name]) = Some f" by (auto simp: file_names_set)
  with assms(1) obtain q where "IsValidRef q" "name = q @ ''.json''" unfolding queue_ok_def by blast
  ultimately show "IsValidRef ref" by simp
qed

text \<open>What an action keeps, whatever it does otherwise.\<close>

lemma act_client:
  assumes "px_act net Q p p'"
  shows "cl_baseURL (px_client p') = cl_baseURL (px_client p) \<and>
    (\<exists>new. cl_sent (px_client p') = cl_sent (px_client p) @ new)"
  using assms
proof cases
  case (get url)
  with Client_Do_sent [of net "get_json_request url" None "px_client p"] show ?thesis
    by (auto simp: px_do_def case_prod_beta)
next
  case (put data url hs)
  with Client_Do_sent [of net "put_json_request url hs" "Some data" "px_client p"] show ?thesis
    by (auto simp: px_do_def case_prod_beta)
next
  case (check w)
  with HealthCheck_sent [of w net "px_client p"] show ?thesis by auto
qed simp_all

lemma act_upstream_has:
  "px_act net Q p p' \<Longrightarrow> upstream_has net (px_client p) ref data \<Longrightarrow> upstream_has net (px_client p') ref data"
  using act_client upstream_has_mono by metis

lemma act_store: "px_act net Q p p' \<Longrightarrow> hub_store (px_hub p') = hub_store (px_hub p) \<and> px_UpstreamPush p' = px_UpstreamPush p"
  by (cases rule: px_act.cases) (auto simp: px_do_def case_prod_beta)

lemma act_disk: "px_act net Q p p' \<Longrightarrow> hub_disk (px_hub p') = hub_disk (px_hub p) \<or> disk_act net Q p (hub_disk (px_hub p'))"
  by (cases rule: px_act.cases) (auto simp: px_do_def case_prod_beta)

lemma act_queue_ok:
  assumes "px_act net Q p p'" and "spares_queue net (hub_store (px_hub p))" and "queue_ok (px_UpstreamPush p) (px_base p) (hub_disk (px_hub p))"
  shows "queue_ok (px_UpstreamPush p') (px_base p') (hub_disk (px_hub p'))"
proof -
  have "queue_ok (px_UpstreamPush p) (px_base p) (hub_disk (px_hub p'))" if act: "disk_act net Q p (hub_disk (px_hub p'))"
    unfolding queue_ok_def
  proof (intro allI impI)
    fix name f assume f: "mget (hub_disk (px_hub p')) (sync_dir (px_base p) @ [name]) = Some f"
    consider "mget (hub_disk (px_hub p)) (sync_dir (px_base p) @ [name]) = Some f"
      | ref data t where "IsValidRef ref" "name = ref @ ''.json''" "may_leave (px_UpstreamPush p) data" "f = (data, t)"
      using disk_act_pending [OF act assms(2), of name] f by auto
    then show "(\<exists>ref. IsValidRef ref \<and> name = ref @ ''.json'') \<and> may_leave (px_UpstreamPush p) (fst f)"
      using assms(3) [unfolded queue_ok_def] by cases (blast, simp)
  qed
  with act_disk [OF assms(1)] act_store [OF assms(1)] assms(3) show ?thesis by auto
qed

lemma act_flight:
  assumes "px_act net Q p p'" and "flight_ok net (queue_view f p)"
  shows "flight_ok net (queue_view f p')"
  using assms(2) act_upstream_has [OF assms(1)]
  by (auto simp: flight_ok_def split: option.splits verdict.splits)

lemma act_safe:
  assumes "px_act net Q p p'" and "spares_queue net (hub_store (px_hub p))" and "IsValidRef ref" and "\<not> Q ref"
    and "safe_edit net (px_base p) (queue_view f p) ref data"
  shows "safe_edit net (px_base p') (queue_view f p') ref data"
proof -
  have "pending_path (sync_dir (px_base p)) ref = sync_dir (px_base p) @ [ref @ ''.json'']"
    by (rule pending_path_eq [OF assms(3)])
  then have "held (hub_disk (px_hub p')) (pending_path (sync_dir (px_base p)) ref) data"
    if "held (hub_disk (px_hub p)) (pending_path (sync_dir (px_base p)) ref) data"
    using act_disk [OF assms(1)] disk_act_pending [OF _ assms(2), of Q _ "ref @ ''.json''"] assms(4) that
    by (auto simp: held_def)
  moreover have "archived (px_base p) (hub_disk (px_hub p')) data" if "archived (px_base p) (hub_disk (px_hub p)) data"
    using act_disk [OF assms(1)] disk_act_archived [OF _ assms(2) that] that by auto
  ultimately show ?thesis
    using assms(5) act_upstream_has [OF assms(1)] act_store [OF assms(1)] by (auto simp: safe_edit_def)
qed

lemma acts_queue:
  assumes "px_acts net Q p p'" and "spares_queue net (hub_store (px_hub p))" and "queue_ok (px_UpstreamPush p) (px_base p) (hub_disk (px_hub p))"
    and "flight_ok net (queue_view f p)"
  shows "queue_ok (px_UpstreamPush p') (px_base p') (hub_disk (px_hub p')) \<and> flight_ok net (queue_view f p') \<and>
    hub_store (px_hub p') = hub_store (px_hub p) \<and> px_UpstreamPush p' = px_UpstreamPush p"
  using assms(1,3,4)
proof (induction rule: rtranclp_induct)
  case (step q r)
  from step(3) [OF step(4,5)] have q: "queue_ok (px_UpstreamPush q) (px_base q) (hub_disk (px_hub q))"
    "flight_ok net (queue_view f q)" by blast+
  have "spares_queue net (hub_store (px_hub q))" using step(3) [OF step(4,5)] assms(2) by simp
  from act_queue_ok [OF step(2) this q(1)] act_flight [OF step(2) q(2)] act_store [OF step(2)] step(3) [OF step(4,5)]
  show ?case by argo
qed simp

lemma acts_store: "px_acts net Q p q \<Longrightarrow> hub_store (px_hub q) = hub_store (px_hub p)"
  by (induction rule: rtranclp_induct) (simp_all add: act_store)

lemma acts_safe:
  assumes "px_acts net Q p p'" and "spares_queue net (hub_store (px_hub p))" and "IsValidRef ref" and "\<not> Q ref"
    and "safe_edit net (px_base p) (queue_view f p) ref data"
  shows "safe_edit net (px_base p') (queue_view f p') ref data"
  using assms(1,5)
proof (induction rule: rtranclp_induct)
  case (step q r)
  have "hub_store (px_hub q) = hub_store (px_hub p)" by (rule acts_store [OF step(1)])
  with act_safe [OF step(2) _ assms(3,4) step(3) [OF step(4)]] assms(2) show ?case by simp
qed

section \<open>The drain goroutine and the queue\<close>

lemma settle_queue:
  assumes "queue_ok push base d" and "IsValidRef ref"
    and "case v of Refused data folder \<Rightarrow> folder = ''sync_conflicts'' \<or> folder = ''sync_rejected'' | _ \<Rightarrow> True"
  shows "queue_ok push base (snd (push_settle w (sync_dir base) ref v d))"
proof -
  have ack: "queue_ok push base (snd (acknowledge w (sync_dir base) ref sent e))" if "queue_ok push base e" for e sent
  proof -
    have "mget (snd (acknowledge w (sync_dir base) ref sent e)) q = None \<or>
        mget (snd (acknowledge w (sync_dir base) ref sent e)) q = mget e q" for q
      by (auto simp: acknowledge_def Let_def split: option.split)
    with that show ?thesis unfolding queue_ok_def by (metis option.distinct(1))
  qed
  show ?thesis
  proof (cases v)
    case (Refused data folder)
    have "queue_ok push base (snd (PreserveConflict w (join_path base folder) data d))"
    proof -
      have "sync_dir base @ [name] \<noteq> archive_path (join_path base folder) data" for name
        using assms(3) Refused archive_folder_eq by (auto simp: sync_dir_def)
      with assms(1) show ?thesis by (simp add: queue_ok_def PreserveConflict_frame)
    qed
    then show ?thesis
      by (auto simp: Refused push_settle_def Sync_preserve_def intro: ack split: prod.split sum.split)
  qed (use assms(1) ack in \<open>auto simp: push_settle_def\<close>)
qed

text \<open>The verdict of a push, and what was sent for it.\<close>

lemma fetchObject_sends: "\<exists>new. cl_sent (snd (fetchObject w net ref u)) = cl_sent u @ new \<and> list_all (sends_only push) new"
  by (auto simp: fetchObject_def transport_def get_json_request_def sends_only_def Let_def
      split: option.splits sum.splits prod.splits)

lemma push_verdict_sends:
  "\<exists>new. cl_sent (snd (push_verdict w net ref data n u)) = cl_sent u @ new \<and> list_all (sends_only push) new"
  using fetchObject_sends [of w net ref u push] by (auto simp: push_verdict_def split: option.split prod.split)

lemma push_send_sends:
  assumes "queue_ok push base d" and "IsValidRef ref" and "push_send w net (sync_dir base) ref d u = (v, u')"
  shows "\<exists>new. cl_sent u' = cl_sent u @ new \<and> list_all (sends_only push) new"
proof (cases "mget d (pending_path (sync_dir base) ref)")
  case None
  with assms(3) show ?thesis by (auto simp: push_send_def Let_def)
next
  case (Some f)
  obtain data t where f: "f = (data, t)" by (cases f)
  have leave: "may_leave push data"
    using queue_okD [OF assms(1) Some [unfolded pending_path_eq [OF assms(2)]]] f by simp
  let ?req = "(put_json_request (cl_baseURL u @ ''/'' @ ref) [])\<lparr>up_body := Some data\<rparr>"
  have req: "sends_only push ?req" using leave by (simp add: sends_only_def)
  have verdict: "\<exists>new. cl_sent (snd (push_verdict w net ref data n (u\<lparr>cl_sent := cl_sent u @ [?req]\<rparr>))) = cl_sent u @ new \<and>
      list_all (sends_only push) new" for n
    using push_verdict_sends [of w net ref data n "u\<lparr>cl_sent := cl_sent u @ [?req]\<rparr>" push] req by auto
  show ?thesis
    using assms(3) Some f req verdict
    by (auto simp: push_send_def transport_def SetAvailable_def Let_def split: if_splits option.splits)
      (metis snd_conv)
qed

text \<open>One step of the goroutine sends only what may leave, and keeps the queue as it should be.\<close>

lemma drain_step_queue:
  assumes "drain_step net base stop w pc s = Some (pc', s')" and "drain_ok pc s"
    and "list_all IsValidRef (drain_refs pc)" and "flight_ok net s" and "flight_valid s"
    and "queue_ok push base (sy_disk s)"
  shows "queue_ok push base (sy_disk s') \<and>
    (\<exists>new. cl_sent (sy_client s') = cl_sent (sy_client s) @ new \<and> list_all (sends_only push) new)"
proof (cases pc)
  case Drain_Available
  obtain hs where "cl_sent (snd (HealthCheck w net (sy_client s))) = cl_sent (sy_client s) @ hs"
    and "list_all (\<lambda>q. up_method q = ''HEAD'') hs" using HealthCheck_sent by blast
  with assms(1,6) Drain_Available show ?thesis
    by (auto simp: drain_step_def sends_only_def list_all_iff split: if_splits)
next
  case (Drain_Push ref refs)
  obtain v u where send: "push_send w net (sync_dir base) ref (sy_disk s) (sy_client s) = (v, u)" by fastforce
  have "sy_flight s = None" using assms(2) Drain_Push unfolding drain_ok_def by blast
  with assms(1,3) push_send_sends [OF assms(6) _ send] Drain_Push send assms(6) show ?thesis
    by (auto simp: drain_step_def drain_refs_def)
next
  case (Drain_Settle refs)
  then obtain ref v where f: "sy_flight s = Some (ref, v)" using assms(2) by (auto simp: drain_ok_def)
  with assms(4,5) have "IsValidRef ref"
    and "case v of Refused data folder \<Rightarrow> folder = ''sync_conflicts'' \<or> folder = ''sync_rejected'' | _ \<Rightarrow> True"
    by (auto simp: flight_ok_def flight_valid_def split: verdict.splits)
  from settle_queue [OF assms(6) this, of w] assms(1) Drain_Settle f show ?thesis by (auto simp: drain_step_def)
qed (use assms in \<open>auto simp: drain_step_def split: if_splits\<close>)

end
