(* ===== verification/Main_Lifecycle.thy ===== *)
theory Main_Lifecycle
  imports Main_Start Proxy_Queue Serving_Router
begin

text \<open>
  The process of \<open>main.go\<close> from the listener to the exit, as a step relation over its goroutines: the
  handlers, the background tasks of a proxy, the health checker, the drain goroutine, the two sweeps,
  the reload on SIGHUP, the shutdown on SIGINT or SIGTERM, and \<open>main\<close> itself. Any goroutine that is not
  blocked may take the next step; a handler is one step between its acceptance and its answer.
\<close>

section \<open>The process\<close>

datatype shutdown_pc =
    Await_Signal
  | Signalled
  | Stopping_Client
    \<comment> \<open>at \<open><-u.doneCh\<close>\<close>
  | Stopping_Queue
    \<comment> \<open>at \<open>sp.wg.Wait()\<close>\<close>
  | Closing_Server
    \<comment> \<open>in \<open>srv.Shutdown\<close>\<close>
  | Shutdown_Done

datatype main_pc = Main_Listening | Main_Waiting | Main_Exited | Main_Failed

record process =
  pr_server :: server
  pr_limiter :: RateLimiter
  pr_auth :: AuthStore
  pr_requests :: "(string \<times> request) list"
    \<comment> \<open>accepted and not answered\<close>
  pr_answers :: "(request \<times> response) list"
  pr_checker :: bool
    \<comment> \<open>the health checker runs\<close>
  pr_stopCh :: bool
    \<comment> \<open>its stop channel is closed\<close>
  pr_drain :: drain_pc
  pr_flight :: "(ref \<times> verdict) option"
    \<comment> \<open>the push that the drain goroutine has sent and not settled; other uploads are part of a step\<close>
  pr_stop :: bool
    \<comment> \<open>the stop channel of the queue is closed\<close>
  pr_open :: bool
    \<comment> \<open>the listener accepts connections\<close>
  pr_shutdown :: shutdown_pc
  pr_main :: main_pc

definition is_proxy :: "server \<Rightarrow> bool" where
  "is_proxy sv = (case sv of Root_Server h \<Rightarrow> False | Proxy_Server p \<Rightarrow> True)"

text \<open>\<open>main\<close> at \<open>srv.ListenAndServe()\<close>, with the goroutines that were started before.\<close>

definition launch :: "started \<Rightarrow> process" where
  "launch st = \<lparr>pr_server = st_server st, pr_limiter = st_limiter st, pr_auth = st_auth st,
     pr_requests = [], pr_answers = [], pr_checker = is_proxy (st_server st), pr_stopCh = False,
     pr_drain = (if is_proxy (st_server st) then Drain_Select else Drain_Exited), pr_flight = None,
     pr_stop = False, pr_open = True, pr_shutdown = Await_Signal, pr_main = Main_Listening\<rparr>"

section \<open>Steps\<close>

datatype proc_event =
    Accept string request
  | Serve world instant nat
  | Background world nat
  | Tick world
  | Checker_Stop
  | Drain_Go world
  | Drain_Timer
  | Sweep_Tokens world
  | Sweep_Windows world
  | Hangup "fileConfig option option"
  | Interrupt
  | Shutdown_Go
  | Deadline
    \<comment> \<open>the ten seconds of \<open>srv.Shutdown\<close> are over\<close>
  | Main_Go
  | Listen_Fails

text \<open>One request through the router of the server.\<close>

definition serve_request ::
  "network \<Rightarrow> chi \<Rightarrow> world \<Rightarrow> instant \<Rightarrow> string \<Rightarrow> request \<Rightarrow> process \<Rightarrow> response \<times> process" where
  "serve_request net chi w later verb r s = (case pr_server s of
      Root_Server h \<Rightarrow> (case hub_Router w later chi verb r (pr_limiter s) (h, pr_auth s) of
          (resp, rl, h, a) \<Rightarrow> (resp, s\<lparr>pr_server := Root_Server h, pr_limiter := rl, pr_auth := a\<rparr>))
    | Proxy_Server p \<Rightarrow> (case px_Router w net later chi verb r (pr_limiter s) (p, pr_auth s) of
          (resp, rl, p, a) \<Rightarrow> (resp, s\<lparr>pr_server := Proxy_Server p, pr_limiter := rl, pr_auth := a\<rparr>)))"

definition reload_server :: "fileConfig option option \<Rightarrow> server \<Rightarrow> server" where
  "reload_server given sv = (case sv of
      Root_Server h \<Rightarrow> Root_Server (h\<lparr>hub_index := reload_realms given (hub_index h)\<rparr>)
    | Proxy_Server p \<Rightarrow> Proxy_Server (p\<lparr>px_hub := (px_hub p)\<lparr>hub_index := reload_realms given (hub_index (px_hub p))\<rparr>\<rparr>))"

text \<open>
  The health checker of a proxy at its \<open>select\<close>. \<open>Client.Stop\<close> closes its channel, which a second call
  finds closed, and waits for it; \<open>SyncPending.Stop\<close> does so for the drain goroutine.
\<close>

definition checker_tick :: "network \<Rightarrow> world \<Rightarrow> process \<Rightarrow> process option" where
  "checker_tick net w s = (case pr_server s of
      Root_Server h \<Rightarrow> None
    | Proxy_Server p \<Rightarrow>
        if \<not> pr_checker s then None
        else Some (s\<lparr>pr_server := Proxy_Server (p\<lparr>px_client := health_tick w net (px_client p)\<rparr>)\<rparr>))"

definition checker_return :: "process \<Rightarrow> process option" where
  "checker_return s = (if pr_checker s \<and> pr_stopCh s then Some (s\<lparr>pr_checker := False\<rparr>) else None)"

definition Client_Stop :: "process \<Rightarrow> process" where
  [simp]: "Client_Stop s = s\<lparr>pr_stopCh := True, pr_shutdown := Stopping_Client\<rparr>"

definition Client_stopped :: "process \<Rightarrow> bool" where
  [simp]: "Client_stopped s = (\<not> pr_checker s)"

definition Sync_Stop :: "process \<Rightarrow> process" where
  [simp]: "Sync_Stop s = s\<lparr>pr_stop := True, pr_shutdown := Stopping_Queue\<rparr>"

definition Sync_stopped :: "process \<Rightarrow> bool" where
  [simp]: "Sync_stopped s = (pr_drain s = Drain_Exited)"

text \<open>The drain goroutine, on the disk and the client of the proxy.\<close>

definition drain_go :: "network \<Rightarrow> world \<Rightarrow> process \<Rightarrow> process option" where
  "drain_go net w s = (case pr_server s of
      Root_Server h \<Rightarrow> None
    | Proxy_Server p \<Rightarrow> (case drain_step net (px_base p) (pr_stop s) w (pr_drain s) (queue_view (pr_flight s) p) of
          None \<Rightarrow> None
        | Some (pc, q) \<Rightarrow>
            Some (s\<lparr>pr_server := Proxy_Server (with_queue q p), pr_drain := pc, pr_flight := sy_flight q\<rparr>)))"

text \<open>
  The shutdown goroutine: the cleanup functions of a proxy in their order, each waiting for its
  goroutine, then \<open>srv.Shutdown\<close>, which closes the listener at once and waits for the handlers.
\<close>

definition shutdown_go :: "process \<Rightarrow> process option" where
  "shutdown_go s = (case pr_shutdown s of
      Await_Signal \<Rightarrow> None
    | Signalled \<Rightarrow>
        Some (if is_proxy (pr_server s) then Client_Stop s
          else s\<lparr>pr_open := False, pr_shutdown := Closing_Server\<rparr>)
    | Stopping_Client \<Rightarrow>
        if \<not> Client_stopped s then None else Some (Sync_Stop s)
    | Stopping_Queue \<Rightarrow>
        if \<not> Sync_stopped s then None else Some (s\<lparr>pr_open := False, pr_shutdown := Closing_Server\<rparr>)
    | Closing_Server \<Rightarrow> if pr_requests s \<noteq> [] then None else Some (s\<lparr>pr_shutdown := Shutdown_Done\<rparr>)
    | Shutdown_Done \<Rightarrow> None)"

text \<open>\<open>main\<close>: \<open>ListenAndServe\<close> returns when the listener is closed, then \<open><-done\<close>.\<close>

definition main_go :: "process \<Rightarrow> process option" where
  "main_go s = (case pr_main s of
      Main_Listening \<Rightarrow> if pr_open s then None else Some (s\<lparr>pr_main := Main_Waiting\<rparr>)
    | Main_Waiting \<Rightarrow> if pr_shutdown s \<noteq> Shutdown_Done then None else Some (s\<lparr>pr_main := Main_Exited\<rparr>)
    | _ \<Rightarrow> None)"

definition running :: "process \<Rightarrow> bool" where
  "running s \<longleftrightarrow> pr_main s = Main_Listening \<or> pr_main s = Main_Waiting"

definition proc_step :: "network \<Rightarrow> chi \<Rightarrow> proc_event \<Rightarrow> process \<Rightarrow> process option" where
  "proc_step net chi e s =
     (if \<not> running s then None
      else (case e of
        Accept verb r \<Rightarrow> if pr_open s then Some (s\<lparr>pr_requests := pr_requests s @ [(verb, r)]\<rparr>) else None
      | Serve w later i \<Rightarrow>
          if length (pr_requests s) \<le> i then None
          else (case pr_requests s ! i of (verb, r) \<Rightarrow> (case serve_request net chi w later verb r s of
              (resp, s) \<Rightarrow> Some (s\<lparr>pr_requests := take i (pr_requests s) @ drop (Suc i) (pr_requests s),
                  pr_answers := pr_answers s @ [(r, resp)]\<rparr>)))
      | Background w i \<Rightarrow> (case pr_server s of
            Root_Server h \<Rightarrow> None
          | Proxy_Server p \<Rightarrow>
              if length (px_tasks p) \<le> i then None
              else Some (s\<lparr>pr_server := Proxy_Server (fst (px_step net (Task w i) (p, pr_auth s)))\<rparr>))
      | Tick w \<Rightarrow> checker_tick net w s
      | Checker_Stop \<Rightarrow> checker_return s
      | Drain_Go w \<Rightarrow> drain_go net w s
      | Drain_Timer \<Rightarrow> map_option (\<lambda>pc. s\<lparr>pr_drain := pc\<rparr>) (drain_timer (pr_drain s))
      | Sweep_Tokens w \<Rightarrow> Some (s\<lparr>pr_auth := auth_cleanup w (pr_auth s)\<rparr>)
      | Sweep_Windows w \<Rightarrow> Some (s\<lparr>pr_limiter := rl_cleanup (w_now w) (pr_limiter s)\<rparr>)
      | Hangup given \<Rightarrow> Some (s\<lparr>pr_server := reload_server given (pr_server s)\<rparr>)
      | Interrupt \<Rightarrow> Some (if pr_shutdown s = Await_Signal then s\<lparr>pr_shutdown := Signalled\<rparr> else s)
      | Shutdown_Go \<Rightarrow> shutdown_go s
      | Deadline \<Rightarrow> if pr_shutdown s = Closing_Server then Some (s\<lparr>pr_shutdown := Shutdown_Done\<rparr>) else None
      | Main_Go \<Rightarrow> main_go s
      | Listen_Fails \<Rightarrow>
          if pr_open s \<and> pr_main s = Main_Listening then Some (s\<lparr>pr_main := Main_Failed\<rparr>) else None))"

fun proc_run :: "network \<Rightarrow> chi \<Rightarrow> proc_event list \<Rightarrow> process \<Rightarrow> process option" where
  "proc_run net chi [] s = Some s"
| "proc_run net chi (e # es) s = (case proc_step net chi e s of None \<Rightarrow> None | Some s \<Rightarrow> proc_run net chi es s)"

lemma proc_step_goes:
  assumes "running s"
  shows "proc_step net chi Shutdown_Go s = shutdown_go s" "proc_step net chi Main_Go s = main_go s"
    "proc_step net chi (Drain_Go w) s = drain_go net w s"
    "proc_step net chi Interrupt s = Some (if pr_shutdown s = Await_Signal then s\<lparr>pr_shutdown := Signalled\<rparr> else s)"
    "proc_step net chi Checker_Stop s = (if pr_checker s \<and> pr_stopCh s then Some (s\<lparr>pr_checker := False\<rparr>) else None)"
  using assms by (simp_all add: proc_step_def checker_return_def)

lemma proc_run_append:
  "proc_run net chi (es @ es') s = (case proc_run net chi es s of None \<Rightarrow> None | Some s \<Rightarrow> proc_run net chi es' s)"
  by (induction es arbitrary: s) (auto split: option.split)

section \<open>The order of the shutdown\<close>

text \<open>What holds at each point of the shutdown.\<close>

definition lifecycle :: "process \<Rightarrow> bool" where
  "lifecycle s \<longleftrightarrow>
     (pr_stopCh s \<longleftrightarrow> is_proxy (pr_server s) \<and> pr_shutdown s \<notin> {Await_Signal, Signalled}) \<and>
     (pr_stop s \<longleftrightarrow> is_proxy (pr_server s) \<and> pr_shutdown s \<in> {Stopping_Queue, Closing_Server, Shutdown_Done}) \<and>
     (pr_open s \<longleftrightarrow> pr_shutdown s \<notin> {Closing_Server, Shutdown_Done}) \<and>
     (pr_shutdown s \<in> {Stopping_Queue, Closing_Server, Shutdown_Done} \<longrightarrow> \<not> pr_checker s) \<and>
     (pr_shutdown s \<in> {Closing_Server, Shutdown_Done} \<longrightarrow> pr_drain s = Drain_Exited) \<and>
     (pr_drain s = Drain_Exited \<longrightarrow> pr_stop s \<or> \<not> is_proxy (pr_server s)) \<and>
     (\<not> is_proxy (pr_server s) \<longrightarrow> \<not> pr_checker s \<and> pr_drain s = Drain_Exited \<and>
        pr_shutdown s \<notin> {Stopping_Client, Stopping_Queue}) \<and>
     (pr_main s = Main_Waiting \<longrightarrow> \<not> pr_open s) \<and> (pr_main s = Main_Exited \<longrightarrow> pr_shutdown s = Shutdown_Done) \<and>
     (pr_flight s \<noteq> None \<longleftrightarrow> (\<exists>refs. pr_drain s = Drain_Settle refs))"

lemma is_proxy_simps [simp]: "is_proxy (Root_Server h) = False" "is_proxy (Proxy_Server p) = True"
  by (simp_all add: is_proxy_def)

lemma reload_server_is_proxy [simp]: "is_proxy (reload_server given sv) = is_proxy sv"
  by (simp add: reload_server_def is_proxy_def split: server.split)

lemma lifecycle_launch: "lifecycle (launch st)"
  by (simp add: lifecycle_def launch_def)

lemma serve_request_keeps:
  assumes "serve_request net chi w later verb r s = (resp, s')"
  obtains sv rl a where "s' = s\<lparr>pr_server := sv, pr_limiter := rl, pr_auth := a\<rparr>"
    "is_proxy sv = is_proxy (pr_server s)"
  using assms by (auto simp: serve_request_def split: server.splits prod.splits)

text \<open>The fields that matter, and the rest.\<close>

lemma lifecycle_same:
  assumes "lifecycle s" and "is_proxy (pr_server s') = is_proxy (pr_server s)" and "pr_stopCh s' = pr_stopCh s"
    and "pr_stop s' = pr_stop s" and "pr_open s' = pr_open s" and "pr_shutdown s' = pr_shutdown s"
    and "pr_checker s' = pr_checker s" and "pr_drain s' = pr_drain s" and "pr_main s' = pr_main s"
    and "pr_flight s' = pr_flight s"
  shows "lifecycle s'"
  using assms(1) unfolding lifecycle_def assms(2-) .

lemma lifecycle_drain:
  assumes "lifecycle s" and "drain_go net w s = Some s'"
  shows "lifecycle s'"
proof -
  obtain p where p: "pr_server s = Proxy_Server p" using assms(2) by (auto simp: drain_go_def split: server.splits)
  with assms(2) obtain pc q where d: "drain_step net (px_base p) (pr_stop s) w (pr_drain s) (queue_view (pr_flight s) p) = Some (pc, q)"
    and s': "s' = s\<lparr>pr_server := Proxy_Server (with_queue q p), pr_drain := pc, pr_flight := sy_flight q\<rparr>"
    by (auto simp: drain_go_def split: option.splits prod.splits)
  have "drain_ok (pr_drain s) (queue_view (pr_flight s) p)" using assms(1) by (simp add: lifecycle_def drain_ok_def)
  note ok = drain_ok_step [OF this d]
  have alive: "pr_drain s \<noteq> Drain_Exited" using d by (auto simp: drain_step_def)
  have exits: "pc = Drain_Exited \<Longrightarrow> pr_stop s"
    using d by (cases "pr_drain s") (auto simp: drain_step_def split: if_splits option.splits prod.splits)
  from assms(1) alive ok exits p s' show ?thesis by (auto simp: lifecycle_def drain_ok_def)
qed

lemma lifecycle_step:
  assumes "lifecycle s" and "proc_step net chi e s = Some s'"
  shows "lifecycle s'"
proof (cases e)
  case (Serve w later i)
  obtain verb r where v: "pr_requests s ! i = (verb, r)" by fastforce
  obtain resp q where q: "serve_request net chi w later verb r s = (resp, q)" by fastforce
  with v Serve assms(2) have "s' = q\<lparr>pr_requests := take i (pr_requests q) @ drop (Suc i) (pr_requests q),
      pr_answers := pr_answers q @ [(r, resp)]\<rparr>" by (auto simp: proc_step_def checker_tick_def checker_return_def split: if_splits)
  moreover obtain sv rl a where "q = s\<lparr>pr_server := sv, pr_limiter := rl, pr_auth := a\<rparr>"
    "is_proxy sv = is_proxy (pr_server s)" by (rule serve_request_keeps [OF q])
  then have "lifecycle q" by - (rule lifecycle_same [OF assms(1)], simp_all)
  ultimately show ?thesis by - (erule lifecycle_same, simp_all)
next
  case (Drain_Go w)
  with assms lifecycle_drain show ?thesis by (auto simp: proc_step_def checker_tick_def checker_return_def split: if_splits)
next
  case Drain_Timer
  with assms show ?thesis
    by (auto simp: proc_step_def checker_tick_def checker_return_def lifecycle_def drain_timer_def split: if_splits drain_pc.splits)
next
  case Shutdown_Go
  with assms show ?thesis
    by (auto simp: proc_step_def checker_tick_def checker_return_def shutdown_go_def lifecycle_def split: if_splits shutdown_pc.splits)
next
  case Main_Go
  with assms show ?thesis
    by (auto simp: proc_step_def checker_tick_def checker_return_def main_go_def lifecycle_def split: if_splits main_pc.splits)
next
  case (Hangup given)
  with assms(2) have "s' = s\<lparr>pr_server := reload_server given (pr_server s)\<rparr>"
    by (auto simp: proc_step_def checker_tick_def checker_return_def split: if_splits)
  then show ?thesis by - (rule lifecycle_same [OF assms(1)], simp_all)
next
  case (Interrupt)
  with assms have "s' = (if pr_shutdown s = Await_Signal then s\<lparr>pr_shutdown := Signalled\<rparr> else s)"
    by (auto simp: proc_step_def checker_tick_def checker_return_def split: if_splits)
  with assms(1) show ?thesis by (cases "pr_shutdown s = Await_Signal") (auto simp: lifecycle_def)
next
  case (Background w i)
  with assms(2) obtain p q where "pr_server s = Proxy_Server p" "s' = s\<lparr>pr_server := Proxy_Server q\<rparr>"
    by (auto simp: proc_step_def checker_tick_def checker_return_def split: if_splits server.splits)
  then show ?thesis by - (rule lifecycle_same [OF assms(1)], simp_all)
next
  case (Tick w)
  with assms(2) obtain p q where "pr_server s = Proxy_Server p" "s' = s\<lparr>pr_server := Proxy_Server q\<rparr>"
    by (auto simp: proc_step_def checker_tick_def checker_return_def split: if_splits server.splits)
  then show ?thesis by - (rule lifecycle_same [OF assms(1)], simp_all)
next
  case (Accept verb r)
  with assms(2) have "s' = s\<lparr>pr_requests := pr_requests s @ [(verb, r)]\<rparr>"
    by (auto simp: proc_step_def checker_tick_def checker_return_def split: if_splits)
  then show ?thesis by - (rule lifecycle_same [OF assms(1)], simp_all)
next
  case Checker_Stop
  with assms(2) have "s' = s\<lparr>pr_checker := False\<rparr>" by (auto simp: proc_step_def checker_tick_def checker_return_def split: if_splits)
  with assms(1) show ?thesis by (auto simp: lifecycle_def)
next
  case (Sweep_Tokens w)
  with assms(2) have "s' = s\<lparr>pr_auth := auth_cleanup w (pr_auth s)\<rparr>" by (auto simp: proc_step_def checker_tick_def checker_return_def split: if_splits)
  then show ?thesis by - (rule lifecycle_same [OF assms(1)], simp_all)
next
  case (Sweep_Windows w)
  with assms(2) have "s' = s\<lparr>pr_limiter := rl_cleanup (w_now w) (pr_limiter s)\<rparr>"
    by (auto simp: proc_step_def checker_tick_def checker_return_def split: if_splits)
  then show ?thesis by - (rule lifecycle_same [OF assms(1)], simp_all)
next
  case Deadline
  with assms(2) have "pr_shutdown s = Closing_Server" "s' = s\<lparr>pr_shutdown := Shutdown_Done\<rparr>"
    by (auto simp: proc_step_def checker_tick_def checker_return_def split: if_splits)
  with assms(1) show ?thesis by (auto simp: lifecycle_def)
next
  case Listen_Fails
  with assms(2) have "pr_main s = Main_Listening" "s' = s\<lparr>pr_main := Main_Failed\<rparr>"
    by (auto simp: proc_step_def checker_tick_def checker_return_def split: if_splits)
  with assms(1) show ?thesis by (auto simp: lifecycle_def)
qed

lemma lifecycle_run: "lifecycle s \<Longrightarrow> proc_run net chi es s = Some s' \<Longrightarrow> lifecycle s'"
  by (induction es arbitrary: s) (auto split: option.splits intro: lifecycle_step)

lemmas lifecycle_reached = lifecycle_run [OF lifecycle_launch]

lemma lifecycle_closed:
  assumes "lifecycle s"
  shows "\<not> pr_open s \<Longrightarrow> pr_shutdown s \<noteq> Await_Signal \<and> \<not> pr_checker s \<and> pr_drain s = Drain_Exited \<and> pr_flight s = None"
    and "pr_main s = Main_Exited \<Longrightarrow> pr_shutdown s = Shutdown_Done \<and> \<not> pr_open s"
proof -
  have "pr_flight s = None" if "pr_drain s = Drain_Exited"
    using assms that unfolding lifecycle_def by fastforce
  then show "\<not> pr_open s \<Longrightarrow> pr_shutdown s \<noteq> Await_Signal \<and> \<not> pr_checker s \<and> pr_drain s = Drain_Exited \<and> pr_flight s = None"
    using assms by (cases "pr_shutdown s") (simp_all add: lifecycle_def)
  from assms show "pr_main s = Main_Exited \<Longrightarrow> pr_shutdown s = Shutdown_Done \<and> \<not> pr_open s"
    by (cases "pr_shutdown s") (simp_all add: lifecycle_def)
qed

text \<open>What a run has to contain for a shutdown.\<close>

definition shutdown_history :: "proc_event set \<Rightarrow> process \<Rightarrow> bool" where
  "shutdown_history es s \<longleftrightarrow> (pr_shutdown s \<noteq> Await_Signal \<longrightarrow> Interrupt \<in> es) \<and>
     (pr_shutdown s = Shutdown_Done \<longrightarrow> pr_requests s = [] \<or> Deadline \<in> es)"

lemma history_drain:
  "drain_go net w s = Some s' \<Longrightarrow> pr_shutdown s' = pr_shutdown s \<and> pr_requests s' = pr_requests s"
  by (auto simp: drain_go_def split: server.splits option.splits prod.splits)

lemma history_step:
  assumes "shutdown_history es s" and "lifecycle s" and "proc_step net chi e s = Some s'"
  shows "shutdown_history (insert e es) s'"
proof (cases e)
  case (Serve w later i)
  obtain verb r where v: "pr_requests s ! i = (verb, r)" by fastforce
  obtain resp q where q: "serve_request net chi w later verb r s = (resp, q)" by fastforce
  with v Serve assms(3) have "s' = q\<lparr>pr_requests := take i (pr_requests q) @ drop (Suc i) (pr_requests q),
      pr_answers := pr_answers q @ [(r, resp)]\<rparr>" by (auto simp: proc_step_def checker_tick_def checker_return_def split: if_splits)
  moreover obtain sv rl a where "q = s\<lparr>pr_server := sv, pr_limiter := rl, pr_auth := a\<rparr>"
    by (rule serve_request_keeps [OF q])
  ultimately show ?thesis using assms(1) by (auto simp: shutdown_history_def)
next
  case (Accept verb r)
  with assms(3) have "pr_open s" "pr_shutdown s' = pr_shutdown s" by (auto simp: proc_step_def checker_tick_def checker_return_def split: if_splits)
  with assms(1,2) show ?thesis by (auto simp: shutdown_history_def lifecycle_def)
next
  case (Drain_Go w)
  with assms(3) have "drain_go net w s = Some s'" by (auto simp: proc_step_def checker_tick_def checker_return_def split: if_splits)
  with history_drain [OF this] assms(1) show ?thesis by (auto simp: shutdown_history_def)
next
  case Shutdown_Go
  with assms(1,3) show ?thesis
    by (auto simp: proc_step_def checker_tick_def checker_return_def shutdown_go_def shutdown_history_def split: if_splits shutdown_pc.splits)
qed (use assms(1,3) in \<open>auto simp: proc_step_def checker_tick_def checker_return_def main_go_def shutdown_history_def
    split: if_splits server.splits main_pc.splits\<close>)

lemma history_run:
  "shutdown_history es s \<Longrightarrow> lifecycle s \<Longrightarrow> proc_run net chi es' s = Some s' \<Longrightarrow>
     shutdown_history (set es' \<union> es) s'"
proof (induction es' arbitrary: es s)
  case (Cons e es')
  then obtain q where q: "proc_step net chi e s = Some q" "proc_run net chi es' q = Some s'"
    by (auto split: option.splits)
  from Cons.IH [OF history_step [OF Cons.prems(1,2) q(1)] lifecycle_step [OF Cons.prems(2) q(1)] q(2)]
  show ?case by (simp add: Un_commute)
qed simp

text \<open>
  C8 The shutdown happens in its order. The listener is closed only after a signal, and when it
  is, the health checker and the drain goroutine have ended, and the drain goroutine leaves no push
  behind that was sent and not settled; \<open>main\<close> returns only then, and with every accepted request
  answered unless the ten seconds were over. Nothing stops the other uploads: handlers that were
  accepted before, and the pushes that run as goroutines of their own (\<open>Background\<close>), may still send
  after the listener is closed.
\<close>
theorem shutdown_order:
  assumes "proc_run net chi es (launch st) = Some s"
  shows "(\<not> pr_open s \<longrightarrow> Interrupt \<in> set es \<and> \<not> pr_checker s \<and> pr_drain s = Drain_Exited \<and> pr_flight s = None) \<and>
    (pr_main s = Main_Exited \<longrightarrow> \<not> pr_open s \<and> (pr_requests s = [] \<or> Deadline \<in> set es))"
proof -
  have "shutdown_history {} (launch st)" by (simp add: shutdown_history_def launch_def)
  from history_run [OF this lifecycle_launch assms] have "shutdown_history (set es) s" by simp
  moreover have "lifecycle s" by (rule lifecycle_reached [OF assms])
  note lifecycle_closed [OF this]
  ultimately show ?thesis unfolding shutdown_history_def by blast
qed

section \<open>The shutdown comes to its end\<close>

definition main_rank :: "main_pc \<Rightarrow> nat" where
  "main_rank m = (case m of Main_Listening \<Rightarrow> 2 | Main_Waiting \<Rightarrow> 1 | Main_Exited \<Rightarrow> 0 | Main_Failed \<Rightarrow> 0)"

definition shutdown_rank :: "shutdown_pc \<Rightarrow> nat" where
  "shutdown_rank pc = (case pc of Await_Signal \<Rightarrow> 5 | Signalled \<Rightarrow> 4 | Stopping_Client \<Rightarrow> 3 | Stopping_Queue \<Rightarrow> 2
     | Closing_Server \<Rightarrow> 1 | Shutdown_Done \<Rightarrow> 0)"

definition proc_rank :: "process \<Rightarrow> nat \<times> nat \<times> nat \<times> nat \<times> nat" where
  "proc_rank s = (main_rank (pr_main s), shutdown_rank (pr_shutdown s), if pr_checker s then 1 else 0,
     if pr_stop s then drain_rank (pr_drain s) else (0, 0))"

abbreviation proc_less :: "((nat \<times> nat \<times> nat \<times> nat \<times> nat) \<times> nat \<times> nat \<times> nat \<times> nat \<times> nat) set" where
  "proc_less \<equiv> less_than <*lex*> less_than <*lex*> less_than <*lex*> drain_less"

text \<open>The steps that bring the shutdown forward.\<close>

definition closing :: "process \<Rightarrow> proc_event \<Rightarrow> bool" where
  "closing s e = (case e of Shutdown_Go \<Rightarrow> True | Main_Go \<Rightarrow> True | Checker_Stop \<Rightarrow> True | Deadline \<Rightarrow> True
     | Drain_Go w \<Rightarrow> pr_stop s | Drain_Timer \<Rightarrow> pr_stop s | _ \<Rightarrow> False)"

lemma shutdown_go_rank:
  "shutdown_go s = Some s' \<Longrightarrow> pr_main s' = pr_main s \<and> shutdown_rank (pr_shutdown s') < shutdown_rank (pr_shutdown s)"
  by (cases "pr_shutdown s") (auto simp: shutdown_go_def shutdown_rank_def split: if_splits)

lemma main_go_rank: "main_go s = Some s' \<Longrightarrow> main_rank (pr_main s') < main_rank (pr_main s)"
  by (cases "pr_main s") (auto simp: main_go_def main_rank_def split: if_splits)

lemma proc_less_trans: "(x, y) \<in> proc_less \<Longrightarrow> (y, z) \<in> proc_less \<Longrightarrow> (x, z) \<in> proc_less"
  by (rule transD [of proc_less]) simp_all

lemma closing_step:
  assumes "closing s e" and "proc_step net chi e s = Some s'"
  shows "(proc_rank s', proc_rank s) \<in> proc_less"
proof (cases e)
  case (Drain_Go w)
  with assms have stop: "pr_stop s" and go: "drain_go net w s = Some s'"
    by (auto simp: closing_def proc_step_def checker_tick_def checker_return_def split: if_splits)
  from go obtain p pc q where "drain_step net (px_base p) (pr_stop s) w (pr_drain s) (queue_view (pr_flight s) p) = Some (pc, q)"
    and "s' = s\<lparr>pr_server := Proxy_Server (with_queue q p), pr_drain := pc, pr_flight := sy_flight q\<rparr>"
    by (auto simp: drain_go_def split: server.splits option.splits prod.splits)
  with stop drain_stops_step show ?thesis by (auto simp: proc_rank_def)
next
  case Drain_Timer
  with assms drain_stops_timer show ?thesis
    by (auto simp: closing_def proc_step_def checker_tick_def checker_return_def proc_rank_def split: if_splits)
next
  case Shutdown_Go
  with assms(2) have "shutdown_go s = Some s'" by (simp add: proc_step_def checker_tick_def checker_return_def split: if_splits)
  from shutdown_go_rank [OF this] show ?thesis by (simp add: proc_rank_def)
next
  case Main_Go
  with assms(2) have "main_go s = Some s'" by (simp add: proc_step_def checker_tick_def checker_return_def split: if_splits)
  from main_go_rank [OF this] show ?thesis by (simp add: proc_rank_def)
next
  case Checker_Stop
  with assms(2) show ?thesis by (auto simp: proc_step_def checker_tick_def checker_return_def proc_rank_def split: if_splits)
next
  case Deadline
  with assms(2) show ?thesis by (auto simp: proc_step_def checker_tick_def checker_return_def proc_rank_def shutdown_rank_def split: if_splits)
qed (use assms(1) in \<open>auto simp: closing_def\<close>)

lemma other_step:
  assumes "\<not> closing s e" and "pr_shutdown s \<noteq> Await_Signal" and "proc_step net chi e s = Some s'"
  shows "proc_rank s' = proc_rank s \<or> (proc_rank s', proc_rank s) \<in> proc_less"
proof (cases e)
  case (Serve w later i)
  obtain verb r where v: "pr_requests s ! i = (verb, r)" by fastforce
  obtain resp q where q: "serve_request net chi w later verb r s = (resp, q)" by fastforce
  with v Serve assms(3) have "s' = q\<lparr>pr_requests := take i (pr_requests q) @ drop (Suc i) (pr_requests q),
      pr_answers := pr_answers q @ [(r, resp)]\<rparr>" by (auto simp: proc_step_def checker_tick_def checker_return_def split: if_splits)
  moreover obtain sv rl a where "q = s\<lparr>pr_server := sv, pr_limiter := rl, pr_auth := a\<rparr>"
    by (rule serve_request_keeps [OF q])
  ultimately show ?thesis by (simp add: proc_rank_def)
next
  case (Drain_Go w)
  with assms show ?thesis
    by (auto simp: closing_def proc_step_def checker_tick_def checker_return_def drain_go_def proc_rank_def split: if_splits server.splits option.splits prod.splits)
next
  case Listen_Fails
  with assms(3) show ?thesis by (auto simp: proc_step_def checker_tick_def checker_return_def proc_rank_def main_rank_def split: if_splits)
qed (use assms in \<open>auto simp: closing_def proc_step_def checker_tick_def checker_return_def proc_rank_def split: if_splits server.splits\<close>)

lemma signal_stays:
  assumes "pr_shutdown s \<noteq> Await_Signal" and "proc_step net chi e s = Some s'"
  shows "pr_shutdown s' \<noteq> Await_Signal"
proof (cases e)
  case (Serve w later i)
  obtain verb r where v: "pr_requests s ! i = (verb, r)" by fastforce
  obtain resp q where q: "serve_request net chi w later verb r s = (resp, q)" by fastforce
  with v Serve assms(2) have "s' = q\<lparr>pr_requests := take i (pr_requests q) @ drop (Suc i) (pr_requests q),
      pr_answers := pr_answers q @ [(r, resp)]\<rparr>" by (auto simp: proc_step_def checker_tick_def checker_return_def split: if_splits)
  moreover obtain sv rl a where "q = s\<lparr>pr_server := sv, pr_limiter := rl, pr_auth := a\<rparr>"
    by (rule serve_request_keeps [OF q])
  ultimately show ?thesis using assms(1) by simp
next
  case (Drain_Go w)
  with assms history_drain show ?thesis by (auto simp: proc_step_def checker_tick_def checker_return_def split: if_splits)
qed (use assms in \<open>auto simp: proc_step_def checker_tick_def checker_return_def shutdown_go_def main_go_def
    split: if_splits server.splits shutdown_pc.splits main_pc.splits\<close>)

text \<open>Until \<open>main\<close> returns, some goroutine of the shutdown is not blocked.\<close>

lemma closing_enabled:
  assumes "lifecycle s" and "pr_shutdown s \<noteq> Await_Signal" and "running s"
  obtains e s' where "closing s e" "proc_step net chi e s = Some s'"
proof -
  note go = proc_step_goes [OF assms(3)]
  have "\<exists>e. closing s e \<and> proc_step net chi e s \<noteq> None"
  proof (cases "pr_shutdown s")
    case Await_Signal
    with assms(2) show ?thesis by simp
  next
    case Signalled
    then show ?thesis by (intro exI [of _ Shutdown_Go]) (simp add: go closing_def shutdown_go_def)
  next
    case Stopping_Client
    have "pr_stopCh s" using assms(1) Stopping_Client unfolding lifecycle_def by fastforce
    then show ?thesis
      using Stopping_Client assms(3)
      by (cases "pr_checker s") (auto intro: exI [of _ Checker_Stop] exI [of _ Shutdown_Go]
          simp: go closing_def shutdown_go_def proc_step_def checker_tick_def checker_return_def)
  next
    case Stopping_Queue
    then have "is_proxy (pr_server s)" and stop: "pr_stop s" using assms(1) unfolding lifecycle_def by fastforce+
    then obtain p where p: "pr_server s = Proxy_Server p" by (auto simp: is_proxy_def split: server.splits)
    show ?thesis
    proof (cases "pr_drain s = Drain_Exited")
      case True
      with Stopping_Queue show ?thesis by (intro exI [of _ Shutdown_Go]) (simp add: go closing_def shutdown_go_def)
    next
      case False
      have "drain_ok (pr_drain s) (queue_view (pr_flight s) p)"
        using assms(1) unfolding lifecycle_def drain_ok_def by simp
      from drain_can_step [OF this False] stop p assms(3) show ?thesis
        by (intro exI [of _ "Drain_Go undefined"]) (simp add: closing_def proc_step_def checker_tick_def checker_return_def drain_go_def split: option.split prod.split)
    qed
  next
    case Closing_Server
    with assms(3) show ?thesis by (intro exI [of _ Deadline]) (simp add: closing_def proc_step_def checker_tick_def checker_return_def)
  next
    case Shutdown_Done
    then have "\<not> pr_open s" using assms(1) unfolding lifecycle_def by fastforce
    with Shutdown_Done assms(3) show ?thesis
      by (intro exI [of _ Main_Go]) (auto simp: go closing_def main_go_def running_def)
  qed
  with that show thesis by auto
qed

text \<open>
  C9 A shutdown ends. Once the signal has come, any goroutines may go on as they like (requests are
  accepted and served, timers fire, further signals come), for ever if they want: only finitely
  many steps of the schedule can belong to the shutdown, the stopping goroutines and \<open>main\<close>, and
  before \<open>main\<close> returns one of these always can be taken. So every fair schedule ends the process.
\<close>
theorem shutdown_terminates:
  assumes "proc_run net chi es (launch st) = Some s" and "pr_shutdown s \<noteq> Await_Signal"
  shows "(running s \<longrightarrow> (\<exists>e s'. closing s e \<and> proc_step net chi e s = Some s')) \<and>
    (\<forall>f ev. f 0 = s \<and> (\<forall>n. proc_step net chi (ev n) (f n) = Some (f (Suc n))) \<longrightarrow>
       finite {n :: nat. closing (f n) (ev n)})"
proof (intro conjI impI allI)
  show "\<exists>e s'. closing s e \<and> proc_step net chi e s = Some s'" if "running s"
    using closing_enabled [OF lifecycle_reached [OF assms(1)] assms(2) that] by metis
  fix f :: "nat \<Rightarrow> process" and ev
  assume run: "f 0 = s \<and> (\<forall>n. proc_step net chi (ev n) (f n) = Some (f (Suc n)))"
  have signal: "pr_shutdown (f n) \<noteq> Await_Signal" for n
    by (induction n) (use run assms(2) signal_stays in \<open>auto, blast\<close>)
  have down: "k \<le> n \<Longrightarrow> proc_rank (f n) = proc_rank (f k) \<or> (proc_rank (f n), proc_rank (f k)) \<in> proc_less" for k n
  proof (induction n)
    case (Suc n)
    have "proc_rank (f (Suc n)) = proc_rank (f n) \<or> (proc_rank (f (Suc n)), proc_rank (f n)) \<in> proc_less"
      using closing_step other_step [OF _ signal] run by metis
    with Suc show ?case using proc_less_trans by (cases "k = Suc n") (metis, metis le_SucE)
  qed simp
  have "wf (inv_image proc_less (\<lambda>k. proc_rank (f k)))" by (intro wf_inv_image wf_lex_prod wf_less_than)
  then have "finite {m. k \<le> m \<and> closing (f m) (ev m)}" for k
  proof (induction k rule: wf_induct_rule)
    case (less k)
    show ?case
    proof (cases "\<exists>m \<ge> k. closing (f m) (ev m)")
      case True
      then obtain m where m: "k \<le> m" "closing (f m) (ev m)" by blast
      have "(proc_rank (f (Suc m)), proc_rank (f m)) \<in> proc_less" using closing_step [OF m(2)] run by blast
      then have "(proc_rank (f (Suc m)), proc_rank (f k)) \<in> proc_less"
        using down [OF m(1)] proc_less_trans by metis
      with less [of "Suc m"] have "finite ({..m} \<union> {n. Suc m \<le> n \<and> closing (f n) (ev n)})" by simp
      then show ?thesis by (rule rev_finite_subset) auto
    next
      case False
      then have none: "{m. k \<le> m \<and> closing (f m) (ev m)} = {}" by blast
      show ?thesis unfolding none by simp
    qed
  qed
  from this [of 0] show "finite {n. closing (f n) (ev n)}" by simp
qed

text \<open>A proxy with an empty store, and a root hub that is told to stop twice.\<close>

definition sample_started :: "server \<Rightarrow> started" where
  "sample_started sv = \<lparr>st_config = default_config, st_server = sv, st_limiter = NewRateLimiter 120 20000,
     st_auth = NewAuthStore hour\<rparr>"

definition no_routes :: chi where
  "no_routes verb path = No_Path"

text \<open>The shortest shutdown of a proxy that is idle.\<close>

definition idle_proxy :: "Proxy \<Rightarrow> RateLimiter \<Rightarrow> AuthStore \<Rightarrow> (request \<times> response) list \<Rightarrow> bool \<Rightarrow> bool \<Rightarrow> drain_pc \<Rightarrow> bool \<Rightarrow> bool \<Rightarrow> shutdown_pc
     \<Rightarrow> main_pc \<Rightarrow> process" where
  "idle_proxy p rl a ans c sc d st op pc m = \<lparr>pr_server = Proxy_Server p, pr_limiter = rl, pr_auth = a,
     pr_requests = [], pr_answers = ans, pr_checker = c, pr_stopCh = sc, pr_drain = d, pr_flight = None,
     pr_stop = st, pr_open = op, pr_shutdown = pc, pr_main = m\<rparr>"

definition quick_exit :: "world \<Rightarrow> proc_event list" where
  "quick_exit w = [Interrupt, Shutdown_Go, Checker_Stop, Shutdown_Go, Drain_Go w, Shutdown_Go, Shutdown_Go, Main_Go, Main_Go]"

lemma launch_idle:
  "launch (sample_started (Proxy_Server p)) =
     idle_proxy p (NewRateLimiter 120 20000) (NewAuthStore hour) [] True False Drain_Select False True Await_Signal Main_Listening"
  by (simp add: launch_def sample_started_def idle_proxy_def)

lemma idle_steps:
  "m = Main_Listening \<or> m = Main_Waiting \<Longrightarrow> running (idle_proxy p rl a ans c sc d st op pc m)"
  "proc_step net chi Interrupt (idle_proxy p rl a ans c sc d st op Await_Signal Main_Listening) =
     Some (idle_proxy p rl a ans c sc d st op Signalled Main_Listening)"
  "proc_step net chi Checker_Stop (idle_proxy p rl a ans True True d st op pc Main_Listening) =
     Some (idle_proxy p rl a ans False True d st op pc Main_Listening)"
  "proc_step net chi (Drain_Go w) (idle_proxy p rl a ans c sc Drain_Select True op pc Main_Listening) =
     Some (idle_proxy p rl a ans c sc Drain_Exited True op pc Main_Listening)"
  by (simp_all add: proc_step_goes running_def idle_proxy_def drain_go_def drain_step_def with_queue_def)

lemma idle_shutdown:
  "shutdown_go (idle_proxy p rl a ans c sc d st op Signalled m) = Some (idle_proxy p rl a ans c True d st op Stopping_Client m)"
  "shutdown_go (idle_proxy p rl a ans False sc d st op Stopping_Client m) = Some (idle_proxy p rl a ans False sc d True op Stopping_Queue m)"
  "shutdown_go (idle_proxy p rl a ans c sc Drain_Exited st op Stopping_Queue m) =
     Some (idle_proxy p rl a ans c sc Drain_Exited st False Closing_Server m)"
  "shutdown_go (idle_proxy p rl a ans c sc d st op Closing_Server m) = Some (idle_proxy p rl a ans c sc d st op Shutdown_Done m)"
  "main_go (idle_proxy p rl a ans c sc d st False pc Main_Listening) = Some (idle_proxy p rl a ans c sc d st False pc Main_Waiting)"
  "main_go (idle_proxy p rl a ans c sc d st op Shutdown_Done Main_Waiting) =
     Some (idle_proxy p rl a ans c sc d st op Shutdown_Done Main_Exited)"
  by (simp_all add: idle_proxy_def shutdown_go_def main_go_def)

lemma idle_exits:
  "proc_run net chi (quick_exit w) (idle_proxy p rl a ans True False Drain_Select False True Await_Signal Main_Listening) =
     Some (idle_proxy p rl a ans False True Drain_Exited True False Shutdown_Done Main_Exited)"
  by (simp add: quick_exit_def proc_step_goes(1,2) idle_steps idle_shutdown)

theorem shutdown_order_witness:
  "\<exists>es s. proc_run refusing no_routes es (launch (sample_started (Proxy_Server sample_proxy))) = Some s \<and>
     pr_main s = Main_Exited \<and> Interrupt \<in> set es \<and> Deadline \<notin> set es \<and> pr_drain s = Drain_Exited"
proof -
  obtain s where s: "proc_run refusing no_routes (quick_exit calm_world) (launch (sample_started (Proxy_Server sample_proxy))) = Some s"
    and m: "pr_main s = Main_Exited" by (simp add: launch_idle idle_exits) (simp add: idle_proxy_def)
  from shutdown_order [OF s] m have "pr_drain s = Drain_Exited" by blast
  with s m show ?thesis by (intro exI [of _ "quick_exit calm_world"] exI [of _ s]) (simp add: quick_exit_def)
qed

theorem shutdown_terminates_witness:
  "\<exists>s e s'. proc_run refusing no_routes [Interrupt] (launch (sample_started (Proxy_Server sample_proxy))) = Some s \<and>
     closing s e \<and> proc_step refusing no_routes e s = Some s' \<and> finite {n :: nat. closing s Interrupt}"
proof -
  let ?s = "idle_proxy sample_proxy (NewRateLimiter 120 20000) (NewAuthStore hour) [] True False Drain_Select False True
      Signalled Main_Listening"
  have s: "proc_run refusing no_routes [Interrupt] (launch (sample_started (Proxy_Server sample_proxy))) = Some ?s"
    by (simp add: launch_idle idle_steps)
  have f: "pr_shutdown ?s \<noteq> Await_Signal" "running ?s" by (simp_all add: idle_proxy_def running_def)
  note t = shutdown_terminates [OF s f(1)]
  have "proc_step refusing no_routes Interrupt ?s = Some ?s" using f by (simp add: proc_step_goes(4))
  then have "finite {n :: nat. closing ?s Interrupt}"
    using t [THEN conjunct2, rule_format, of "\<lambda>n. ?s" "\<lambda>n. Interrupt"] by blast
  moreover obtain e s' where "closing ?s e" "proc_step refusing no_routes e ?s = Some s'"
    using t [THEN conjunct1] f(2) by blast
  ultimately show ?thesis using s by blast
qed

end
