(* ===== verification/Main_Traffic.thy ===== *)
theory Main_Traffic
  imports Main_Lifecycle
begin

text \<open>
  What the goroutines of one proxy process do together: its handlers, background tasks, health checker
  and drain goroutine, from the start to the exit. What leaves the process are objects that may leave it,
  and an edit that was accepted while the root hub was away survives the process. Both hold as long
  as the root hub offers no object whose reference names a file of the queue; \<open>Proxy_Planted\<close> has the
  run in which it does.
\<close>

section \<open>A step of the process on its proxy\<close>

text \<open>Whether a step answers a \<open>PUT\<close> of an object.\<close>

definition put_route :: "chi \<Rightarrow> string \<Rightarrow> request \<Rightarrow> ref option" where
  "put_route chi verb r = (case chi verb (req_path r) of
      Matched pattern ref \<Rightarrow> if map_of hub_routes (verb, pattern) = Some Put_Object then Some ref else None
    | _ \<Rightarrow> None)"

definition replaces :: "chi \<Rightarrow> ref \<Rightarrow> process \<Rightarrow> proc_event \<Rightarrow> bool" where
  "replaces chi ref s e \<longleftrightarrow> (case e of
      Serve w later i \<Rightarrow> i < length (pr_requests s) \<and> (case pr_requests s ! i of (verb, r) \<Rightarrow> put_route chi verb r = Some ref)
    | _ \<Rightarrow> False)"

lemma auth_path [simp]: "req_path (auth_Middleware w a r) = req_path r"
  by (simp add: auth_Middleware_def Let_def split: prod.split)

lemma px_mux_acts:
  assumes "px_mux w net chi verb r (p, a) = (resp, p', a')" and "\<And>ref. put_route chi verb r = Some ref \<Longrightarrow> Q ref"
  shows "px_acts net Q p p'"
proof (cases "\<exists>pattern ref route. chi verb (req_path r) = Matched pattern ref \<and> map_of hub_routes (verb, pattern) = Some route")
  case True
  then obtain pattern ref route where m: "chi verb (req_path r) = Matched pattern ref"
    "map_of hub_routes (verb, pattern) = Some route" by blast
  with assms(1) have h: "px_handler w net route (r\<lparr>req_ref := ref\<rparr>) (p, a) = (resp, p', a')" by (simp add: px_mux_def)
  have "Q (req_ref (r\<lparr>req_ref := ref\<rparr>))" if "route = Put_Object" using assms(2) m that by (simp add: put_route_def)
  from handler_acts [where Q = Q, OF h this] show ?thesis .
next
  case False
  with assms(1) show ?thesis by (auto simp: px_mux_def split: chi_match.splits option.splits)
qed

lemma px_Router_acts:
  assumes "px_Router w net later chi verb r rl (p, a) = (resp, rl', p', a')"
    and "\<And>ref. put_route chi verb r = Some ref \<Longrightarrow> Q ref"
  shows "px_acts net Q p p'"
proof -
  have route: "put_route chi verb (auth_Middleware w a r) = put_route chi verb r" by (simp add: put_route_def)
  obtain resp' q b where m: "px_mux w net chi verb (auth_Middleware w a r) (p, a) = (resp', q, b)" by (metis prod_cases3)
  then have "px_acts net Q p q" using px_mux_acts [where Q = Q, OF m] assms(2) route by metis
  moreover have "p' = p \<or> p' = q"
    using assms(1) m by (auto simp: px_Router_def rl_Middleware_def Let_def case_prod_beta split: if_splits)
  ultimately show ?thesis by auto
qed

text \<open>
  A step is a sequence of actions of a handler, task or tick, a reload of the realms, a step of the
  drain goroutine, or none of these; and the drain goroutine moves by its own steps alone.
\<close>

definition same_drain :: "process \<Rightarrow> process \<Rightarrow> bool" where
  "same_drain s s' \<longleftrightarrow> pr_flight s' = pr_flight s \<and> drain_refs (pr_drain s') = drain_refs (pr_drain s)"

inductive proxy_moves :: "network \<Rightarrow> (ref \<Rightarrow> bool) \<Rightarrow> process \<Rightarrow> Proxy \<Rightarrow> process \<Rightarrow> Proxy \<Rightarrow> bool" for net Q s p s' where
  acts: "px_acts net Q p p' \<Longrightarrow> same_drain s s' \<Longrightarrow> proxy_moves net Q s p s' p'"
| reload: "same_drain s s' \<Longrightarrow>
    proxy_moves net Q s p s' (p\<lparr>px_hub := (px_hub p)\<lparr>hub_index := idx\<rparr>\<rparr>)"
| drained: "drain_step net (px_base p) (pr_stop s) w (pr_drain s) (queue_view (pr_flight s) p) = Some (pr_drain s', q) \<Longrightarrow>
    pr_flight s' = sy_flight q \<Longrightarrow> proxy_moves net Q s p s' (with_queue q p)"

lemma proxy_stays:
  assumes "pr_server s = Proxy_Server p" and "pr_server s' = pr_server s" and "same_drain s s'"
  shows "\<exists>p'. pr_server s' = Proxy_Server p' \<and> proxy_moves net Q s p s' p'"
  using proxy_moves.acts [of net Q p p s s'] assms by simp

lemma proxy_step:
  assumes "proc_step net chi e s = Some s'" and "pr_server s = Proxy_Server p"
    and "\<And>ref. replaces chi ref s e \<Longrightarrow> Q ref"
  shows "\<exists>p'. pr_server s' = Proxy_Server p' \<and> proxy_moves net Q s p s' p'"
proof -
  have run: "running s" using assms(1) by (auto simp: proc_step_def split: if_splits)
  note stays = proxy_stays [OF assms(2)]
  show ?thesis
  proof (cases e)
    case (Serve w later i)
    obtain verb r where v: "pr_requests s ! i = (verb, r)" by fastforce
    obtain resp rl p' a where router: "px_Router w net later chi verb r (pr_limiter s) (p, pr_auth s) = (resp, rl, p', a)"
      by (metis prod_cases4)
    from Serve v router assms(1,2) run have i: "i < length (pr_requests s)"
      and s': "s' = s\<lparr>pr_server := Proxy_Server p', pr_limiter := rl, pr_auth := a,
        pr_requests := take i (pr_requests s) @ drop (Suc i) (pr_requests s), pr_answers := pr_answers s @ [(r, resp)]\<rparr>"
      by (auto simp: proc_step_def serve_request_def split: if_splits)
    have "put_route chi verb r = Some ref \<Longrightarrow> Q ref" for ref using assms(3) [of ref] Serve v i by (simp add: replaces_def)
    from px_Router_acts [where Q = Q, OF router this] have "px_acts net Q p p'" by blast
    then show ?thesis using s' proxy_moves.acts [of net Q p p' s s'] by (simp add: same_drain_def)
  next
    case (Background w i)
    with assms(1,2) run have i: "i < length (px_tasks p)"
      and s': "s' = s\<lparr>pr_server := Proxy_Server (fst (px_step net (Task w i) (p, pr_auth s)))\<rparr>"
      by (auto simp: proc_step_def split: if_splits)
    have "px_acts net Q p (fst (px_step net (Task w i) (p, pr_auth s)))"
      using step_acts [where Q = Q, of "Task w i" net "(p, pr_auth s)"] by (simp add: may_queue_def)
    then show ?thesis
      using s' proxy_moves.acts [of net Q p _ s s'] by (simp add: same_drain_def del: px_step.simps)
  next
    case (Tick w)
    with assms(1,2) run have s': "s' = s\<lparr>pr_server := Proxy_Server (p\<lparr>px_client := health_tick w net (px_client p)\<rparr>)\<rparr>"
      by (auto simp: proc_step_def checker_tick_def split: if_splits)
    have "px_acts net Q p (p\<lparr>px_client := health_tick w net (px_client p)\<rparr>)"
      using step_acts [where Q = Q, of "Health w" net "(p, pr_auth s)"] by (simp add: may_queue_def)
    then show ?thesis using s' proxy_moves.acts [of net Q p _ s s'] by (simp add: same_drain_def)
  next
    case (Drain_Go w)
    with assms(1,2) run obtain pc q where
      d: "drain_step net (px_base p) (pr_stop s) w (pr_drain s) (queue_view (pr_flight s) p) = Some (pc, q)"
      and s': "s' = s\<lparr>pr_server := Proxy_Server (with_queue q p), pr_drain := pc, pr_flight := sy_flight q\<rparr>"
      by (auto simp: proc_step_goes drain_go_def split: option.splits prod.splits)
    then show ?thesis using proxy_moves.drained [of net p s w s' q Q] by simp
  next
    case Drain_Timer
    with assms(1) run drain_timer_refs have "pr_server s' = pr_server s" "same_drain s s'"
      by (auto simp: proc_step_def same_drain_def)
    then show ?thesis by (rule stays)
  next
    case (Hangup given)
    with assms(1,2) run have s': "s' = s\<lparr>pr_server := reload_server given (Proxy_Server p)\<rparr>" by (auto simp: proc_step_def)
    then have "same_drain s s'" by (simp add: same_drain_def)
    from proxy_moves.reload [OF this] s' show ?thesis by (auto simp: reload_server_def)
  next
    case Shutdown_Go
    with assms(1) run have "shutdown_go s = Some s'" by (simp add: proc_step_goes)
    then have "pr_server s' = pr_server s" "same_drain s s'"
      by (cases "pr_shutdown s"; auto simp: shutdown_go_def same_drain_def split: if_splits)+
    then show ?thesis by (rule stays)
  next
    case Main_Go
    with assms(1) run have "main_go s = Some s'" by (simp add: proc_step_goes)
    then have "pr_server s' = pr_server s" "same_drain s s'"
      by (cases "pr_main s"; auto simp: main_go_def same_drain_def split: if_splits)+
    then show ?thesis by (rule stays)
  qed (use assms(1) run stays in \<open>auto simp: proc_step_def checker_return_def same_drain_def split: if_splits\<close>)
qed

section \<open>The queue inside the process\<close>

definition traffic_ok :: "network \<Rightarrow> process \<Rightarrow> Proxy \<Rightarrow> bool" where
  "traffic_ok net s p \<longleftrightarrow> queue_ok (px_UpstreamPush p) (px_base p) (hub_disk (px_hub p)) \<and>
     flight_ok net (queue_view (pr_flight s) p) \<and> flight_valid (queue_view (pr_flight s) p) \<and>
     list_all IsValidRef (drain_refs (pr_drain s)) \<and> drain_ok (pr_drain s) (queue_view (pr_flight s) p)"

definition sent_ok :: "string \<Rightarrow> Proxy \<Rightarrow> Proxy \<Rightarrow> bool" where
  "sent_ok push p p' \<longleftrightarrow>
     (\<exists>new. cl_sent (px_client p') = cl_sent (px_client p) @ new \<and> list_all (sends_only push) new)"

definition same_home :: "Proxy \<Rightarrow> Proxy \<Rightarrow> bool" where
  "same_home p p' \<longleftrightarrow> hub_store (px_hub p') = hub_store (px_hub p) \<and> px_UpstreamPush p' = px_UpstreamPush p"

lemma moves_traffic:
  assumes "proxy_moves net Q s p s' p'" and "spares_queue net (hub_store (px_hub p))" and "traffic_ok net s p"
    and "drain_ok (pr_drain s') (queue_view (pr_flight s') p')"
  shows "traffic_ok net s' p' \<and> same_home p p' \<and> sent_ok (px_UpstreamPush p) p p'"
  using assms(1)
proof cases
  case acts
  have "queue_ok (px_UpstreamPush p) (px_base p) (hub_disk (px_hub p))" "flight_ok net (queue_view (pr_flight s) p)"
    using assms(3) by (simp_all add: traffic_ok_def)
  from acts_queue [OF acts(1) assms(2) this] actions_send [OF acts(1)] acts(2) assms(3,4)
  show ?thesis by (auto simp: traffic_ok_def same_home_def sent_ok_def same_drain_def flight_valid_def)
next
  case (reload idx)
  with assms(3,4) show ?thesis
    by (auto simp: traffic_ok_def same_home_def sent_ok_def same_drain_def queue_view_def)
next
  case (drained w q)
  let ?v = "queue_view (pr_flight s) p"
  have ok: "drain_ok (pr_drain s) ?v" "list_all IsValidRef (drain_refs (pr_drain s))" "flight_ok net ?v" "flight_valid ?v"
    "queue_ok (px_UpstreamPush p) (px_base p) (sy_disk ?v)" using assms(3) by (simp_all add: traffic_ok_def)
  have view: "queue_view (pr_flight s') p' = q" using drained(1,3) by simp
  from drain_step_events [OF drained(2) ok(1,2)] obtain es where "q = sync_run net (px_base p) es ?v" "list_all event_valid es"
    by blast
  with run_flight [OF ok(3,4)] have "flight_ok net q" "flight_valid q" by auto
  moreover have "list_all IsValidRef (drain_refs (pr_drain s'))"
    using drain_step_refs [OF drained(2)] queue_ok_listed [OF ok(5)] ok(2) by (fastforce simp: list_all_iff)
  ultimately show ?thesis
    using drain_step_queue [OF drained(2) ok(1-5)] assms(4) drained(1) unfolding traffic_ok_def view
    by (auto simp: same_home_def sent_ok_def)
qed

lemma lifecycle_drain_ok: "lifecycle s \<Longrightarrow> drain_ok (pr_drain s) (queue_view (pr_flight s) p)"
  unfolding lifecycle_def drain_ok_def by simp

lemma sent_ok_trans: "sent_ok push p q \<Longrightarrow> sent_ok push q r \<Longrightarrow> sent_ok push p r"
  by (auto simp: sent_ok_def)

lemma run_traffic:
  assumes "proc_run net chi es s = Some s'" and "spares_queue net (hub_store (px_hub p))" and "lifecycle s" and "pr_server s = Proxy_Server p"
    and "traffic_ok net s p"
  shows "\<exists>p'. pr_server s' = Proxy_Server p' \<and> traffic_ok net s' p' \<and> same_home p p' \<and> sent_ok (px_UpstreamPush p) p p'"
  using assms
proof (induction es arbitrary: s p)
  case Nil
  then show ?case by (auto simp: same_home_def sent_ok_def)
next
  case (Cons e es)
  then obtain q where q: "proc_step net chi e s = Some q" "proc_run net chi es q = Some s'" by (auto split: option.splits)
  from proxy_step [OF q(1) Cons.prems(4), of "\<lambda>ref. True"] obtain p1
    where p1: "pr_server q = Proxy_Server p1" "proxy_moves net (\<lambda>ref. True) s p q p1" by blast
  note life = lifecycle_step [OF Cons.prems(3) q(1)]
  from moves_traffic [OF p1(2) Cons.prems(2,5) lifecycle_drain_ok [OF life]]
  have t: "traffic_ok net q p1" "same_home p p1" "sent_ok (px_UpstreamPush p) p p1" by blast+
  have "spares_queue net (hub_store (px_hub p1))" using t(2) Cons.prems(2) by (simp add: same_home_def)
  from Cons.IH [OF q(2) this life p1(1) t(1)] t(2,3) sent_ok_trans show ?case
    unfolding same_home_def by (metis (no_types, lifting))
qed

lemma launched_traffic:
  assumes "st_server st = Proxy_Server p" and "queue_ok (px_UpstreamPush p) (px_base p) (hub_disk (px_hub p))"
  shows "traffic_ok net (launch st) p"
  using assms by (simp add: traffic_ok_def launch_def drain_refs_def drain_ok_def flight_ok_def flight_valid_def)

section \<open>What leaves the process\<close>



section \<open>An accepted edit survives\<close>

text \<open>No step of the run answers a \<open>PUT\<close> of the object.\<close>

fun unreplaced :: "network \<Rightarrow> chi \<Rightarrow> ref \<Rightarrow> proc_event list \<Rightarrow> process \<Rightarrow> bool" where
  "unreplaced net chi ref [] s = True"
| "unreplaced net chi ref (e # es) s = (\<not> replaces chi ref s e \<and>
     (case proc_step net chi e s of None \<Rightarrow> True | Some s \<Rightarrow> unreplaced net chi ref es s))"

lemma moves_safe:
  assumes "proxy_moves net (\<lambda>q. q \<noteq> ref) s p s' p'" and "spares_queue net (hub_store (px_hub p))" and "traffic_ok net s p" and "IsValidRef ref"
    and "safe_edit net (px_base p) (queue_view (pr_flight s) p) ref data"
  shows "safe_edit net (px_base p') (queue_view (pr_flight s') p') ref data"
  using assms(1)
proof cases
  case acts
  with acts_safe [OF acts(1) assms(2,4) _ assms(5)] show ?thesis by (simp add: same_drain_def)
next
  case (reload idx)
  with assms(5) show ?thesis by (simp add: same_drain_def queue_view_def safe_edit_def)
next
  case (drained w q)
  let ?v = "queue_view (pr_flight s) p"
  have ok: "drain_ok (pr_drain s) ?v" "list_all IsValidRef (drain_refs (pr_drain s))" "flight_ok net ?v" "flight_valid ?v"
    using assms(3) by (simp_all add: traffic_ok_def)
  from drain_step_events [OF drained(2) ok(1,2)] obtain es where es: "q = sync_run net (px_base p) es ?v"
    "list_all event_valid es" "list_all (\<lambda>e. \<not> queues ref e) es" by blast
  from run_safe [OF assms(5,4) ok(3,4) es(2,3)] drained(1,3) es(1) show ?thesis by simp
qed

lemma run_edit_safe:
  assumes "proc_run net chi es s = Some s'" and "spares_queue net (hub_store (px_hub p))" and "lifecycle s" and "pr_server s = Proxy_Server p"
    and "traffic_ok net s p" and "IsValidRef ref" and "unreplaced net chi ref es s"
    and "safe_edit net (px_base p) (queue_view (pr_flight s) p) ref data"
  shows "\<exists>p'. pr_server s' = Proxy_Server p' \<and> safe_edit net (px_base p') (queue_view (pr_flight s') p') ref data"
  using assms(1-5,7-)
proof (induction es arbitrary: s p)
  case Nil
  then show ?case by simp
next
  case (Cons e es)
  then obtain q where q: "proc_step net chi e s = Some q" "proc_run net chi es q = Some s'" by (auto split: option.splits)
  with Cons.prems(6) have quiet: "\<not> replaces chi ref s e" "unreplaced net chi ref es q" by auto
  have "replaces chi r s e \<Longrightarrow> r \<noteq> ref" for r using quiet(1) by blast
  from proxy_step [OF q(1) Cons.prems(4), of "\<lambda>r. r \<noteq> ref", OF this] obtain p1
    where p1: "pr_server q = Proxy_Server p1" "proxy_moves net (\<lambda>r. r \<noteq> ref) s p q p1" by blast
  note life = lifecycle_step [OF Cons.prems(3) q(1)]
  from moves_traffic [OF p1(2) Cons.prems(2,5) lifecycle_drain_ok [OF life]]
  have t: "traffic_ok net q p1" "same_home p p1" by blast+
  have "spares_queue net (hub_store (px_hub p1))" using t(2) Cons.prems(2) by (simp add: same_home_def)
  from Cons.IH [OF q(2) this life p1(1) t(1) quiet(2) moves_safe [OF p1(2) Cons.prems(2,5) assms(6) Cons.prems(7)]]
  show ?case .
qed

lemma Router_put:
  assumes "px_Router w net later chi verb r rl (p, a) = (resp, rl', p', a')" and "put_route chi verb r = Some ref"
    and "resp_status resp \<noteq> 429"
  obtains r' resp' where "px_handlePutObject w net r' p = (resp', p')" "resp_status resp' = resp_status resp"
    "req_ref r' = ref" "req_body r' = req_body r"
proof -
  define r' where "r' = (auth_Middleware w a r)\<lparr>req_ref := ref\<rparr>"
  have body: "req_ref r' = ref" "req_body r' = req_body r"
    by (simp_all add: r'_def auth_Middleware_def Let_def split: prod.split)
  obtain resp' q where put: "px_handlePutObject w net r' p = (resp', q)" by fastforce
  from assms(2) obtain pattern where "chi verb (req_path r) = Matched pattern ref"
    "map_of hub_routes (verb, pattern) = Some Put_Object"
    by (auto simp: put_route_def split: chi_match.splits if_splits)
  with put have mux: "px_mux w net chi verb (auth_Middleware w a r) (p, a) = (resp', q, a)"
    by (simp add: px_mux_def px_handler_def r'_def)
  have "p' = q \<and> resp_status resp = resp_status resp'"
    using assms(1,3) mux by (auto simp: px_Router_def rl_Middleware_def writeError_status Let_def case_prod_beta split: if_splits)
  with that put body show thesis by metis
qed

text \<open>
  C7 An accepted edit survives the process. When a proxy answers a \<open>PUT\<close> with 202, because its root hub
  is marked unavailable or the upload gets no answer (and not because it passes on a 202 of the root
  hub, which this program's hub never sends), then at every later moment of the process, through other
  requests, background tasks, uploads, signals, the shutdown and the exit, and until another \<open>PUT\<close> of
  the object is answered: its canonical bytes are in the queue on the disk, or in the archive of
  conflicts or rejections, or the root hub has taken them or answered with the same item. Assumed is
  that the queue at the start holds edits that may be uploaded, under well-formed references, as each
  process leaves it, and that no object the root hub offers has a reference that names a file of
  the queue or its archives.
\<close>
theorem edits_survive:
  assumes "st_server st = Proxy_Server p0" and "spares_queue net (hub_store (px_hub p0))"
    and "queue_ok (px_UpstreamPush p0) (px_base p0) (hub_disk (px_hub p0))"
    and "proc_run net chi es (launch st) = Some s" and "pr_server s = Proxy_Server p" and "no_202 net (px_client p)"
    and "pr_requests s ! i = (verb, r)" and "put_route chi verb r = Some ref"
    and "proc_step net chi (Serve w later i) s = Some s1" and "resp_status (snd (last (pr_answers s1))) = 202"
    and "proc_run net chi es' s1 = Some s'" and "unreplaced net chi ref es' s1"
  shows "\<exists>body canonical p'. req_body r = Some body \<and> VerifyEnvelope w body = None \<and>
    CanonicalJSON body = Some canonical \<and> pr_server s' = Proxy_Server p' \<and>
    safe_edit net (px_base p') (queue_view (pr_flight s') p') ref canonical"
proof -
  note life = lifecycle_reached [OF assms(4)]
  have t: "traffic_ok net s p" and spares: "spares_queue net (hub_store (px_hub p))"
    using run_traffic [OF assms(4,2) lifecycle_launch _ launched_traffic [OF assms(1,3)]] assms(1,2,5)
    by (auto simp: launch_def same_home_def)
  obtain resp rl p1 a where router: "px_Router w net later chi verb r (pr_limiter s) (p, pr_auth s) = (resp, rl, p1, a)"
    by (metis prod_cases4)
  from assms(5,7,9) router have s1: "pr_server s1 = Proxy_Server p1" "last (pr_answers s1) = (r, resp)" "pr_flight s1 = pr_flight s"
    by (auto simp: proc_step_def serve_request_def split: if_splits)
  with assms(10) have "resp_status resp = 202" by simp
  then obtain r' resp' where put: "px_handlePutObject w net r' p = (resp', p1)" "resp_status resp' = 202"
    and r': "req_ref r' = ref" "req_body r' = req_body r"
    by - (rule Router_put [OF router assms(8)], simp_all)
  have valid: "IsValidRef ref" using put r' by (auto simp: px_handlePutObject_def Let_def split: if_splits)
  from offline_put_kept [OF assms(6) put, of "[]"] r' obtain body it realms canonical where
    body: "req_body r = Some body" and checked: "px_put_checks w r' ref body (px_index p) = Inr (it, realms, canonical)"
    and safe: "safe_edit net (px_base p) \<lparr>sy_disk = hub_disk (px_hub p1), sy_client = px_client p1, sy_flight = None\<rparr> ref canonical"
    by (auto simp: sync_run_def)
  from proxy_step [OF assms(9,5), of "\<lambda>q. True"] s1(1) have moved: "proxy_moves net (\<lambda>q. True) s p s1 p1" by auto
  note life1 = lifecycle_step [OF life assms(9)]
  from moves_traffic [OF moved spares t lifecycle_drain_ok [OF life1]]
  have t1: "traffic_ok net s1 p1" and home: "hub_store (px_hub p1) = hub_store (px_hub p)" by (simp_all add: same_home_def)
  have spares1: "spares_queue net (hub_store (px_hub p1))" using spares home by simp
  have "safe_edit net (px_base p1) (queue_view (pr_flight s1) p1) ref canonical"
    using safe home by (simp add: safe_edit_def)
  from run_edit_safe [OF assms(11) spares1 life1 s1(1) t1 valid assms(12) this] body px_put_checks_Inr [OF checked]
  show ?thesis by blast
qed

section \<open>Examples\<close>

lemma refusing_spares: "spares_queue refusing s"
proof -
  have "parse_json [] = None" by code_simp
  then show ?thesis
    by (simp add: spares_queue_def offered_def refusing_def decode_ListResponse_def ParseEnvelope_def unmarshal_Envelope_def)
qed



text \<open>An edit that is accepted offline, and the shutdown after it.\<close>

definition put_only :: chi where
  "put_only verb path = Matched ''/{ref}'' demo_ref"

lemma put_only_route: "put_route put_only ''PUT'' r = Some demo_ref"
  by (simp add: put_route_def put_only_def hub_routes_def)

lemma sample_routed:
  "\<exists>resp rl p. px_Router calm_world refusing 0 put_only ''PUT'' (sample_put ''1'') (NewRateLimiter 120 20000)
     (sample_offline, NewAuthStore hour) = (resp, rl, p, NewAuthStore hour) \<and> resp_status resp = 202"
proof -
  have auth: "(auth_Middleware calm_world (NewAuthStore hour) (sample_put ''1''))\<lparr>req_ref := demo_ref\<rparr> = sample_put ''1''"
    by (simp add: auth_Middleware_def request_token_def extractBearerToken_def extractCookieToken_def sample_put_def
        empty_request_def has_prefix_def)
  have allowed: "\<exists>rl. Allow 0 ip (NewRateLimiter 120 20000) = ((True, 0), rl)" for ip
    by (simp add: Allow_def getOrCreate_def NewRateLimiter_def Let_def)
  have global: "IsGlobalObject [''dataverse001'']" by code_simp
  have hub: "px_hub sample_offline = px_hub sample_proxy" by (simp add: sample_offline_def sample_proxy_def)
  have "px_handlePutObject calm_world refusing (sample_put ''1'') sample_offline =
      storeLocallyWithPending calm_world (sample_put ''1'') demo_ref (sample_item 1) (sample_canonical ''1'') [''dataverse001''] sample_offline"
    unfolding sample_px_put using global
    by (simp add: px_put_def px_do_def Client_Do_unavailable px_url_def calm_world_def sample_offline_def SetAvailable_def Let_def)
  with sample_pending [OF hub] obtain resp p where
    put: "px_handlePutObject calm_world refusing (sample_put ''1'') sample_offline = (resp, p)" "resp_status resp = 202"
    by (metis prod.collapse)
  have "px_mux calm_world refusing put_only ''PUT'' (auth_Middleware calm_world (NewAuthStore hour) (sample_put ''1''))
      (sample_offline, NewAuthStore hour) = (resp, p, NewAuthStore hour)"
    by (simp add: px_mux_def put_only_def hub_routes_def px_handler_def auth put)
  moreover have "w_now calm_world = 0" by (simp add: calm_world_def)
  ultimately show ?thesis using allowed [of "req_remote (sample_put ''1'')"] put(2)
    by (auto simp: px_Router_def rl_Middleware_def Let_def case_prod_beta)
qed

lemma unreplaced_idle:
  "list_all (\<lambda>e. \<forall>w later i. e \<noteq> Serve w later i) es \<Longrightarrow> unreplaced net chi ref es s"
proof (induction es arbitrary: s)
  case (Cons e es)
  then show ?case by (cases e) (auto simp: replaces_def split: option.split)
qed simp

theorem edits_survive_witness:
  "\<exists>s' p'. proc_run refusing put_only (Accept ''PUT'' (sample_put ''1'') # Serve calm_world 0 0 # quick_exit calm_world)
       (launch (sample_started (Proxy_Server sample_offline))) = Some s' \<and>
     pr_main s' = Main_Exited \<and> pr_server s' = Proxy_Server p' \<and>
     safe_edit refusing (px_base p') (queue_view (pr_flight s') p') demo_ref (sample_canonical ''1'')"
proof -
  let ?idle = "\<lambda>p rl ans. idle_proxy p rl (NewAuthStore hour) ans True False Drain_Select False True Await_Signal Main_Listening"
  let ?r = "sample_put ''1''" and ?rl = "NewRateLimiter 120 20000"
  let ?launched = "launch (sample_started (Proxy_Server sample_offline))"
  let ?s = "(?idle sample_offline ?rl [])\<lparr>pr_requests := [(''PUT'', ?r)]\<rparr>"
  obtain resp rl p where routed: "px_Router calm_world refusing 0 put_only ''PUT'' ?r ?rl (sample_offline, NewAuthStore hour) =
      (resp, rl, p, NewAuthStore hour)" "resp_status resp = 202" using sample_routed by blast
  have accept: "proc_step refusing put_only (Accept ''PUT'' ?r) ?launched = Some ?s"
    by (simp add: launch_idle idle_proxy_def proc_step_def running_def)
  then have s: "proc_run refusing put_only [Accept ''PUT'' ?r] ?launched = Some ?s" by simp
  have serve: "proc_step refusing put_only (Serve calm_world 0 0) ?s = Some (?idle p rl [(?r, resp)])"
    using routed by (simp add: idle_proxy_def proc_step_def running_def serve_request_def)
  obtain s' where s': "proc_run refusing put_only (quick_exit calm_world) (?idle p rl [(?r, resp)]) = Some s'"
    "pr_main s' = Main_Exited" by (simp add: idle_exits) (simp add: idle_proxy_def)
  have q: "queue_ok push base (hub_disk (px_hub sample_offline))" for push base
    by (simp add: queue_ok_def sample_offline_def sample_proxy_def NewProxy_def NewHub_def)
  have "unreplaced refusing put_only demo_ref (quick_exit calm_world) (?idle p rl [(?r, resp)])"
    by (rule unreplaced_idle) (simp add: quick_exit_def)
  from edits_survive [OF _ refusing_spares q s _ _ _ put_only_route serve _ s'(1) this, of sample_offline] routed(2)
  have "\<exists>p'. pr_server s' = Proxy_Server p' \<and>
      safe_edit refusing (px_base p') (queue_view (pr_flight s') p') demo_ref (sample_canonical ''1'')"
    by (simp add: sample_started_def idle_proxy_def sample_put_def sample_CanonicalJSON sample_offline_def SetAvailable_def no_202_def)
  with accept serve s' show ?thesis by auto
qed

end
