(* ===== verification/Proxy_Lists.thy ===== *)
theory Proxy_Lists
  imports Proxy_Runs
begin

text \<open>
  The lists of a proxy: the merge of the root hub's page with the local objects the root hub does not
  have. The loop of the code is compared with sorting the concatenation.
\<close>

definition item_key :: "sortableItem \<Rightarrow> meta_key" where
  "item_key x = Meta_Key (si_updatedAt x) (si_ref x)"

lemma upstream_first_key: "upstream_first u l \<longleftrightarrow> item_key u \<le> item_key l"
  using go_less_linear [of "si_ref u" "si_ref l"] go_less_asym [of "si_ref u" "si_ref l"]
  by (auto simp: upstream_first_def item_key_def less_eq_meta_key_def less_meta_key_def)

lemma sort_key_pull:
  fixes k :: "'a \<Rightarrow> 'b::linorder"
  assumes "\<forall>x\<in>set xs. k y < k x" and "\<forall>x\<in>set ys. k y \<le> k x"
  shows "sort_key k (xs @ y # ys) = y # sort_key k (xs @ ys)"
  using assms by (induction xs) (auto simp: insort_is_Cons)

text \<open>The merge of two sorted lists is the stable sort of one after the other.\<close>

lemma merge_items_sort:
  assumes "sorted (map item_key us)" and "sorted (map item_key ls)"
  shows "merge_items us ls = sort_key item_key (us @ ls)"
  using assms
proof (induction us ls rule: merge_items.induct)
  case (1 ls)
  then show ?case by (simp add: sort_key_id_if_sorted)
next
  case (2 u us)
  then show ?case using sort_key_id_if_sorted [of item_key "u # us"] by (simp add: insort_is_Cons)
next
  case (3 u us l ls)
  show ?case
  proof (cases "upstream_first u l")
    case True
    then have "item_key u \<le> item_key l" by (simp add: upstream_first_key)
    with 3(3,4) have "\<forall>x\<in>set (us @ l # ls). item_key u \<le> item_key x" by (auto intro: order_trans)
    with True 3 show ?thesis by (simp add: insort_is_Cons)
  next
    case False
    then have "item_key l < item_key u" by (simp add: upstream_first_key)
    with 3(3,4) have "\<forall>x\<in>set (u # us). item_key l < item_key x" "\<forall>x\<in>set ls. item_key l \<le> item_key x"
      by (auto intro: less_le_trans)
    from sort_key_pull [OF this] False 3 show ?thesis by simp
  qed
qed

lemma sorted_local_metas: "sorted (map meta_key (local_metas r idx))"
  by (simp add: local_metas_def Let_def sorted_GetAll sorted_GetInbound)

lemma local_metas_visible:
  "m \<in> set (local_metas r idx) \<Longrightarrow> visible idx (req_auth r) (req_query r ''members_only'' \<noteq> ''false'') m"
  by (auto simp: local_metas_def Let_def GetAll_def GetByPubkey_def GetInbound_def List.map_filter_def
      split: if_splits option.splits)

text \<open>What is left to merge: sorted, and only objects the caller may read and the root hub has not.\<close>

definition merged_metas :: "request \<Rightarrow> Index \<Rightarrow> ObjectMeta list" where
  "merged_metas r idx = after_cursor r (private_metas (local_metas r idx))"

lemma after_cursor_suffix: "\<exists>before. metas = before @ after_cursor r metas"
proof -
  have "\<exists>before. metas = before @ dropWhile P metas" for P
    by (metis takeWhile_dropWhile_id)
  then show ?thesis by (auto simp: after_cursor_def skip_dropWhile split: option.split)
qed

lemma merged_metas_sorted: "sorted (map meta_key (merged_metas r idx))"
proof -
  have "sorted (map meta_key (private_metas (local_metas r idx)))"
    using sorted_local_metas [of r idx] by (simp add: private_metas_def sorted_filter)
  then show ?thesis
    using after_cursor_suffix [of "private_metas (local_metas r idx)" r]
    by (metis merged_metas_def map_append sorted_append)
qed

lemma merged_metas_readable:
  assumes "m \<in> set (merged_metas r idx)"
  shows "CanRead (meta_Realms m) (req_auth r) (Resolver idx)" and "\<not> IsGlobalObject (meta_Realms m)"
proof -
  have m: "m \<in> set (private_metas (local_metas r idx))"
    using assms after_cursor_suffix [of "private_metas (local_metas r idx)" r]
    by (metis UnI2 merged_metas_def set_append)
  then show "\<not> IsGlobalObject (meta_Realms m)" by (simp add: private_metas_def)
  from m have "m \<in> set (local_metas r idx)" by (simp add: private_metas_def)
  from local_metas_visible [OF this] show "CanRead (meta_Realms m) (req_auth r) (Resolver idx)"
    by (simp add: visible_def split: if_splits)
qed

lemma local_items_sorted:
  assumes "sorted (map meta_key ms)"
  shows "sorted (map item_key (local_items w h ms))"
proof -
  have "set (map item_key (local_items w h ms)) \<subseteq> set (map meta_key ms)" for ms
    by (induction ms) (auto simp: item_key_def meta_key_def split: sum.split option.split)
  with assms show ?thesis
    by (induction ms) (fastforce simp: item_key_def meta_key_def split: sum.split option.split)+
qed

text \<open>The reference: all items of both sides in one list, sorted, newest first, and cut at the limit.\<close>

definition all_items :: "world \<Rightarrow> request \<Rightarrow> hub \<Rightarrow> ListResponse \<Rightarrow> sortableItem list" where
  "all_items w r h up = sort_key item_key
     (upstream_items (lr_Items up) @ local_items w h (merged_metas r (hub_index h)))"

definition reference_list :: "world \<Rightarrow> request \<Rightarrow> hub \<Rightarrow> ListResponse \<Rightarrow> response" where
  "reference_list w r h up =
     (let limit = parseLimit (req_query r ''limit'') 50 200; xs = all_items w r h up;
          page = take (nat limit) xs; hasMore = (lr_HasMore up \<or> limit < int (length xs));
          items = map (\<lambda>m. (si_data m, si_ref m)) page
      in writeItems (if req_query r ''include'' = ''inbound_counts''
           then enrichWithInboundCounts (hub_index h) items else Some items)
           (if hasMore \<and> page \<noteq> []
            then Some (encode_cursor w \<lparr>cur_T = si_updatedAt (last page), cur_Ref = si_ref (last page)\<rparr>) else None)
           hasMore)"

text \<open>
  C26 The page a proxy lists is a merge. When the root hub's page is in order and the caller has local
  objects the root hub has not, the proxy lists what a stable sort of all these items, newest
  first, cut at the limit gives, with a cursor at the last item exactly when there is more; the
  local items are objects the caller may read and that are not of the global realm.
\<close>
theorem merged_list_sorted:
  assumes "sorted (map item_key (upstream_items (lr_Items up)))"
  shows "mergeLocalIntoUpstream w r h up =
      (if private_metas (local_metas r (hub_index h)) = []
       then writeList (lr_Items up) (lr_Cursor up) (lr_HasMore up) else reference_list w r h up) \<and>
    list_all (\<lambda>m. CanRead (meta_Realms m) (req_auth r) (Resolver (hub_index h)) \<and> \<not> IsGlobalObject (meta_Realms m))
      (merged_metas r (hub_index h))"
proof -
  let ?all = "all_items w r h up" and ?limit = "parseLimit (req_query r ''limit'') 50 200"
  have m: "merge_items (upstream_items (lr_Items up))
      (local_items w h (after_cursor r (private_metas (local_metas r (hub_index h))))) = ?all"
    using merge_items_sort [OF assms local_items_sorted [OF merged_metas_sorted], of w h r "hub_index h"]
    by (simp add: all_items_def merged_metas_def)
  have "1 \<le> ?limit" using parseLimit_bounds [of 50 200] by simp
  then have "take (nat ?limit) ?all = ?all \<longleftrightarrow> int (length ?all) \<le> ?limit" by auto
  then have "merged_page ?all ?limit (lr_HasMore up) = (take (nat ?limit) ?all,
      if (lr_HasMore up \<or> ?limit < int (length ?all)) \<and> take (nat ?limit) ?all \<noteq> []
      then Some \<lparr>cur_T = si_updatedAt (last (take (nat ?limit) ?all)), cur_Ref = si_ref (last (take (nat ?limit) ?all))\<rparr>
      else None, lr_HasMore up \<or> ?limit < int (length ?all))"
    by (auto simp: merged_page_def Let_def)
  then show ?thesis
    using merged_metas_readable
    by (simp add: mergeLocalIntoUpstream_def reference_list_def m Let_def list_all_iff)
qed

text \<open>A private note merged into a page of the root hub with one item.\<close>

definition sample_page :: ListResponse where
  "sample_page = \<lparr>lr_Items = [sample_body ''1''], lr_Cursor = None, lr_HasMore = False\<rparr>"

theorem merged_list_sorted_witness:
  "mergeLocalIntoUpstream calm_world (empty_request\<lparr>req_auth := ''alice''\<rparr>) sample_private sample_page =
     reference_list calm_world (empty_request\<lparr>req_auth := ''alice''\<rparr>) sample_private sample_page"
proof -
  have one: "sorted (map item_key (upstream_items (lr_Items sample_page)))"
    by (simp add: sample_page_def upstream_items_def)
  let ?r = "empty_request\<lparr>req_auth := ''alice''\<rparr>" and ?idx = "hub_index sample_private"
  let ?m = "meta_of demo_ref demo_note 5 [''alice'']"
  have rep: "represents [demo_ref \<mapsto> (demo_note, 5, [''alice''])] ?idx"
    using idx_Update_represents [OF NewIndex_represents, of "Some []" demo_ref demo_note 5 "[[''alice'']]"]
    by (simp add: sample_private_def resolved_realms_def toml_ok_def)
  have r: "req_ref ?r = []" "req_query ?r q = []" for q by (simp_all add: empty_request_def)
  have "visible ?idx ''alice'' True ?m" "\<not> IsGlobalObject [''alice'']" by code_simp+
  then have "?m \<in> set (private_metas (local_metas ?r ?idx))"
    using GetAll_iff [OF rep, of ?m "[]" "[]" "''alice''" True] r
    by (auto simp: private_metas_def local_metas_def Let_def meta_of_def)
  then have "private_metas (local_metas ?r ?idx) \<noteq> []" by auto
  with merged_list_sorted [OF one, of calm_world ?r sample_private] show ?thesis by simp
qed

end
