(* ===== verification/Proxy_Planted.thy ===== *)
theory Proxy_Planted
  imports Proxy_Queue
begin

text \<open>
  What the condition on the root hub in \<open>Proxy_Queue\<close> keeps out. \<open>CacheLocally\<close> of \<open>serving/proxy.go\<close> checks neither
  the shape of a reference nor a signature, and \<open>Write\<close> of \<open>storage/store.go\<close> uses the reference as a
  file name: an object whose pubkey is \<open>sync_pending/KEY\<close> becomes the pending edit of the reference that
  begins with \<open>KEY\<close>. The edit that was queued there is overwritten, and the drain goroutine uploads
  the object whatever its realms are.
\<close>

definition planted_ref :: "ref \<Rightarrow> ref" where
  "planted_ref ref = ''sync_pending/'' @ ref"

lemma planted_path:
  assumes "IsValidRef ref"
  shows "live_path s (planted_ref ref) = pending_path (sync_dir (store_dir s)) ref"
proof -
  have name: "plain_name (ref @ ''.json'')"
    using valid_ref_no_slash [OF assms] valid_ref_length [OF assms] by (auto intro!: plain_nameI)
  then have parts: "split_on (CHR ''/'') (ref @ ''.json'') = [ref @ ''.json'']"
    by (simp add: plain_name_def split_on_no_sep)
  have "split_on (CHR ''/'') (''sync_pending/'' @ ref @ ''.json'') = [''sync_pending'', ref @ ''.json'']"
    using parts by simp
  with name show ?thesis
    by (simp add: planted_ref_def live_path_def pending_path_def sync_dir_def join_path_def plain_name_def parts)
qed

text \<open>
  The answer to a look for a new object of a root hub's list is stored in the queue, and the next push of
  the reference sends it.
\<close>

theorem planted_edit_uploaded:
  assumes "IsValidRef ref" and "ParseEnvelope data = Inr (env, it)" and "item_Ref it = planted_ref ref"
    and "GetMeta (px_index p) (planted_ref ref) = None" and "cl_available (px_client p)"
    and "\<And>sent. net sent (get_json_request (px_url p (planted_ref ref))) = Some \<lparr>up_status = 200, up_contentType = ct, up_data = Some data\<rparr>"
    and "\<not> w_bad_url w (px_url p (planted_ref ref))"
    and "\<not> w_write_fails w (pending_path (pending_dir p) ref)" and "\<not> w_chtimes_fails w (pending_path (pending_dir p) ref)"
    and "\<not> w_read_fails w' (pending_path (pending_dir p) ref)" and "\<not> w_bad_url w' (px_url p ref)"
  shows "held (hub_disk (px_hub (ensureFresh w net (planted_ref ref) p))) (pending_path (pending_dir p) ref) data \<and>
    (let p' = ensureFresh w net (planted_ref ref) p in
     \<exists>rest. cl_sent (snd (push_send w' net (pending_dir p) ref (hub_disk (px_hub p')) (px_client p'))) =
       cl_sent (px_client p') @ (put_json_request (px_url p ref) [])\<lparr>up_body := Some data\<rparr> # rest)"
proof -
  let ?req = "get_json_request (px_url p (planted_ref ref))"
  let ?u = "(px_client p)\<lparr>cl_sent := cl_sent (px_client p) @ [?req]\<rparr>"
  define p' where "p' = ensureFresh w net (planted_ref ref) p"
  have path: "live_path (hub_store (px_hub p)) (planted_ref ref) = pending_path (pending_dir p) ref"
    using planted_path [OF assms(1)] by (simp add: pending_dir_def)
  have asked: "px_do net ?req None p = (Some \<lparr>up_status = 200, up_contentType = ct, up_data = Some data\<rparr>, p\<lparr>px_client := ?u\<rparr>)"
    using assms(5,6) by (simp add: px_do_def Client_Do_def transport_def IsDown_def get_json_request_def)
  have stored: "hub_disk (px_hub p') = mput (pending_path (pending_dir p) ref)
      (data, case item_Timestamp it of Some t \<Rightarrow> t | None \<Rightarrow> zero_time) (hub_disk (px_hub p))" "px_client p' = ?u"
    using assms(2-4,7-9) asked path
    by (simp_all add: p'_def ensureFresh_def CacheLocally_def px_index_def px_store_object_def Write_def Let_def)
  let ?put = "(put_json_request (px_url p ref) [])\<lparr>up_body := Some data\<rparr>"
  have url: "cl_baseURL (px_client p') @ ''/'' @ ref = px_url p ref" using stored(2) by (simp add: px_url_def)
  have "\<exists>rest. cl_sent (snd (push_verdict w' net ref data n (u\<lparr>cl_sent := cl_sent u @ [q]\<rparr>))) = cl_sent u @ q # rest" for n u q
    using push_verdict_client [of w' net ref data n "u\<lparr>cl_sent := cl_sent u @ [q]\<rparr>"] by auto
  then have "\<exists>rest. cl_sent (snd (push_send w' net (pending_dir p) ref (hub_disk (px_hub p')) u)) = cl_sent u @ ?put # rest"
    if "cl_baseURL u @ ''/'' @ ref = px_url p ref" for u
    using stored(1) assms(10,11) that
    by (simp add: push_send_def transport_def SetAvailable_def Let_def split: option.split)
  from this [OF url] stored(1) show ?thesis by (simp add: p'_def held_def Let_def)
qed

section \<open>A private object that is uploaded\<close>

definition planted_body :: bytes where
  "planted_body = ''{\"in\":[\"private\"],\"item\":{\"id\":\"'' @ sample_id @ ''\",\"pubkey\":\"sync_pending/'' @ sample_key @
     ''\",\"type\":\"NOTE\"}}''"

lemma planted_parsed:
  "\<exists>env it. ParseEnvelope planted_body = Inr (env, it) \<and> item_Ref it = planted_ref demo_ref \<and>
     \<not> IsGlobalObject (ResolveIn env it)"
proof -
  let ?item = "JObj [(''id'', JStr sample_id), (''pubkey'', JStr (''sync_pending/'' @ sample_key)), (''type'', JStr ''NOTE'')]"
  let ?json = "JObj [(''in'', JArr [JStr ''private'']), (''item'', ?item)]"
  have "parse_depth 2 planted_body = Some ?json" by code_simp
  then have p: "parse_json planted_body = Some ?json" by (rule parse_depth_json) simp
  have "(case (decode_Envelope ?json, decode_Item ?item) of (Some env, Some it) \<Rightarrow>
      env_Item env = Some ?item \<and> item_Ref it = planted_ref demo_ref \<and> \<not> IsGlobalObject (ResolveIn env it) | _ \<Rightarrow> False)"
    by code_simp
  with p show ?thesis
    by (auto simp: ParseEnvelope_def unmarshal_Envelope_def unmarshal_Item_def split: option.splits)
qed

definition planting :: network where
  "planting sent req = Some \<lparr>up_status = 200, up_contentType = [], up_data = Some planted_body\<rparr>"

text \<open>The proxy pushes public objects only; its queue held an edit of the note.\<close>

definition queued_proxy :: Proxy where
  "queued_proxy = with_disk sample_proxy (mput (pending_path (pending_dir sample_proxy) demo_ref) (sample_canonical ''1'', 0) [])"

theorem planted_edit_uploaded_witness:
  "\<exists>p' env it. p' = ensureFresh calm_world planting (planted_ref demo_ref) queued_proxy \<and> px_UpstreamPush queued_proxy = ''public'' \<and>
     held (hub_disk (px_hub queued_proxy)) (pending_path (pending_dir queued_proxy) demo_ref) (sample_canonical ''1'') \<and>
     held (hub_disk (px_hub p')) (pending_path (pending_dir queued_proxy) demo_ref) planted_body \<and>
     ParseEnvelope planted_body = Inr (env, it) \<and> \<not> IsGlobalObject (ResolveIn env it) \<and>
     (\<exists>rest. cl_sent (snd (push_send calm_world planting (pending_dir queued_proxy) demo_ref (hub_disk (px_hub p')) (px_client p'))) =
       cl_sent (px_client p') @ (put_json_request (px_url queued_proxy demo_ref) [])\<lparr>up_body := Some planted_body\<rparr> # rest)"
proof -
  obtain env it where it: "ParseEnvelope planted_body = Inr (env, it)" "item_Ref it = planted_ref demo_ref"
    "\<not> IsGlobalObject (ResolveIn env it)" using planted_parsed by blast
  have idx: "GetMeta (px_index queued_proxy) (planted_ref demo_ref) = None"
    using GetMeta_objs [OF indexedD [OF sample_index], of "planted_ref demo_ref"]
    by (simp add: sample_hub_def px_index_def queued_proxy_def sample_proxy_def NewProxy_def NewHub_def)
  have q: "px_UpstreamPush queued_proxy = ''public''" "cl_available (px_client queued_proxy)"
    "hub_disk (px_hub queued_proxy) = mput (pending_path (pending_dir queued_proxy) demo_ref) (sample_canonical ''1'', 0) []"
    by (simp_all add: queued_proxy_def sample_proxy_def NewProxy_def NewHub_def NewClient_def pending_dir_def)
  have world: "\<not> w_bad_url calm_world x" "\<not> w_write_fails calm_world y" "\<not> w_chtimes_fails calm_world y" "\<not> w_read_fails calm_world y" for x y
    by (simp_all add: calm_world_def)
  have answer: "planting sent req = Some \<lparr>up_status = 200, up_contentType = [], up_data = Some planted_body\<rparr>" for sent req
    by (simp add: planting_def)
  from planted_edit_uploaded [of demo_ref planted_body env it queued_proxy planting "[]" calm_world calm_world,
      OF demo_ref_valid it(1,2) idx q(2) answer world(1-4) world(1)] it q
  show ?thesis by (simp add: held_def Let_def)
qed

text \<open>Such a root hub does not meet the condition.\<close>

lemma planting_names_queue: "\<not> spares_queue planting demo_store"
proof -
  obtain env it where it: "ParseEnvelope planted_body = Inr (env, it)" "item_Ref it = planted_ref demo_ref"
    using planted_parsed by blast
  have "offered planting (planted_ref demo_ref)" unfolding offered_def planting_def using it by auto
  moreover have "live_path demo_store (planted_ref demo_ref) = sync_dir (store_dir demo_store) @ [demo_ref @ ''.json'']"
    using planted_path [OF demo_ref_valid] pending_path_eq [OF demo_ref_valid] by simp
  then have "names_queue demo_store (planted_ref demo_ref)"
    by (simp add: names_queue_def queue_folders_def sync_dir_def butlast_append)
  ultimately show ?thesis by (auto simp: spares_queue_def)
qed

end
