(* ===== verification/Serving_Keyedmutex.thy ===== *)
theory Serving_Keyedmutex
  imports Main
begin

text \<open>
  \<open>serving/keyedmutex.go\<close> as a step relation. \<open>Lock\<close> and \<open>Unlock\<close> are two atomic steps each: one
  under the mutex of the map, one on the mutex of the entry. An entry has an identity, because
  a key that was dropped gets a new entry while the old one may still be held for a moment.
  Any number of threads run any interleaving of the steps. Shown of every reachable state:
  mutual exclusion per key, that \<open>Unlock\<close> does not panic, that idle keys are dropped, and that a
  waiting thread is never stuck.
\<close>

section \<open>States and steps\<close>

type_synonym thread = nat
type_synonym entry = nat

datatype 'k pc = Idle | Waiting 'k entry | Critical 'k entry | Releasing entry | Panicked

record refLock =
  lock_held :: bool
  lock_waiters :: int

record 'k keyedMutex =
  km_locks :: "'k \<Rightarrow> entry option"
  km_entries :: "entry \<Rightarrow> refLock"
  km_next :: entry
  \<comment> \<open>the identity the next entry gets\<close>
  km_pc :: "thread \<Rightarrow> 'k pc"

definition newKeyedMutex :: "'k keyedMutex" where
  "newKeyedMutex = \<lparr>km_locks = Map.empty, km_entries = (\<lambda>l. \<lparr>lock_held = False, lock_waiters = 0\<rparr>),
     km_next = 0, km_pc = (\<lambda>t. Idle)\<rparr>"

text \<open>\<open>Lock\<close> up to \<open>k.mu.Unlock()\<close>: find or create the entry and count the caller.\<close>

definition lock_enter :: "thread \<Rightarrow> 'k \<Rightarrow> 'k keyedMutex \<Rightarrow> 'k keyedMutex" where
  "lock_enter t key k = (case km_locks k key of
      Some l \<Rightarrow> k\<lparr>km_entries := (km_entries k)(l := (km_entries k l)
                    \<lparr>lock_waiters := lock_waiters (km_entries k l) + 1\<rparr>),
                  km_pc := (km_pc k)(t := Waiting key l)\<rparr>
    | None \<Rightarrow> (let l = km_next k in
        k\<lparr>km_locks := (km_locks k)(key \<mapsto> l),
          km_entries := (km_entries k)(l := \<lparr>lock_held = False, lock_waiters = 1\<rparr>),
          km_next := l + 1, km_pc := (km_pc k)(t := Waiting key l)\<rparr>))"

text \<open>\<open>l.mu.Lock()\<close>: possible when the entry is free.\<close>

definition lock_acquire :: "thread \<Rightarrow> 'k \<Rightarrow> entry \<Rightarrow> 'k keyedMutex \<Rightarrow> 'k keyedMutex" where
  "lock_acquire t key l k =
     k\<lparr>km_entries := (km_entries k)(l := (km_entries k l)\<lparr>lock_held := True\<rparr>),
       km_pc := (km_pc k)(t := Critical key l)\<rparr>"

text \<open>\<open>Unlock\<close> up to \<open>k.mu.Unlock()\<close>: uncount the caller, and drop the key when nobody is left.\<close>

definition unlock_enter :: "thread \<Rightarrow> 'k \<Rightarrow> 'k keyedMutex \<Rightarrow> 'k keyedMutex" where
  "unlock_enter t key k = (case km_locks k key of
      None \<Rightarrow> k\<lparr>km_pc := (km_pc k)(t := Panicked)\<rparr>
    | Some l \<Rightarrow>
        (let n = lock_waiters (km_entries k l) - 1 in
         k\<lparr>km_entries := (km_entries k)(l := (km_entries k l)\<lparr>lock_waiters := n\<rparr>),
           km_locks := (if n = 0 then (km_locks k)(key := None) else km_locks k),
           km_pc := (km_pc k)(t := Releasing l)\<rparr>))"

definition unlock_release :: "thread \<Rightarrow> entry \<Rightarrow> 'k keyedMutex \<Rightarrow> 'k keyedMutex" where
  "unlock_release t l k =
     k\<lparr>km_entries := (km_entries k)(l := (km_entries k l)\<lparr>lock_held := False\<rparr>),
       km_pc := (km_pc k)(t := Idle)\<rparr>"

inductive km_step :: "'k keyedMutex \<Rightarrow> 'k keyedMutex \<Rightarrow> bool" where
  enter: "km_pc k t = Idle \<Longrightarrow> km_step k (lock_enter t key k)"
| acquire: "km_pc k t = Waiting key l \<Longrightarrow> \<not> lock_held (km_entries k l) \<Longrightarrow> km_step k (lock_acquire t key l k)"
| leave: "km_pc k t = Critical key l \<Longrightarrow> km_step k (unlock_enter t key k)"
| release: "km_pc k t = Releasing l \<Longrightarrow> km_step k (unlock_release t l k)"

inductive km_reach :: "'k keyedMutex \<Rightarrow> bool" where
  start: "km_reach newKeyedMutex"
| step: "km_reach k \<Longrightarrow> km_step k k' \<Longrightarrow> km_reach k'"

inductive_cases km_stepE: "km_step k k'"

section \<open>The invariant\<close>

text \<open>The threads counted in an entry, and the threads that hold it.\<close>

fun counted :: "'k pc \<Rightarrow> entry \<Rightarrow> bool" where
  "counted (Waiting key l') l = (l' = l)"
| "counted (Critical key l') l = (l' = l)"
| "counted Idle l = False"
| "counted (Releasing l') l = False"
| "counted Panicked l = False"

definition users :: "'k keyedMutex \<Rightarrow> entry \<Rightarrow> thread set" where
  "users k l = {t. counted (km_pc k t) l}"

text \<open>The threads that wait for a key or work under it.\<close>

definition on_key :: "'k keyedMutex \<Rightarrow> 'k \<Rightarrow> thread set" where
  "on_key k key = {t. \<exists>l. km_pc k t = Waiting key l \<or> km_pc k t = Critical key l}"

definition holds :: "'k pc \<Rightarrow> entry \<Rightarrow> bool" where
  "holds p l \<longleftrightarrow> (\<exists>key. p = Critical key l) \<or> p = Releasing l"

definition km_ok :: "'k keyedMutex \<Rightarrow> bool" where
  "km_ok k \<longleftrightarrow>
     (\<forall>t key l. km_pc k t = Waiting key l \<or> km_pc k t = Critical key l \<longrightarrow> km_locks k key = Some l) \<and>
     (\<forall>key l. km_locks k key = Some l \<longrightarrow> finite (users k l) \<and> users k l \<noteq> {} \<and>
        lock_waiters (km_entries k l) = int (card (users k l)) \<and> l < km_next k) \<and>
     (\<forall>key key' l. km_locks k key = Some l \<and> km_locks k key' = Some l \<longrightarrow> key = key') \<and>
     (\<forall>t l. holds (km_pc k t) l \<longrightarrow> lock_held (km_entries k l) \<and> l < km_next k) \<and>
     (\<forall>l. lock_held (km_entries k l) \<longrightarrow> (\<exists>t. holds (km_pc k t) l)) \<and>
     (\<forall>t t' l. holds (km_pc k t) l \<and> holds (km_pc k t') l \<longrightarrow> t = t') \<and>
     (\<forall>t. km_pc k t \<noteq> Panicked)"

lemma km_okD:
  assumes "km_ok k"
  shows "km_pc k t = Waiting key l \<Longrightarrow> km_locks k key = Some l"
    and "km_pc k t = Critical key l \<Longrightarrow> km_locks k key = Some l"
    and "km_locks k key = Some l \<Longrightarrow> finite (users k l)"
    and "km_locks k key = Some l \<Longrightarrow> users k l \<noteq> {}"
    and "km_locks k key = Some l \<Longrightarrow> lock_waiters (km_entries k l) = int (card (users k l))"
    and "km_locks k key = Some l \<Longrightarrow> l < km_next k"
    and "km_locks k key = Some l \<Longrightarrow> km_locks k key' = Some l \<Longrightarrow> key = key'"
    and "holds (km_pc k t) l \<Longrightarrow> lock_held (km_entries k l)"
    and "holds (km_pc k t) l \<Longrightarrow> l < km_next k"
    and "lock_held (km_entries k l) \<Longrightarrow> \<exists>t. holds (km_pc k t) l"
    and "holds (km_pc k t) l \<Longrightarrow> holds (km_pc k t') l \<Longrightarrow> t = t'"
    and "km_pc k t \<noteq> Panicked"
  using assms unfolding km_ok_def by blast+

lemma holds_simps [simp]:
  "holds Idle l = False" "holds (Waiting key l') l = False"
  "holds (Critical key l') l = (l' = l)" "holds (Releasing l') l = (l' = l)" "holds Panicked l = False"
  by (auto simp: holds_def)

lemma km_ok_new: "km_ok newKeyedMutex"
  by (simp add: km_ok_def newKeyedMutex_def users_def)

section \<open>Every step keeps it\<close>

lemma users_upd:
  "km_pc k' = (km_pc k)(t := p) \<Longrightarrow>
     users k' l = (if counted p l then insert t (users k l) else users k l - {t})"
  by (auto simp: users_def)

lemma counted_mapped: "km_ok k \<Longrightarrow> counted (km_pc k t) l \<Longrightarrow> \<exists>key. km_locks k key = Some l"
  using km_okD(1,2) by (cases "km_pc k t") fastforce+

lemma fresh_entry:
  assumes ok: "km_ok k"
  shows "users k (km_next k) = {}" and "\<not> holds (km_pc k t) (km_next k)"
    and "km_locks k key \<noteq> Some (km_next k)" and "\<not> lock_held (km_entries k (km_next k))"
proof -
  have unmapped: "km_locks k key \<noteq> Some (km_next k)" for key using km_okD(6) [OF ok, of key "km_next k"] by blast
  then show "users k (km_next k) = {}" using counted_mapped [OF ok] by (auto simp: users_def)
  have free: "\<not> holds (km_pc k t) (km_next k)" for t using km_okD(9) [OF ok, of t "km_next k"] by blast
  then show "\<not> holds (km_pc k t) (km_next k)" .
  show "km_locks k key \<noteq> Some (km_next k)" by (rule unmapped)
  show "\<not> lock_held (km_entries k (km_next k))" using km_okD(10) [OF ok, of "km_next k"] free by blast
qed

lemma km_ok_enter:
  assumes ok: "km_ok k" and idle: "km_pc k t = Idle"
  shows "km_ok (lock_enter t key k)"
proof (cases "km_locks k key")
  case None
  let ?l = "km_next k" and ?k = "lock_enter t key k"
  have pc: "km_pc ?k = (km_pc k)(t := Waiting key ?l)" using None by (simp add: lock_enter_def Let_def)
  have locks: "km_locks ?k = (km_locks k)(key \<mapsto> ?l)" using None by (simp add: lock_enter_def Let_def)
  have ent: "km_entries ?k = (km_entries k)(?l := \<lparr>lock_held = False, lock_waiters = 1\<rparr>)"
    and nxt: "km_next ?k = ?l + 1" using None by (simp_all add: lock_enter_def Let_def)
  have us: "users ?k l = (if l = ?l then {t} else users k l)" for l
    unfolding users_upd [OF pc] using fresh_entry(1) [OF ok] idle by (auto simp: users_def)
  show ?thesis
    unfolding km_ok_def pc locks ent nxt us
  proof (intro conjI allI impI, goal_cases)
    case (1 t' key' l)
    then show ?case using km_okD(1,2) [OF ok, of t'] None by (auto split: if_splits)
  next
    case (2 key' l)
    then show ?case using km_okD(3) [OF ok, of key' l] by (auto split: if_splits)
  next
    case (3 key' l)
    then show ?case using km_okD(4) [OF ok, of key' l] by (auto split: if_splits)
  next
    case (4 key' l)
    then show ?case using km_okD(5) [OF ok, of key' l] fresh_entry(3) [OF ok, of key'] by (auto split: if_splits)
  next
    case (5 key' l)
    then show ?case using km_okD(6) [OF ok, of key' l] by (auto split: if_splits)
  next
    case (6 key' key'' l)
    then show ?case using km_okD(7) [OF ok, of key' l key''] fresh_entry(3) [OF ok] by (auto split: if_splits)
  next
    case (7 t' l)
    then show ?case using km_okD(8) [OF ok, of t' l] fresh_entry(2) [OF ok, of t'] by (auto split: if_splits)
  next
    case (8 t' l)
    then show ?case using km_okD(9) [OF ok, of t' l] by (auto split: if_splits)
  next
    case (9 l)
    then have "lock_held (km_entries k l)" by (simp split: if_splits)
    from km_okD(10) [OF ok this] obtain t' where "holds (km_pc k t') l" by blast
    with idle show ?case by (intro exI [of _ t']) auto
  next
    case (10 t' t'' l)
    then show ?case using km_okD(11) [OF ok, of t' l t''] by (auto split: if_splits)
  next
    case (11 t')
    then show ?case using km_okD(12) [OF ok, of t'] by simp
  qed
next
  case (Some l0)
  let ?k = "lock_enter t key k"
  have pc: "km_pc ?k = (km_pc k)(t := Waiting key l0)" using Some by (simp add: lock_enter_def)
  have locks: "km_locks ?k = km_locks k" and nxt: "km_next ?k = km_next k"
    and ent: "km_entries ?k = (km_entries k)(l0 := (km_entries k l0)
      \<lparr>lock_waiters := lock_waiters (km_entries k l0) + 1\<rparr>)"
    using Some by (simp_all add: lock_enter_def)
  have us: "users ?k l = (if l = l0 then insert t (users k l) else users k l)" for l
    unfolding users_upd [OF pc] using idle by (auto simp: users_def)
  have nin: "t \<notin> users k l0" using idle by (simp add: users_def)
  show ?thesis
    unfolding km_ok_def pc locks ent nxt us
  proof (intro conjI allI impI, goal_cases)
    case (1 t' key' l)
    then show ?case using km_okD(1,2) [OF ok, of t'] Some by (auto split: if_splits)
  next
    case (2 key' l)
    then show ?case using km_okD(3) [OF ok, of key' l] by auto
  next
    case (3 key' l)
    then show ?case using km_okD(4) [OF ok, of key' l] by auto
  next
    case (4 key' l)
    then show ?case using km_okD(3,5) [OF ok, of key' l] nin by (auto simp: card_insert_if)
  next
    case (5 key' l)
    then show ?case by (rule km_okD(6) [OF ok])
  next
    case (6 key' key'' l)
    then show ?case using km_okD(7) [OF ok, of key' l key''] by blast
  next
    case (7 t' l)
    then show ?case using km_okD(8) [OF ok, of t' l] by (auto split: if_splits)
  next
    case (8 t' l)
    then show ?case using km_okD(9) [OF ok, of t' l] by (auto split: if_splits)
  next
    case (9 l)
    then have "lock_held (km_entries k l)" by (simp split: if_splits)
    from km_okD(10) [OF ok this] obtain t' where "holds (km_pc k t') l" by blast
    with idle show ?case by (intro exI [of _ t']) auto
  next
    case (10 t' t'' l)
    then show ?case using km_okD(11) [OF ok, of t' l t''] by (auto split: if_splits)
  next
    case (11 t')
    then show ?case using km_okD(12) [OF ok, of t'] by simp
  qed
qed

lemma km_ok_acquire:
  assumes ok: "km_ok k" and wait: "km_pc k t = Waiting key l0" and free: "\<not> lock_held (km_entries k l0)"
  shows "km_ok (lock_acquire t key l0 k)"
proof -
  let ?k = "lock_acquire t key l0 k"
  have pc: "km_pc ?k = (km_pc k)(t := Critical key l0)" and locks: "km_locks ?k = km_locks k"
    and nxt: "km_next ?k = km_next k"
    and ent: "km_entries ?k = (km_entries k)(l0 := (km_entries k l0)\<lparr>lock_held := True\<rparr>)"
    by (simp_all add: lock_acquire_def)
  have us: "users ?k l = users k l" for l
    unfolding users_upd [OF pc] using wait by (auto simp: users_def)
  have nobody: "\<not> holds (km_pc k t') l0" for t' using km_okD(8) [OF ok] free by blast
  show ?thesis
    unfolding km_ok_def pc locks ent nxt us
  proof (intro conjI allI impI, goal_cases)
    case (1 t' key' l)
    then show ?case using km_okD(1) [OF ok wait] km_okD(1,2) [OF ok, of t'] by (auto split: if_splits)
  next
    case (2 key' l)
    then show ?case using km_okD(3) [OF ok, of key' l] by simp
  next
    case (3 key' l)
    then show ?case using km_okD(4) [OF ok, of key' l] by simp
  next
    case (4 key' l)
    then show ?case using km_okD(5) [OF ok, of key' l] by auto
  next
    case (5 key' l)
    then show ?case using km_okD(6) [OF ok, of key' l] by simp
  next
    case (6 key' key'' l)
    then show ?case using km_okD(7) [OF ok, of key' l key''] by blast
  next
    case (7 t' l)
    then show ?case using km_okD(8) [OF ok, of t' l] by (auto split: if_splits)
  next
    case (8 t' l)
    then show ?case using km_okD(9) [OF ok, of t' l] km_okD(6) [OF ok km_okD(1) [OF ok wait]]
      by (auto split: if_splits)
  next
    case (9 l)
    show ?case
    proof (cases "l = l0")
      case False
      with 9 have "lock_held (km_entries k l)" by simp
      from km_okD(10) [OF ok this] obtain t' where "holds (km_pc k t') l" by blast
      with wait show ?thesis by (intro exI [of _ t']) auto
    qed (auto intro: exI [of _ t])
  next
    case (10 t' t'' l)
    then show ?case using km_okD(11) [OF ok, of t' l t''] nobody by (auto split: if_splits)
  next
    case (11 t')
    then show ?case using km_okD(12) [OF ok, of t'] by simp
  qed
qed

lemma km_ok_leave:
  assumes ok: "km_ok k" and crit: "km_pc k t = Critical key l0"
  shows "km_ok (unlock_enter t key k)"
proof -
  let ?k = "unlock_enter t key k" and ?n = "lock_waiters (km_entries k l0) - 1"
  have m: "km_locks k key = Some l0" using km_okD(2) [OF ok crit] .
  have pc: "km_pc ?k = (km_pc k)(t := Releasing l0)" and nxt: "km_next ?k = km_next k"
    and locks: "km_locks ?k = (if ?n = 0 then (km_locks k)(key := None) else km_locks k)"
    and ent: "km_entries ?k = (km_entries k)(l0 := (km_entries k l0)\<lparr>lock_waiters := ?n\<rparr>)"
    using m by (simp_all add: unlock_enter_def Let_def)
  have tin: "t \<in> users k l0" using crit by (simp add: users_def)
  have us: "users ?k l = (if l = l0 then users k l - {t} else users k l)" for l
    unfolding users_upd [OF pc] using crit by (auto simp: users_def)
  have fin: "finite (users k l0)" using km_okD(3) [OF ok m] .
  have n: "?n = int (card (users k l0 - {t}))"
    using km_okD(5) [OF ok m] fin tin card_gt_0_iff [of "users k l0"] by (auto simp: card_Diff_singleton of_nat_diff Suc_leI)
  then have last: "?n = 0 \<longleftrightarrow> users k l0 - {t} = {}" using fin by simp
  have others: "km_locks k key' = Some l0 \<Longrightarrow> key' = key" for key' using km_okD(7) [OF ok _ m] .
  have stay: "km_pc k t' = Waiting key l \<or> km_pc k t' = Critical key l \<Longrightarrow> t' \<noteq> t \<Longrightarrow> ?n \<noteq> 0" for t' l
  proof -
    assume a: "km_pc k t' = Waiting key l \<or> km_pc k t' = Critical key l" "t' \<noteq> t"
    then have "l = l0" using km_okD(1,2) [OF ok] m by fastforce
    with a have "t' \<in> users k l0 - {t}" by (auto simp: users_def)
    with last show "?n \<noteq> 0" by blast
  qed
  show ?thesis
    unfolding km_ok_def pc nxt us
  proof (intro conjI allI impI, goal_cases)
    case (1 t' key' l)
    then show ?case using km_okD(1,2) [OF ok] stay by (fastforce simp: locks split: if_splits)
  next
    case (2 key' l)
    then show ?case using km_okD(3) [OF ok] by (auto simp: locks split: if_splits)
  next
    case (3 key' l)
    then show ?case using km_okD(4) [OF ok] last others by (auto simp: locks split: if_splits)
  next
    case (4 key' l)
    then show ?case using km_okD(5) [OF ok] n by (auto simp: locks ent split: if_splits)
  next
    case (5 key' l)
    then show ?case using km_okD(6) [OF ok] by (auto simp: locks split: if_splits)
  next
    case (6 key' key'' l)
    then show ?case using km_okD(7) [OF ok] by (auto simp: locks split: if_splits)
  next
    case (7 t' l)
    then show ?case using km_okD(8) [OF ok, of t' l] km_okD(8) [OF ok, of t l] crit
      by (auto simp: ent split: if_splits)
  next
    case (8 t' l)
    then show ?case using km_okD(9) [OF ok, of t' l] km_okD(9) [OF ok, of t l] crit
      by (auto split: if_splits)
  next
    case (9 l)
    then have "lock_held (km_entries k l)" by (simp add: ent split: if_splits)
    from km_okD(10) [OF ok this] obtain t' where "holds (km_pc k t') l" by blast
    then show ?case using crit by (intro exI [of _ t']) auto
  next
    case (10 t' t'' l)
    then show ?case using km_okD(11) [OF ok, of t' l t''] km_okD(11) [OF ok, of t l] crit
      by (auto split: if_splits)
  next
    case (11 t')
    then show ?case using km_okD(12) [OF ok] by simp
  qed
qed

lemma km_ok_release:
  assumes ok: "km_ok k" and rel: "km_pc k t = Releasing l0"
  shows "km_ok (unlock_release t l0 k)"
proof -
  let ?k = "unlock_release t l0 k"
  have pc: "km_pc ?k = (km_pc k)(t := Idle)" and locks: "km_locks ?k = km_locks k"
    and nxt: "km_next ?k = km_next k"
    and ent: "km_entries ?k = (km_entries k)(l0 := (km_entries k l0)\<lparr>lock_held := False\<rparr>)"
    by (simp_all add: unlock_release_def)
  have us: "users ?k l = users k l" for l
    unfolding users_upd [OF pc] using rel by (auto simp: users_def)
  have only: "holds (km_pc k t') l0 \<Longrightarrow> t' = t" for t' using km_okD(11) [OF ok, of t' l0 t] rel by simp
  have still: "lock_held (km_entries ?k l) \<Longrightarrow> \<exists>t'. holds (km_pc ?k t') l" for l
  proof -
    assume "lock_held (km_entries ?k l)"
    then have l: "l \<noteq> l0" "lock_held (km_entries k l)" by (auto simp: ent split: if_splits)
    from km_okD(10) [OF ok l(2)] obtain t' where "holds (km_pc k t') l" by blast
    with l(1) rel show "\<exists>t'. holds (km_pc ?k t') l" by (intro exI [of _ t']) (auto simp: pc)
  qed
  show ?thesis
    using still unfolding km_ok_def pc locks ent nxt us
    using km_okD(1-9,11,12) [OF ok] only
    by (intro conjI allI impI; fastforce split: if_splits)
qed

lemma km_ok_step: "km_step k k' \<Longrightarrow> km_ok k \<Longrightarrow> km_ok k'"
  by (elim km_stepE) (auto intro: km_ok_enter km_ok_acquire km_ok_leave km_ok_release)

lemma km_reach_ok: "km_reach k \<Longrightarrow> km_ok k"
  by (induction rule: km_reach.induct) (auto intro: km_ok_new km_ok_step)

section \<open>What the lock guarantees\<close>

lemma km_exclusive:
  assumes "km_reach k" and "km_pc k t = Critical key l" and "km_pc k t' = Critical key l'"
  shows "t = t'"
proof -
  note ok = km_reach_ok [OF assms(1)]
  from km_okD(2) [OF ok assms(2)] km_okD(2) [OF ok assms(3)] have "l = l'" by simp
  with assms show ?thesis using km_okD(11) [OF ok, of t l t'] by simp
qed

text \<open>A key nobody waits for or works under has no entry.\<close>

lemma km_idle_dropped:
  assumes "km_reach k" and "\<And>t l. km_pc k t \<noteq> Waiting key l" and "\<And>t l. km_pc k t \<noteq> Critical key l"
  shows "km_locks k key = None"
proof (rule ccontr)
  assume "km_locks k key \<noteq> None"
  then obtain l where l: "km_locks k key = Some l" by blast
  note ok = km_reach_ok [OF assms(1)]
  from km_okD(4) [OF ok l] obtain t where "counted (km_pc k t) l" by (auto simp: users_def)
  then obtain key' where k': "km_pc k t = Waiting key' l \<or> km_pc k t = Critical key' l"
    by (cases "km_pc k t") auto
  then have "km_locks k key' = Some l" using km_okD(1,2) [OF ok] by blast
  with km_okD(7) [OF ok l] have "key' = key" by blast
  with k' assms(2,3) show False by blast
qed

text \<open>
  A waiting thread either can take the lock, or the lock is held by a thread that has a step of
  its own to take; so the relation never deadlocks.
\<close>

lemma km_progress:
  assumes "km_reach k" and "km_pc k t = Waiting key l"
  shows "\<not> lock_held (km_entries k l) \<or>
     (\<exists>t'. t' \<noteq> t \<and> (km_pc k t' = Critical key l \<or> km_pc k t' = Releasing l))"
proof (cases "lock_held (km_entries k l)")
  case True
  note ok = km_reach_ok [OF assms(1)]
  from km_okD(10) [OF ok True] obtain t' where h: "holds (km_pc k t') l" by blast
  then consider key' where "km_pc k t' = Critical key' l" | "km_pc k t' = Releasing l"
    by (auto simp: holds_def)
  then show ?thesis
  proof cases
    case 1
    from km_okD(7) [OF ok km_okD(2) [OF ok 1] km_okD(1) [OF ok assms(2)]] have "key' = key" .
    with 1 assms(2) show ?thesis by (intro disjI2 exI [of _ t']) auto
  next
    case 2
    with assms(2) show ?thesis by (intro disjI2 exI [of _ t']) auto
  qed
qed simp

lemma km_reach_steps: "km_step\<^sup>*\<^sup>* k k' \<Longrightarrow> km_reach k \<Longrightarrow> km_reach k'"
  by (induction rule: rtranclp_induct) (auto intro: km_reach.step)

lemma counted_on: "counted p l \<longleftrightarrow> (\<exists>key. p = Waiting key l \<or> p = Critical key l)"
  by (cases p) auto

lemma users_of_key:
  assumes ok: "km_ok k" and l: "km_locks k key = Some l"
  shows "users k l = on_key k key"
proof (intro set_eqI iffI)
  fix t assume "t \<in> users k l"
  then obtain key' where "km_pc k t = Waiting key' l \<or> km_pc k t = Critical key' l"
    by (auto simp: users_def counted_on)
  moreover from this have "key' = key" using km_okD(1,2) [OF ok] km_okD(7) [OF ok _ l] by blast
  ultimately show "t \<in> on_key k key" by (auto simp: on_key_def)
next
  fix t assume "t \<in> on_key k key"
  then obtain l' where l': "km_pc k t = Waiting key l' \<or> km_pc k t = Critical key l'"
    by (auto simp: on_key_def)
  then have "km_locks k key = Some l'" using km_okD(1,2) [OF ok] by blast
  with l l' show "t \<in> users k l" by (auto simp: users_def)
qed

lemma acquire_free:
  assumes "km_pc k t = Waiting key l" and "\<not> lock_held (km_entries k l)"
  shows "km_step k (lock_acquire t key l k) \<and> km_pc (lock_acquire t key l k) t = Critical key l"
  using km_step.acquire [OF assms] by (simp add: lock_acquire_def)

lemma release_then_acquire:
  assumes "km_pc k t = Waiting key l" and "km_pc k t' = Releasing l"
  shows "\<exists>k'. km_step\<^sup>*\<^sup>* k k' \<and> km_pc k' t = Critical key l"
proof -
  let ?k = "unlock_release t' l k"
  have "km_pc ?k t = Waiting key l" "\<not> lock_held (km_entries ?k l)"
    using assms by (auto simp: unlock_release_def)
  from acquire_free [OF this] km_step.release [OF assms(2)] show ?thesis
    by (blast intro: converse_rtranclp_into_rtranclp)
qed

lemma leave_then_acquire:
  assumes reach: "km_reach k" and wait: "km_pc k t = Waiting key l" and crit: "km_pc k t' = Critical key l"
  shows "\<exists>k'. km_step\<^sup>*\<^sup>* k k' \<and> km_pc k' t = Critical key l"
proof -
  let ?k = "unlock_enter t' key k"
  have "km_locks k key = Some l" using km_okD(2) [OF km_reach_ok [OF reach] crit] .
  then have "km_pc ?k t = Waiting key l" "km_pc ?k t' = Releasing l"
    using wait crit by (auto simp: unlock_enter_def Let_def)
  from release_then_acquire [OF this] km_step.leave [OF crit] show ?thesis
    by (blast intro: converse_rtranclp_into_rtranclp)
qed

text \<open>Two threads on one key: the first is in its critical section, the second waits.\<close>

lemma two_threads:
  "\<exists>k. km_reach k \<and> km_pc k 0 = Critical ''ref'' 0 \<and> km_pc k 1 = Waiting ''ref'' 0"
proof -
  let ?k1 = "lock_enter 0 ''ref'' newKeyedMutex" and ?k2 = "lock_acquire 0 ''ref'' 0 (lock_enter 0 ''ref'' newKeyedMutex)"
  have "km_reach ?k1"
    by (rule km_reach.step [OF km_reach.start], rule km_step.enter) (simp add: newKeyedMutex_def)
  then have "km_reach ?k2"
    by (rule km_reach.step) (rule km_step.acquire, auto simp: lock_enter_def newKeyedMutex_def Let_def)
  then have "km_reach (lock_enter 1 ''ref'' ?k2)"
    by (rule km_reach.step, intro km_step.enter)
      (simp add: lock_enter_def lock_acquire_def newKeyedMutex_def Let_def)
  then show ?thesis
    by (intro exI [of _ "lock_enter 1 ''ref'' ?k2"])
      (auto simp: lock_enter_def lock_acquire_def newKeyedMutex_def Let_def)
qed

text \<open>
  C29 In every interleaving of calls of \<open>Lock\<close> and \<open>Unlock\<close>, two threads that are inside their
  critical sections for the same key are the same thread. This is what makes the read, check and
  write of one PUT atomic for its ref.
\<close>

theorem lock_excludes:
  "km_reach k \<Longrightarrow> km_pc k t = Critical key l \<Longrightarrow> km_pc k t' = Critical key l' \<Longrightarrow> t = t'"
  by (rule km_exclusive)

theorem lock_excludes_witness:
  "\<exists>k. km_reach k \<and> km_pc k 0 = Critical ''ref'' 0 \<and> (\<forall>l. km_pc k 1 \<noteq> Critical ''ref'' l)"
proof -
  from two_threads obtain k where k: "km_reach k" "km_pc k 0 = Critical ''ref'' 0" by blast
  have "km_pc k 1 \<noteq> Critical ''ref'' l" for l using lock_excludes [OF k, of 1 l] by auto
  with k show ?thesis by blast
qed

text \<open>
  The table of locks is exact in every reachable state, and \<open>Unlock\<close> never panics: a key has an
  entry exactly when some thread waits for it or works under it (idle keys are dropped), and the
  entry's counter is the number of those threads.
\<close>

theorem lock_table_exact:
  assumes "km_reach k"
  shows "km_pc k t \<noteq> Panicked \<and>
    (case km_locks k key of None \<Rightarrow> on_key k key = {}
     | Some l \<Rightarrow> on_key k key \<noteq> {} \<and> lock_waiters (km_entries k l) = int (card (on_key k key)))"
proof -
  note ok = km_reach_ok [OF assms]
  have "km_locks k key = None \<Longrightarrow> on_key k key = {}"
    using km_okD(1,2) [OF ok] by (fastforce simp: on_key_def)
  moreover have "on_key k key \<noteq> {}" "lock_waiters (km_entries k l) = int (card (on_key k key))"
    if "km_locks k key = Some l" for l
    using km_okD(4,5) [OF ok that] users_of_key [OF ok that] by auto
  ultimately show ?thesis using km_okD(12) [OF ok] by (simp split: option.split)
qed

theorem lock_table_exact_witness:
  "\<exists>k. km_reach k \<and> km_locks k ''ref'' \<noteq> None \<and> {0, 1} \<subseteq> on_key k ''ref''"
proof -
  from two_threads obtain k
    where k: "km_reach k" "km_pc k 0 = Critical ''ref'' 0" "km_pc k 1 = Waiting ''ref'' 0" by blast
  then have "{0, 1} \<subseteq> on_key k ''ref''" by (auto simp: on_key_def)
  with lock_table_exact [OF k(1), of 0 "''ref''"] k(1) show ?thesis
    by (intro exI [of _ k]) (auto split: option.splits)
qed

text \<open>
  No thread that waits for a key is ever stuck: from every reachable state there is a
  continuation in which it enters its critical section.
\<close>

theorem lock_obtainable:
  assumes reach: "km_reach k" and wait: "km_pc k t = Waiting key l"
  shows "\<exists>k'. km_step\<^sup>*\<^sup>* k k' \<and> km_reach k' \<and> km_pc k' t = Critical key l"
proof -
  have "\<exists>k'. km_step\<^sup>*\<^sup>* k k' \<and> km_pc k' t = Critical key l"
    using km_progress [OF reach wait] acquire_free [OF wait]
      release_then_acquire [OF wait] leave_then_acquire [OF reach wait] by blast
  then show ?thesis using km_reach_steps reach by blast
qed

theorem lock_obtainable_witness:
  "\<exists>k k'. km_pc k 0 = Critical ''ref'' 0 \<and> km_step\<^sup>*\<^sup>* k k' \<and> km_pc k' 1 = Critical ''ref'' 0"
proof -
  from two_threads obtain k where k: "km_reach k" "km_pc k 0 = Critical ''ref'' 0" "km_pc k 1 = Waiting ''ref'' 0"
    by blast
  from lock_obtainable [OF k(1,3)] k(2) show ?thesis by blast
qed

end
