(* ===== verification/Serving_Interleaved.thy ===== *)
theory Serving_Interleaved
  imports Serving_Writes Serving_Keyedmutex
begin

text \<open>
  Handlers that run at the same time. \<open>handlePutObject\<close> and \<open>handleGetObject\<close> are cut at every point
  where they touch what they share with other requests: the disk, the index, the virtual-host
  table and the lock of the reference, whose \<open>Lock\<close> and \<open>Unlock\<close> are the steps of \<open>Serving_Keyedmutex\<close>.
  A state has one thread for each request of a server; a step is one piece of one thread, and
  any thread that is not blocked may take the next one. Every other handler is one step.
\<close>

section \<open>Threads\<close>

text \<open>
  What a \<open>PUT\<close> carries once its checks have passed: its request, and the values that the checks
  computed. Each request sees the outside world in its own way.
\<close>

record put_job =
  job_world :: world
  job_request :: request
  job_item :: Item
  job_realms :: InField
  job_canonical :: bytes
  job_ts :: instant

definition job_ref :: "put_job \<Rightarrow> ref" where
  "job_ref j = req_ref (job_request j)"

datatype hub_task =
    Put_Arrived world request
  | Put_Checked put_job
    \<comment> \<open>at \<open>h.writeLocks.Lock(ref)\<close>\<close>
  | Put_Waiting put_job entry
    \<comment> \<open>at \<open>l.mu.Lock()\<close>\<close>
  | Put_Locked put_job entry
    \<comment> \<open>at \<open>h.index.GetMeta(ref)\<close>\<close>
  | Put_Cleared put_job entry "ObjectMeta option"
    \<comment> \<open>at \<open>h.store.Backup\<close>\<close>
  | Put_Backed put_job entry "ObjectMeta option"
    \<comment> \<open>at \<open>h.store.Write\<close>\<close>
  | Put_Written put_job entry "ObjectMeta option"
    \<comment> \<open>at \<open>h.index.Update\<close>\<close>
  | Put_Indexed put_job entry "ObjectMeta option"
    \<comment> \<open>at \<open>h.Vhost.AddPage\<close>\<close>
  | Put_Leaving put_job entry response
    \<comment> \<open>at \<open>h.writeLocks.Unlock(ref)\<close>\<close>
  | Put_Releasing put_job entry response
    \<comment> \<open>at \<open>l.mu.Unlock()\<close>\<close>
  | Put_Answered put_job response
  | Get_Arrived world request
  | Get_Denied world request
    \<comment> \<open>the caller may not read what the index said\<close>
  | Get_Allowed world request response
    \<comment> \<open>at \<open>h.store.Read\<close>, with the headers set so far\<close>
  | Get_Loaded world request response bytes
    \<comment> \<open>at \<open>h.serveObject\<close>\<close>
  | Other_Arrived world hub_route request
  | Answered request response

record hub_threads =
  th_hub :: hub
  th_auth :: AuthStore
  th_mutex :: "ref keyedMutex"
  th_tasks :: "hub_task list"

section \<open>Steps\<close>

text \<open>The answer to a write that was stored.\<close>

definition put_answer :: "put_job \<Rightarrow> ObjectMeta option \<Rightarrow> response" where
  "put_answer j existing = write_body (job_canonical j)
     (with_status (if existing \<noteq> None then 200 else 201)
       (set_header ''ETag'' (revisionETag (item_Revision (job_item j))) initial_response))"

text \<open>\<open>handlePutObject\<close> up to the lock.\<close>

definition put_arrive :: "world \<Rightarrow> request \<Rightarrow> hub \<Rightarrow> hub_task" where
  "put_arrive w r h =
     (let ref = req_ref r in
      if \<not> IsValidRef ref then Answered r (writeError w r 404 ''object not found'' ''NOT_FOUND'')
      else (case req_body r of
          None \<Rightarrow> Answered r (writeError w r 400 ''failed to read body'' ''INVALID_OBJECT'')
        | Some body \<Rightarrow>
            if int (length body) > maxBodySize
            then Answered r (writeError w r 413 ''body too large (max 10MB)'' ''INVALID_OBJECT'')
            else (case put_checks w r ref body (hub_index h) of
                Inl resp \<Rightarrow> Answered r resp
              | Inr (it, realms, canonical, ts) \<Rightarrow> Put_Checked \<lparr>job_world = w, job_request = r,
                  job_item = it, job_realms = realms, job_canonical = canonical, job_ts = ts\<rparr>)))"

text \<open>The condition of the write, on what the index has now.\<close>

definition put_condition :: "put_job \<Rightarrow> entry \<Rightarrow> hub \<Rightarrow> hub_task" where
  "put_condition j l h =
     (let existing = GetMeta (hub_index h) (job_ref j) in
      case checkConditionalWrite (job_world j) (job_request j) (req_header (job_request j) ''If-Match'')
             existing (item_Revision (job_item j)) of
        Some resp \<Rightarrow> Put_Leaving j l resp
      | None \<Rightarrow> Put_Cleared j l existing)"

text \<open>\<open>handleGetObject\<close> up to its first read of the disk.\<close>

definition get_arrive :: "world \<Rightarrow> request \<Rightarrow> hub \<Rightarrow> hub_task" where
  "get_arrive w r h =
     (let ref = req_ref r in
      if \<not> IsValidRef ref then Answered r (writeError w r 404 ''object not found'' ''NOT_FOUND'')
      else (case GetMeta (hub_index h) ref of
          None \<Rightarrow> Get_Allowed w r initial_response
        | Some m \<Rightarrow>
            if \<not> meta_IsPublic m \<and> \<not> CanRead (meta_Realms m) (req_auth r) (Resolver (hub_index h))
            then Get_Denied w r
            else (case indexedNonHTMLValidator r m of
                Some etag \<Rightarrow>
                  (let resp = set_header ''ETag'' etag (set_header ''Vary'' ''Accept'' initial_response)
                   in if not_modified r etag then Answered r (with_status 304 resp)
                      else Get_Allowed w r resp)
              | None \<Rightarrow> Get_Allowed w r initial_response)))"

definition get_load :: "world \<Rightarrow> request \<Rightarrow> response \<Rightarrow> hub \<Rightarrow> hub_task" where
  "get_load w r resp h = (case hub_read w h (req_ref r) of
      Inl e \<Rightarrow> Answered r (WriteProblem w r 500 ''internal error'' ''INTERNAL'' resp)
    | Inr None \<Rightarrow> Answered r (WriteProblem w r 404 ''object not found'' ''NOT_FOUND'' resp)
    | Inr (Some data) \<Rightarrow> Get_Loaded w r resp data)"

text \<open>The next step of a thread: \<open>None\<close> when it is blocked or has answered.\<close>

fun task_step ::
  "thread \<Rightarrow> hub_task \<Rightarrow> hub \<times> AuthStore \<times> ref keyedMutex \<Rightarrow> (hub_task \<times> hub \<times> AuthStore \<times> ref keyedMutex) option"
where
  "task_step t (Put_Arrived w r) (h, a, k) = Some (put_arrive w r h, h, a, k)"
| "task_step t (Put_Checked j) (h, a, k) =
     (let k' = lock_enter t (job_ref j) k in case km_pc k' t of
        Waiting key l \<Rightarrow> Some (Put_Waiting j l, h, a, k')
      | _ \<Rightarrow> None)"
| "task_step t (Put_Waiting j l) (h, a, k) =
     (if lock_held (km_entries k l) then None
      else Some (Put_Locked j l, h, a, lock_acquire t (job_ref j) l k))"
| "task_step t (Put_Locked j l) (h, a, k) = Some (put_condition j l h, h, a, k)"
| "task_step t (Put_Cleared j l existing) (h, a, k) =
     Some (Put_Backed j l existing, h\<lparr>hub_disk := (case existing of
         Some m \<Rightarrow> snd (Backup (job_world j) (hub_store h) (job_ref j) (meta_Revision m) (hub_disk h))
       | None \<Rightarrow> hub_disk h)\<rparr>, a, k)"
| "task_step t (Put_Backed j l existing) (h, a, k) =
     (case Write (job_world j) (hub_store h) (job_ref j) (job_canonical j) (job_ts j) (hub_disk h) of
        (Some e, d) \<Rightarrow> Some (Put_Leaving j l
            (writeError (job_world j) (job_request j) 500 ''internal error'' ''INTERNAL''), h\<lparr>hub_disk := d\<rparr>, a, k)
      | (None, d) \<Rightarrow> Some (Put_Written j l existing, h\<lparr>hub_disk := d\<rparr>, a, k))"
| "task_step t (Put_Written j l existing) (h, a, k) =
     Some (Put_Indexed j l existing, h\<lparr>hub_index :=
       idx_Update (job_ref j) (job_item j) (job_ts j) [job_realms j] (hub_index h)\<rparr>, a, k)"
| "task_step t (Put_Indexed j l existing) (h, a, k) =
     Some (Put_Leaving j l (put_answer j existing), h\<lparr>hub_vhost :=
       (if item_Type (job_item j) = ''PAGE'' then map_option (AddPage (job_ref j)) (hub_vhost h)
        else hub_vhost h)\<rparr>, a, k)"
| "task_step t (Put_Leaving j l resp) (h, a, k) =
     (let k' = unlock_enter t (job_ref j) k in
      if km_pc k' t = Panicked then None else Some (Put_Releasing j l resp, h, a, k'))"
| "task_step t (Put_Releasing j l resp) (h, a, k) = Some (Put_Answered j resp, h, a, unlock_release t l k)"
| "task_step t (Put_Answered j resp) s = None"
| "task_step t (Get_Arrived w r) (h, a, k) = Some (get_arrive w r h, h, a, k)"
| "task_step t (Get_Denied w r) (h, a, k) =
     (case deny_object w r h (req_ref r) of (resp, h) \<Rightarrow> Some (Answered r resp, h, a, k))"
| "task_step t (Get_Allowed w r resp) (h, a, k) = Some (get_load w r resp h, h, a, k)"
| "task_step t (Get_Loaded w r resp data) (h, a, k) =
     (case serveObject w r h (req_ref r) data resp of (resp, h) \<Rightarrow> Some (Answered r resp, h, a, k))"
| "task_step t (Other_Arrived w route r) (h, a, k) =
     (case hub_handler w route r (h, a) of (resp, h, a) \<Rightarrow> Some (Answered r resp, h, a, k))"
| "task_step t (Answered r resp) s = None"

text \<open>The tasks of requests as they arrive.\<close>

definition arrival :: "hub_event \<Rightarrow> hub_task" where
  "arrival e = (case e of (w, route, r) \<Rightarrow>
     if route = Put_Object then Put_Arrived w r
     else if route = Get_Object then Get_Arrived w r
     else Other_Arrived w route r)"

definition th_start :: "hub \<Rightarrow> AuthStore \<Rightarrow> hub_event list \<Rightarrow> hub_threads" where
  "th_start h a es = \<lparr>th_hub = h, th_auth = a, th_mutex = newKeyedMutex, th_tasks = map arrival es\<rparr>"

definition th_step :: "thread \<Rightarrow> hub_threads \<Rightarrow> hub_threads option" where
  "th_step t s = (if length (th_tasks s) \<le> t then None
     else (case task_step t (th_tasks s ! t) (th_hub s, th_auth s, th_mutex s) of
         None \<Rightarrow> None
       | Some (k, h, a, m) \<Rightarrow> Some \<lparr>th_hub = h, th_auth = a, th_mutex = m, th_tasks = (th_tasks s)[t := k]\<rparr>))"

text \<open>A schedule names the thread of each step.\<close>

fun th_run :: "thread list \<Rightarrow> hub_threads \<Rightarrow> hub_threads option" where
  "th_run [] s = Some s"
| "th_run (t # ts) s = (case th_step t s of None \<Rightarrow> None | Some s \<Rightarrow> th_run ts s)"

section \<open>The pieces are the handlers\<close>

lemma get_pieces:
  "handleGetObject w r h = (case get_arrive w r h of
      Answered r' resp \<Rightarrow> (resp, h)
    | Get_Denied w' r' \<Rightarrow> deny_object w r h (req_ref r)
    | Get_Allowed w' r' resp \<Rightarrow> (case get_load w r resp h of
          Get_Loaded w'' r'' resp' data \<Rightarrow> serveObject w r h (req_ref r) data resp'
        | Answered r'' resp' \<Rightarrow> (resp', h)
        | _ \<Rightarrow> undefined)
    | _ \<Rightarrow> undefined)"
  by (simp add: handleGetObject_def get_arrive_def read_and_serve_def get_load_def Let_def
      split: option.split sum.split)

definition commit :: "put_job \<Rightarrow> hub \<Rightarrow> response \<times> hub" where
  "commit j h = put_commit (job_world j) (job_request j) h (job_ref j) (job_item j) (job_realms j)
     (job_canonical j) (job_ts j)"

lemma put_pieces:
  "handlePutObject w r h = (case put_arrive w r h of
      Answered r' resp \<Rightarrow> (resp, h) | Put_Checked j \<Rightarrow> commit j h | _ \<Rightarrow> undefined)"
  by (simp add: handlePutObject_def put_arrive_def commit_def job_ref_def Let_def
      split: option.split sum.split prod.split)

text \<open>What the checks promise of a job.\<close>

definition job_ok :: "put_job \<Rightarrow> bool" where
  "job_ok j \<longleftrightarrow> IsValidRef (job_ref j) \<and> (\<exists>body idx. req_body (job_request j) = Some body \<and>
     accepted_put (job_world j) (job_ref j) body idx (job_item j) (job_realms j) (job_canonical j) (job_ts j))"

lemma put_arrive_cases:
  obtains (refused) resp where "put_arrive w r h = Answered r resp" "400 \<le> resp_status resp"
  | (checked) j where "put_arrive w r h = Put_Checked j" "job_ok j" "job_world j = w" "job_request j = r"
proof (cases "put_arrive w r h")
  case (Put_Checked j)
  then have "job_ok j \<and> job_world j = w \<and> job_request j = r"
    by (auto simp: put_arrive_def job_ok_def job_ref_def Let_def put_checks_Inr
        split: if_splits option.splits sum.splits)
  with Put_Checked checked show ?thesis by blast
next
  case (Answered r' resp)
  then have "r' = r \<and> 400 \<le> resp_status resp"
    by (auto simp: put_arrive_def Let_def dest: writeError_not_ok split: if_splits option.splits sum.splits)
  with Answered refused show ?thesis by blast
qed (auto simp: put_arrive_def Let_def split: if_splits option.splits sum.splits)

section \<open>Locks of threads\<close>

fun lock_pos :: "hub_task \<Rightarrow> ref pc" where
  "lock_pos (Put_Waiting j l) = Waiting (job_ref j) l"
| "lock_pos (Put_Locked j l) = Critical (job_ref j) l"
| "lock_pos (Put_Cleared j l existing) = Critical (job_ref j) l"
| "lock_pos (Put_Backed j l existing) = Critical (job_ref j) l"
| "lock_pos (Put_Written j l existing) = Critical (job_ref j) l"
| "lock_pos (Put_Indexed j l existing) = Critical (job_ref j) l"
| "lock_pos (Put_Leaving j l resp) = Critical (job_ref j) l"
| "lock_pos (Put_Releasing j l resp) = Releasing l"
| "lock_pos k = Idle"

fun task_job :: "hub_task \<Rightarrow> put_job option" where
  "task_job (Put_Checked j) = Some j"
| "task_job (Put_Waiting j l) = Some j"
| "task_job (Put_Locked j l) = Some j"
| "task_job (Put_Cleared j l existing) = Some j"
| "task_job (Put_Backed j l existing) = Some j"
| "task_job (Put_Written j l existing) = Some j"
| "task_job (Put_Indexed j l existing) = Some j"
| "task_job (Put_Leaving j l resp) = Some j"
| "task_job (Put_Releasing j l resp) = Some j"
| "task_job (Put_Answered j resp) = Some j"
| "task_job k = None"

text \<open>A job passed the checks, and writes take the way through the lock.\<close>

fun task_ok :: "hub_task \<Rightarrow> bool" where
  "task_ok (Other_Arrived w route r) \<longleftrightarrow> route \<noteq> Put_Object"
| "task_ok k \<longleftrightarrow> pred_option job_ok (task_job k)"

lemma task_ok_job: "task_ok k \<Longrightarrow> task_job k = Some j \<Longrightarrow> job_ok j"
  by (cases k) auto

text \<open>Each thread is where the mutex believes it to be.\<close>

definition locks_ok :: "hub_threads \<Rightarrow> bool" where
  "locks_ok s \<longleftrightarrow> km_reach (th_mutex s) \<and>
     (\<forall>t. km_pc (th_mutex s) t = (if t < length (th_tasks s) then lock_pos (th_tasks s ! t) else Idle)) \<and>
     (\<forall>t < length (th_tasks s). task_ok (th_tasks s ! t))"

lemma locks_ok_job:
  "locks_ok s \<Longrightarrow> t < length (th_tasks s) \<Longrightarrow> task_job (th_tasks s ! t) = Some j \<Longrightarrow> job_ok j"
  unfolding locks_ok_def by (blast intro: task_ok_job)

lemma lock_enter_pc:
  obtains l where "km_pc (lock_enter t key k) = (km_pc k)(t := Waiting key l)"
  by (cases "km_locks k key") (auto simp: lock_enter_def Let_def)

lemma unlock_enter_pc:
  "km_reach k \<Longrightarrow> km_pc k t = Critical key l \<Longrightarrow> km_pc (unlock_enter t key k) = (km_pc k)(t := Releasing l)"
  using km_okD(2) [OF km_reach_ok] by (fastforce simp: unlock_enter_def Let_def)

lemma get_arrive_idle: "lock_pos (get_arrive w r h) = Idle" "task_ok (get_arrive w r h)"
  by (auto simp: get_arrive_def Let_def split: option.split)

lemma get_load_idle: "lock_pos (get_load w r resp h) = Idle" "task_ok (get_load w r resp h)"
  by (auto simp: get_load_def split: option.split sum.split)

lemma put_arrive_idle: "lock_pos (put_arrive w r h) = Idle" "task_ok (put_arrive w r h)"
  by (cases rule: put_arrive_cases [of w r h]; simp)+

lemma put_condition_critical:
  "lock_pos (put_condition j l h) = Critical (job_ref j) l" "task_ok (put_condition j l h) \<longleftrightarrow> job_ok j"
  by (auto simp: put_condition_def Let_def split: option.split)

text \<open>One step moves the thread's place in the mutex by a step of the mutex, or leaves it.\<close>

lemma task_step_lock:
  assumes "task_step t k (h, a, m) = Some (k', h', a', m')" and "km_reach m" and "km_pc m t = lock_pos k"
    and "task_ok k"
  shows "km_reach m' \<and> km_pc m' = (km_pc m)(t := lock_pos k') \<and> task_ok k'"
  using assms(1)
proof (cases rule: task_step.elims)
  case (2 j h0 a0 m0)
  obtain l where l: "km_pc (lock_enter t (job_ref j) m0) = (km_pc m0)(t := Waiting (job_ref j) l)"
    by (rule lock_enter_pc)
  have "km_step m0 (lock_enter t (job_ref j) m0)" using 2 assms(3) by (auto intro: km_step.enter)
  with assms(2) 2 have "km_reach (lock_enter t (job_ref j) m0)" by (auto intro: km_reach.step)
  with 2 l assms(4) show ?thesis by (auto simp: Let_def)
next
  case (3 j l h0 a0 m0)
  then have "km_step m0 (lock_acquire t (job_ref j) l m0)" using assms(3)
    by (auto intro: km_step.acquire split: if_splits)
  with assms(2) 3 have "km_reach (lock_acquire t (job_ref j) l m0)" by (auto intro: km_reach.step split: if_splits)
  with 3 assms(4) show ?thesis by (auto simp: lock_acquire_def split: if_splits)
next
  case (9 j l resp h0 a0 m0)
  have crit: "km_pc m0 t = Critical (job_ref j) l" using 9 assms(3) by simp
  then have "km_step m0 (unlock_enter t (job_ref j) m0)" by (rule km_step.leave)
  with assms(2) 9 have "km_reach (unlock_enter t (job_ref j) m0)" by (auto intro: km_reach.step)
  with 9 assms(4) unlock_enter_pc [OF _ crit] assms(2) show ?thesis by (auto simp: Let_def split: if_splits)
next
  case (10 j l resp h0 a0 m0)
  then have "km_step m0 (unlock_release t l m0)" using assms(3) by (auto intro: km_step.release)
  with assms(2) 10 have "km_reach (unlock_release t l m0)" by (auto intro: km_reach.step)
  with 10 assms(4) show ?thesis by (auto simp: unlock_release_def)
qed (use assms in \<open>auto simp: put_arrive_idle get_arrive_idle get_load_idle put_condition_critical
      fun_upd_idem split: option.splits prod.splits\<close>)

lemma th_stepE:
  assumes "th_step t s = Some s'"
  obtains k h a m where "t < length (th_tasks s)"
    "task_step t (th_tasks s ! t) (th_hub s, th_auth s, th_mutex s) = Some (k, h, a, m)"
    "s' = \<lparr>th_hub = h, th_auth = a, th_mutex = m, th_tasks = (th_tasks s)[t := k]\<rparr>"
  using assms by (auto simp: th_step_def split: if_splits option.splits)

lemma locks_ok_start: "locks_ok (th_start h a es)"
proof -
  have "lock_pos (arrival e) = Idle" "task_ok (arrival e)" for e
    by (auto simp: arrival_def split: prod.split)
  then show ?thesis by (auto simp: locks_ok_def th_start_def newKeyedMutex_def intro: km_reach.start [unfolded newKeyedMutex_def])
qed

lemma locks_ok_step:
  assumes "th_step t s = Some s'" and "locks_ok s"
  shows "locks_ok s'"
  using assms(1)
proof (cases rule: th_stepE)
  case (1 k h a m)
  with assms(2) task_step_lock [OF 1(2)] show ?thesis
    by (auto simp: locks_ok_def nth_list_update)
qed

lemma th_run_locks: "th_run ts s = Some s' \<Longrightarrow> locks_ok s \<Longrightarrow> locks_ok s'"
  by (induction ts s rule: th_run.induct) (auto intro: locks_ok_step split: option.splits)

lemma threads_exclude:
  assumes "locks_ok s" and "t < length (th_tasks s)" and "t' < length (th_tasks s)"
    and "lock_pos (th_tasks s ! t) = Critical ref l" and "lock_pos (th_tasks s ! t') = Critical ref l'"
  shows "t = t'"
proof (rule km_exclusive)
  show "km_reach (th_mutex s)" using assms(1) by (simp add: locks_ok_def)
  show "km_pc (th_mutex s) t = Critical ref l" "km_pc (th_mutex s) t' = Critical ref l'"
    using assms by (simp_all add: locks_ok_def)
qed

section \<open>Every request is answered\<close>

text \<open>The steps a thread has left.\<close>

fun steps_left :: "hub_task \<Rightarrow> nat" where
  "steps_left (Put_Arrived w r) = 10"
| "steps_left (Put_Checked j) = 9"
| "steps_left (Put_Waiting j l) = 8"
| "steps_left (Put_Locked j l) = 7"
| "steps_left (Put_Cleared j l existing) = 6"
| "steps_left (Put_Backed j l existing) = 5"
| "steps_left (Put_Written j l existing) = 4"
| "steps_left (Put_Indexed j l existing) = 3"
| "steps_left (Put_Leaving j l resp) = 2"
| "steps_left (Put_Releasing j l resp) = 1"
| "steps_left (Put_Answered j resp) = 0"
| "steps_left (Get_Arrived w r) = 3"
| "steps_left (Get_Denied w r) = 1"
| "steps_left (Get_Allowed w r resp) = 2"
| "steps_left (Get_Loaded w r resp data) = 1"
| "steps_left (Other_Arrived w route r) = 1"
| "steps_left (Answered r resp) = 0"

fun task_answer :: "hub_task \<Rightarrow> response option" where
  "task_answer (Put_Answered j resp) = Some resp"
| "task_answer (Answered r resp) = Some resp"
| "task_answer k = None"

lemma steps_left_pieces:
  "steps_left (put_arrive w r h) < 10" "steps_left (get_arrive w r h) < 3"
  "steps_left (get_load w r resp h) < 2" "steps_left (put_condition j l h) < 7"
  by (auto simp: put_arrive_def get_arrive_def get_load_def put_condition_def Let_def
      split: option.split sum.split)

lemma task_step_fewer: "task_step t k s = Some (k', s') \<Longrightarrow> steps_left k' < steps_left k"
  by (elim task_step.elims)
    (auto simp: Let_def steps_left_pieces split: if_splits pc.splits prod.splits option.splits)

definition work_left :: "hub_threads \<Rightarrow> nat" where
  "work_left s = sum_list (map steps_left (th_tasks s))"

lemma sum_list_update_less:
  fixes f :: "'a \<Rightarrow> nat"
  assumes "t < length xs" and "f x < f (xs ! t)"
  shows "sum_list (map f (xs[t := x])) < sum_list (map f xs)"
  using assms
proof (induction xs arbitrary: t)
  case (Cons y ys)
  then show ?case by (cases t) auto
qed simp

lemma th_step_less: "th_step t s = Some s' \<Longrightarrow> work_left s' < work_left s"
  by (elim th_stepE) (auto simp: work_left_def intro!: sum_list_update_less dest: task_step_fewer)

lemma th_run_bound: "th_run ts s = Some s' \<Longrightarrow> length ts + work_left s' \<le> work_left s"
  by (induction ts s rule: th_run.induct) (fastforce dest: th_step_less split: option.splits)+

lemma th_run_append: "th_run (ts @ us) s = (case th_run ts s of None \<Rightarrow> None | Some s' \<Rightarrow> th_run us s')"
  by (induction ts s rule: th_run.induct) (auto split: option.splits)

text \<open>A thread that has not answered can move, or waits for one that can.\<close>

lemma task_moves:
  assumes "task_answer k = None" and "\<And>j l. k = Put_Waiting j l \<Longrightarrow> \<not> lock_held (km_entries m l)"
    and "km_reach m" and "km_pc m t = lock_pos k"
  shows "task_step t k (h, a, m) \<noteq> None"
proof (cases k)
  case (Put_Checked j)
  obtain l where "km_pc (lock_enter t (job_ref j) m) = (km_pc m)(t := Waiting (job_ref j) l)" by (rule lock_enter_pc)
  with Put_Checked show ?thesis by (simp add: Let_def)
next
  case (Put_Leaving j l resp)
  then have "km_pc m t = Critical (job_ref j) l" using assms(4) by simp
  from unlock_enter_pc [OF assms(3) this] Put_Leaving show ?thesis by (simp add: Let_def)
qed (use assms in \<open>auto split: prod.splits option.splits\<close>)

lemma some_thread_moves:
  assumes "locks_ok s" and "t < length (th_tasks s)" and "task_answer (th_tasks s ! t) = None"
  shows "\<exists>u s'. th_step u s = Some s'"
proof -
  let ?m = "th_mutex s"
  have reach: "km_reach ?m" and pos: "\<And>u. u < length (th_tasks s) \<Longrightarrow> km_pc ?m u = lock_pos (th_tasks s ! u)"
    and idle: "\<And>u. \<not> u < length (th_tasks s) \<Longrightarrow> km_pc ?m u = Idle"
    using assms(1) by (simp_all add: locks_ok_def)
  have moves: "\<exists>s'. th_step u s = Some s'" if "u < length (th_tasks s)" "task_answer (th_tasks s ! u) = None"
    "\<And>j l. th_tasks s ! u = Put_Waiting j l \<Longrightarrow> \<not> lock_held (km_entries ?m l)" for u
    using task_moves [OF that(2,3) reach pos [OF that(1)], where h = "th_hub s" and a = "th_auth s"] that(1)
    by (auto simp: th_step_def split: option.splits)
  show ?thesis
  proof (cases "\<exists>j l. th_tasks s ! t = Put_Waiting j l \<and> lock_held (km_entries ?m l)")
    case False
    with moves [OF assms(2,3)] show ?thesis by blast
  next
    case True
    then obtain j l where wait: "th_tasks s ! t = Put_Waiting j l" "lock_held (km_entries ?m l)" by blast
    from km_okD(10) [OF km_reach_ok [OF reach] wait(2)] obtain u where u: "holds (km_pc ?m u) l" by blast
    with idle have len: "u < length (th_tasks s)" by (cases "u < length (th_tasks s)") auto
    with u pos have "holds (lock_pos (th_tasks s ! u)) l" by simp
    then have "task_answer (th_tasks s ! u) = None" "\<And>j l. th_tasks s ! u \<noteq> Put_Waiting j l"
      by (cases "th_tasks s ! u"; simp)+
    with moves [OF len] show ?thesis by blast
  qed
qed

lemma th_step_length: "th_step t s = Some s' \<Longrightarrow> length (th_tasks s') = length (th_tasks s)"
  by (elim th_stepE) simp

lemma th_run_length: "th_run ts s = Some s' \<Longrightarrow> length (th_tasks s') = length (th_tasks s)"
  by (induction ts s rule: th_run.induct) (auto dest: th_step_length split: option.splits)

lemma run_to_end:
  assumes "locks_ok s"
  shows "\<exists>us s'. th_run us s = Some s' \<and> (\<forall>t < length (th_tasks s'). task_answer (th_tasks s' ! t) \<noteq> None)"
  using assms
proof (induction "work_left s" arbitrary: s rule: less_induct)
  case less
  show ?case
  proof (cases "\<forall>t < length (th_tasks s). task_answer (th_tasks s ! t) \<noteq> None")
    case True
    then show ?thesis by (intro exI [of _ "[]"] exI [of _ s]) simp
  next
    case False
    with some_thread_moves [OF less(2)] obtain u s1 where s1: "th_step u s = Some s1" by blast
    from less(1) [OF th_step_less [OF s1] locks_ok_step [OF s1 less(2)]]
    obtain us s' where "th_run us s1 = Some s'" "\<forall>t < length (th_tasks s'). task_answer (th_tasks s' ! t) \<noteq> None"
      by blast
    with s1 show ?thesis by (intro exI [of _ "u # us"] exI [of _ s']) simp
  qed
qed

lemma work_left_start: "work_left (th_start h a es) \<le> 10 * length es"
proof -
  have "steps_left (arrival e) \<le> 10" for e by (auto simp: arrival_def split: prod.split)
  then have "sum_list (map steps_left (map arrival es)) \<le> 10 * length es"
    by (induction es) (auto intro: add_mono)
  then show ?thesis by (simp add: work_left_def th_start_def)
qed

text \<open>
  C15 Every request is answered, however the server schedules its threads. No schedule of \<open>n\<close> requests
  takes more than \<open>10 n\<close> steps, so none goes on for ever, and wherever a schedule stops it can be
  continued until every request has its answer: no thread is left behind at a lock.
\<close>
theorem requests_terminate:
  assumes "th_run ts (th_start h a es) = Some s"
  shows "length ts \<le> 10 * length es \<and> (\<exists>us s'. th_run (ts @ us) (th_start h a es) = Some s' \<and>
     length (th_tasks s') = length es \<and> list_all (\<lambda>k. task_answer k \<noteq> None) (th_tasks s'))"
proof
  show "length ts \<le> 10 * length es" using th_run_bound [OF assms] work_left_start [of h a es] by simp
  from run_to_end [OF th_run_locks [OF assms locks_ok_start]]
  obtain us s' where us: "th_run us s = Some s'" "\<forall>t < length (th_tasks s'). task_answer (th_tasks s' ! t) \<noteq> None"
    by blast
  moreover have "length (th_tasks s') = length es"
    using th_run_length [OF us(1)] th_run_length [OF assms] by (simp add: th_start_def)
  ultimately show "\<exists>us s'. th_run (ts @ us) (th_start h a es) = Some s' \<and>
     length (th_tasks s') = length es \<and> list_all (\<lambda>k. task_answer k \<noteq> None) (th_tasks s')"
    using assms by (intro exI [of _ us] exI [of _ s']) (simp add: th_run_append list_all_length)
qed

end
