(* ===== verification/Serving_Serial.thy ===== *)
theory Serving_Serial
  imports Serving_Interleaved
begin

text \<open>
  Interleaved writes against writes one at a time. Whatever the schedule, the index, the files and
  the answers are those of the critical sections run one after another, in some order. The
  conditional write is then a compare-and-swap, although its pieces interleave with those of
  other requests.
\<close>

section \<open>Private parts of the disk\<close>

text \<open>A change of the disk that reads and writes only the paths of a set.\<close>

definition local_to :: "path set \<Rightarrow> (disk \<Rightarrow> disk) \<Rightarrow> bool" where
  "local_to A f \<longleftrightarrow> (\<forall>d p. p \<notin> A \<longrightarrow> mget (f d) p = mget d p) \<and>
     (\<forall>d d'. (\<forall>p\<in>A. mget d p = mget d' p) \<longrightarrow> (\<forall>p\<in>A. mget (f d) p = mget (f d') p))"

lemma local_toD:
  assumes "local_to A f"
  shows "p \<notin> A \<Longrightarrow> mget (f d) p = mget d p"
    and "(\<And>q. q \<in> A \<Longrightarrow> mget d q = mget d' q) \<Longrightarrow> p \<in> A \<Longrightarrow> mget (f d) p = mget (f d') p"
  using assms unfolding local_to_def by blast+

lemma local_toI:
  assumes "\<And>d p. p \<notin> A \<Longrightarrow> mget (f d) p = mget d p"
    and "\<And>d d' p. (\<And>q. q \<in> A \<Longrightarrow> mget d q = mget d' q) \<Longrightarrow> p \<in> A \<Longrightarrow> mget (f d) p = mget (f d') p"
  shows "local_to A f"
  using assms unfolding local_to_def by blast

lemma local_id: "local_to A (\<lambda>d. d)"
  by (simp add: local_to_def)

lemma local_comp:
  assumes f: "local_to A f" and g: "local_to A g"
  shows "local_to A (\<lambda>d. g (f d))"
proof (rule local_toI)
  show "mget (g (f d)) p = mget d p" if "p \<notin> A" for d p
    using local_toD(1) [OF f that] local_toD(1) [OF g that] by simp
  show "mget (g (f d)) p = mget (g (f d')) p" if eq: "\<And>q. q \<in> A \<Longrightarrow> mget d q = mget d' q" and "p \<in> A" for d d' p
    by (rule local_toD(2) [OF g _ that(2)], rule local_toD(2) [OF f eq])
qed

text \<open>
  A disk on which each thread has applied a change of its own to a common base. The changes that are
  not yet part of the base are the pending ones.
\<close>

type_synonym pending = "thread \<Rightarrow> (path set \<times> (disk \<Rightarrow> disk)) option"

definition apart :: "pending \<Rightarrow> bool" where
  "apart pend \<longleftrightarrow> (\<forall>t A f. pend t = Some (A, f) \<longrightarrow> local_to A f) \<and>
     (\<forall>t u A B f g. t \<noteq> u \<longrightarrow> pend t = Some (A, f) \<longrightarrow> pend u = Some (B, g) \<longrightarrow> A \<inter> B = {})"

lemma apartD:
  assumes "apart pend" and "pend t = Some (A, f)"
  shows "local_to A f" and "t \<noteq> u \<Longrightarrow> pend u = Some (B, g) \<Longrightarrow> p \<in> A \<Longrightarrow> p \<notin> B"
  using assms unfolding apart_def by blast+

definition overlay :: "pending \<Rightarrow> disk \<Rightarrow> disk \<Rightarrow> bool" where
  "overlay pend base d \<longleftrightarrow>
     (\<forall>t A f p. pend t = Some (A, f) \<longrightarrow> p \<in> A \<longrightarrow> mget d p = mget (f base) p) \<and>
     (\<forall>p. (\<forall>t A f. pend t = Some (A, f) \<longrightarrow> p \<notin> A) \<longrightarrow> mget d p = mget base p)"

lemma overlayD:
  assumes "overlay pend base d"
  shows "pend t = Some (A, f) \<Longrightarrow> p \<in> A \<Longrightarrow> mget d p = mget (f base) p"
    and "(\<And>t A f. pend t = Some (A, f) \<Longrightarrow> p \<notin> A) \<Longrightarrow> mget d p = mget base p"
  using assms unfolding overlay_def by blast+

lemma overlayI:
  assumes "\<And>t A f p. pend t = Some (A, f) \<Longrightarrow> p \<in> A \<Longrightarrow> mget d p = mget (f base) p"
    and "\<And>p. (\<And>t A f. pend t = Some (A, f) \<Longrightarrow> p \<notin> A) \<Longrightarrow> mget d p = mget base p"
  shows "overlay pend base d"
  using assms unfolding overlay_def by blast

lemma overlay_begin:
  assumes ov: "overlay pend base d" and t: "pend t = None" and ap: "apart (pend(t := Some (A, f)))"
  shows "overlay (pend(t := Some (A, \<lambda>d. d))) base d"
proof -
  have own: "mget d p = mget base p" if "p \<in> A" for p
  proof (rule overlayD(2) [OF ov])
    fix u B g assume u: "pend u = Some (B, g)"
    with t have "t \<noteq> u" by auto
    moreover from this u have "(pend(t := Some (A, f))) u = Some (B, g)" by simp
    ultimately show "p \<notin> B" using apartD(2) [OF ap fun_upd_same _ _ that] by blast
  qed
  show ?thesis
  proof (rule overlayI)
    fix u B g p assume "(pend(t := Some (A, \<lambda>d. d))) u = Some (B, g)" and "p \<in> B"
    then show "mget d p = mget (g base) p" using own overlayD(1) [OF ov] by (cases "u = t") auto
  next
    fix p assume out: "\<And>u B g. (pend(t := Some (A, \<lambda>d. d))) u = Some (B, g) \<Longrightarrow> p \<notin> B"
    show "mget d p = mget base p"
    proof (rule overlayD(2) [OF ov])
      fix u B g assume "pend u = Some (B, g)"
      with t out [of u B g] show "p \<notin> B" by (cases "u = t") auto
    qed
  qed
qed

lemma overlay_extend:
  assumes ov: "overlay pend base d" and t: "pend t = Some (A, f)" and ap: "apart pend" and g: "local_to A g"
  shows "overlay (pend(t := Some (A, \<lambda>d. g (f d)))) base (g d)"
proof (rule overlayI)
  fix u B h p assume u: "(pend(t := Some (A, \<lambda>d. g (f d)))) u = Some (B, h)" and p: "p \<in> B"
  show "mget (g d) p = mget (h base) p"
  proof (cases "u = t")
    case True
    with u have eqs: "B = A" "h = (\<lambda>d. g (f d))" by auto
    show ?thesis unfolding eqs
      by (rule local_toD(2) [OF g]) (use overlayD(1) [OF ov t] p eqs in auto)
  next
    case False
    with u have u': "pend u = Some (B, h)" by simp
    have "p \<notin> A" using apartD(2) [OF ap u' False t p] .
    then show ?thesis using local_toD(1) [OF g] overlayD(1) [OF ov u' p] by simp
  qed
next
  fix p assume out: "\<And>u B h. (pend(t := Some (A, \<lambda>d. g (f d)))) u = Some (B, h) \<Longrightarrow> p \<notin> B"
  have A: "p \<notin> A" by (rule out [OF fun_upd_same])
  have "mget d p = mget base p"
  proof (rule overlayD(2) [OF ov])
    fix u B h assume "pend u = Some (B, h)"
    with t A out [of u B h] show "p \<notin> B" by (cases "u = t") auto
  qed
  with A show "mget (g d) p = mget base p" using local_toD(1) [OF g] by simp
qed

lemma overlay_commit:
  assumes ov: "overlay pend base d" and t: "pend t = Some (A, f)" and ap: "apart pend"
  shows "overlay (pend(t := None)) (f base) d"
proof (rule overlayI)
  note f = apartD(1) [OF ap t]
  fix u B h p assume u: "(pend(t := None)) u = Some (B, h)" and p: "p \<in> B"
  then have ne: "u \<noteq> t" and u': "pend u = Some (B, h)" by (auto split: if_splits)
  have "mget base q = mget (f base) q" if "q \<in> B" for q
    using local_toD(1) [OF f apartD(2) [OF ap u' ne t that]] by simp
  then have "mget (h base) p = mget (h (f base)) p" by (rule local_toD(2) [OF apartD(1) [OF ap u'] _ p])
  with overlayD(1) [OF ov u' p] show "mget d p = mget (h (f base)) p" by simp
next
  note f = apartD(1) [OF ap t]
  fix p assume out: "\<And>u B h. (pend(t := None)) u = Some (B, h) \<Longrightarrow> p \<notin> B"
  show "mget d p = mget (f base) p"
  proof (cases "p \<in> A")
    case True
    then show ?thesis by (rule overlayD(1) [OF ov t])
  next
    case False
    have "mget d p = mget base p"
    proof (rule overlayD(2) [OF ov])
      fix u B h assume "pend u = Some (B, h)"
      with t False out [of u B h] show "p \<notin> B" by (cases "u = t") auto
    qed
    with local_toD(1) [OF f False] show ?thesis by simp
  qed
qed

lemma overlay_none: "(\<And>t. pend t = None) \<Longrightarrow> overlay pend base d \<Longrightarrow> mget d p = mget base p"
  by (rule overlayD(2)) auto

section \<open>The paths of an object\<close>

definition own :: "Store \<Rightarrow> ref \<Rightarrow> path set" where
  "own s ref = insert (live_path s ref) (range (backup_path s ref))"

lemma valid_ref_last: "IsValidRef r \<Longrightarrow> last r \<noteq> CHR ''.''"
proof -
  assume "IsValidRef r"
  then obtain p u where r: "r = p @ CHR ''.'' # u" "isCanonicalUUID u" by (metis IsValidRefE)
  then have u: "u \<noteq> []" using isCanonicalUUID_length by fastforce
  then have "last u \<in> set u" by simp
  from isCanonicalUUID_chars [OF r(2) this] r(1) u show ?thesis
    by (auto simp: uuid_hex_char_def is_digit_def)
qed

lemma backup_names_differ:
  assumes "IsValidRef a" and "IsValidRef b" and "a @ ''.r'' @ x = b @ ''.r'' @ y"
  shows "a = b"
proof -
  have no: "c = d" if "IsValidRef c" "IsValidRef d" "c @ ''.r'' @ x' = d @ ''.r'' @ y'"
    "length c \<le> length d" for c d x' y'
  proof (cases "length c = length d")
    case False
    with that valid_ref_length [OF that(1)] valid_ref_length [OF that(2)]
    have len: "length d = Suc (length c)" by auto
    have d: "d = take (length d) (c @ ''.r'' @ x')" unfolding that(3) by simp
    have "take (Suc (length c)) (c @ ''.r'' @ x') = c @ ''.''" by simp
    with d len have "d = c @ ''.''" by simp
    with valid_ref_last [OF that(2)] show ?thesis by simp
  qed (use that in simp)
  show ?thesis using no [OF assms] no [OF assms(2,1) assms(3) [symmetric]] by (metis nat_le_linear)
qed

lemma own_disjoint:
  assumes "IsValidRef a" and "IsValidRef b" and "a \<noteq> b"
  shows "own s a \<inter> own s b = {}"
  using assms backup_not_live [OF assms(1,2)] backup_not_live [OF assms(2,1)] backup_names_differ [OF assms(1,2)]
  by (auto simp: own_def live_path_inject backup_path_valid dest: sym)

lemma Write_err: "fst (Write w s ref b t d) = fst (Write w s ref b t d')"
  by (simp add: Write_def Let_def)

lemma Write_local: "local_to (own s ref) (\<lambda>d. snd (Write w s ref b t d))"
  by (auto simp: local_to_def own_def Write_def Let_def)

lemma backed_up_local: "local_to (own s ref) (backed_up w s ref existing)"
proof -
  have "local_to (own s ref) (\<lambda>d. snd (Backup w s ref n d))" for n
    by (auto simp: local_to_def own_def Backup_def Let_def split: option.splits)
  moreover have "backed_up w s ref None = (\<lambda>d. d)" "backed_up w s ref (Some m) =
      (\<lambda>d. snd (Backup w s ref (meta_Revision m) d))" for m
    by (auto simp: backed_up_def)
  ultimately show ?thesis by (cases existing) (simp_all add: local_id)
qed

section \<open>One write at a time\<close>

fun serial :: "put_job list \<Rightarrow> hub \<Rightarrow> response list \<times> hub" where
  "serial [] h = ([], h)"
| "serial (j # js) h = (case commit j h of (resp, h1) \<Rightarrow>
     case serial js h1 of (resps, h2) \<Rightarrow> (resp # resps, h2))"

lemma serial_append:
  "serial (js @ ks) h = (case serial js h of (rs, h1) \<Rightarrow> case serial ks h1 of (rs', h2) \<Rightarrow> (rs @ rs', h2))"
  by (induction js h rule: serial.induct) (auto split: prod.split)

text \<open>The answer of a critical section that has taken effect.\<close>

fun put_result :: "hub_task \<Rightarrow> response option" where
  "put_result (Put_Indexed j l existing) = Some (put_answer j existing)"
| "put_result (Put_Leaving j l resp) = Some resp"
| "put_result (Put_Releasing j l resp) = Some resp"
| "put_result (Put_Answered j resp) = Some resp"
| "put_result k = None"

text \<open>What a thread has done to the disk that has not taken effect yet.\<close>

fun pending_change :: "Store \<Rightarrow> hub_task \<Rightarrow> (path set \<times> (disk \<Rightarrow> disk)) option" where
  "pending_change s (Put_Backed j l existing) =
     Some (own s (job_ref j), backed_up (job_world j) s (job_ref j) existing)"
| "pending_change s (Put_Written j l existing) = Some (own s (job_ref j), \<lambda>d.
     snd (Write (job_world j) s (job_ref j) (job_canonical j) (job_ts j)
       (backed_up (job_world j) s (job_ref j) existing d)))"
| "pending_change s k = None"

definition pending_of :: "Store \<Rightarrow> hub_task list \<Rightarrow> pending" where
  "pending_of s ks = (\<lambda>t. if t < length ks then pending_change s (ks ! t) else None)"

text \<open>What a thread in its critical section knows about the index.\<close>

definition may_write :: "put_job \<Rightarrow> ObjectMeta option \<Rightarrow> bool" where
  "may_write j existing \<longleftrightarrow> checkConditionalWrite (job_world j) (job_request j)
     (req_header (job_request j) ''If-Match'') existing (item_Revision (job_item j)) = None"

fun cleared :: "Store \<Rightarrow> Index \<Rightarrow> hub_task \<Rightarrow> bool" where
  "cleared s idx (Put_Cleared j l existing) \<longleftrightarrow> existing = GetMeta idx (job_ref j) \<and> may_write j existing"
| "cleared s idx (Put_Backed j l existing) \<longleftrightarrow> existing = GetMeta idx (job_ref j) \<and> may_write j existing"
| "cleared s idx (Put_Written j l existing) \<longleftrightarrow> existing = GetMeta idx (job_ref j) \<and> may_write j existing \<and>
     (\<forall>d. fst (Write (job_world j) s (job_ref j) (job_canonical j) (job_ts j) d) = None)"
| "cleared s idx k \<longleftrightarrow> True"

text \<open>The critical sections that have taken effect, in their order: thread, job and answer.\<close>

type_synonym log = "(thread \<times> put_job \<times> response) list"

definition logged :: "hub_task list \<Rightarrow> log \<Rightarrow> bool" where
  "logged ks log \<longleftrightarrow> distinct (map fst log) \<and>
     (\<forall>t j r. (t, j, r) \<in> set log \<longrightarrow> t < length ks \<and> task_job (ks ! t) = Some j \<and> put_result (ks ! t) = Some r) \<and>
     (\<forall>t < length ks. put_result (ks ! t) \<noteq> None \<longrightarrow> t \<in> fst ` set log)"

definition serial_inv :: "hub \<Rightarrow> log \<Rightarrow> hub \<Rightarrow> hub_threads \<Rightarrow> bool" where
  "serial_inv h0 log S s \<longleftrightarrow> locks_ok s \<and> logged (th_tasks s) log \<and>
     serial (map (fst \<circ> snd) log) h0 = (map (snd \<circ> snd) log, S) \<and>
     hub_store S = hub_store (th_hub s) \<and> hub_index S = hub_index (th_hub s) \<and>
     (\<forall>t < length (th_tasks s). cleared (hub_store S) (hub_index S) (th_tasks s ! t)) \<and>
     overlay (pending_of (hub_store S) (th_tasks s)) (hub_disk S) (hub_disk (th_hub s))"

lemma loggedD:
  assumes "logged ks log" and "(t, j, r) \<in> set log"
  shows "t < length ks" "task_job (ks ! t) = Some j" "put_result (ks ! t) = Some r"
  using assms unfolding logged_def by blast+

lemma logged_keep:
  assumes "logged ks log" and "t < length ks" and "put_result k = put_result (ks ! t)"
    and "put_result k \<noteq> None \<Longrightarrow> task_job k = task_job (ks ! t)"
  shows "logged (ks[t := k]) log"
  using assms unfolding logged_def by (auto simp: nth_list_update)

lemma logged_add:
  assumes "logged ks log" and "t < length ks" and "put_result (ks ! t) = None"
    and "put_result k = Some r" and "task_job k = Some j"
  shows "logged (ks[t := k]) (log @ [(t, j, r)])"
proof -
  have "t \<notin> fst ` set log" using assms(1,3) by (fastforce simp: logged_def)
  with assms show ?thesis unfolding logged_def by (force simp: nth_list_update)
qed

lemma pending_of_update: "t < length ks \<Longrightarrow> pending_of s (ks[t := k]) = (pending_of s ks)(t := pending_change s k)"
  by (auto simp: pending_of_def fun_eq_iff)

lemma pending_change_job:
  assumes "pending_change s k = Some (A, f)"
  obtains j l where "task_job k = Some j" "lock_pos k = Critical (job_ref j) l" "A = own s (job_ref j)" "local_to A f"
proof (cases k)
  case (Put_Backed j l existing)
  with assms that [of j l] backed_up_local show ?thesis by auto
next
  case (Put_Written j l existing)
  with assms that [of j l] local_comp [OF backed_up_local Write_local] show ?thesis by auto
qed (use assms in auto)

lemma pending_apart:
  assumes "locks_ok s"
  shows "apart (pending_of st (th_tasks s))"
  unfolding apart_def
proof (intro conjI allI impI)
  show "local_to A f" if "pending_of st (th_tasks s) t = Some (A, f)" for t A f
    using that by (auto simp: pending_of_def split: if_splits elim: pending_change_job)
  fix t u A B f g
  assume ne: "t \<noteq> u" and "pending_of st (th_tasks s) t = Some (A, f)" "pending_of st (th_tasks s) u = Some (B, g)"
  then have t: "t < length (th_tasks s)" "pending_change st (th_tasks s ! t) = Some (A, f)"
    and u: "u < length (th_tasks s)" "pending_change st (th_tasks s ! u) = Some (B, g)"
    by (auto simp: pending_of_def split: if_splits)
  from t(2) obtain j l where j: "task_job (th_tasks s ! t) = Some j"
    "lock_pos (th_tasks s ! t) = Critical (job_ref j) l" "A = own st (job_ref j)" by (rule pending_change_job)
  from u(2) obtain j' l' where j': "task_job (th_tasks s ! u) = Some j'"
    "lock_pos (th_tasks s ! u) = Critical (job_ref j') l'" "B = own st (job_ref j')" by (rule pending_change_job)
  have "IsValidRef (job_ref j)" "IsValidRef (job_ref j')"
    using locks_ok_job [OF assms t(1) j(1)] locks_ok_job [OF assms u(1) j'(1)] by (simp_all add: job_ok_def)
  moreover have "job_ref j \<noteq> job_ref j'" using threads_exclude [OF assms t(1) u(1) j(2)] j'(2) ne by metis
  ultimately show "A \<inter> B = {}" unfolding j(3) j'(3) by (rule own_disjoint)
qed

lemma GetMeta_Update:
  "GetMeta (idx_Update ref it ts rss idx) q =
     (if q = ref then Some (meta_of ref it ts (resolved_realms it rss)) else GetMeta idx q)"
  by (simp add: GetMeta_def idx_Update_def addLocked_fields removeLocked_def Let_def split: option.split)

lemma cleared_other:
  assumes "cleared s idx k" and "\<And>j. task_job k = Some j \<Longrightarrow> lock_pos k \<noteq> Idle \<Longrightarrow> job_ref j \<noteq> ref"
  shows "cleared s (idx_Update ref it ts rss idx) k"
  using assms by (cases k) (auto simp: GetMeta_Update)

section \<open>Every step is a step of the serial run, or none\<close>

lemma serial_invD:
  assumes "serial_inv h0 log S s"
  shows "locks_ok s" "logged (th_tasks s) log" "serial (map (fst \<circ> snd) log) h0 = (map (snd \<circ> snd) log, S)"
    "hub_store S = hub_store (th_hub s)" "hub_index S = hub_index (th_hub s)"
    "t < length (th_tasks s) \<Longrightarrow> cleared (hub_store S) (hub_index S) (th_tasks s ! t)"
    "overlay (pending_of (hub_store S) (th_tasks s)) (hub_disk S) (hub_disk (th_hub s))"
  using assms unfolding serial_inv_def by blast+

lemma serial_quiet:
  assumes inv: "serial_inv h0 log S s" and ok: "locks_ok s'" and t: "t < length (th_tasks s)"
    and s': "s' = \<lparr>th_hub = h, th_auth = a, th_mutex = m, th_tasks = (th_tasks s)[t := k]\<rparr>"
    and h: "hub_store h = hub_store (th_hub s)" "hub_index h = hub_index (th_hub s)" "hub_disk h = hub_disk (th_hub s)"
    and res: "put_result k = put_result (th_tasks s ! t)"
      "put_result k \<noteq> None \<Longrightarrow> task_job k = task_job (th_tasks s ! t)"
    and pend: "pending_change (hub_store h) k = None" "pending_change (hub_store h) (th_tasks s ! t) = None"
    and cl: "cleared (hub_store h) (hub_index h) k"
  shows "serial_inv h0 log S s'"
proof -
  have "pending_of (hub_store S) ((th_tasks s)[t := k]) = pending_of (hub_store S) (th_tasks s)"
    unfolding pending_of_update [OF t]
    using pend h(1) serial_invD(4) [OF inv] by (auto simp: pending_of_def fun_eq_iff)
  moreover have "cleared (hub_store S) (hub_index S) ((th_tasks s)[t := k] ! u)" if "u < length (th_tasks s)" for u
    using serial_invD(4,5) [OF inv] serial_invD(6) [OF inv that] cl h that by (cases "u = t") auto
  moreover have "logged ((th_tasks s)[t := k]) log"
    using inv logged_keep [OF _ t res] by (simp add: serial_inv_def)
  ultimately show ?thesis using ok h serial_invD(3,4,5,7) [OF inv] by (simp add: serial_inv_def s')
qed

lemma serial_log:
  assumes "serial (map (fst \<circ> snd) log) h0 = (map (snd \<circ> snd) log, S)" and "commit j S = (r, S')"
  shows "serial (map (fst \<circ> snd) (log @ [(t, j, r)])) h0 = (map (snd \<circ> snd) (log @ [(t, j, r)]), S')"
  using assms by (simp add: serial_append)

lemma reading_keeps:
  "deny_object w r h ref = (resp, h') \<Longrightarrow>
     hub_store h' = hub_store h \<and> hub_index h' = hub_index h \<and> hub_disk h' = hub_disk h"
  "serveObject w r h ref data resp0 = (resp, h') \<Longrightarrow>
     hub_store h' = hub_store h \<and> hub_index h' = hub_index h \<and> hub_disk h' = hub_disk h"
  by (auto simp: deny_object_def serveObject_def Let_def case_prod_beta split: sum.splits option.splits if_splits)

text \<open>A critical section takes effect.\<close>

lemma serial_effect:
  assumes inv: "serial_inv h0 log S s" and ok: "locks_ok s'" and t: "t < length (th_tasks s)"
    and s': "s' = \<lparr>th_hub = h, th_auth = a, th_mutex = m, th_tasks = (th_tasks s)[t := k]\<rparr>"
    and com: "commit j S = (r, S')" and S': "hub_store S' = hub_store S" "hub_store h = hub_store S" "hub_index S' = hub_index h"
    and idx: "hub_index h = hub_index S \<or> (\<exists>it ts rss. hub_index h = idx_Update (job_ref j) it ts rss (hub_index S))"
    and res: "put_result (th_tasks s ! t) = None" "put_result k = Some r" "task_job k = Some j"
    and pend: "pending_change (hub_store S) k = None"
    and ov: "overlay ((pending_of (hub_store S) (th_tasks s))(t := None)) (hub_disk S') (hub_disk h)"
    and crit: "task_job (th_tasks s ! t) = Some j" "lock_pos (th_tasks s ! t) = Critical (job_ref j) l"
  shows "serial_inv h0 (log @ [(t, j, r)]) S' s'"
proof -
  have locks: "locks_ok s" using inv by (simp add: serial_inv_def)
  have "cleared (hub_store S') (hub_index S') ((th_tasks s)[t := k] ! u)" if u: "u < length (th_tasks s)" for u
  proof (cases "u = t")
    case True
    with res(2) u show ?thesis by (cases k) auto
  next
    case False
    note old = serial_invD(6) [OF inv u]
    show ?thesis
    proof (cases "hub_index h = hub_index S")
      case True
      with old False S' show ?thesis by simp
    next
      case upd: False
      with idx obtain it ts rss where h: "hub_index h = idx_Update (job_ref j) it ts rss (hub_index S)" by blast
      have "cleared (hub_store S) (idx_Update (job_ref j) it ts rss (hub_index S)) (th_tasks s ! u)"
      proof (cases "\<exists>j' l'. task_job (th_tasks s ! u) = Some j' \<and> lock_pos (th_tasks s ! u) = Critical (job_ref j') l'")
        case True
        then obtain j' l' where u': "task_job (th_tasks s ! u) = Some j'"
          "lock_pos (th_tasks s ! u) = Critical (job_ref j') l'" by blast
        have "job_ref j' \<noteq> job_ref j" using threads_exclude [OF locks u t u'(2)] crit(2) False by auto
        then show ?thesis using cleared_other [OF old] u'(1) by simp
      next
        case False
        then show ?thesis by (cases "th_tasks s ! u") auto
      qed
      with False S' h show ?thesis by simp
    qed
  qed
  moreover have "overlay (pending_of (hub_store S') ((th_tasks s)[t := k])) (hub_disk S') (hub_disk h)"
    using ov pend t S' by (simp add: pending_of_update)
  moreover have "logged ((th_tasks s)[t := k]) (log @ [(t, j, r)])"
    using inv logged_add [OF _ t res] by (simp add: serial_inv_def)
  moreover have "serial (map (fst \<circ> snd) (log @ [(t, j, r)])) h0 = (map (snd \<circ> snd) (log @ [(t, j, r)]), S')"
    by (rule serial_log [OF _ com]) (use inv in \<open>simp add: serial_inv_def\<close>)
  ultimately show ?thesis using ok S' by (simp add: serial_inv_def s')
qed

text \<open>The three outcomes of a critical section in one step.\<close>

lemma commit_refused:
  "checkConditionalWrite (job_world j) (job_request j) (req_header (job_request j) ''If-Match'')
     (GetMeta (hub_index S) (job_ref j)) (item_Revision (job_item j)) = Some resp \<Longrightarrow> commit j S = (resp, S)"
  by (simp add: commit_def put_commit_def)

lemma commit_failed:
  assumes "may_write j (GetMeta (hub_index S) (job_ref j))"
    and "fst (Write (job_world j) (hub_store S) (job_ref j) (job_canonical j) (job_ts j) d) = Some e"
  shows "commit j S = (writeError (job_world j) (job_request j) 500 ''internal error'' ''INTERNAL'',
     S\<lparr>hub_disk := snd (Write (job_world j) (hub_store S) (job_ref j) (job_canonical j) (job_ts j)
       (backed_up (job_world j) (hub_store S) (job_ref j) (GetMeta (hub_index S) (job_ref j)) (hub_disk S)))\<rparr>)"
proof -
  have "fst (Write (job_world j) (hub_store S) (job_ref j) (job_canonical j) (job_ts j) d') = Some e" for d'
    using assms(2) Write_err by metis
  with assms(1) show ?thesis
    by (simp add: commit_def put_commit_def may_write_def Let_def backed_up_def case_prod_beta)
qed

lemma commit_stored:
  assumes "may_write j (GetMeta (hub_index S) (job_ref j))"
    and "\<And>d. fst (Write (job_world j) (hub_store S) (job_ref j) (job_canonical j) (job_ts j) d) = None"
  obtains S' where "commit j S = (put_answer j (GetMeta (hub_index S) (job_ref j)), S')"
    "hub_store S' = hub_store S"
    "hub_index S' = idx_Update (job_ref j) (job_item j) (job_ts j) [job_realms j] (hub_index S)"
    "hub_disk S' = snd (Write (job_world j) (hub_store S) (job_ref j) (job_canonical j) (job_ts j)
       (backed_up (job_world j) (hub_store S) (job_ref j) (GetMeta (hub_index S) (job_ref j)) (hub_disk S)))"
  using assms that
  by (simp add: commit_def put_commit_def may_write_def Let_def backed_up_def case_prod_beta put_answer_def)

lemma serial_step:
  assumes step: "th_step t s = Some s'" and inv: "serial_inv h0 log S s"
  shows "\<exists>log' S'. serial_inv h0 log' S' s'"
  using step
proof (cases rule: th_stepE)
  case (1 k h a m)
  note t = 1(1) and ts = 1(2) and s' = 1(3)
  note ok = serial_invD(1) [OF inv] and ok' = locks_ok_step [OF step serial_invD(1) [OF inv]]
  note same = serial_invD(4,5) [OF inv] and ov = serial_invD(7) [OF inv] and cl = serial_invD(6) [OF inv t]
  note quiet = serial_quiet [OF inv ok' t s'] and effect = serial_effect [OF inv ok' t s']
  note ap = pending_apart [OF ok, of "hub_store S"]
  have pt: "pending_of (hub_store S) (th_tasks s) t = pending_change (hub_store S) (th_tasks s ! t)"
    using t by (simp add: pending_of_def)
  have none: "overlay ((pending_of (hub_store S) (th_tasks s))(t := None)) (hub_disk S) (hub_disk (th_hub s))"
    if "pending_change (hub_store S) (th_tasks s ! t) = None"
    using ov that pt by (simp add: fun_upd_idem)
  show ?thesis
  proof (cases "th_tasks s ! t")
    case (Put_Locked j l)
    show ?thesis
    proof (cases "checkConditionalWrite (job_world j) (job_request j) (req_header (job_request j) ''If-Match'')
        (GetMeta (hub_index S) (job_ref j)) (item_Revision (job_item j))")
      case None
      then have "k = Put_Cleared j l (GetMeta (hub_index S) (job_ref j))" "h = th_hub s"
        using ts Put_Locked same by (auto simp: put_condition_def Let_def)
      with None Put_Locked same show ?thesis
        by (intro exI [of _ log] exI [of _ S], intro quiet) (auto simp: may_write_def)
    next
      case (Some resp)
      then have "k = Put_Leaving j l resp" "h = th_hub s"
        using ts Put_Locked same by (auto simp: put_condition_def Let_def)
      with commit_refused [OF Some] Put_Locked same none show ?thesis
        by (intro exI [of _ "log @ [(t, j, resp)]"] exI [of _ S], intro effect) auto
    qed
  next
    case (Put_Cleared j l existing)
    let ?A = "own (hub_store S) (job_ref j)" and ?f = "backed_up (job_world j) (hub_store S) (job_ref j) existing"
    have k: "k = Put_Backed j l existing" and h: "h = (th_hub s)\<lparr>hub_disk := ?f (hub_disk (th_hub s))\<rparr>"
      using ts Put_Cleared same by (auto simp: backed_up_def split: option.split)
    have pend: "pending_of (hub_store S) (th_tasks s) t = None" using pt Put_Cleared by simp
    have ap': "apart ((pending_of (hub_store S) (th_tasks s))(t := Some (?A, ?f)))"
      using pending_apart [OF ok', of "hub_store S"] by (simp add: s' k pending_of_update [OF t])
    have ap'': "apart ((pending_of (hub_store S) (th_tasks s))(t := Some (?A, \<lambda>d. d)))"
      using ap' unfolding apart_def by (auto simp: local_id split: if_splits)
    have "overlay (pending_of (hub_store S) ((th_tasks s)[t := k])) (hub_disk S) (hub_disk h)"
      using overlay_extend [OF overlay_begin [OF ov pend ap'] fun_upd_same ap'' backed_up_local, of "job_world j" existing]
      by (simp add: k h pending_of_update [OF t])
    moreover have "logged ((th_tasks s)[t := k]) log"
      by (rule logged_keep [OF serial_invD(2) [OF inv] t]) (simp_all add: k Put_Cleared)
    moreover have "cleared (hub_store S) (hub_index S) ((th_tasks s)[t := k] ! u)" if "u < length (th_tasks s)" for u
      using serial_invD(6) [OF inv that] cl that t by (cases "u = t") (auto simp: k Put_Cleared)
    ultimately have "serial_inv h0 log S s'"
      using ok' same serial_invD(3) [OF inv] by (simp add: serial_inv_def s' h)
    then show ?thesis by blast
  next
    case (Put_Backed j l existing)
    let ?A = "own (hub_store S) (job_ref j)" and ?f = "backed_up (job_world j) (hub_store S) (job_ref j) existing"
    let ?g = "\<lambda>d. snd (Write (job_world j) (hub_store S) (job_ref j) (job_canonical j) (job_ts j) d)"
    have may: "existing = GetMeta (hub_index S) (job_ref j)" "may_write j existing" using cl Put_Backed by auto
    have pend: "pending_of (hub_store S) (th_tasks s) t = Some (?A, ?f)" using pt Put_Backed by simp
    note ov' = overlay_extend [OF ov pend ap Write_local, of "job_world j" "job_canonical j" "job_ts j"]
    have h: "h = (th_hub s)\<lparr>hub_disk := ?g (hub_disk (th_hub s))\<rparr>"
      using ts Put_Backed same by (auto split: prod.splits option.splits)
    show ?thesis
    proof (cases "fst (Write (job_world j) (hub_store S) (job_ref j) (job_canonical j) (job_ts j) (hub_disk (th_hub s)))")
      case None
      then have k: "k = Put_Written j l existing"
        using ts Put_Backed same by (auto split: prod.splits)
      have fine: "fst (Write (job_world j) (hub_store S) (job_ref j) (job_canonical j) (job_ts j) d) = None" for d
        using None Write_err by metis
      have "overlay (pending_of (hub_store S) ((th_tasks s)[t := k])) (hub_disk S) (hub_disk h)"
        using ov' by (simp add: k h pending_of_update [OF t])
      moreover have "logged ((th_tasks s)[t := k]) log"
        by (rule logged_keep [OF serial_invD(2) [OF inv] t]) (simp_all add: k Put_Backed)
      moreover have "cleared (hub_store S) (hub_index S) ((th_tasks s)[t := k] ! u)" if "u < length (th_tasks s)" for u
        using serial_invD(6) [OF inv that] may fine that t by (cases "u = t") (auto simp: k)
      ultimately have "serial_inv h0 log S s'"
        using ok' same serial_invD(3) [OF inv] by (simp add: serial_inv_def s' h)
      then show ?thesis by blast
    next
      case (Some e)
      let ?r = "writeError (job_world j) (job_request j) 500 ''internal error'' ''INTERNAL''"
      have k: "k = Put_Leaving j l ?r" using ts Put_Backed same Some by (auto split: prod.splits)
      note com = commit_failed [OF may(2) [unfolded may(1)] Some]
      have ap': "apart ((pending_of (hub_store S) (th_tasks s))(t := Some (?A, \<lambda>d. ?g (?f d))))"
        using ap local_comp [OF backed_up_local Write_local] pend unfolding apart_def
        by (auto split: if_splits)
      have "overlay ((pending_of (hub_store S) (th_tasks s))(t := None)) (?g (?f (hub_disk S))) (hub_disk h)"
        using overlay_commit [OF ov' fun_upd_same ap'] by (simp add: h)
      with com Put_Backed same may(1) show ?thesis
        by (intro exI [of _ "log @ [(t, j, ?r)]"] exI [of _ "S\<lparr>hub_disk := ?g (?f (hub_disk S))\<rparr>"], intro effect)
          (auto simp: k h)
    qed
  next
    case (Put_Written j l existing)
    have may: "existing = GetMeta (hub_index S) (job_ref j)" "may_write j existing"
      and fine: "\<And>d. fst (Write (job_world j) (hub_store S) (job_ref j) (job_canonical j) (job_ts j) d) = None"
      using cl Put_Written by auto
    obtain S' where S': "commit j S = (put_answer j (GetMeta (hub_index S) (job_ref j)), S')"
      "hub_store S' = hub_store S"
      "hub_index S' = idx_Update (job_ref j) (job_item j) (job_ts j) [job_realms j] (hub_index S)"
      "hub_disk S' = snd (Write (job_world j) (hub_store S) (job_ref j) (job_canonical j) (job_ts j)
         (backed_up (job_world j) (hub_store S) (job_ref j) (GetMeta (hub_index S) (job_ref j)) (hub_disk S)))"
      by (rule commit_stored [OF may(2) [unfolded may(1)] fine])
    have k: "k = Put_Indexed j l existing"
      and h: "h = (th_hub s)\<lparr>hub_index := idx_Update (job_ref j) (job_item j) (job_ts j) [job_realms j] (hub_index S)\<rparr>"
      using ts Put_Written same by auto
    have "overlay ((pending_of (hub_store S) (th_tasks s))(t := None)) (hub_disk S') (hub_disk h)"
      using overlay_commit [OF ov pt [unfolded Put_Written pending_change.simps] ap]
      by (simp add: h S'(4) may(1))
    with S' Put_Written same may(1) show ?thesis
      by (intro exI [of _ "log @ [(t, j, put_answer j existing)]"] exI [of _ S'], intro effect) (auto simp: k h)
  next
    case (Put_Arrived w r)
    have "put_result (put_arrive w r h') = None" "pending_change st (put_arrive w r h') = None"
      "cleared st idx (put_arrive w r h')" for h' st idx
      by (cases rule: put_arrive_cases [of w r h']; simp)+
    with Put_Arrived ts same show ?thesis by (intro exI [of _ log] exI [of _ S], intro quiet) auto
  next
    case (Get_Arrived w r)
    have "put_result (get_arrive w r h') = None" "pending_change st (get_arrive w r h') = None"
      "cleared st idx (get_arrive w r h')" for h' st idx
      by (auto simp: get_arrive_def Let_def split: option.split)
    with Get_Arrived ts same show ?thesis by (intro exI [of _ log] exI [of _ S], intro quiet) auto
  next
    case (Get_Allowed w r resp)
    have "put_result (get_load w r resp h') = None" "pending_change st (get_load w r resp h') = None"
      "cleared st idx (get_load w r resp h')" for h' st idx
      by (auto simp: get_load_def split: sum.split option.split)
    with Get_Allowed ts same show ?thesis by (intro exI [of _ log] exI [of _ S], intro quiet) auto
  next
    case (Other_Arrived w route r)
    have "route \<noteq> Put_Object" using ok t Other_Arrived by (force simp: locks_ok_def)
    with hub_handler_keeps [OF this, of w r "th_hub s" "th_auth s"] Other_Arrived ts same show ?thesis
      by (intro exI [of _ log] exI [of _ S], intro quiet) (auto split: prod.splits)
  qed (use ts same in \<open>auto intro!: exI [of _ log] exI [of _ S] quiet simp: Let_def
      split: if_splits pc.splits prod.splits dest!: reading_keeps\<close>)
qed

lemma serial_start: "serial_inv h [] h (th_start h a es)"
proof -
  have "task_job (arrival e) = None" "put_result (arrival e) = None" "pending_change st (arrival e) = None"
    "cleared st idx (arrival e)" for e st idx
    by (auto simp: arrival_def split: prod.split)
  then show ?thesis
    using locks_ok_start [of h a es]
    by (simp add: serial_inv_def th_start_def logged_def pending_of_def overlay_def)
qed

lemma serial_run:
  assumes "th_run ts s = Some s'" and "serial_inv h0 log S s"
  shows "\<exists>log' S'. serial_inv h0 log' S' s'"
  using assms
proof (induction ts s arbitrary: log S rule: th_run.induct)
  case (2 t ts s)
  then obtain s1 where s1: "th_step t s = Some s1" "th_run ts s1 = Some s'" by (auto split: option.splits)
  from serial_step [OF s1(1) 2(3)] obtain log1 S1 where "serial_inv h0 log1 S1 s1" by blast
  with 2(1) [OF s1] show ?case by blast
qed auto

text \<open>A thread stays with the request it started with.\<close>

fun put_event :: "hub_task \<Rightarrow> (world \<times> request) option" where
  "put_event (Put_Arrived w r) = Some (w, r)"
| "put_event k = map_option (\<lambda>j. (job_world j, job_request j)) (task_job k)"

lemma put_event_step:
  assumes "task_step t k s = Some (k', s')"
  shows "put_event k' = None \<or> put_event k' = put_event k"
proof -
  have "put_event (put_arrive w r h) = None \<or> put_event (put_arrive w r h) = Some (w, r)" for w r h
    by (cases rule: put_arrive_cases [of w r h]) simp_all
  moreover have "put_event (get_arrive w r h) = None" "put_event (get_load w r resp h) = None"
    "put_event (put_condition j l h) = Some (job_world j, job_request j)" for w r h resp j l
    by (auto simp: get_arrive_def get_load_def put_condition_def Let_def split: option.split sum.split)
  ultimately show ?thesis using assms
    by (elim task_step.elims) (auto simp: Let_def split: if_splits pc.splits option.splits prod.splits)
qed

lemma run_events:
  assumes "th_run ts s = Some s'" and "t < length (th_tasks s)"
  shows "put_event (th_tasks s' ! t) = None \<or> put_event (th_tasks s' ! t) = put_event (th_tasks s ! t)"
  using assms
proof (induction ts s rule: th_run.induct)
  case (2 u ts s)
  then obtain s1 where s1: "th_step u s = Some s1" "th_run ts s1 = Some s'" by (auto split: option.splits)
  from s1(1) obtain k h a m where k: "task_step u (th_tasks s ! u) (th_hub s, th_auth s, th_mutex s) = Some (k, h, a, m)"
    "th_tasks s1 = (th_tasks s)[u := k]" "u < length (th_tasks s)" by (elim th_stepE) auto
  have "put_event (th_tasks s1 ! t) = None \<or> put_event (th_tasks s1 ! t) = put_event (th_tasks s ! t)"
    using put_event_step [OF k(1)] k(2,3) 2(3) by (cases "u = t") auto
  moreover have "put_event (th_tasks s' ! t) = None \<or> put_event (th_tasks s' ! t) = put_event (th_tasks s1 ! t)"
    using 2(1) [OF s1] 2(3) k(2) by simp
  ultimately show ?case by metis
qed simp

lemma job_event:
  assumes "th_run ts (th_start h a es) = Some s" and "t < length es" and "task_job (th_tasks s ! t) = Some j"
  shows "es ! t = (job_world j, Put_Object, job_request j)"
proof -
  have "put_event (arrival e) = (case e of (w, route, r) \<Rightarrow> if route = Put_Object then Some (w, r) else None)" for e
    by (simp add: arrival_def split: prod.split)
  moreover have "put_event (th_tasks s ! t) = Some (job_world j, job_request j)"
    using assms(3) by (cases "th_tasks s ! t") auto
  ultimately show ?thesis using run_events [OF assms(1), of t] assms(2)
    by (auto simp: th_start_def split: prod.splits if_splits)
qed

text \<open>
  C13 Interleaved writes are serializable. However the threads of a server interleave, once every
  request is answered there is an order of the \<open>PUT\<close> requests that reached the lock in which their
  critical sections, run one after another from the same start, give every one of them the answer
  it got, and leave the same index and the same contents of every file.
\<close>
theorem writes_serializable:
  assumes "th_run ts (th_start h a es) = Some s" and "list_all (\<lambda>k. task_answer k \<noteq> None) (th_tasks s)"
  shows "\<exists>log S. distinct (map fst log) \<and>
     set log = {(t, j, r). t < length es \<and> th_tasks s ! t = Put_Answered j r} \<and>
     list_all (\<lambda>(t, j, r). es ! t = (job_world j, Put_Object, job_request j) \<and> job_ok j) log \<and>
     serial (map (fst \<circ> snd) log) h = (map (snd \<circ> snd) log, S) \<and>
     hub_index (th_hub s) = hub_index S \<and> (\<forall>p. mget (hub_disk (th_hub s)) p = mget (hub_disk S) p)"
proof -
  have len: "length (th_tasks s) = length es" using th_run_length [OF assms(1)] by (simp add: th_start_def)
  from serial_run [OF assms(1) serial_start] obtain log S where inv: "serial_inv h log S s" by blast
  note lg = serial_invD(2) [OF inv, unfolded logged_def]
  have fin: "task_answer (th_tasks s ! t) \<noteq> None" if "t < length es" for t
    using assms(2) that by (simp add: list_all_length len)
  have put: "task_job k = Some j \<and> put_result k = Some r \<longleftrightarrow> k = Put_Answered j r" if "task_answer k \<noteq> None" for k j r
    using that by (cases k) auto
  have ent: "(t, j, r) \<in> set log \<longleftrightarrow> t < length es \<and> th_tasks s ! t = Put_Answered j r" for t j r
  proof
    assume "(t, j, r) \<in> set log"
    then have "t < length es" "task_job (th_tasks s ! t) = Some j \<and> put_result (th_tasks s ! t) = Some r"
      using lg len by auto
    with put [OF fin] show "t < length es \<and> th_tasks s ! t = Put_Answered j r" by blast
  next
    assume t: "t < length es \<and> th_tasks s ! t = Put_Answered j r"
    then have "t \<in> fst ` set log" using lg len by auto
    then obtain j' r' where e: "(t, j', r') \<in> set log" by force
    with lg have "task_job (th_tasks s ! t) = Some j'" "put_result (th_tasks s ! t) = Some r'" by blast+
    with t e show "(t, j, r) \<in> set log" by simp
  qed
  have "pending_of (hub_store S) (th_tasks s) t = None" for t
  proof (cases "t < length es")
    case True
    from fin [OF this] show ?thesis by (cases "th_tasks s ! t") (auto simp: pending_of_def)
  qed (simp add: pending_of_def len)
  from overlay_none [OF this serial_invD(7) [OF inv]]
  have disk: "\<forall>p. mget (hub_disk (th_hub s)) p = mget (hub_disk S) p" by blast
  have jobs: "list_all (\<lambda>(t, j, r). es ! t = (job_world j, Put_Object, job_request j) \<and> job_ok j) log"
    unfolding list_all_iff
  proof clarify
    fix t j r assume "(t, j, r) \<in> set log"
    then have t: "t < length es" "task_job (th_tasks s ! t) = Some j" by (simp_all add: ent)
    with job_event [OF assms(1) t] locks_ok_job [OF serial_invD(1) [OF inv], of t j] len
    show "es ! t = (job_world j, Put_Object, job_request j) \<and> job_ok j" by simp
  qed
  show ?thesis
    by (rule exI [of _ log], rule exI [of _ S]) (use lg ent disk jobs serial_invD(3,5) [OF inv] in auto)
qed

section \<open>Compare and swap\<close>

text \<open>What a critical section does to the index.\<close>

lemma commit_index:
  assumes "commit j S = (resp, S')" and "job_ok j"
  shows "if resp_status resp < 400
     then may_write j (GetMeta (hub_index S) (job_ref j)) \<and>
       (\<forall>q. GetMeta (hub_index S') q = (if q = job_ref j
          then Some (meta_of (job_ref j) (job_item j) (job_ts j) (job_realms j)) else GetMeta (hub_index S) q))
     else hub_index S' = hub_index S"
  using assms(1) [unfolded commit_def]
proof (cases rule: put_commit_cases)
  case refused
  with conditional_not_ok show ?thesis by fastforce
next
  case (failed e d)
  then show ?thesis by simp
next
  case (stored d)
  have "resolved_realms (job_item j) [job_realms j] = job_realms j"
    using assms(2) by (auto simp: job_ok_def resolved_realms_def dest: accepted_realms)
  with stored show ?thesis by (simp add: may_write_def GetMeta_Update)
qed

definition at_least :: "Index \<Rightarrow> ref \<Rightarrow> int \<Rightarrow> bool" where
  "at_least idx ref n \<longleftrightarrow> (\<exists>m. GetMeta idx ref = Some m \<and> n \<le> meta_Revision m)"

lemma may_write_newer: "may_write j existing \<Longrightarrow> existing = Some m \<Longrightarrow> meta_Revision m < item_Revision (job_item j)"
  by (simp add: may_write_def checkConditionalWrite_None)

lemma may_write_tag:
  "may_write j existing \<Longrightarrow> req_header (job_request j) ''If-Match'' = revisionETag n \<Longrightarrow>
     \<exists>m. existing = Some m \<and> meta_Revision m = n"
  by (auto simp: may_write_def checkConditionalWrite_None evaluateIfMatch_etag split: option.splits if_splits)

lemma meta_of_revision [simp]: "meta_Revision (meta_of ref it ts rs) = item_Revision it"
  by (simp add: meta_of_def)

lemma commit_at_least:
  assumes "commit j S = (resp, S')" and "job_ok j" and "at_least (hub_index S) ref n"
  shows "at_least (hub_index S') ref n"
  using commit_index [OF assms(1,2)] assms(3)
  by (auto simp: at_least_def dest: may_write_newer split: if_splits)

text \<open>A later success on a reference has a greater revision, and can only name a revision that is not smaller.\<close>

lemma serial_later:
  assumes "serial js S = (rs, S')" and "list_all job_ok js" and "at_least (hub_index S) ref n"
    and "i < length js" and "job_ref (js ! i) = ref" and "resp_status (rs ! i) < 400"
  shows "n < item_Revision (job_item (js ! i)) \<and>
     (\<forall>k. req_header (job_request (js ! i)) ''If-Match'' = revisionETag k \<longrightarrow> n \<le> k)"
  using assms
proof (induction js S arbitrary: rs S' i rule: serial.induct)
  case (2 j js S)
  obtain r S1 rs1 where c: "commit j S = (r, S1)" and rs: "serial js S1 = (rs1, S')" "rs = r # rs1"
    using 2(2) by (auto split: prod.splits)
  note at1 = commit_at_least [OF c _ 2(4)]
  show ?case
  proof (cases i)
    case 0
    with 2(3,6,7) rs commit_index [OF c] have may: "may_write j (GetMeta (hub_index S) ref)" by auto
    from 2(4) obtain m where m: "GetMeta (hub_index S) ref = Some m" "n \<le> meta_Revision m" by (auto simp: at_least_def)
    with may_write_newer [OF may] may_write_tag [OF may] 0 show ?thesis by fastforce
  next
    case (Suc i')
    with 2(1) [OF c [symmetric] rs(1), of i'] 2(3,5,6,7) at1 rs(2) show ?thesis by auto
  qed
qed simp

lemma serial_increasing:
  assumes "serial js S = (rs, S')" and "list_all job_ok js" and "i < k" and "k < length js"
    and "job_ref (js ! i) = job_ref (js ! k)" and "resp_status (rs ! i) < 400" and "resp_status (rs ! k) < 400"
  shows "item_Revision (job_item (js ! i)) < item_Revision (job_item (js ! k)) \<and>
     (\<forall>n. req_header (job_request (js ! i)) ''If-Match'' = revisionETag n \<longrightarrow>
        req_header (job_request (js ! k)) ''If-Match'' \<noteq> revisionETag n)"
  using assms
proof (induction js S arbitrary: rs S' i k rule: serial.induct)
  case (2 j js S)
  obtain r S1 rs1 where c: "commit j S = (r, S1)" and rs: "serial js S1 = (rs1, S')" "rs = r # rs1"
    using 2(2) by (auto split: prod.splits)
  obtain k' where k: "k = Suc k'" using 2(4) by (cases k) auto
  show ?case
  proof (cases i)
    case 0
    let ?n = "item_Revision (job_item j)"
    from 2(3,7) rs 0 commit_index [OF c] have may: "may_write j (GetMeta (hub_index S) (job_ref j))"
      and new: "GetMeta (hub_index S1) (job_ref j) = Some (meta_of (job_ref j) (job_item j) (job_ts j) (job_realms j))"
      by auto
    then have "at_least (hub_index S1) (job_ref j) ?n" by (simp add: at_least_def)
    from serial_later [OF rs(1) _ this, of k'] 2(3,5,6,8) rs(2) k 0
    have later: "?n < item_Revision (job_item (js ! k'))"
      "\<And>n. req_header (job_request (js ! k')) ''If-Match'' = revisionETag n \<Longrightarrow> ?n \<le> n" by auto
    have "n < ?n" if "req_header (job_request j) ''If-Match'' = revisionETag n" for n
      using may_write_tag [OF may that] may_write_newer [OF may] by blast
    with later show ?thesis using 0 k by fastforce
  next
    case (Suc i')
    with 2(1) [OF c [symmetric] rs(1), of i' k'] 2(3-8) rs(2) k show ?thesis by auto
  qed
qed simp

lemma logged_index:
  assumes "logged ks log" and "t < length ks" and "ks ! t = Put_Answered j r"
  shows "\<exists>i < length log. log ! i = (t, j, r)"
proof -
  from assms have "t \<in> fst ` set log" by (auto simp: logged_def)
  then obtain j' r' where e: "(t, j', r') \<in> set log" by force
  from loggedD [OF assms(1) this] assms(3) have "j' = j" "r' = r" by simp_all
  with e show ?thesis by (simp add: in_set_conv_nth)
qed

text \<open>
  C14 No update is lost, in any interleaving. Two writes of one object that the server answered with
  success have different revisions, and if both carried \<open>If-Match\<close> they did not name the same
  revision: of the clients that edit one version of an object, at most one succeeds.
\<close>
theorem no_lost_update:
  assumes "th_run ts (th_start h a es) = Some s" and "t < length es" and "u < length es" and "t \<noteq> u"
    and "th_tasks s ! t = Put_Answered j r" and "th_tasks s ! u = Put_Answered j' r'"
    and "job_ref j = job_ref j'" and "resp_status r < 400" and "resp_status r' < 400"
  shows "item_Revision (job_item j) \<noteq> item_Revision (job_item j') \<and>
    (req_header (job_request j) ''If-Match'' = revisionETag n \<longrightarrow>
     req_header (job_request j') ''If-Match'' \<noteq> revisionETag n)"
proof -
  have len: "length (th_tasks s) = length es" using th_run_length [OF assms(1)] by (simp add: th_start_def)
  from serial_run [OF assms(1) serial_start] obtain log S where inv: "serial_inv h log S s" by blast
  note lg = serial_invD(2) [OF inv] and ser = serial_invD(3) [OF inv]
  have jobs: "list_all job_ok (map (fst \<circ> snd) log)"
    unfolding list_all_iff using loggedD(1,2) [OF lg] locks_ok_job [OF serial_invD(1) [OF inv]] by fastforce
  obtain i k where i: "i < length log" "log ! i = (t, j, r)" and k: "k < length log" "log ! k = (u, j', r')"
    using logged_index [OF lg _ assms(5)] logged_index [OF lg _ assms(6)] assms(2,3) len by auto
  with assms(4) have "i \<noteq> k" by auto
  then consider "i < k" | "k < i" by linarith
  then show ?thesis
  proof cases
    case 1
    from serial_increasing [OF ser jobs this] i k assms(7-9) show ?thesis by auto
  next
    case 2
    from serial_increasing [OF ser jobs this] i k assms(7-9) show ?thesis by auto
  qed
qed

end
