(* ===== verification/Serving_Race.thy ===== *)
theory Serving_Race
  imports Serving_Serial
begin

text \<open>
  What a reader can see while a write is under way. \<open>handleGetObject\<close> asks the index whether the caller
  may read an object and then reads the file; \<open>handlePutObject\<close> writes the file and then the index.
  Neither handler takes a lock around both, so there are schedules in which a caller is given an
  object that no hub would give it before or after the write.
\<close>

text \<open>A reader that sends no headers.\<close>

definition plain_get :: "request \<Rightarrow> bool" where
  "plain_get g \<longleftrightarrow> req_header g = (\<lambda>k. [])"

lemma plain_getD:
  assumes "plain_get g"
  shows "\<not> acceptsHTML g" "acceptsMimeType g m = False" "not_modified g e \<longleftrightarrow> e = []"
proof -
  have "trim_space (hd (split_on (CHR '';'') [])) = []" "split_on (CHR '','') [] = [[]]" by code_simp+
  then have "accept_types g = [[]]" using assms by (simp add: plain_get_def accept_types_def)
  then show "\<not> acceptsHTML g" "acceptsMimeType g m = False"
    by (simp_all add: acceptsHTML_def acceptsMimeType_def split: option.split)
  show "not_modified g e \<longleftrightarrow> e = []" using assms by (auto simp: plain_get_def not_modified_def)
qed

text \<open>It gets the stored bytes.\<close>

definition json_answer :: "int \<Rightarrow> bytes \<Rightarrow> response \<Rightarrow> response" where
  "json_answer revision data resp = write_body data (with_status 200
     (set_header ''ETag'' (revisionETag revision) (set_header ''Vary'' ''Accept'' resp)))"

lemma serve_plain:
  assumes "plain_get g" and "ParseEnvelope data = Inr (env, it)"
  shows "serveObject w g h ref data resp = (json_answer (item_Revision it) data resp, h)"
  using assms(2) plain_getD [OF assms(1)]
  by (simp add: serveObject_def selectNegotiatedRepresentation_def Let_def setCacheHeaders_def isolatedPageRef_def
      json_representation_def sr_etag_def sr_write_def json_answer_def revisionETag_def split: option.split)

section \<open>A write alone\<close>

text \<open>A write that nobody interrupts is \<open>handlePutObject\<close>, and leaves the table of locks as it was.\<close>

lemma th_step_task:
  "t < length ks \<Longrightarrow> th_step t \<lparr>th_hub = h, th_auth = a, th_mutex = m, th_tasks = ks\<rparr> =
     (case task_step t (ks ! t) (h, a, m) of None \<Rightarrow> None
      | Some (k', h', a', m') \<Rightarrow> Some \<lparr>th_hub = h', th_auth = a', th_mutex = m', th_tasks = ks[t := k']\<rparr>)"
  by (simp add: th_step_def split: option.split prod.split)

definition write_succeeds :: "put_job \<Rightarrow> hub \<Rightarrow> bool" where
  "write_succeeds j h \<longleftrightarrow> \<not> w_write_fails (job_world j) (live_path (hub_store h) (job_ref j)) \<and>
     \<not> w_chtimes_fails (job_world j) (live_path (hub_store h) (job_ref j)) \<and>
     may_write j (GetMeta (hub_index h) (job_ref j))"

lemma put_uninterrupted:
  assumes "write_succeeds j h" and "put_arrive w p h = Put_Checked j" and "km_locks m (job_ref j) = None"
    and "t < length ks" and "ks ! t = Put_Arrived w p"
  obtains m' h' where "th_run (replicate 10 t) \<lparr>th_hub = h, th_auth = a, th_mutex = m, th_tasks = ks\<rparr> =
      Some \<lparr>th_hub = h', th_auth = a, th_mutex = m',
        th_tasks = ks[t := Put_Answered j (put_answer j (GetMeta (hub_index h) (job_ref j)))]\<rparr>"
    "commit j h = (put_answer j (GetMeta (hub_index h) (job_ref j)), h')"
    "km_locks m' (job_ref j) = None"
proof -
  have ten: "replicate 10 t = [t, t, t, t, t, t, t, t, t, t]" by (simp add: numeral_eq_Suc)
  note w = assms(1) [unfolded write_succeeds_def may_write_def]
  have wr: "Write (job_world j) (hub_store h) (job_ref j) (job_canonical j) (job_ts j) d =
      (None, mput (live_path (hub_store h) (job_ref j)) (job_canonical j, job_ts j) d)" for d
    using w by (simp add: Write_def Let_def)
  note len = assms(4) th_step_task [of t "ks[t := k]" for k] th_step_task [OF assms(4)]
  note defs = ten len assms(2,3,5) lock_enter_def lock_acquire_def unlock_enter_def unlock_release_def
    put_condition_def w wr Let_def commit_def put_commit_def put_answer_def
  show ?thesis by (rule that, simp add: defs, simp add: defs, simp)
qed

text \<open>A write of the first thread, up to where the file is written but not yet indexed, and to its end.\<close>

lemma th_step_head:
  "th_step 0 \<lparr>th_hub = h, th_auth = a, th_mutex = m, th_tasks = k # ks\<rparr> =
     (case task_step 0 k (h, a, m) of None \<Rightarrow> None
      | Some (k', h', a', m') \<Rightarrow> Some \<lparr>th_hub = h', th_auth = a', th_mutex = m', th_tasks = k' # ks\<rparr>)"
  "th_step 1 \<lparr>th_hub = h, th_auth = a, th_mutex = m, th_tasks = [k, k1]\<rparr> =
     (case task_step 1 k1 (h, a, m) of None \<Rightarrow> None
      | Some (k', h', a', m') \<Rightarrow> Some \<lparr>th_hub = h', th_auth = a', th_mutex = m', th_tasks = [k, k']\<rparr>)"
  by (simp_all add: th_step_def split: option.split prod.split)

definition stored_file :: "put_job \<Rightarrow> hub \<Rightarrow> hub" where
  "stored_file j h = h\<lparr>hub_disk := mput (live_path (hub_store h) (job_ref j)) (job_canonical j, job_ts j)
     (backed_up (job_world j) (hub_store h) (job_ref j) (GetMeta (hub_index h) (job_ref j)) (hub_disk h))\<rparr>"

lemma first_lock:
  "lock_enter 0 key newKeyedMutex = \<lparr>km_locks = [key \<mapsto> 0],
     km_entries = (\<lambda>l. \<lparr>lock_held = False, lock_waiters = 0\<rparr>)(0 := \<lparr>lock_held = False, lock_waiters = 1\<rparr>),
     km_next = 1, km_pc = (\<lambda>t. Idle)(0 := Waiting key 0)\<rparr>"
  by (simp add: lock_enter_def newKeyedMutex_def Let_def)

lemma write_alone:
  assumes "write_succeeds j h" and "put_arrive w p h = Put_Checked j"
  obtains m where "th_run (replicate 6 0)
        \<lparr>th_hub = h, th_auth = a, th_mutex = newKeyedMutex, th_tasks = [Put_Arrived w p, k]\<rparr> =
      Some \<lparr>th_hub = stored_file j h, th_auth = a, th_mutex = m,
        th_tasks = [Put_Written j 0 (GetMeta (hub_index h) (job_ref j)), k]\<rparr>"
proof -
  have six: "replicate 6 (0 :: nat) = [0, 0, 0, 0, 0, 0]" by (simp add: numeral_eq_Suc)
  note w = assms(1) [unfolded write_succeeds_def may_write_def]
  have wr: "Write (job_world j) (hub_store h) (job_ref j) (job_canonical j) (job_ts j) d =
      (None, mput (live_path (hub_store h) (job_ref j)) (job_canonical j, job_ts j) d)" for d
    using w by (simp add: Write_def Let_def)
  have bk: "(case GetMeta (hub_index h) (job_ref j) of
      Some m \<Rightarrow> snd (Backup (job_world j) (hub_store h) (job_ref j) (meta_Revision m) (hub_disk h))
    | None \<Rightarrow> hub_disk h) = backed_up (job_world j) (hub_store h) (job_ref j) (GetMeta (hub_index h) (job_ref j)) (hub_disk h)"
    by (simp add: backed_up_def)
  show ?thesis
    by (rule that) (simp add: six th_step_head assms(2) first_lock lock_acquire_def
        put_condition_def w wr bk stored_file_def Let_def)
qed

section \<open>A private note\<close>

text \<open>The sample note, in the realm of its own author.\<close>

definition secret_json :: "string \<Rightarrow> json" where
  "secret_json revision = JObj [(''in'', JArr [JStr sample_key]), (''signature'', JStr ''MAYCAQMCAQQ=''),
     (''item'', sample_raw revision)]"

definition secret_body :: "string \<Rightarrow> bytes" where
  "secret_body revision = ''{\"in\":[\"'' @ sample_key @ ''\"],\"signature\":\"MAYCAQMCAQQ=\",\"item\":{\"id\":\"'' @ sample_id @
     ''\",\"pubkey\":\"'' @ sample_key @ ''\",\"created_at\":\"1970-01-01T00:00:00Z\",\"revision\":'' @ revision @
     '',\"type\":\"NOTE\"}}''"

definition secret_canonical :: "string \<Rightarrow> bytes" where
  "secret_canonical revision = ''{\"in\":[\"'' @ sample_key @ ''\"],\"item\":{\"created_at\":\"1970-01-01T00:00:00Z\",\"id\":\"'' @
     sample_id @ ''\",\"pubkey\":\"'' @ sample_key @ ''\",\"revision\":'' @ revision @
     '',\"type\":\"NOTE\"},\"signature\":\"MAYCAQMCAQQ=\"}''"

definition secret_stored_json :: "string \<Rightarrow> json" where
  "secret_stored_json revision = JObj [(''in'', JArr [JStr sample_key]),
     (''item'', JObj [(''created_at'', JStr ''1970-01-01T00:00:00Z''), (''id'', JStr sample_id),
        (''pubkey'', JStr sample_key), (''revision'', JNum revision), (''type'', JStr ''NOTE'')]),
     (''signature'', JStr ''MAYCAQMCAQQ='')]"

definition secret_job :: "string \<Rightarrow> put_job" where
  "secret_job revision = \<lparr>job_world = calm_world,
     job_request = empty_request\<lparr>req_ref := demo_ref, req_body := Some (secret_body revision)\<rparr>,
     job_item = sample_item (if revision = ''1'' then 1 else 2), job_realms = [sample_key],
     job_canonical = secret_canonical revision, job_ts = 0\<rparr>"

lemma secret_parse:
  "parse_json (secret_body ''1'') = Some (secret_json ''1'')" "parse_json (secret_body ''2'') = Some (secret_json ''2'')"
  "parse_json (secret_canonical ''1'') = Some (secret_stored_json ''1'')"
  "parse_json (secret_canonical ''2'') = Some (secret_stored_json ''2'')"
  by (rule parse_depth_json [where n = 2], code_simp, simp)+

lemma secret_decode:
  "map_option env_In (decode_Envelope (secret_json r)) = Some [sample_key]"
  "map_option env_Item (decode_Envelope (secret_json r)) = Some (Some (sample_raw r))"
  "map_option env_Signature (decode_Envelope (secret_json r)) = Some ''MAYCAQMCAQQ=''"
  by code_simp+

lemma secret_ParseEnvelope:
  obtains env where "ParseEnvelope (secret_body ''1'') = Inr (env, sample_item 1)" "env_In env = [sample_key]"
    "env_Item env = Some (sample_raw ''1'')" "env_Signature env = ''MAYCAQMCAQQ=''"
  using secret_decode [of "''1''"]
  by (auto simp: ParseEnvelope_def unmarshal_Envelope_def unmarshal_Item_def secret_parse sample_decode)

lemma secret_ParseEnvelope2:
  obtains env where "ParseEnvelope (secret_body ''2'') = Inr (env, sample_item 2)" "env_In env = [sample_key]"
    "env_Item env = Some (sample_raw ''2'')" "env_Signature env = ''MAYCAQMCAQQ=''"
  using secret_decode [of "''2''"]
  by (auto simp: ParseEnvelope_def unmarshal_Envelope_def unmarshal_Item_def secret_parse sample_decode)

lemma secret_stored:
  "\<exists>env it. ParseEnvelope (secret_canonical ''1'') = Inr (env, it)"
  "\<exists>env it. ParseEnvelope (secret_canonical ''2'') = Inr (env, it)"
proof -
  have env: "map_option env_Item (decode_Envelope (secret_stored_json r)) = Some (Some (JObj
      [(''created_at'', JStr ''1970-01-01T00:00:00Z''), (''id'', JStr sample_id),
        (''pubkey'', JStr sample_key), (''revision'', JNum r), (''type'', JStr ''NOTE'')]))" for r
    by code_simp
  have it: "decode_Item (JObj [(''created_at'', JStr ''1970-01-01T00:00:00Z''), (''id'', JStr sample_id),
        (''pubkey'', JStr sample_key), (''revision'', JNum ''1''), (''type'', JStr ''NOTE'')]) \<noteq> None"
    "decode_Item (JObj [(''created_at'', JStr ''1970-01-01T00:00:00Z''), (''id'', JStr sample_id),
        (''pubkey'', JStr sample_key), (''revision'', JNum ''2''), (''type'', JStr ''NOTE'')]) \<noteq> None"
    by code_simp+
  show "\<exists>env it. ParseEnvelope (secret_canonical ''1'') = Inr (env, it)"
    "\<exists>env it. ParseEnvelope (secret_canonical ''2'') = Inr (env, it)"
    using env [of "''1''"] env [of "''2''"] it
    by (auto simp: ParseEnvelope_def unmarshal_Envelope_def unmarshal_Item_def secret_parse)
qed

lemma secret_realm: "IsPubkeyRealm sample_key" "\<not> IsPublicObject [sample_key]"
  by code_simp+

lemma secret_accepted:
  assumes "ParseEnvelope body = Inr (env, sample_item n)" and "env_In env = [sample_key]"
    and "env_Item env = Some raw" and "canonical_tree raw \<noteq> None" and "env_Signature env = ''MAYCAQMCAQQ=''"
    and "CanonicalJSON body = Some canonical"
  shows "accepted_put calm_world demo_ref body idx (sample_item n) [sample_key] canonical 0"
proof -
  have key: "map_option length (raw_url_decode sample_key) = Some 33" by code_simp
  note sig = demo_signature_bytes
  have ne: "sample_key \<noteq> []" "sample_id \<noteq> []" by (simp_all add: sample_key_def sample_id_def)
  have "check_signature calm_world sample_key raw ''MAYCAQMCAQQ='' = None"
    using assms(4) key sig by (auto simp: check_signature_def DecompressP256_def calm_world_def)
  moreover have realms: "ResolveIn env (sample_item n) = [sample_key]" using assms(2) by (simp add: ResolveIn_def)
  ultimately have "VerifyEnvelope calm_world body = None"
    unfolding VerifyEnvelope_None using assms(1,3,5) ne by (auto simp: sample_item_def zero_Item_def)
  moreover have "''NOTE'' \<noteq> TypeSharedRealm" by code_simp
  ultimately show ?thesis
    using assms(1,6) realms secret_realm by (simp add: accepted_put_def sample_timestamp)
qed

lemma secret_arrives:
  "put_arrive calm_world (job_request (secret_job ''1'')) h = Put_Checked (secret_job ''1'')"
  "put_arrive calm_world (job_request (secret_job ''2'')) h = Put_Checked (secret_job ''2'')"
proof -
  have can: "canonical_tree (secret_json ''1'') = Some (secret_canonical ''1'')"
    "canonical_tree (secret_json ''2'') = Some (secret_canonical ''2'')"
    "canonical_tree (sample_raw ''1'') \<noteq> None" "canonical_tree (sample_raw ''2'') \<noteq> None" by code_simp+
  have len: "length (secret_body ''1'') < 1000" "length (secret_body ''2'') < 1000" by code_simp+
  have max: "maxBodySize = 10485760" by (simp add: maxBodySize_def)
  have "CanonicalJSON (secret_body ''1'') = Some (secret_canonical ''1'')"
    "CanonicalJSON (secret_body ''2'') = Some (secret_canonical ''2'')"
    using can by (simp_all add: CanonicalJSON_def secret_parse)
  then have
    "accepted_put calm_world demo_ref (secret_body ''1'') idx (sample_item 1) [sample_key] (secret_canonical ''1'') 0"
    "accepted_put calm_world demo_ref (secret_body ''2'') idx (sample_item 2) [sample_key] (secret_canonical ''2'') 0" for idx
    using secret_ParseEnvelope secret_ParseEnvelope2 secret_accepted can(3,4) by metis+
  then have
    "put_checks calm_world r demo_ref (secret_body ''1'') idx = Inr (sample_item 1, [sample_key], secret_canonical ''1'', 0)"
    "put_checks calm_world r demo_ref (secret_body ''2'') idx = Inr (sample_item 2, [sample_key], secret_canonical ''2'', 0)"
    for r idx by (simp_all add: put_checks_Inr)
  then show "put_arrive calm_world (job_request (secret_job ''1'')) h = Put_Checked (secret_job ''1'')"
    "put_arrive calm_world (job_request (secret_job ''2'')) h = Put_Checked (secret_job ''2'')"
    using len max demo_ref_valid by (simp_all add: put_arrive_def secret_job_def Let_def)
qed

section \<open>Two schedules\<close>

lemma stored_file_read:
  "\<not> w_read_fails w' (live_path (hub_store h) (job_ref j)) \<Longrightarrow>
     hub_read w' (stored_file j h) (job_ref j) = Inr (Some (job_canonical j))"
  by (simp add: hub_read_def Read_def stored_file_def Let_def)

text \<open>After the write the caller is told that there is no such object.\<close>

lemma denied_after_write:
  assumes "put_arrive w p h = Put_Checked j" and "write_succeeds j h" and "plain_get g" and "req_ref g = req_ref p"
    and "\<not> IsPublicObject (job_realms j)"
    and "\<not> CanRead (job_realms j) (req_auth g) (Resolver (hub_index (snd (handlePutObject w p h))))"
  shows "fst (handleGetObject w' g (snd (handlePutObject w p h))) = writeError w' g 404 ''object not found'' ''NOT_FOUND''"
proof -
  from assms(1) have job: "job_ok j" "job_request j = p" by (cases rule: put_arrive_cases [of w p h]; simp)+
  then have ref: "job_ref j = req_ref g" "IsValidRef (req_ref g)" using assms(4) by (auto simp: job_ref_def job_ok_def)
  have may: "may_write j (GetMeta (hub_index h) (job_ref j))"
    "\<And>d. fst (Write (job_world j) (hub_store h) (job_ref j) (job_canonical j) (job_ts j) d) = None"
    using assms(2) by (simp_all add: may_write_def write_succeeds_def Write_def Let_def)
  obtain S' where com: "commit j h = (put_answer j (GetMeta (hub_index h) (job_ref j)), S')"
    by (rule commit_stored [OF may])
  have h': "snd (handlePutObject w p h) = S'" using assms(1) com by (simp add: put_pieces)
  have "resp_status (put_answer j x) < 400" for x by (simp add: put_answer_def)
  with commit_index [OF com job(1)]
  have "GetMeta (hub_index S') (req_ref g) = Some (meta_of (job_ref j) (job_item j) (job_ts j) (job_realms j))"
    by (simp add: ref)
  from handleGetObject_denied [OF ref(2) plain_getD(1) [OF assms(3)] this, of w'] assms(5,6)
  show ?thesis by (simp add: h' meta_of_def)
qed

text \<open>
  C36 A private object is given to anybody while it is being created. For every \<open>PUT\<close> of a new private
  object that succeeds, and every caller outside its realms, there is a schedule in which the caller's
  \<open>GET\<close> answers with the object's bytes: it finds no entry in the index, falls back to the disk, and
  the file is there already. Before the write and after it the same request gets a 404.
\<close>
theorem private_read_during_write:
  assumes "put_arrive w p h = Put_Checked j" and "write_succeeds j h"
    and "plain_get g" and "req_ref g = req_ref p"
    and "GetMeta (hub_index h) (req_ref p) = None" and "hub_read w' h (req_ref p) = Inr None"
    and "ParseEnvelope (job_canonical j) = Inr (env, it)"
    and "\<not> IsPublicObject (job_realms j)"
    and "\<not> CanRead (job_realms j) (req_auth g) (Resolver (hub_index (snd (handlePutObject w p h))))"
  shows "(\<exists>ts s. th_run ts (th_start h a [(w, Put_Object, p), (w', Get_Object, g)]) = Some s \<and>
       th_tasks s ! 1 = Answered g (json_answer (item_Revision it) (job_canonical j) initial_response)) \<and>
     fst (handleGetObject w' g h) = writeError w' g 404 ''object not found'' ''NOT_FOUND'' \<and>
     fst (handleGetObject w' g (snd (handlePutObject w p h))) = writeError w' g 404 ''object not found'' ''NOT_FOUND''"
proof (intro conjI)
  from assms(1) have job: "job_ok j" "job_request j = p" by (cases rule: put_arrive_cases [of w p h]; simp)+
  then have ref: "job_ref j = req_ref g" "IsValidRef (req_ref g)" "req_ref p = req_ref g"
    using assms(4) by (auto simp: job_ref_def job_ok_def)
  show "fst (handleGetObject w' g h) = writeError w' g 404 ''object not found'' ''NOT_FOUND''"
    by (rule handleGetObject_missing) (use ref assms(5,6) in simp_all)
  show "fst (handleGetObject w' g (snd (handlePutObject w p h))) = writeError w' g 404 ''object not found'' ''NOT_FOUND''"
    by (rule denied_after_write) (use assms in simp_all)
  obtain m where six: "th_run (replicate 6 0)
        \<lparr>th_hub = h, th_auth = a, th_mutex = newKeyedMutex, th_tasks = [Put_Arrived w p, Get_Arrived w' g]\<rparr> =
      Some \<lparr>th_hub = stored_file j h, th_auth = a, th_mutex = m,
        th_tasks = [Put_Written j 0 (GetMeta (hub_index h) (job_ref j)), Get_Arrived w' g]\<rparr>"
    by (rule write_alone [OF assms(2,1)])
  have "\<not> w_read_fails w' (live_path (hub_store h) (job_ref j))"
    using assms(6) by (auto simp: hub_read_def Read_def Let_def ref split: if_splits)
  note rd = stored_file_read [OF this]
  have arr: "get_arrive w' g (stored_file j h) = Get_Allowed w' g initial_response"
    using ref assms(5) by (simp add: get_arrive_def stored_file_def Let_def)
  have load: "get_load w' g initial_response (stored_file j h) = Get_Loaded w' g initial_response (job_canonical j)"
    using rd by (simp add: get_load_def ref)
  show "\<exists>ts s. th_run ts (th_start h a [(w, Put_Object, p), (w', Get_Object, g)]) = Some s \<and>
       th_tasks s ! 1 = Answered g (json_answer (item_Revision it) (job_canonical j) initial_response)"
    by (rule exI [of _ "replicate 6 0 @ [1, 1, 1]"])
      (simp only: th_run_append, simp add: th_start_def arrival_def six th_step_head(2) [unfolded One_nat_def] arr load
        serve_plain [OF assms(3,7)])
qed

text \<open>
  A permission outlives the version it was given for. For every successful \<open>PUT\<close> that turns a public
  object into a private one, and every caller outside the new realms, there is a schedule in which
  the caller's \<open>GET\<close> is allowed on the old entry of the index and then answers with the new,
  private bytes. After the write the same request gets a 404.
\<close>
theorem permission_outlives_version:
  assumes "put_arrive w p h = Put_Checked j" and "write_succeeds j h"
    and "plain_get g" and "req_ref g = req_ref p"
    and "GetMeta (hub_index h) (req_ref p) = Some old" and "meta_IsPublic old"
    and "\<not> w_read_fails w' (live_path (hub_store h) (req_ref p))"
    and "ParseEnvelope (job_canonical j) = Inr (env, it)"
    and "\<not> IsPublicObject (job_realms j)"
    and "\<not> CanRead (job_realms j) (req_auth g) (Resolver (hub_index (snd (handlePutObject w p h))))"
  shows "(\<exists>ts s resp. th_run ts (th_start h a [(w, Put_Object, p), (w', Get_Object, g)]) = Some s \<and>
       th_tasks s ! 1 = Answered g resp \<and> resp_status resp = 200 \<and> resp_body resp = job_canonical j) \<and>
     fst (handleGetObject w' g (snd (handlePutObject w p h))) = writeError w' g 404 ''object not found'' ''NOT_FOUND''"
proof (intro conjI)
  from assms(1) have job: "job_ok j" "job_request j = p" by (cases rule: put_arrive_cases [of w p h]; simp)+
  then have ref: "job_ref j = req_ref g" "IsValidRef (req_ref g)" "req_ref p = req_ref g"
    using assms(4) by (auto simp: job_ref_def job_ok_def)
  show "fst (handleGetObject w' g (snd (handlePutObject w p h))) = writeError w' g 404 ''object not found'' ''NOT_FOUND''"
    by (rule denied_after_write) (use assms in simp_all)
  obtain e where e: "indexedNonHTMLValidator g old = Some e" "e \<noteq> []"
    using plain_getD [OF assms(3)]
    by (simp add: indexedNonHTMLValidator_def json_representation_def sr_etag_def revisionETag_def)
  let ?resp = "set_header ''ETag'' e (set_header ''Vary'' ''Accept'' initial_response)"
  have arr: "get_arrive w' g h = Get_Allowed w' g ?resp"
    using ref assms(5,6) e plain_getD [OF assms(3)] by (simp add: get_arrive_def Let_def)
  obtain m where six: "th_run (replicate 6 0)
        \<lparr>th_hub = h, th_auth = a, th_mutex = newKeyedMutex, th_tasks = [Put_Arrived w p, Get_Allowed w' g ?resp]\<rparr> =
      Some \<lparr>th_hub = stored_file j h, th_auth = a, th_mutex = m,
        th_tasks = [Put_Written j 0 (GetMeta (hub_index h) (job_ref j)), Get_Allowed w' g ?resp]\<rparr>"
    by (rule write_alone [OF assms(2,1)])
  have load: "get_load w' g ?resp (stored_file j h) = Get_Loaded w' g ?resp (job_canonical j)"
    using stored_file_read [of w' h j] assms(7) by (simp add: get_load_def ref)
  have run: "th_run ([1] @ replicate 6 0 @ [1, 1]) (th_start h a [(w, Put_Object, p), (w', Get_Object, g)]) =
      Some \<lparr>th_hub = stored_file j h, th_auth = a, th_mutex = m,
        th_tasks = [Put_Written j 0 (GetMeta (hub_index h) (job_ref j)),
          Answered g (json_answer (item_Revision it) (job_canonical j) ?resp)]\<rparr>"
    by (simp only: th_run_append, simp add: th_start_def arrival_def th_step_head(2) [unfolded One_nat_def] arr six load
        serve_plain [OF assms(3,8)])
  show "\<exists>ts s resp. th_run ts (th_start h a [(w, Put_Object, p), (w', Get_Object, g)]) = Some s \<and>
       th_tasks s ! 1 = Answered g resp \<and> resp_status resp = 200 \<and> resp_body resp = job_canonical j"
    by (rule exI, rule exI, rule exI [of _ "json_answer (item_Revision it) (job_canonical j) ?resp"], intro conjI, rule run) (simp_all add: json_answer_def)
qed

definition anonymous_get :: request where
  "anonymous_get = empty_request\<lparr>req_ref := demo_ref\<rparr>"

lemma anonymous_plain: "plain_get anonymous_get" "req_ref anonymous_get = req_ref (job_request (secret_job r))"
  "req_auth anonymous_get = []" "req_ref (job_request (secret_job r)) = demo_ref"
  by (simp_all add: plain_get_def anonymous_get_def empty_request_def secret_job_def)

lemma secret_unconditional: "req_header (job_request (secret_job r)) h = []"
  by (simp add: secret_job_def empty_request_def)

lemma no_condition: "evaluateIfMatch [] existing = ifMatchAbsent"
proof -
  have "trim_space [] = []" by code_simp
  then show ?thesis by (simp add: evaluateIfMatch_def)
qed

lemma secret_succeeds:
  "case GetMeta (hub_index h) demo_ref of None \<Rightarrow> True | Some m \<Rightarrow> meta_Revision m < item_Revision (job_item (secret_job r))
     \<Longrightarrow> write_succeeds (secret_job r) h"
  by (simp add: write_succeeds_def may_write_def checkConditionalWrite_None secret_unconditional no_condition job_ref_def anonymous_plain)
    (simp add: secret_job_def)

theorem private_read_during_write_witness:
  "\<exists>ts s it. th_run ts (th_start sample_hub (NewAuthStore hour)
       [(calm_world, Put_Object, job_request (secret_job ''1'')), (calm_world, Get_Object, anonymous_get)]) = Some s \<and>
     th_tasks s ! 1 = Answered anonymous_get (json_answer it (secret_canonical ''1'') initial_response)"
proof -
  have new: "GetMeta (hub_index sample_hub) demo_ref = None"
    using GetMeta_objs [OF indexedD [OF sample_index]] by simp
  have ok: "write_succeeds (secret_job ''1'') sample_hub" by (rule secret_succeeds) (simp add: new)
  have nofile: "hub_read calm_world sample_hub demo_ref = Inr None"
    by (simp add: sample_hub_def NewHub_def hub_read_def Read_def Let_def)
  obtain env it where e: "ParseEnvelope (job_canonical (secret_job ''1'')) = Inr (env, it)"
    using secret_stored(1) by (auto simp: secret_job_def)
  have priv: "\<not> IsPublicObject (job_realms (secret_job ''1''))" using secret_realm(2) by (simp add: secret_job_def)
  have "\<not> CanRead (job_realms (secret_job ''1'')) (req_auth anonymous_get) R" for R
    using priv by (simp add: anonymous_plain(3))
  from private_read_during_write [OF secret_arrives(1) ok anonymous_plain(1,2) _ _ e priv this,
      of calm_world "NewAuthStore hour"] new nofile
  show ?thesis by (auto simp: anonymous_plain(4)) (auto simp: secret_job_def)
qed

theorem permission_outlives_version_witness:
  "\<exists>h ts s resp. GetMeta (hub_index h) demo_ref = Some (meta_of demo_ref (sample_item 1) 0 [''dataverse001'']) \<and>
     th_run ts (th_start h (NewAuthStore hour)
       [(calm_world, Put_Object, job_request (secret_job ''2'')), (calm_world, Get_Object, anonymous_get)]) = Some s \<and>
     th_tasks s ! 1 = Answered anonymous_get resp \<and> resp_body resp = secret_canonical ''2''"
proof (rule sample_first)
  fix resp and h :: hub assume h: "hub_index h = idx_Update demo_ref (sample_item 1) 0 [[''dataverse001'']] (NewIndex (Some []))"
  let ?m = "meta_of demo_ref (sample_item 1) 0 [''dataverse001'']"
  have m: "GetMeta (hub_index h) demo_ref = Some ?m"
    by (simp add: h GetMeta_Update resolved_realms_def)
  have ok: "write_succeeds (secret_job ''2'') h"
    by (rule secret_succeeds) (simp add: m, simp add: meta_of_def secret_job_def)
  obtain env it where e: "ParseEnvelope (job_canonical (secret_job ''2'')) = Inr (env, it)"
    using secret_stored(2) by (auto simp: secret_job_def)
  have priv: "\<not> IsPublicObject (job_realms (secret_job ''2''))" using secret_realm(2) by (simp add: secret_job_def)
  have un: "\<not> CanRead (job_realms (secret_job ''2'')) (req_auth anonymous_get) R" for R
    using priv by (simp add: anonymous_plain(3))
  have "meta_IsPublic ?m" by (simp add: meta_of_def)
  from permission_outlives_version [OF secret_arrives(2) ok anonymous_plain(1,2) _ this _ e priv un,
      of calm_world "NewAuthStore hour"] m
  show ?thesis by (auto simp: anonymous_plain(4) secret_job_def intro!: exI [of _ h])
qed

section \<open>Two writers\<close>

text \<open>Both revisions of the private note, one after the other.\<close>

lemma two_writes:
  obtains s where "th_run (replicate 10 0 @ replicate 10 1) (th_start sample_hub (NewAuthStore hour)
       [(calm_world, Put_Object, job_request (secret_job ''1'')), (calm_world, Put_Object, job_request (secret_job ''2''))]) = Some s"
    "th_tasks s ! 0 = Put_Answered (secret_job ''1'') (put_answer (secret_job ''1'') None)"
    "\<exists>m. th_tasks s ! 1 = Put_Answered (secret_job ''2'') (put_answer (secret_job ''2'') (Some m))"
    "length (th_tasks s) = 2"
proof -
  let ?j1 = "secret_job ''1''" and ?j2 = "secret_job ''2''"
  have ref: "job_ref (secret_job r) = demo_ref" for r by (simp add: job_ref_def anonymous_plain)
  have new: "GetMeta (hub_index sample_hub) demo_ref = None"
    using GetMeta_objs [OF indexedD [OF sample_index]] by simp
  have ok1: "write_succeeds ?j1 sample_hub" by (rule secret_succeeds) (simp add: new)
  let ?ks = "[Put_Arrived calm_world (job_request ?j1), Put_Arrived calm_world (job_request ?j2)]"
  obtain m1 h1 where run1: "th_run (replicate 10 0) \<lparr>th_hub = sample_hub, th_auth = NewAuthStore hour,
        th_mutex = newKeyedMutex, th_tasks = ?ks\<rparr> =
      Some \<lparr>th_hub = h1, th_auth = NewAuthStore hour, th_mutex = m1,
        th_tasks = ?ks[0 := Put_Answered ?j1 (put_answer ?j1 (GetMeta (hub_index sample_hub) (job_ref ?j1)))]\<rparr>"
    and c1: "commit ?j1 sample_hub = (put_answer ?j1 (GetMeta (hub_index sample_hub) (job_ref ?j1)), h1)"
    and m1: "km_locks m1 (job_ref ?j1) = None"
    by (rule put_uninterrupted [OF ok1 secret_arrives(1), of newKeyedMutex 0 ?ks])
      (simp add: newKeyedMutex_def, simp, simp, rule that)
  have "job_ok ?j1" by (cases rule: put_arrive_cases [of calm_world "job_request ?j1" sample_hub]; simp add: secret_arrives)
  from commit_index [OF c1 this] have meta: "GetMeta (hub_index h1) demo_ref =
      Some (meta_of demo_ref (job_item ?j1) (job_ts ?j1) (job_realms ?j1))"
    by (simp add: put_answer_def ref)
  have ok2: "write_succeeds ?j2 h1"
    by (rule secret_succeeds) (simp add: meta, simp add: secret_job_def)
  let ?ks1 = "?ks[0 := Put_Answered ?j1 (put_answer ?j1 (GetMeta (hub_index sample_hub) (job_ref ?j1)))]"
  obtain m2 h2 where run2: "th_run (replicate 10 1) \<lparr>th_hub = h1, th_auth = NewAuthStore hour,
        th_mutex = m1, th_tasks = ?ks1\<rparr> =
      Some \<lparr>th_hub = h2, th_auth = NewAuthStore hour, th_mutex = m2,
        th_tasks = ?ks1[1 := Put_Answered ?j2 (put_answer ?j2 (GetMeta (hub_index h1) (job_ref ?j2)))]\<rparr>"
    by (rule put_uninterrupted [OF ok2 secret_arrives(2), of m1 1 ?ks1])
      (use m1 in \<open>simp add: ref\<close>, simp, simp, rule that)
  show ?thesis
    by (rule that [OF _ _ _ _])
      (simp only: th_run_append, simp add: th_start_def arrival_def run1 run2 [simplified], simp_all add: ref new meta, blast)
qed

theorem requests_terminate_witness:
  "\<exists>us s'. th_run ([0, 1, 0, 1] @ us) (th_start sample_hub (NewAuthStore hour)
       [(calm_world, Put_Object, job_request (secret_job ''1'')), (calm_world, Put_Object, job_request (secret_job ''2''))]) = Some s' \<and>
     list_all (\<lambda>k. task_answer k \<noteq> None) (th_tasks s')"
proof -
  let ?s = "th_start sample_hub (NewAuthStore hour)
    [(calm_world, Put_Object, job_request (secret_job ''1'')), (calm_world, Put_Object, job_request (secret_job ''2''))]"
  have "\<exists>s. th_run [0, 1, 0, 1] ?s = Some s"
    by (simp add: th_start_def arrival_def th_step_head th_step_head(2) [unfolded One_nat_def] secret_arrives first_lock)
      (simp add: lock_enter_def)
  then obtain s where s: "th_run [0, 1, 0, 1] ?s = Some s" by blast
  from requests_terminate [OF s] show ?thesis by blast
qed

theorem writes_serializable_witness:
  "\<exists>s log S. th_run (replicate 10 0 @ replicate 10 1) (th_start sample_hub (NewAuthStore hour)
       [(calm_world, Put_Object, job_request (secret_job ''1'')), (calm_world, Put_Object, job_request (secret_job ''2''))]) = Some s \<and>
     fst ` set log = {0, 1 :: thread} \<and> serial (map (fst \<circ> snd) log) sample_hub = (map (snd \<circ> snd) log, S) \<and>
     hub_index (th_hub s) = hub_index S"
proof (rule two_writes)
  fix s assume run: "th_run (replicate 10 0 @ replicate 10 1) (th_start sample_hub (NewAuthStore hour)
       [(calm_world, Put_Object, job_request (secret_job ''1'')), (calm_world, Put_Object, job_request (secret_job ''2''))]) = Some s"
    and t0: "th_tasks s ! 0 = Put_Answered (secret_job ''1'') (put_answer (secret_job ''1'') None)"
    and t1: "\<exists>m. th_tasks s ! 1 = Put_Answered (secret_job ''2'') (put_answer (secret_job ''2'') (Some m))"
    and len: "length (th_tasks s) = 2"
  have "list_all (\<lambda>k. task_answer k \<noteq> None) (th_tasks s)"
    using t0 t1 len by (auto simp: list_all_length less_2_cases_iff)
  from writes_serializable [OF run this] obtain log S where
    l: "set log = {(t, j, r). t < 2 \<and> th_tasks s ! t = Put_Answered j r}"
      "serial (map (fst \<circ> snd) log) sample_hub = (map (snd \<circ> snd) log, S)" "hub_index (th_hub s) = hub_index S"
    by (auto simp: numeral_2_eq_2)
  from t1 obtain m where t1: "th_tasks s ! 1 = Put_Answered (secret_job ''2'') (put_answer (secret_job ''2'') (Some m))" by blast
  have sub: "fst ` set log \<subseteq> {0, 1}" unfolding l(1) by (rule subsetI) auto
  have "(0, secret_job ''1'', put_answer (secret_job ''1'') None) \<in> set log"
    "(1, secret_job ''2'', put_answer (secret_job ''2'') (Some m)) \<in> set log"
    unfolding l(1) using t0 t1 by simp_all
  note mem = this [THEN imageI, of fst]
  have "fst (0 :: nat, secret_job ''1'', put_answer (secret_job ''1'') None) \<in> fst ` set log"
    "fst (1 :: nat, secret_job ''2'', put_answer (secret_job ''2'') (Some m)) \<in> fst ` set log"
    by (rule mem(1), rule mem(2))
  with sub have eq: "fst ` set log = {0, 1}" by (simp only: fst_conv) (rule equalityI, assumption, simp)
  from run eq l(2,3) show ?thesis
    by blast
qed

theorem no_lost_update_witness:
  "\<exists>s r r'. th_run (replicate 10 0 @ replicate 10 1) (th_start sample_hub (NewAuthStore hour)
       [(calm_world, Put_Object, job_request (secret_job ''1'')), (calm_world, Put_Object, job_request (secret_job ''2''))]) = Some s \<and>
     th_tasks s ! 0 = Put_Answered (secret_job ''1'') r \<and> resp_status r = 201 \<and>
     th_tasks s ! 1 = Put_Answered (secret_job ''2'') r' \<and> resp_status r' = 200 \<and>
     item_Revision (job_item (secret_job ''1'')) \<noteq> item_Revision (job_item (secret_job ''2''))"
proof (rule two_writes)
  fix s assume run: "th_run (replicate 10 0 @ replicate 10 1) (th_start sample_hub (NewAuthStore hour)
       [(calm_world, Put_Object, job_request (secret_job ''1'')), (calm_world, Put_Object, job_request (secret_job ''2''))]) = Some s"
    and t0: "th_tasks s ! 0 = Put_Answered (secret_job ''1'') (put_answer (secret_job ''1'') None)"
    and t1: "\<exists>m. th_tasks s ! 1 = Put_Answered (secret_job ''2'') (put_answer (secret_job ''2'') (Some m))"
  from t1 obtain m where t1: "th_tasks s ! 1 = Put_Answered (secret_job ''2'') (put_answer (secret_job ''2'') (Some m))" by blast
  have ref: "job_ref (secret_job r) = demo_ref" for r by (simp add: job_ref_def anonymous_plain)
  have st: "resp_status (put_answer j None) = 201" "resp_status (put_answer j (Some m)) = 200" for j
    by (simp_all add: put_answer_def)
  from no_lost_update [OF run _ _ _ t0 t1] run t0 t1 st show ?thesis by (auto simp: ref)
qed

end
