(* ===== verification/Serving_Crash.thy ===== *)
theory Serving_Crash
  imports Serving_Race
begin

text \<open>
  What is on the disk when the server is killed between two steps of its threads. The bytes of an object
  are never lost, but with backups on they may be in the backup directory only, where the next
  start does not look.
\<close>

section \<open>Bytes survive\<close>

text \<open>The bytes that may be on the disk for an object: those of the start, or of an accepted write.\<close>

definition a_version :: "hub \<Rightarrow> hub_event list \<Rightarrow> ref \<Rightarrow> bytes \<Rightarrow> bool" where
  "a_version h es ref data \<longleftrightarrow> (\<exists>t. mget (hub_disk h) (live_path (hub_store h) ref) = Some (data, t)) \<or>
     (\<exists>j. (job_world j, Put_Object, job_request j) \<in> set es \<and> job_ok j \<and> job_ref j = ref \<and> data = job_canonical j)"

definition survives :: "Store \<Rightarrow> ref \<Rightarrow> (bytes \<Rightarrow> bool) \<Rightarrow> disk \<Rightarrow> bool" where
  "survives st ref ok d \<longleftrightarrow> (\<forall>f. mget d (live_path st ref) = Some f \<longrightarrow> ok (fst f)) \<and>
     (mget d (live_path st ref) \<noteq> None \<or>
      store_backup st \<and> (\<exists>n f. mget d (backup_path st ref n) = Some f \<and> ok (fst f)))"

lemma survives_Backup:
  assumes "IsValidRef ref" and "IsValidRef q" and "survives st ref ok d"
  shows "survives st ref ok (snd (Backup w st q n d))"
proof (cases "q = ref")
  case True
  show ?thesis
    using assms(3) backup_not_live [OF assms(1,1), of st] unfolding True
    by (auto simp: survives_def Backup_def Let_def split: option.split)
next
  case False
  have eq: "mget (snd (Backup w st q n d)) p = mget d p" if "p \<in> own st ref" for p
  proof -
    have "p \<notin> own st q" using own_disjoint [OF assms(1,2)] False that by blast
    with local_toD(1) [OF backed_up_local, of p st q w "Some m" d for m] show ?thesis
      by (auto simp: own_def Backup_def Let_def split: option.split)
  qed
  have "mget (snd (Backup w st q n d)) (live_path st ref) = mget d (live_path st ref)"
    "mget (snd (Backup w st q n d)) (backup_path st ref k) = mget d (backup_path st ref k)" for k
    by (rule eq, simp add: own_def)+
  with assms(3) show ?thesis by (simp add: survives_def)
qed

lemma survives_Write:
  assumes "IsValidRef ref" and "IsValidRef q" and "survives st ref ok d" and "q = ref \<Longrightarrow> ok b"
  shows "survives st ref ok (snd (Write w st q b t d))"
proof (cases "q = ref")
  case True
  then show ?thesis using assms(3,4) by (auto simp: survives_def Write_def Let_def)
next
  case False
  have "live_path st q \<notin> own st ref" using own_disjoint [OF assms(2,1) False, of st] by (auto simp: own_def)
  then have "mget (snd (Write w st q b t d)) p = mget d p" if "p \<in> own st ref" for p
    using that by (auto simp: Write_def Let_def)
  then have "mget (snd (Write w st q b t d)) (live_path st ref) = mget d (live_path st ref)"
    "mget (snd (Write w st q b t d)) (backup_path st ref k) = mget d (backup_path st ref k)" for k
    by (simp_all add: own_def)
  with assms(3) show ?thesis by (simp add: survives_def)
qed

lemma task_step_survives:
  assumes step: "task_step t k (h, a, m) = Some (k', h', a', m')" and ok: "task_ok k" and ref: "IsValidRef ref"
    and job: "\<And>j. task_job k = Some j \<Longrightarrow> job_ref j = ref \<Longrightarrow> P (job_canonical j)"
    and old: "survives (hub_store h) ref P (hub_disk h)"
  shows "hub_store h' = hub_store h \<and> survives (hub_store h') ref P (hub_disk h')"
proof (cases k)
  case (Put_Cleared j l existing)
  then have "IsValidRef (job_ref j)" using ok by (simp add: job_ok_def)
  with Put_Cleared step old survives_Backup [OF ref this old] show ?thesis by (auto split: option.splits)
next
  case (Put_Backed j l existing)
  then have "IsValidRef (job_ref j)" using ok by (simp add: job_ok_def)
  from survives_Write [OF ref this old] job Put_Backed have
    "survives (hub_store h) ref P (snd (Write (job_world j) (hub_store h) (job_ref j) (job_canonical j) (job_ts j) (hub_disk h)))"
    by simp
  with Put_Backed step show ?thesis by (auto split: prod.splits option.splits)
next
  case (Other_Arrived w route r)
  with ok hub_handler_keeps [of route w r h a] step old show ?thesis by (auto split: prod.splits)
qed (use step old in \<open>auto simp: Let_def dest!: reading_keeps split: if_splits pc.splits prod.splits\<close>)

lemma run_survives:
  assumes "th_run ts s = Some s'" and "locks_ok s" and "IsValidRef ref"
    and "\<And>t w r. t < length (th_tasks s) \<Longrightarrow> put_event (th_tasks s ! t) = Some (w, r) \<Longrightarrow> (w, Put_Object, r) \<in> set es"
    and "\<And>j. (job_world j, Put_Object, job_request j) \<in> set es \<Longrightarrow> job_ok j \<Longrightarrow> job_ref j = ref \<Longrightarrow> P (job_canonical j)"
    and "survives (hub_store (th_hub s)) ref P (hub_disk (th_hub s))"
  shows "hub_store (th_hub s') = hub_store (th_hub s) \<and> survives (hub_store (th_hub s')) ref P (hub_disk (th_hub s'))"
  using assms(1,2,4,6)
proof (induction ts s rule: th_run.induct)
  case (2 t ts s)
  then obtain s1 where s1: "th_step t s = Some s1" "th_run ts s1 = Some s'" by (auto split: option.splits)
  from s1(1) obtain k h a m where k: "t < length (th_tasks s)"
    "task_step t (th_tasks s ! t) (th_hub s, th_auth s, th_mutex s) = Some (k, h, a, m)"
    "s1 = \<lparr>th_hub = h, th_auth = a, th_mutex = m, th_tasks = (th_tasks s)[t := k]\<rparr>" by (rule th_stepE)
  have ok: "task_ok (th_tasks s ! t)" using 2(3) k(1) by (simp add: locks_ok_def)
  have job: "P (job_canonical j)" if "task_job (th_tasks s ! t) = Some j" "job_ref j = ref" for j
  proof (rule assms(5))
    show "job_ok j" using task_ok_job [OF ok that(1)] .
    show "(job_world j, Put_Object, job_request j) \<in> set es"
      by (rule 2(4) [OF k(1)]) (use that in \<open>cases "th_tasks s ! t"; simp\<close>)
  qed (rule that(2))
  from task_step_survives [OF k(2) ok assms(3) job 2(5)]
  have new: "hub_store h = hub_store (th_hub s)" "survives (hub_store h) ref P (hub_disk h)" by auto
  have "(w, Put_Object, r) \<in> set es" if "u < length (th_tasks s1)" "put_event (th_tasks s1 ! u) = Some (w, r)" for u w r
    using that put_event_step [OF k(2)] 2(4) k(1,3) by (cases "u = t") auto
  with 2(1) [OF s1 locks_ok_step [OF s1(1) 2(3)]] new k(3) show ?case by auto
qed simp

text \<open>
  C37 The bytes of an object survive a crash. At every moment of every schedule, what the file of a
  reference holds is the version of the start or the canonical form of an accepted write. If the
  file existed at the start it still exists, or backups are on and a version is in the backup
  directory.
\<close>
theorem crash_keeps_bytes:
  assumes "th_run ts (th_start h a es) = Some s" and "IsValidRef ref"
    and "mget (hub_disk h) (live_path (hub_store h) ref) = Some f"
  shows "(\<forall>f. mget (hub_disk (th_hub s)) (live_path (hub_store h) ref) = Some f \<longrightarrow> a_version h es ref (fst f)) \<and>
    (mget (hub_disk (th_hub s)) (live_path (hub_store h) ref) \<noteq> None \<or> store_backup (hub_store h) \<and>
       (\<exists>n f. mget (hub_disk (th_hub s)) (backup_path (hub_store h) ref n) = Some f \<and> a_version h es ref (fst f)))"
proof -
  have ev: "(w, Put_Object, r) \<in> set es"
    if "t < length (th_tasks (th_start h a es))" "put_event (th_tasks (th_start h a es) ! t) = Some (w, r)" for t w r
  proof -
    from that have "es ! t = (w, Put_Object, r)" "t < length es"
      by (auto simp: th_start_def arrival_def split: prod.splits if_splits)
    then show ?thesis by (metis nth_mem)
  qed
  have "survives (hub_store h) ref (a_version h es ref) (hub_disk h)"
    using assms(3) by (cases f) (auto simp: survives_def a_version_def)
  then have start: "survives (hub_store (th_hub (th_start h a es))) ref (a_version h es ref) (hub_disk (th_hub (th_start h a es)))"
    by (simp add: th_start_def)
  have "hub_store (th_hub s) = hub_store (th_hub (th_start h a es)) \<and>
     survives (hub_store (th_hub s)) ref (a_version h es ref) (hub_disk (th_hub s))"
    by (rule run_survives [OF assms(1) locks_ok_start assms(2) ev _ start]) (auto simp: a_version_def)
  then have "survives (hub_store h) ref (a_version h es ref) (hub_disk (th_hub s))" by (auto simp: th_start_def)
  then show ?thesis by (simp add: survives_def)
qed

section \<open>But a restart may not find them\<close>

text \<open>
  C38 A crash in the middle of an update hides the object. With backups on, every update that gets past
  its checks passes a moment at which the object's only copy is the backup: a server killed there
  starts without the object, whatever its index was and although the write was never answered.
\<close>
theorem crash_hides_object:
  assumes "put_arrive w p h = Put_Checked j" and "may_write j (GetMeta (hub_index h) (req_ref p))"
    and "GetMeta (hub_index h) (req_ref p) = Some m" and "mwf (hub_disk h)"
    and "store_backup (hub_store h)" and "mget (hub_disk h) (live_path (hub_store h) (req_ref p)) = Some f"
    and "\<not> w_mkdir_fails w (join_path (store_dir (hub_store h)) ''bk'')"
    and "\<not> w_rename_fails w (live_path (hub_store h) (req_ref p))"
  shows "\<exists>ts s. th_run ts (th_start h a [(w, Put_Object, p)]) = Some s \<and>
    mget (hub_disk (th_hub s)) (backup_path (hub_store h) (req_ref p) (meta_Revision m)) = Some f \<and>
    (\<forall>w' idx n idx'. merged_ok (idx_merged idx) \<and> Rebuild w' (hub_store h) (hub_disk (th_hub s)) idx = Inr (n, idx')
       \<longrightarrow> GetMeta idx' (req_ref p) = None)"
proof -
  from assms(1) have job: "job_ok j" "job_request j = p" "job_world j = w"
    by (cases rule: put_arrive_cases [of w p h]; simp)+
  then have ref: "job_ref j = req_ref p" "IsValidRef (req_ref p)" by (auto simp: job_ref_def job_ok_def)
  let ?d = "snd (Backup w (hub_store h) (req_ref p) (meta_Revision m) (hub_disk h))"
  have "fst (Backup w (hub_store h) (req_ref p) (meta_Revision m) (hub_disk h)) = None"
    using assms(5-8) by (simp add: Backup_def Let_def)
  then have bk: "Backup w (hub_store h) (req_ref p) (meta_Revision m) (hub_disk h) = (None, ?d)"
    by (simp add: prod_eq_iff)
  note moved = Backup_moves [OF ref(2) assms(5,6) bk]
  have five: "replicate 5 (0 :: nat) = [0, 0, 0, 0, 0]" by (simp add: numeral_eq_Suc)
  have cond: "put_condition j l h = Put_Cleared j l (Some m)" for l
    using assms(2,3) job ref by (simp add: put_condition_def may_write_def Let_def)
  have run: "\<exists>s. th_run (replicate 5 0) (th_start h a [(w, Put_Object, p)]) = Some s \<and> hub_disk (th_hub s) = ?d"
    using job ref by (simp add: five th_start_def arrival_def th_step_task assms(1) first_lock lock_acquire_def cond)
  then obtain s where s: "th_run (replicate 5 0) (th_start h a [(w, Put_Object, p)]) = Some s"
    "hub_disk (th_hub s) = ?d" by blast
  have "GetMeta idx' (req_ref p) = None"
    if "merged_ok (idx_merged idx)" and rb: "Rebuild w' (hub_store h) ?d idx = Inr (n, idx')" for w' idx n idx'
  proof -
    have "represents (stored w' (hub_store h) ?d) idx'"
      by (rule Rebuild_stored [OF Backup_mwf [OF assms(4)] that])
    moreover obtain refs where "Scan w' (hub_store h) ?d = Inr refs" using rb by (auto simp: Rebuild_def split: sum.splits)
    from stored_valid [OF this ref(2)] have "stored w' (hub_store h) ?d (req_ref p) = None"
      using moved(2) by (simp add: loaded_def load_object_def Read_def Let_def split: if_split)
    ultimately show ?thesis by (simp add: GetMeta_objs)
  qed
  with s moved(1) show ?thesis by (intro exI [of _ "replicate 5 0"] exI [of _ s]) auto
qed

section \<open>A crash between backup and write\<close>

lemma sample_first_file:
  obtains h :: hub where "GetMeta (hub_index h) demo_ref = Some (meta_of demo_ref (sample_item 1) 0 [''dataverse001''])"
    "hub_store h = demo_store" "mwf (hub_disk h)"
    "mget (hub_disk h) (live_path demo_store demo_ref) = Some (sample_canonical ''1'', 0)"
proof (rule sample_first)
  fix resp and h :: hub
  assume "hub_store h = demo_store" "hub_disk h = mput (live_path demo_store demo_ref) (sample_canonical ''1'', 0) []"
    "hub_index h = idx_Update demo_ref (sample_item 1) 0 [[''dataverse001'']] (NewIndex (Some []))"
  then show thesis by (intro that [of h]) (simp_all add: GetMeta_Update resolved_realms_def)
qed

theorem crash_hides_object_witness:
  "\<exists>h ts s. GetMeta (hub_index h) demo_ref \<noteq> None \<and>
     th_run ts (th_start h (NewAuthStore hour) [(calm_world, Put_Object, job_request (secret_job ''2''))]) = Some s \<and>
     (\<forall>n idx. Rebuild calm_world demo_store (hub_disk (th_hub s)) (NewIndex None) = Inr (n, idx) \<longrightarrow>
        GetMeta idx demo_ref = None)"
proof (rule sample_first_file)
  fix h :: hub assume h: "GetMeta (hub_index h) demo_ref = Some (meta_of demo_ref (sample_item 1) 0 [''dataverse001''])"
    "hub_store h = demo_store" "mwf (hub_disk h)"
    "mget (hub_disk h) (live_path demo_store demo_ref) = Some (sample_canonical ''1'', 0)"
  let ?p = "job_request (secret_job ''2'')"
  have may: "may_write (secret_job ''2'') (GetMeta (hub_index h) (req_ref ?p))"
    using secret_succeeds [where h = h and r = "''2''"] h(1)
    by (simp add: write_succeeds_def job_ref_def anonymous_plain) (simp add: secret_job_def)
  have st: "store_backup demo_store" by (simp add: demo_store_def)
  have new: "merged_ok (idx_merged (NewIndex None))" using representsD(6) [OF NewIndex_represents [of None]] by (simp add: toml_ok_def)
  from crash_hides_object [OF secret_arrives(2) may, of "meta_of demo_ref (sample_item 1) 0 [''dataverse001'']"
      "(sample_canonical ''1'', 0)" "NewAuthStore hour"] h st new
  show ?thesis by (auto simp: anonymous_plain(4)) blast
qed

theorem crash_keeps_bytes_witness:
  "\<exists>h s. th_run (replicate 10 0) (th_start h (NewAuthStore hour) [(calm_world, Put_Object, job_request (secret_job ''2''))]) = Some s \<and>
     mget (hub_disk h) (live_path demo_store demo_ref) = Some (sample_canonical ''1'', 0) \<and>
     (mget (hub_disk (th_hub s)) (live_path demo_store demo_ref) \<noteq> None \<or>
      (\<exists>n. mget (hub_disk (th_hub s)) (backup_path demo_store demo_ref n) \<noteq> None))"
proof (rule sample_first_file)
  fix h :: hub assume h: "GetMeta (hub_index h) demo_ref = Some (meta_of demo_ref (sample_item 1) 0 [''dataverse001''])"
    "hub_store h = demo_store" "mget (hub_disk h) (live_path demo_store demo_ref) = Some (sample_canonical ''1'', 0)"
  let ?j = "secret_job ''2''"
  have ok: "write_succeeds ?j h" by (rule secret_succeeds) (simp add: h, simp add: secret_job_def)
  obtain m' h' where run: "th_run (replicate 10 0) (th_start h (NewAuthStore hour) [(calm_world, Put_Object, job_request ?j)]) =
      Some \<lparr>th_hub = h', th_auth = NewAuthStore hour, th_mutex = m',
        th_tasks = [Put_Arrived calm_world (job_request ?j)][0 := Put_Answered ?j (put_answer ?j (GetMeta (hub_index h) (job_ref ?j)))]\<rparr>"
    by (rule put_uninterrupted [OF ok secret_arrives(2), of newKeyedMutex 0 "[Put_Arrived calm_world (job_request ?j)]"])
      (simp add: newKeyedMutex_def, simp, simp, rule that, simp add: th_start_def arrival_def)
  from crash_keeps_bytes [OF run demo_ref_valid] h run show ?thesis by (auto intro!: exI [of _ h])
qed

end
