(* ===== verification/Serving_Realms.thy ===== *)
theory Serving_Realms
  imports Serving_Writes
begin

text \<open>
  Who may change a shared realm of a running hub: \<open>handlePutObject\<close> with \<open>realm/graph.go\<close>. A name begins
  with a key, and only a \<open>PUT\<close> that this key signed adds members. Reading the disk at start checks no
  signature, so the statement is about the time between two starts; and a proxy's \<open>CacheLocally\<close>, which
  verifies nothing that is new, has no such theorem.
\<close>










end
