(* ===== verification/Serving_Reparse.thy ===== *)
theory Serving_Reparse
  imports Serving_Writes
begin

text \<open>
  Two readings of one object. Struct decoding matches member names up to letter case and takes the
  last match; the canonical encoder keeps every spelling and sorts them. What is stored is the
  canonical form, so an item with two spellings of a name is read differently from disk than it was
  read when it was verified. A concrete run of write and rebuild shows what that costs.
\<close>

section \<open>An item with two public keys\<close>

text \<open>
  The key of the signer: the compressed base point of P-256, whose secret is 1. The other key is that of the
  sample note. The signature is an ECDSA signature of the item under the first key, made with that secret.
\<close>

definition forger_key :: string where
  "forger_key = ''A2sX0fLhLEJH-Lzm5WOkQPJ3A32BLeszoPShOUXYmMKW''"

definition forger_bytes :: bytes where
  "forger_bytes = [CHR 0x03, CHR 0x6B, CHR 0x17, CHR 0xD1, CHR 0xF2, CHR 0xE1, CHR 0x2C, CHR 0x42, CHR 0x47,
     CHR 0xF8, CHR 0xBC, CHR 0xE6, CHR 0xE5, CHR 0x63, CHR 0xA4, CHR 0x40, CHR 0xF2, CHR 0x77,
     CHR 0x03, CHR 0x7D, CHR 0x81, CHR 0x2D, CHR 0xEB, CHR 0x33, CHR 0xA0, CHR 0xF4, CHR 0xA1,
     CHR 0x39, CHR 0x45, CHR 0xD8, CHR 0x98, CHR 0xC2, CHR 0x96]"

definition forger_point :: point where
  "forger_point = (48439561293906451759052585252797914202762949526041747995844080717082404635286,
     36134250956749795798585127919587881956611106672985015071877198253568414405109)"

definition forged_signature :: string where
  "forged_signature = ''MEQCIF7L5NGmMwpEyPfvlR1L8WXmxrch762phftBZhvG5/1sAiAItpIIrBFhteLTnew1BrhP5M/ii4vlBlil1NYSifhsRw==''"

definition forged_rs :: "int \<times> int" where
  "forged_rs = (42877656971275811310262564894490210024759287182177196162425349131675946712428,
     3941076843222866390556768469722870043444895315594386567812973447026302282823)"

definition forged_ref :: ref where
  "forged_ref = forger_key @ ''.'' @ sample_id"

definition forged_raw :: json where
  "forged_raw = JObj [(''id'', JStr sample_id), (''pubkey'', JStr sample_key), (''Pubkey'', JStr forger_key),
     (''created_at'', JStr ''1970-01-01T00:00:00Z''), (''type'', JStr ''NOTE'')]"

definition forged_body :: bytes where
  "forged_body = ''{\"in\":[\"dataverse001\"],\"signature\":\"'' @ forged_signature @ ''\",\"item\":{\"id\":\"'' @ sample_id @
     ''\",\"pubkey\":\"'' @ sample_key @ ''\",\"Pubkey\":\"'' @ forger_key @
     ''\",\"created_at\":\"1970-01-01T00:00:00Z\",\"type\":\"NOTE\"}}''"

definition stored_raw :: json where
  "stored_raw = JObj [(''Pubkey'', JStr forger_key), (''created_at'', JStr ''1970-01-01T00:00:00Z''),
     (''id'', JStr sample_id), (''pubkey'', JStr sample_key), (''type'', JStr ''NOTE'')]"

definition stored_bytes :: bytes where
  "stored_bytes = ''{\"in\":[\"dataverse001\"],\"item\":{\"Pubkey\":\"'' @ forger_key @
     ''\",\"created_at\":\"1970-01-01T00:00:00Z\",\"id\":\"'' @ sample_id @
     ''\",\"pubkey\":\"'' @ sample_key @ ''\",\"type\":\"NOTE\"},\"signature\":\"'' @ forged_signature @ ''\"}''"

definition forged_item :: "string \<Rightarrow> Item" where
  "forged_item pubkey = zero_Item\<lparr>item_ID := sample_id, item_Pubkey := pubkey,
     item_CreatedAt := ''1970-01-01T00:00:00Z'', item_Type := ''NOTE''\<rparr>"

definition forged_envelope :: "json \<Rightarrow> Envelope" where
  "forged_envelope raw = \<lparr>env_Is = [], env_In = [''dataverse001''], env_Signature = forged_signature, env_Item = Some raw\<rparr>"

definition forged_signed :: bytes where
  "forged_signed = ''{\"Pubkey\":\"'' @ forger_key @ ''\",\"created_at\":\"1970-01-01T00:00:00Z\",\"id\":\"'' @ sample_id @
     ''\",\"pubkey\":\"'' @ sample_key @ ''\",\"type\":\"NOTE\"}''"

text \<open>What \<open>crypto/elliptic\<close> and \<open>crypto/ecdsa\<close> answer for this key and this signature.\<close>

definition forged_checks :: "world \<Rightarrow> bool" where
  "forged_checks w \<longleftrightarrow> w_point w forger_bytes = Some forger_point \<and>
     w_ecdsa w forger_point (sha256_bytes_of forged_signed) (fst forged_rs) (snd forged_rs)"

lemma forged_parse:
  "ParseEnvelope forged_body = Inr (forged_envelope forged_raw, forged_item forger_key)"
  "ParseEnvelope stored_bytes = Inr (forged_envelope stored_raw, forged_item sample_key)"
proof -
  have p: "parse_depth 2 forged_body = Some (JObj [(''in'', JArr [JStr ''dataverse001'']), (''signature'', JStr forged_signature),
      (''item'', forged_raw)])" by code_simp
  have q: "parse_depth 2 stored_bytes = Some (JObj [(''in'', JArr [JStr ''dataverse001'']), (''item'', stored_raw),
      (''signature'', JStr forged_signature)])" by code_simp
  have d: "decode_Envelope (JObj [(''in'', JArr [JStr ''dataverse001'']), (''signature'', JStr forged_signature),
      (''item'', r)]) = Some (forged_envelope r)"
    "decode_Envelope (JObj [(''in'', JArr [JStr ''dataverse001'']), (''item'', r), (''signature'', JStr forged_signature)]) =
      Some (forged_envelope r)" for r
    by code_simp+
  have i: "decode_Item forged_raw = Some (forged_item forger_key)"
    "decode_Item stored_raw = Some (forged_item sample_key)" by code_simp+
  from parse_depth_json [OF p] parse_depth_json [OF q]
  show "ParseEnvelope forged_body = Inr (forged_envelope forged_raw, forged_item forger_key)"
    "ParseEnvelope stored_bytes = Inr (forged_envelope stored_raw, forged_item sample_key)"
    by (simp_all add: ParseEnvelope_def unmarshal_Envelope_def unmarshal_Item_def d i forged_envelope_def)
qed

lemma forged_canonical: "CanonicalJSON forged_body = Some stored_bytes"
proof -
  have p: "parse_depth 2 forged_body = Some (JObj [(''in'', JArr [JStr ''dataverse001'']), (''signature'', JStr forged_signature),
      (''item'', forged_raw)])" by code_simp
  have "canonical_tree (JObj [(''in'', JArr [JStr ''dataverse001'']), (''signature'', JStr forged_signature),
      (''item'', forged_raw)]) = Some stored_bytes" by code_simp
  with parse_depth_json [OF p] show ?thesis by (simp add: CanonicalJSON_def)
qed

lemma forged_item_simps [simp]:
  "item_Pubkey (forged_item k) = k" "item_Type (forged_item k) = ''NOTE''" "item_In (forged_item k) = []"
  "item_Revision (forged_item k) = 0" "item_Ref (forged_item forger_key) = forged_ref"
  "ResolveIn (forged_envelope r) (forged_item k) = [''dataverse001'']"
  by (simp_all add: forged_item_def zero_Item_def item_Ref_def forged_ref_def ResolveIn_def forged_envelope_def)

lemma forged_verified: "forged_checks w \<Longrightarrow> VerifyEnvelope w forged_body = None"
proof -
  assume w: "forged_checks w"
  have key: "raw_url_decode forger_key = Some forger_bytes" by code_simp
  have len: "length forger_bytes = 33" by (simp add: forger_bytes_def)
  have sig: "case std_decode forged_signature of None \<Rightarrow> False | Some d \<Rightarrow> asn1_signature d = Some forged_rs" by code_simp
  have can: "canonical_tree forged_raw = Some forged_signed" by code_simp
  have ne: "forger_key \<noteq> []" "sample_id \<noteq> []" "forged_signature \<noteq> []"
    by (simp_all add: forger_key_def sample_id_def forged_signature_def)
  have "check_signature w forger_key forged_raw forged_signature = None"
  proof -
    obtain r t where rs: "forged_rs = (r, t)" by fastforce
    obtain d where d: "std_decode forged_signature = Some d" "asn1_signature d = Some (r, t)"
      using sig unfolding rs by (auto split: option.splits)
    show ?thesis using w by (simp add: check_signature_def DecompressP256_def key len can d forged_checks_def rs)
  qed
  with ne show ?thesis
    unfolding VerifyEnvelope_None forged_parse
    by (simp add: forged_item_def zero_Item_def forged_envelope_def ResolveIn_def)
qed

lemma forged_ref_valid: "IsValidRef forged_ref"
  by code_simp

lemma forged_accepted:
  assumes "forged_checks w"
  shows "accepted_put w forged_ref forged_body idx (forged_item forger_key) [''dataverse001''] stored_bytes 0"
proof -
  have "\<not> IsPubkeyRealm ''dataverse001''" "''NOTE'' \<noteq> TypeSharedRealm" by code_simp+
  moreover have "item_Timestamp (forged_item forger_key) = Some 0" by code_simp
  moreover have "ValidateRealmsForPut [''dataverse001''] pk R" for pk R by simp
  ultimately show ?thesis
    by (simp add: accepted_put_def forged_parse forged_canonical forged_verified [OF assms])
qed

definition forged_put :: request where
  "forged_put = empty_request\<lparr>req_ref := forged_ref, req_body := Some forged_body\<rparr>"

text \<open>A disk that works.\<close>

definition disk_works :: "world \<Rightarrow> bool" where
  "disk_works w \<longleftrightarrow> \<not> w_write_fails w (live_path demo_store forged_ref) \<and> \<not> w_chtimes_fails w (live_path demo_store forged_ref) \<and>
     \<not> w_read_fails w (live_path demo_store forged_ref) \<and> \<not> w_readdir_fails w (store_dir demo_store)"

lemma forged_stored:
  assumes w: "forged_checks w" and disk: "disk_works w"
  obtains resp h' where "handlePutObject w forged_put sample_hub = (resp, h')"
    and "resp_status resp = 201" and "hub_store h' = demo_store"
    and "hub_disk h' = mput (live_path demo_store forged_ref) (stored_bytes, 0) []"
    and "GetMeta (hub_index h') forged_ref = Some (meta_of forged_ref (forged_item forger_key) 0 [''dataverse001''])"
    and "merged_ok (idx_merged (hub_index h'))"
proof -
  obtain resp h' where eq: "handlePutObject w forged_put sample_hub = (resp, h')" by fastforce
  have len: "int (length forged_body) \<le> maxBodySize" by code_simp
  have commit: "handlePutObject w forged_put sample_hub = put_commit w forged_put sample_hub
      forged_ref (forged_item forger_key) [''dataverse001''] stored_bytes 0"
    using forged_accepted [OF w, of "hub_index sample_hub", folded put_checks_Inr [of _ forged_put]] len forged_ref_valid
    by (simp add: handlePutObject_def forged_put_def Let_def)
  have new: "GetMeta (hub_index sample_hub) forged_ref = None"
    using GetMeta_objs [OF indexedD [OF sample_index]] by simp
  have "trim_space [] = []" by code_simp
  then have go: "checkConditionalWrite w forged_put (req_header forged_put ''If-Match'') None 0 = None"
    by (simp add: checkConditionalWrite_None evaluateIfMatch_def forged_put_def empty_request_def)
  have h: "hub_store sample_hub = demo_store" "hub_disk sample_hub = []" "hub_index sample_hub = NewIndex (Some [])"
    by (simp_all add: sample_hub_def NewHub_def)
  have idx: "indexed [forged_ref \<mapsto> (forged_item forger_key, 0, [''dataverse001''])]
      (idx_Update forged_ref (forged_item forger_key) 0 [[''dataverse001'']] (NewIndex (Some [])))"
    using indexed_put [OF sample_index forged_accepted [OF w]] by (simp add: h)
  from eq [unfolded commit] show ?thesis
    by (cases rule: put_commit_cases)
      (use new go that [OF eq] GetMeta_objs [OF indexedD [OF idx]] representsD(6) [OF indexedD [OF idx]] in
        \<open>auto simp: h backed_up_def Write_def disk [unfolded disk_works_def] Let_def\<close>)
qed

text \<open>
  C34 An author can be forged. There is a request that is signed by one key, is accepted with 201 as an object
  of that key, and after the next start of the hub is indexed and listed as an object of another key,
  which has signed nothing: the item spells the name of its public key in two ways. The body is given byte
  for byte with its signature; all that is asked of the world is that the two libraries decompress this
  key and accept this signature, and that the disk works.
\<close>
theorem stored_author_forged:
  assumes "forged_checks w" and "disk_works w"
  shows "\<exists>h n idx. resp_status (fst (handlePutObject w forged_put sample_hub)) = 201 \<and>
     snd (handlePutObject w forged_put sample_hub) = h \<and>
     map_option meta_Pubkey (GetMeta (hub_index h) forged_ref) = Some forger_key \<and>
     Rebuild w (hub_store h) (hub_disk h) (hub_index h) = Inr (n, idx) \<and>
     list_ex (\<lambda>m. meta_Ref m = forged_ref \<and> meta_Pubkey m = sample_key) (GetByPubkey idx sample_key [] [] False)"
proof (rule forged_stored [OF assms])
  fix resp h assume put: "handlePutObject w forged_put sample_hub = (resp, h)" "resp_status resp = 201"
    and h: "hub_store h = demo_store" "hub_disk h = mput (live_path demo_store forged_ref) (stored_bytes, 0) []"
    and meta: "GetMeta (hub_index h) forged_ref = Some (meta_of forged_ref (forged_item forger_key) 0 [''dataverse001''])"
    and ok: "merged_ok (idx_merged (hub_index h))"
  obtain refs where sc: "Scan w demo_store (hub_disk h) = Inr refs"
    using assms(2) by (auto simp: Scan_def disk_works_def)
  obtain n idx where re: "Rebuild w demo_store (hub_disk h) (hub_index h) = Inr (n, idx)"
    by (cases "rebuild_scan w demo_store (hub_disk h) refs 0 (idx_cleared (hub_index h))")
      (simp add: Rebuild_def sc)
  have "mwf (hub_disk h)" by (simp add: h)
  from Rebuild_stored [OF this ok re] have rep: "represents (stored w demo_store (hub_disk h)) idx" .
  have ts: "item_Timestamp (forged_item sample_key) = Some 0" by code_simp
  have "stored w demo_store (hub_disk h) forged_ref = Some (forged_item sample_key, 0, [''dataverse001''])"
    unfolding stored_valid [OF sc forged_ref_valid]
    using assms(2)
    by (simp add: loaded_def load_object_def h(2) Read_def Let_def disk_works_def
        forged_parse ts resolved_realms_def)
  note st = this
  let ?m = "meta_of forged_ref (forged_item sample_key) 0 [''dataverse001'']"
  have "forged_ref \<in> set (idx_byPubkey idx sample_key)" using representsD(4) [OF rep] st by auto
  moreover have "mget (idx_meta idx) forged_ref = Some ?m" using representsD(2) [OF rep] st by simp
  moreover have "visible idx [] False ?m" by (simp add: visible_def meta_of_def)
  ultimately have "?m \<in> set (GetByPubkey idx sample_key [] [] False)" by (auto simp: GetByPubkey_iff)
  then have "list_ex (\<lambda>m. meta_Ref m = forged_ref \<and> meta_Pubkey m = sample_key) (GetByPubkey idx sample_key [] [] False)"
    by (auto simp: list_ex_iff meta_of_def intro!: bexI [of _ ?m])
  then show ?thesis using put meta re h by (auto simp: meta_of_def)
qed

text \<open>A world that knows one point and one signature, and accepts nothing else.\<close>

definition one_signature :: world where
  "one_signature = calm_world\<lparr>w_point := (\<lambda>b. if b = forger_bytes then Some forger_point else None),
     w_ecdsa := (\<lambda>p h r s. p = forger_point \<and> h = sha256_bytes_of forged_signed \<and> (r, s) = forged_rs)\<rparr>"

theorem stored_author_forged_witness:
  "\<exists>h n idx. snd (handlePutObject one_signature forged_put sample_hub) = h \<and>
     Rebuild one_signature (hub_store h) (hub_disk h) (hub_index h) = Inr (n, idx) \<and>
     list_ex (\<lambda>m. meta_Ref m = forged_ref \<and> meta_Pubkey m = sample_key) (GetByPubkey idx sample_key [] [] False)"
proof -
  have "forged_checks one_signature" "disk_works one_signature"
    by (simp_all add: forged_checks_def disk_works_def one_signature_def)
      (simp add: calm_world_def)
  from stored_author_forged [OF this] show ?thesis by blast
qed

end
