(* ===== verification/Serving_Overflow.thy ===== *)
theory Serving_Overflow
  imports Serving_Writes
begin

text \<open>
  The largest revision. A revision is decoded into an \<open>int\<close> of 64 bits, but the canonical form is
  printed from a \<open>float64\<close>: the revision \<open>2 ^ 63 - 1\<close> is stored as a number that no \<open>int\<close> holds. A concrete
  write shows what becomes of the object.
\<close>

abbreviation largest :: string where
  "largest \<equiv> ''9223372036854775807''"

abbreviation rounded :: string where
  "rounded \<equiv> ''9223372036854776000''"

lemma largest_parse_json: "parse_json (sample_body largest) = Some (sample_json largest)"
  by (rule parse_depth_json [where n = 2]) (code_simp, simp)

lemma largest_ParseEnvelope:
  "ParseEnvelope (sample_body largest) = Inr (sample_envelope largest, sample_item 9223372036854775807)"
proof -
  have "decode_Item (sample_raw largest) = Some (sample_item 9223372036854775807)" by code_simp
  then show ?thesis
    by (simp add: ParseEnvelope_def unmarshal_Envelope_def unmarshal_Item_def largest_parse_json sample_decode(1)
        sample_envelope_def)
qed

lemma largest_canonical_tree: "canonical_tree (sample_json largest) = Some (sample_canonical rounded)"
  by code_simp

lemma largest_CanonicalJSON: "CanonicalJSON (sample_body largest) = Some (sample_canonical rounded)"
  by (simp add: CanonicalJSON_def largest_parse_json largest_canonical_tree)

lemma largest_verified: "VerifyEnvelope calm_world (sample_body largest) = None"
proof -
  have key: "map_option length (raw_url_decode sample_key) = Some 33" by code_simp
  note sig = demo_signature_bytes
  have can: "canonical_tree (sample_raw largest) \<noteq> None" by code_simp
  have "sample_key \<noteq> []" "sample_id \<noteq> []" by (simp_all add: sample_key_def sample_id_def)
  moreover have "check_signature calm_world sample_key (sample_raw largest) ''MAYCAQMCAQQ='' = None"
    using can key sig by (auto simp: check_signature_def DecompressP256_def calm_world_def)
  ultimately show ?thesis
    unfolding VerifyEnvelope_None largest_ParseEnvelope
    by (simp add: sample_item_def zero_Item_def sample_envelope_def ResolveIn_def)
qed

lemma rounded_unreadable: "\<exists>e. ParseEnvelope (sample_canonical rounded) = Inl e"
proof -
  let ?item = "JObj [(''created_at'', JStr ''1970-01-01T00:00:00Z''), (''id'', JStr sample_id),
      (''pubkey'', JStr sample_key), (''revision'', JNum rounded), (''type'', JStr ''NOTE'')]"
  let ?j = "JObj [(''in'', JArr [JStr ''dataverse001'']), (''item'', ?item), (''signature'', JStr ''MAYCAQMCAQQ='')]"
  have "parse_json (sample_canonical rounded) = Some ?j"
    by (rule parse_depth_json [where n = 2]) (code_simp, simp)
  moreover have "map_option env_Item (decode_Envelope ?j) = Some (Some ?item)" by code_simp
  moreover have "decode_Item ?item = None" by code_simp
  ultimately show ?thesis by (auto simp: ParseEnvelope_def unmarshal_Envelope_def unmarshal_Item_def)
qed

lemma largest_accepted:
  "accepted_put calm_world demo_ref (sample_body largest) idx (sample_item 9223372036854775807) [''dataverse001'']
     (sample_canonical rounded) 0"
proof -
  have "\<not> IsPubkeyRealm ''dataverse001''" "''NOTE'' \<noteq> TypeSharedRealm" by code_simp+
  moreover have "ValidateRealmsForPut [''dataverse001''] pk R" for pk R by simp
  ultimately show ?thesis
    by (simp add: accepted_put_def largest_ParseEnvelope largest_CanonicalJSON largest_verified sample_timestamp)
qed

lemma largest_stored:
  obtains resp h where "handlePutObject calm_world (sample_put largest) sample_hub = (resp, h)" and "resp_status resp = 201"
    and "hub_store h = demo_store" and "hub_disk h = mput (live_path demo_store demo_ref) (sample_canonical rounded, 0) []"
    and "GetMeta (hub_index h) demo_ref = Some (meta_of demo_ref (sample_item 9223372036854775807) 0 [''dataverse001''])"
proof -
  obtain resp h where eq: "handlePutObject calm_world (sample_put largest) sample_hub = (resp, h)" by fastforce
  have "int (length (sample_body largest)) \<le> maxBodySize" by code_simp
  with eq have commit: "put_commit calm_world (sample_put largest) sample_hub demo_ref (sample_item 9223372036854775807)
      [''dataverse001''] (sample_canonical rounded) 0 = (resp, h)"
    using largest_accepted [of "hub_index sample_hub", folded put_checks_Inr [of _ "sample_put largest"]] demo_ref_valid
    by (simp add: handlePutObject_def sample_put_def Let_def)
  have new: "GetMeta (hub_index sample_hub) demo_ref = None"
    using GetMeta_objs [OF indexedD [OF sample_index]] by simp
  have go: "checkConditionalWrite calm_world (sample_put largest) (req_header (sample_put largest) ''If-Match'') None
      9223372036854775807 = None" unfolding sample_unconditional by simp
  have h: "hub_store sample_hub = demo_store" "hub_disk sample_hub = []" "hub_index sample_hub = NewIndex (Some [])"
    by (simp_all add: sample_hub_def NewHub_def)
  have "GetMeta (idx_Update demo_ref (sample_item 9223372036854775807) 0 [[''dataverse001'']] (hub_index sample_hub)) demo_ref =
      Some (meta_of demo_ref (sample_item 9223372036854775807) 0 [''dataverse001''])"
    using GetMeta_objs [OF indexedD [OF indexed_put [OF sample_index largest_accepted]]] by simp
  with commit show ?thesis
    by (cases rule: put_commit_cases)
      (use new go that [OF eq] in \<open>auto simp: h backed_up_def Write_def Let_def\<close>)
qed

lemma atoi_bounds: "atoi s = Some v \<Longrightarrow> int64_min \<le> v \<and> v \<le> int64_max"
  by (simp add: atoi_def Let_def split: list.splits if_splits)

lemma dec_int_bounds: "int64_min \<le> v \<and> v \<le> int64_max \<Longrightarrow> dec_int v j = (v', ok) \<Longrightarrow> int64_min \<le> v' \<and> v' \<le> int64_max"
  by (auto simp: dec_int_def dest: atoi_bounds split: json.splits option.splits)

lemma decode_int_bounds:
  assumes "decode_field dec_int 0 n ms = (v, ok)"
  shows "int64_min \<le> v \<and> v \<le> int64_max"
proof -
  have "int64_min \<le> u \<and> u \<le> int64_max \<Longrightarrow>
      int64_min \<le> fst (foldl (\<lambda>(v, ok) j. let (v', ok') = dec_int v j in (v', ok \<and> ok')) (u, b) js) \<and>
      fst (foldl (\<lambda>(v, ok) j. let (v', ok') = dec_int v j in (v', ok \<and> ok')) (u, b) js) \<le> int64_max" for u b js
  proof (induction js arbitrary: u b)
    case (Cons j js)
    then show ?case using dec_int_bounds [OF Cons.prems, of j] by (cases "dec_int u j") auto
  qed simp
  from this [of 0 True "field_vals n ms"] assms show ?thesis
    by (simp add: decode_field_def int64_min_def int64_max_def)
qed

lemma decoded_revision: "decode_Item j = Some it \<Longrightarrow> item_Revision it \<le> int64_max"
  using decode_int_bounds
  by (fastforce simp: decode_Item_def zero_Item_def int64_max_def split: json.splits prod.splits if_splits)

lemma accepted_revision:
  assumes "accepted_put w ref body idx it realms canonical ts"
  shows "item_Revision it \<le> int64_max"
proof -
  from assms obtain env where "ParseEnvelope body = Inr (env, it)" by (auto simp: accepted_put_def)
  then show ?thesis
    by (auto simp: ParseEnvelope_def unmarshal_Item_def decoded_revision split: sum.splits option.splits)
qed

lemma largest_final:
  assumes "GetMeta (hub_index h) (req_ref r) = Some m" and "meta_Revision m = int64_max"
  shows "400 \<le> resp_status (fst (handlePutObject w r h)) \<and> snd (handlePutObject w r h) = h"
proof -
  obtain resp h' where eq: "handlePutObject w r h = (resp, h')" by fastforce
  then have "400 \<le> resp_status resp \<and> h' = h"
  proof (cases rule: put_cases)
    case (committed body it realms canonical ts)
    have "checkConditionalWrite w r (req_header r ''If-Match'') (Some m) (item_Revision it) \<noteq> None"
      using accepted_revision [OF committed(4)] assms(2) by (simp add: checkConditionalWrite_def)
    with committed(5) assms(1) show ?thesis
      by (cases rule: put_commit_cases) (auto dest: conditional_not_ok)
  qed simp
  with eq show ?thesis by simp
qed

text \<open>
  C35 A write is acknowledged that nobody can read. There is a signed object, with the largest revision
  an \<open>int\<close> can hold, that the hub accepts with 201 and indexes; a \<open>GET\<close> of it is answered with 500, the
  next start of the hub leaves it out of the index, and every later \<open>PUT\<close> to its reference is refused
  and changes nothing.
\<close>
theorem largest_revision_unreadable:
  "\<exists>resp h. handlePutObject calm_world (sample_put largest) sample_hub = (resp, h) \<and> resp_status resp = 201 \<and>
     resp_status (fst (handleGetObject calm_world (empty_request\<lparr>req_ref := demo_ref\<rparr>) h)) = 500 \<and>
     load_object calm_world (hub_store h) (hub_disk h) demo_ref = None \<and>
     (\<forall>w r. 400 \<le> resp_status (fst (handlePutObject w (r\<lparr>req_ref := demo_ref\<rparr>) h)) \<and>
        snd (handlePutObject w (r\<lparr>req_ref := demo_ref\<rparr>) h) = h)"
proof (rule largest_stored)
  fix resp h
  let ?m = "meta_of demo_ref (sample_item 9223372036854775807) 0 [''dataverse001'']"
  assume put: "handlePutObject calm_world (sample_put largest) sample_hub = (resp, h)" "resp_status resp = 201"
    and h: "hub_store h = demo_store" "hub_disk h = mput (live_path demo_store demo_ref) (sample_canonical rounded, 0) []"
    and meta: "GetMeta (hub_index h) demo_ref = Some ?m"
  have read: "hub_read calm_world h demo_ref = Inr (Some (sample_canonical rounded))"
    by (simp add: hub_read_def Read_def h Let_def calm_world_def)
  obtain e where bad: "ParseEnvelope (sample_canonical rounded) = Inl e" using rounded_unreadable by blast
  have "IsPublicObject [''dataverse001'']" by code_simp
  then have public: "meta_IsPublic ?m" by (simp add: meta_of_def)
  have status: "resp_status (WriteProblem w r n d c x) = n" for w r n d c x by (simp add: WriteProblem_def Let_def)
  have "[] \<noteq> sr_etag s n" for s n by (simp add: sr_etag_def split: representationKind.split)
  then have "resp_status (fst (handleGetObject calm_world (empty_request\<lparr>req_ref := demo_ref\<rparr>) h)) = 500"
    using demo_ref_valid meta read bad public
    by (auto simp: handleGetObject_def read_and_serve_def serveObject_def status not_modified_def
        indexedNonHTMLValidator_def empty_request_def Let_def)
  moreover have "load_object calm_world (hub_store h) (hub_disk h) demo_ref = None"
    using read bad by (simp add: load_object_def hub_read_def)
  moreover have "meta_Revision ?m = int64_max" by (simp add: meta_of_def sample_item_def int64_max_def)
  then have "400 \<le> resp_status (fst (handlePutObject w (r\<lparr>req_ref := demo_ref\<rparr>) h)) \<and>
      snd (handlePutObject w (r\<lparr>req_ref := demo_ref\<rparr>) h) = h" for w r
    using largest_final [of h "r\<lparr>req_ref := demo_ref\<rparr>" ?m w] meta by simp
  ultimately show ?thesis using put by blast
qed

end
