(* ===== verification/Login_Client.thy ===== *)
theory Login_Client
  imports Auth_Tokens Serving_Paginate
begin

text \<open>
  The script of the login page (\<open>serving/private_page_login.go\<close>), which runs in the browser: the
  bytes of a key and a signature, the arithmetic of P-256 and the exchange with the server. A
  \<open>Uint8Array\<close> is a string, a \<open>BigInt\<close> an integer, and \<open>None\<close> an exception; \<open>crypto.subtle\<close> is a
  parameter. The lemmas compose the script with the handlers of \<open>auth/auth.go\<close>.
\<close>

section \<open>Bytes\<close>

definition bytesToBigInt :: "bytes \<Rightarrow> int option" where
  "bytesToBigInt b = (if b = [] then None else Some (unsigned_be b))"

text \<open>\<open>n.toString(16)\<close> has this many digits; the first \<open>2 * len\<close> of them are used.\<close>

fun hex_length :: "nat \<Rightarrow> nat" where
  "hex_length n = (if n < 16 then 1 else Suc (hex_length (n div 16)))"

declare hex_length.simps [simp del]

definition bigIntToBytes :: "int \<Rightarrow> nat \<Rightarrow> bytes" where
  "bigIntToBytes n len =
     (let shown = n div 16 ^ (max (hex_length (nat n)) (2 * len) - 2 * len)
      in map (\<lambda>i. char_of (shown div 256 ^ (len - Suc i) mod 256)) [0..<len])"

text \<open>\<open>btoa\<close>, and the text without padding in the alphabet of URLs.\<close>

definition btoa :: "bytes \<Rightarrow> string" where
  "btoa b = map (b64_char False) (b64_pack (map of_char b)) @ replicate ((3 - length b mod 3) mod 3) (CHR ''='')"

definition url_char :: "char \<Rightarrow> char" where
  "url_char c = (if c = CHR ''+'' then CHR ''-'' else if c = CHR ''/'' then CHR ''_'' else c)"

definition base64urlEncode :: "bytes \<Rightarrow> string" where
  "base64urlEncode b = rev (dropWhile (\<lambda>c. c = CHR ''='') (rev (map url_char (btoa b))))"

definition bytesToBase64 :: "bytes \<Rightarrow> string" where
  "bytesToBase64 b = btoa b"

section \<open>Signatures\<close>

fun strip_leading :: "bytes \<Rightarrow> bytes" where
  "strip_leading (c # d # r) = (if ord_of c = 0 then strip_leading (d # r) else c # d # r)"
| "strip_leading s = s"

definition encInt :: "bytes \<Rightarrow> bytes" where
  "encInt b = (let t = strip_leading b in
     case t of [] \<Rightarrow> [] | c # r \<Rightarrow> if 128 \<le> ord_of c then CHR 0x00 # t else t)"

definition p1363ToDer :: "bytes \<Rightarrow> bytes" where
  "p1363ToDer sig =
     (let rD = encInt (take 32 sig); sD = encInt (take 32 (drop 32 sig));
          inner = [CHR 0x02, char_of (length rD)] @ rD @ [CHR 0x02, char_of (length sD)] @ sD
      in [CHR 0x30, char_of (length inner)] @ inner)"

section \<open>Arithmetic\<close>

text \<open>Division and remainder of \<open>BigInt\<close>, which cut towards zero.\<close>

definition js_div :: "int \<Rightarrow> int \<Rightarrow> int" where
  "js_div a b = sgn a * sgn b * (\<bar>a\<bar> div \<bar>b\<bar>)"

definition js_rem :: "int \<Rightarrow> int \<Rightarrow> int" where
  "js_rem a b = a - js_div a b * b"

definition P256_P :: int where
  "P256_P = 0xFFFFFFFF00000001000000000000000000000000FFFFFFFFFFFFFFFFFFFFFFFF"

definition P256_A :: int where
  "P256_A = P256_P - 3"

definition P256_N :: int where
  "P256_N = 0xFFFFFFFF00000000FFFFFFFFFFFFFFFFBCE6FAADA7179E84F3B9CAC2FC632551"

definition P256_G :: point where
  "P256_G = (0x6B17D1F2E12C4247F8BCE6E563A440F277037D812DEB33A0F4A13945D898C296,
     0x4FE342E2FE1A7F9B8EE7EB4A7C0F9E162BCE33576B315ECECBB6406837BF51F5)"

definition modP :: "int \<Rightarrow> int" where
  "modP a = js_rem (js_rem a P256_P + P256_P) P256_P"

lemma js_rem_abs: "b \<noteq> 0 \<Longrightarrow> \<bar>js_rem a b\<bar> < \<bar>b\<bar>"
proof -
  assume b: "b \<noteq> 0"
  have "js_rem a b = sgn a * (\<bar>a\<bar> - \<bar>a\<bar> div \<bar>b\<bar> * \<bar>b\<bar>)"
    by (simp add: js_rem_def js_div_def algebra_simps sgn_mult_abs abs_mult_sgn mult_sgn_abs)
      (metis abs_sgn mult.commute mult.left_commute)
  also have "\<bar>a\<bar> - \<bar>a\<bar> div \<bar>b\<bar> * \<bar>b\<bar> = \<bar>a\<bar> mod \<bar>b\<bar>" by (simp add: minus_div_mult_eq_mod)
  finally have "\<bar>js_rem a b\<bar> \<le> \<bar>a\<bar> mod \<bar>b\<bar>"
    using b pos_mod_sign [of "\<bar>b\<bar>" "\<bar>a\<bar>"] by (simp add: abs_mult sgn_if)
  also have "\<dots> < \<bar>b\<bar>" using b by simp
  finally show ?thesis .
qed

lemma js_rem_nonneg: "0 \<le> a \<Longrightarrow> 0 < b \<Longrightarrow> js_rem a b = a mod b"
  by (simp add: js_rem_def js_div_def sgn_if minus_div_mult_eq_mod)

lemma js_wrapped: "0 < m \<Longrightarrow> js_rem (js_rem a m + m) m = a mod m"
proof -
  assume m: "0 < m"
  have "- m < js_rem a m" using js_rem_abs [of m a] m by linarith
  then have "js_rem (js_rem a m + m) m = (js_rem a m + m) mod m" using m by (intro js_rem_nonneg) auto
  also have "\<dots> = a mod m" unfolding js_rem_def by (simp add: mod_diff_eq [symmetric])
  finally show ?thesis .
qed

lemma modP_mod: "modP a = a mod P256_P"
  by (simp add: modP_def js_wrapped P256_P_def)

text \<open>The loop of \<open>modInv\<close> on \<open>oldR\<close>, \<open>r\<close>, \<open>oldS\<close> and \<open>s\<close>.\<close>

function inv_loop :: "int \<Rightarrow> int \<Rightarrow> int \<Rightarrow> int \<Rightarrow> int" where
  "inv_loop oldR r oldS s = (if r = 0 then oldS
     else let q = js_div oldR r in inv_loop r (oldR - q * r) s (oldS - q * s))"
  by pat_completeness auto

termination
proof (relation "measure (\<lambda>(oldR, r, oldS, s). nat \<bar>r\<bar>)")
  fix oldR r oldS s q :: int
  assume "r \<noteq> 0" and "q = js_div oldR r"
  then have "\<bar>oldR - q * r\<bar> < \<bar>r\<bar>" using js_rem_abs [of r oldR] by (simp add: js_rem_def)
  then show "((r, oldR - q * r, s, oldS - q * s), oldR, r, oldS, s) \<in> measure (\<lambda>(oldR, r, oldS, s). nat \<bar>r\<bar>)"
    by simp
qed simp

declare inv_loop.simps [simp del]

definition modInv :: "int \<Rightarrow> int \<Rightarrow> int" where
  "modInv a m = (let oldS = inv_loop (js_rem (js_rem a m + m) m) m 1 0 in js_rem (js_rem oldS m + m) m)"

definition ecAdd :: "point option \<Rightarrow> point option \<Rightarrow> point option" where
  "ecAdd p q = (case (p, q) of
      (None, q) \<Rightarrow> q
    | (p, None) \<Rightarrow> p
    | (Some (x1, y1), Some (x2, y2)) \<Rightarrow>
        (let add = (\<lambda>lam. let x3 = modP (lam * lam - x1 - x2) in Some (x3, modP (lam * (x1 - x3) - y1)))
         in if x1 = x2 \<and> y1 = y2 then
              if y1 = 0 then None else add (modP ((3 * x1 * x1 + P256_A) * modInv (2 * y1) P256_P))
            else if x1 = x2 then None
            else add (modP ((y2 - y1) * modInv (js_rem (js_rem (x2 - x1) P256_P + P256_P) P256_P) P256_P))))"

text \<open>The loop of \<open>ecMul\<close>, with \<open>(rx, ry)\<close> and \<open>(qx, qy)\<close>.\<close>

function mul_loop :: "int \<Rightarrow> point option \<Rightarrow> point option \<Rightarrow> point option" where
  "mul_loop k p q = (if k \<le> 0 then p
     else mul_loop (k div 2) (if k mod 2 = 1 then ecAdd p q else p) (ecAdd q q))"
  by pat_completeness auto

termination
  by (relation "measure (\<lambda>(k, p, q). nat k)") auto

declare mul_loop.simps [simp del]

definition ecMul :: "int \<Rightarrow> point \<Rightarrow> point option" where
  "ecMul k p = mul_loop k None (Some p)"

definition compressPoint :: "int \<Rightarrow> int \<Rightarrow> bytes" where
  "compressPoint x y = (if y mod 2 = 1 then CHR 0x03 else CHR 0x02) # bigIntToBytes x 32"

text \<open>
  \<open>deriveKeypair\<close> from the 32 bytes that PBKDF2 gave: the scalar, and the public key as the server
  knows it. A scalar whose point is at infinity throws.
\<close>

definition derive_scalar :: "bytes \<Rightarrow> int option" where
  "derive_scalar seed = map_option (\<lambda>n. js_rem n (P256_N - 1) + 1) (bytesToBigInt seed)"

definition deriveKeypair :: "bytes \<Rightarrow> (int \<times> string) option" where
  "deriveKeypair seed = Option.bind (derive_scalar seed) (\<lambda>d.
     map_option (\<lambda>(x, y). (d, base64urlEncode (compressPoint x y))) (ecMul d P256_G))"

section \<open>The exchange with the server\<close>

text \<open>\<open>challengeResp.json()\<close> and its member: the last one of the name.\<close>

definition json_challenge :: "bytes \<Rightarrow> string option" where
  "json_challenge body = (case parse_json body of
      Some (JObj ms) \<Rightarrow> (case map_of (rev ms) ''challenge'' of Some (JStr c) \<Rightarrow> Some c | _ \<Rightarrow> None)
    | _ \<Rightarrow> None)"

definition token_body :: "string \<Rightarrow> string \<Rightarrow> bytes \<Rightarrow> bytes" where
  "token_body pubkey challenge derSig = print_json False (JObj [(''pubkey'', JStr pubkey),
     (''challenge'', JStr challenge), (''signature'', JStr (bytesToBase64 derSig))])"

datatype login_error = Challenge_Request_Failed int | No_Challenge | Token_Exchange_Failed int

definition resp_ok :: "response \<Rightarrow> bool" where
  "resp_ok resp \<longleftrightarrow> 200 \<le> resp_status resp \<and> resp_status resp \<le> 299"

text \<open>
  \<open>authenticate\<close> against the token store, at the two moments at which its requests are answered;
  \<open>meanwhile\<close> is what other requests do to the store between them.
\<close>

definition authenticate ::
  "(bytes \<Rightarrow> bytes) \<Rightarrow> string \<Rightarrow> world \<Rightarrow> (AuthStore \<Rightarrow> AuthStore) \<Rightarrow> world \<Rightarrow> request \<Rightarrow> AuthStore
     \<Rightarrow> (login_error + response) \<times> AuthStore" where
  "authenticate sign pubkey w1 meanwhile w2 r a =
     (case HandleChallenge w1 r a of (resp, a) \<Rightarrow>
        if \<not> resp_ok resp then (Inl (Challenge_Request_Failed (resp_status resp)), a)
        else (case json_challenge (resp_body resp) of
            None \<Rightarrow> (Inl No_Challenge, a)
          | Some challenge \<Rightarrow>
              (let derSig = p1363ToDer (sign challenge)
               in case HandleToken w2 (r\<lparr>req_body := Some (token_body pubkey challenge derSig)\<rparr>) (meanwhile a) of
                 (resp, a) \<Rightarrow> (if resp_ok resp then Inr resp else Inl (Token_Exchange_Failed (resp_status resp)), a))))"

section \<open>A signature in DER is read as it was written\<close>

lemma unsigned_be_zero [simp]: "ord_of c = 0 \<Longrightarrow> unsigned_be (c # s) = unsigned_be s"
  by (simp add: unsigned_be_Cons)

lemma strip_leading_value: "unsigned_be (strip_leading s) = unsigned_be s"
  by (induction s rule: strip_leading.induct) auto

lemma strip_leading_shape:
  "s \<noteq> [] \<Longrightarrow> strip_leading s \<noteq> [] \<and> length (strip_leading s) \<le> length s \<and>
     (\<forall>c d r. strip_leading s = c # d # r \<longrightarrow> ord_of c \<noteq> 0)"
  by (induction s rule: strip_leading.induct) auto

lemma der_integer_encInt:
  assumes "s \<noteq> []"
  shows "der_integer (encInt s) = Some (unsigned_be s) \<and> encInt s \<noteq> [] \<and> length (encInt s) \<le> Suc (length s)"
proof -
  obtain c t where t: "strip_leading s = c # t" using strip_leading_shape [OF assms] by (cases "strip_leading s") auto
  have len: "length t < length s" using strip_leading_shape [OF assms] t by simp
  have val: "unsigned_be (c # t) = unsigned_be s" using strip_leading_value [of s] t by simp
  show ?thesis
  proof (cases "128 \<le> ord_of c")
    case True
    from True t have e: "encInt s = CHR 0x00 # c # t" by (simp add: encInt_def)
    have "der_integer (CHR 0x00 # c # t) = Some (unsigned_be (CHR 0x00 # c # t))"
      using True by (simp add: der_integer_def)
    with e val len show ?thesis by simp
  next
    case False
    with t have e: "encInt s = c # t" by (simp add: encInt_def)
    have "der_integer (c # t) = Some (unsigned_be (c # t))"
    proof (cases t)
      case Nil
      with False show ?thesis by (simp add: der_integer_def unsigned_be_def)
    next
      case (Cons d r)
      then have "ord_of c \<noteq> 0" using strip_leading_shape [OF assms] t by auto
      with False Cons show ?thesis by (simp add: der_integer_def)
    qed
    with e val len show ?thesis by simp
  qed
qed

lemma ord_of_nat: "n < 256 \<Longrightarrow> ord_of (char_of (n :: nat)) = int n"
proof -
  assume n: "n < 256"
  then have "(of_char (char_of n) :: nat) = n" by simp
  moreover have "ord_of (char_of n) = int (of_char (char_of n))" by (rule of_nat_of_char [symmetric])
  ultimately show ?thesis by simp
qed

lemma der_element_short:
  assumes "length content < 128"
  shows "der_element tag (tag # char_of (length content) # content @ rest) = Some (content, rest)"
  using assms by (simp add: der_element_def der_length_def ord_of_nat)

text \<open>
  The page and the server agree on signatures: 64 bytes, two big-endian numbers side by side as the
  browser makes them, are read out of the DER form that the page sends as these two numbers, leading
  zeros and a set top bit included.
\<close>

lemma der_round_trip:
  assumes "length sig = 64"
  shows "asn1_signature (p1363ToDer sig) = Some (unsigned_be (take 32 sig), unsigned_be (drop 32 sig))"
proof -
  let ?r = "encInt (take 32 sig)" and ?s = "encInt (take 32 (drop 32 sig))"
  have half: "take 32 (drop 32 sig) = drop 32 sig" using assms by simp
  have "take 32 sig \<noteq> []" "drop 32 sig \<noteq> []" using assms by auto
  then have r: "der_integer ?r = Some (unsigned_be (take 32 sig))" "length ?r \<le> 33"
    and s: "der_integer ?s = Some (unsigned_be (drop 32 sig))" "length ?s \<le> 33"
    using der_integer_encInt [of "take 32 sig"] der_integer_encInt [of "drop 32 sig"] assms half by auto
  let ?inner = "[CHR 0x02, char_of (length ?r)] @ ?r @ [CHR 0x02, char_of (length ?s)] @ ?s"
  have "der_element (CHR 0x30) (p1363ToDer sig) = Some (?inner, [])"
    using der_element_short [of ?inner "CHR 0x30" "[]"] r(2) s(2) by (simp add: p1363ToDer_def Let_def)
  moreover have "der_element (CHR 0x02) ?inner = Some (?r, [CHR 0x02, char_of (length ?s)] @ ?s)"
    using der_element_short [of ?r "CHR 0x02" "[CHR 0x02, char_of (length ?s)] @ ?s"] r(2) by simp
  moreover have "der_element (CHR 0x02) ([CHR 0x02, char_of (length ?s)] @ ?s) = Some (?s, [])"
    using der_element_short [of ?s "CHR 0x02" "[]"] s(2) by simp
  ultimately show ?thesis using r(1) s(1) by (simp add: asn1_signature_def)
qed

section \<open>Base64\<close>

lemma b64_char_std: "0 \<le> v \<Longrightarrow> v < 64 \<Longrightarrow> b64_char False v \<noteq> CHR ''='' \<and> b64_char False v \<noteq> CHR 0x0A \<and> b64_char False v \<noteq> CHR 0x0D"
  using b64_digit_char [of v False] by (auto simp: b64_digit_def)

lemma b64_char_url: "0 \<le> v \<Longrightarrow> v < 64 \<Longrightarrow> url_char (b64_char False v) = b64_char True v"
proof -
  assume v: "0 \<le> v" "v < 64"
  then have "v \<in> set (upto 0 63)" by auto
  moreover have "list_all (\<lambda>v. url_char (b64_char False v) = b64_char True v) (upto 0 63)" by code_simp
  ultimately show ?thesis by (simp only: list_all_iff)
qed

lemma b64_pack_length: "length (b64_pack xs) mod 4 = (if length xs mod 3 = 0 then 0 else Suc (length xs mod 3))"
proof (induction xs rule: b64_pack.induct)
  case (4 x y z r)
  have "length r mod 3 = 0 \<or> length r mod 3 = 1 \<or> length r mod 3 = 2" by linarith
  with 4 show ?case by (auto simp: mod_Suc)
qed simp_all

lemma bytes_packed: "v \<in> set (b64_pack (map ord_of b)) \<Longrightarrow> 0 \<le> v \<and> v < 64"
  using b64_pack_bound [of "map ord_of b"] by (auto simp: of_char_bounds)

text \<open>Padding, at the end and nowhere else.\<close>

lemma drop_padding: "p \<notin> set s \<Longrightarrow> dropWhile (\<lambda>c. c = p) (replicate n p @ rev s) = rev s"
proof (induction n)
  case 0
  have "hd (rev s) \<noteq> p" if "s \<noteq> []" using 0 that hd_in_set [of "rev s"] by auto
  then show ?case by (auto simp: dropWhile_eq_self_iff)
qed simp

lemma no_padding: "p \<notin> set s \<Longrightarrow> \<not> has_suffix s (u @ [p])"
  by (auto elim!: has_suffixE)

lemma one_padding: "p \<notin> set s \<Longrightarrow> \<not> has_suffix (s @ [p]) [p, p]"
  using no_padding [of p s "[]"] by (auto elim!: has_suffixE simp: has_suffix_append)

lemma base64urlEncode_raw: "base64urlEncode b = raw_url_encode b"
proof -
  let ?v = "b64_pack (map ord_of b)" and ?n = "(3 - length b mod 3) mod 3"
  have url: "map url_char (map (b64_char False) ?v) = map (b64_char True) ?v"
    using bytes_packed b64_char_url by simp
  have "b64_char True v \<noteq> CHR ''=''" if "0 \<le> v" "v < 64" for v
    using b64_digit_char [OF that, of True] by (auto simp: b64_digit_def)
  then have no_pad: "CHR ''='' \<notin> set (map (b64_char True) ?v)"
    using bytes_packed [of _ b] by (metis (no_types, lifting) imageE set_map)
  have "map url_char (btoa b) = map (b64_char True) ?v @ replicate ?n (CHR ''='')"
    using url by (simp add: btoa_def url_char_def)
  then have "base64urlEncode b = rev (dropWhile (\<lambda>c. c = CHR ''='') (replicate ?n (CHR ''='') @ rev (map (b64_char True) ?v)))"
    by (simp add: base64urlEncode_def)
  also have "\<dots> = map (b64_char True) ?v" unfolding drop_padding [OF no_pad] by simp
  finally show ?thesis by (simp add: raw_url_encode_def)
qed

lemma btoa_length: "length (btoa b) mod 4 = 0"
proof -
  let ?v = "b64_pack (map ord_of b)" and ?n = "(3 - length b mod 3) mod 3"
  have whole: "length (btoa b) = length ?v + ?n" by (simp add: btoa_def)
  have rest: "length ?v mod 4 = (if length b mod 3 = 0 then 0 else Suc (length b mod 3))"
    using b64_pack_length [of "map ord_of b"] by simp
  consider "length b mod 3 = 0" | "length b mod 3 = 1" | "length b mod 3 = 2" by linarith
  then show ?thesis
  proof cases
    case 1
    with whole rest show ?thesis by simp
  next
    case 2
    then have "length ?v mod 4 = 2" "length (btoa b) = length ?v + 2" using whole rest by simp_all
    with mod_add_left_eq [of "length ?v" 4 2] show ?thesis by simp
  next
    case 3
    then have "length ?v mod 4 = 3" "length (btoa b) = length ?v + 1" using whole rest by simp_all
    with mod_add_left_eq [of "length ?v" 4 1] show ?thesis by simp
  qed
qed

abbreviation btoa_body :: "bytes \<Rightarrow> string" where
  "btoa_body b \<equiv> map (b64_char False) (b64_pack (map ord_of b))"

lemma btoa_body_clean: "c \<in> set (btoa_body b) \<Longrightarrow> b64_digit False c \<noteq> None \<and> c \<noteq> CHR ''='' \<and> c \<noteq> CHR 0x0A \<and> c \<noteq> CHR 0x0D"
  using bytes_packed b64_char_std by auto

lemma btoa_clean: "c \<in> set (btoa b) \<Longrightarrow> b64_digit False c \<noteq> None \<or> c = CHR ''=''"
  using btoa_body_clean [of c b] by (auto simp: btoa_def)

lemma btoa_digits: "Option.bind (b64_digits False (btoa_body b)) b64_unpack = Some b"
  using b64_digits_chars [of "b64_pack (map ord_of b)" False] bytes_packed b64_unpack_pack [of "map ord_of b"]
  by (auto simp: of_char_bounds comp_def)

lemma btoa_stripped:
  "(if has_suffix (btoa b) ''=='' then take (length (btoa b) - 2) (btoa b)
    else if has_suffix (btoa b) ''='' then take (length (btoa b) - 1) (btoa b) else btoa b) = btoa_body b"
proof -
  let ?n = "(3 - length b mod 3) mod 3" and ?d = "btoa_body b"
  have no_pad: "CHR ''='' \<notin> set ?d" using btoa_body_clean by blast
  have last: "\<not> has_suffix ?d ''=''" "\<not> has_suffix ?d ''==''" "\<not> has_suffix (?d @ ''='') ''==''"
    using no_padding [OF no_pad, of "[]"] no_padding [OF no_pad, of "''=''"] one_padding [OF no_pad] by (simp_all del: map_map)
  have pads: "has_suffix (?d @ ''='') ''=''" "has_suffix (?d @ ''=='') ''==''" by (rule has_suffix_append)+
  consider "?n = 0" | "?n = 1" | "?n = 2" by linarith
  then show ?thesis
  proof cases
    case 1
    then have "btoa b = ?d" by (simp add: btoa_def)
    with last show ?thesis by (simp del: map_map)
  next
    case 2
    then have "btoa b = ?d @ ''=''" by (simp add: btoa_def)
    with last pads show ?thesis by (simp del: map_map)
  next
    case 3
    then have "btoa b = ?d @ ''==''" by (simp add: btoa_def numeral_2_eq_2)
    with last pads show ?thesis by (simp del: map_map)
  qed
qed

lemma std_decode_btoa: "std_decode (btoa b) = Some b"
proof -
  have "skip_newlines (btoa b) = btoa b"
    unfolding skip_newlines_def using btoa_clean by (intro filter_True) (fastforce simp: b64_digit_def)
  then show ?thesis
    using btoa_length [of b] btoa_digits [of b] unfolding btoa_stripped [of b, symmetric] by (simp add: std_decode_def Let_def)
qed

section \<open>The public key\<close>

lemma hex_length_bound: "n < 16 ^ hex_length n"
proof (induction n rule: hex_length.induct)
  case (1 n)
  show ?case
  proof (cases "n < 16")
    case False
    with 1 have "n div 16 < 16 ^ hex_length (n div 16)" by simp
    then have "n < 16 * 16 ^ hex_length (n div 16)" by (simp add: div_less_iff_less_mult)
    with False show ?thesis by (subst hex_length.simps) simp
  qed (simp add: hex_length.simps)
qed

lemma hex_length_least: "n < 16 ^ k \<Longrightarrow> 0 < k \<Longrightarrow> hex_length n \<le> k"
proof (induction n arbitrary: k rule: hex_length.induct)
  case (1 n)
  show ?case
  proof (cases "n < 16")
    case True
    with 1 show ?thesis by (simp add: hex_length.simps)
  next
    case False
    then obtain j where j: "k = Suc j" "0 < j" using 1(2,3) by (cases k; cases "k - 1") auto
    with 1(2) have "n div 16 < 16 ^ j" by (simp add: less_mult_imp_div_less mult.commute)
    from 1(1) [OF False this j(2)] False j show ?thesis by (subst hex_length.simps) simp
  qed
qed

lemma bigIntToBytes_length [simp]: "length (bigIntToBytes n len) = len"
  by (simp add: bigIntToBytes_def Let_def)

lemma compressPoint_length [simp]: "length (compressPoint x y) = 33"
  by (simp add: compressPoint_def)

lemma unsigned_be_digits:
  "unsigned_be (map (\<lambda>i. char_of (n div 256 ^ (len - Suc i) mod 256)) [0..<len]) = n mod 256 ^ len"
proof (induction len arbitrary: n)
  case (Suc len)
  let ?f = "\<lambda>n len i. char_of (n div 256 ^ (len - Suc i) mod 256)"
  have "(256 :: int) ^ (len - x) = 256 * 256 ^ (len - Suc x)" if "x < len" for x
    using that by (metis Suc_diff_Suc power_Suc)
  then have tail: "map (?f n (Suc len)) [0..<len] = map (?f (n div 256) len) [0..<len]"
    by (auto simp: zdiv_zmult2_eq)
  have "unsigned_be (map (?f n (Suc len)) [0..<Suc len]) =
      256 * unsigned_be (map (?f n (Suc len)) [0..<len]) + ord_of (?f n (Suc len) len)" by simp
  also have "\<dots> = 256 * (n div 256 mod 256 ^ len) + n mod 256" unfolding tail Suc by simp
  also have "\<dots> = n mod 256 ^ Suc len" by (simp add: zmod_zmult2_eq)
  finally show ?case .
qed simp

text \<open>A number that fits is written in full.\<close>

lemma bytes_round_trip:
  assumes "0 \<le> n" and "n < 256 ^ len" and "0 < len"
  shows "unsigned_be (bigIntToBytes n len) = n"
proof -
  have "nat n < 16 ^ (2 * len)" using assms(1,2) by (simp add: power_mult nat_less_iff)
  then have "hex_length (nat n) \<le> 2 * len" using assms(3) by (intro hex_length_least) auto
  then have "bigIntToBytes n len = map (\<lambda>i. char_of (n div 256 ^ (len - Suc i) mod 256)) [0..<len]"
    by (simp add: bigIntToBytes_def max_def)
  with unsigned_be_digits [of n len] assms show ?thesis by simp
qed

text \<open>A derived scalar is a private key of the curve, and its 32 bytes say which.\<close>

lemma derived_scalar:
  assumes "derive_scalar seed = Some d"
  shows "0 < d \<and> d < P256_N \<and> unsigned_be (bigIntToBytes d 32) = d"
proof -
  have "d = unsigned_be seed mod (P256_N - 1) + 1"
    using assms unsigned_be_bounds [of seed]
    by (auto simp: derive_scalar_def bytesToBigInt_def js_rem_nonneg P256_N_def split: if_splits)
  moreover have "0 \<le> unsigned_be seed mod (P256_N - 1)" "unsigned_be seed mod (P256_N - 1) < P256_N - 1"
    by (simp_all add: P256_N_def)
  ultimately have "0 < d" "d < P256_N" by simp_all
  moreover from this have "unsigned_be (bigIntToBytes d 32) = d" by (intro bytes_round_trip) (simp_all add: P256_N_def)
  ultimately show ?thesis by blast
qed

section \<open>The modular inverse\<close>

lemma inv_loop_bezout:
  assumes "m dvd oldS * a - oldR" and "m dvd s * a - r" and "0 \<le> oldR" and "0 \<le> r"
  shows "m dvd inv_loop oldR r oldS s * a - gcd oldR r"
  using assms
proof (induction oldR r oldS s rule: inv_loop.induct)
  case (1 oldR r oldS s)
  show ?case
  proof (cases "r = 0")
    case True
    with 1 show ?thesis by (simp add: inv_loop.simps [of oldR 0])
  next
    case False
    let ?q = "js_div oldR r"
    have r: "0 < r" using False 1(5) by simp
    have rem: "oldR - ?q * r = oldR mod r" using js_rem_nonneg [OF 1(4) r] by (simp add: js_rem_def)
    have step: "(oldS - ?q * s) * a - (oldR - ?q * r) = (oldS * a - oldR) - ?q * (s * a - r)" by (simp add: algebra_simps)
    have "m dvd (oldS - ?q * s) * a - (oldR - ?q * r)" unfolding step by (intro dvd_diff dvd_mult 1(2,3))
    from 1(1) [OF False refl 1(3) this 1(5)] rem r
    have "m dvd inv_loop r (oldR - ?q * r) s (oldS - ?q * s) * a - gcd r (oldR mod r)" by simp
    with False show ?thesis by (subst inv_loop.simps) (simp add: Let_def gcd_red_int [of oldR r])
  qed
qed

text \<open>
  The page inverts modulo a number. For every modulus above 1 the loop of \<open>modInv\<close> ends, for
  negative arguments too, and what it returns is the inverse of every argument that has one.
\<close>
theorem modInv_inverse:
  assumes "1 < m" and "coprime a m"
  shows "0 \<le> modInv a m \<and> modInv a m < m \<and> modInv a m * a mod m = 1"
proof -
  let ?s = "inv_loop (a mod m) m 1 0"
  have inv: "modInv a m = ?s mod m" using assms(1) by (simp add: modInv_def js_wrapped)
  have "m dvd 1 * (a mod m) - (a mod m)" "m dvd 0 * (a mod m) - m" "0 \<le> a mod m" "0 \<le> m" using assms(1) by simp_all
  from inv_loop_bezout [OF this] have "m dvd ?s * (a mod m) - gcd (a mod m) m" .
  moreover have "gcd (a mod m) m = 1" using assms by (simp add: coprime_iff_gcd_eq_1 [symmetric] coprime_mod_left_iff)
  ultimately have "?s * (a mod m) mod m = 1 mod m" by (simp add: mod_eq_dvd_iff)
  then have "?s mod m * a mod m = 1" using assms(1) by (simp add: mod_mult_left_eq mod_mult_right_eq)
  with assms(1) show ?thesis by (simp add: inv)
qed

section \<open>Objects of strings as JSON\<close>

abbreviation string_members :: "(string \<times> string) list \<Rightarrow> (string \<times> json) list" where
  "string_members kvs \<equiv> map (\<lambda>(k, v). (k, JStr v)) kvs"

lemma parse_plain_string: "list_all plain v \<Longrightarrow> parse_value 0 (CHR 0x22 # v @ CHR 0x22 # rest) = Some (JStr v, rest)"
  by (simp add: parse_step_def skip_ws_def json_space_def lex_plain)

lemma parse_plain_member:
  assumes "list_all plain k" and "list_all plain v"
  shows "parse_member (parse_value 0) (CHR 0x22 # k @ CHR 0x22 # CHR 0x3A # CHR 0x22 # v @ CHR 0x22 # rest) =
    Some ((k, JStr v), rest)"
  using lex_plain [OF assms(1), of "CHR 0x3A # CHR 0x22 # v @ CHR 0x22 # rest"] parse_plain_string [OF assms(2), of rest]
  by (simp add: parse_member_def skip_ws_def json_space_def del: parse_value.simps)

lemma parse_plain_members:
  assumes "list_all (\<lambda>(k, v). list_all plain k \<and> list_all plain v) kvs" and "kvs \<noteq> []" and "length kvs \<le> n"
  shows "parse_members n (parse_value 0) (print_members html (string_members kvs) @ CHR 0x7D # rest) =
    Some (string_members kvs, rest)"
  using assms
proof (induction kvs arbitrary: n)
  case (Cons kv kvs)
  obtain k v where kv: "kv = (k, v)" by (cases kv)
  obtain j where n: "n = Suc j" using Cons.prems(3) by (cases n) auto
  have plain: "list_all plain k" "list_all plain v" using Cons.prems(1) kv by simp_all
  note member = parse_plain_member [OF plain]
  show ?case
  proof (cases "kvs = []")
    case True
    then show ?thesis
      using member [of "CHR 0x7D # rest"] plain n kv
      by (simp add: escape_plain skip_ws_def json_space_def del: parse_value.simps)
  next
    case False
    with Cons.IH [of j] Cons.prems n have "parse_members j (parse_value 0)
        (print_members html (string_members kvs) @ CHR 0x7D # rest) = Some (string_members kvs, rest)" by simp
    with False show ?thesis
      using member [of "CHR 0x2C # print_members html (string_members kvs) @ CHR 0x7D # rest"] plain n kv
      by (simp add: escape_plain skip_ws_def json_space_def del: parse_value.simps)
  qed
qed simp

lemma print_members_length: "length ms \<le> length (print_members html ms)"
  by (induction ms) auto

lemma parse_plain_object:
  assumes "list_all (\<lambda>(k, v). list_all plain k \<and> list_all plain v) kvs" and "kvs \<noteq> []"
  shows "parse_value 1 (print_json html (JObj (string_members kvs)) @ rest) = Some (JObj (string_members kvs), rest)"
proof -
  let ?r = "print_members html (string_members kvs) @ CHR 0x7D # rest"
  obtain q where q: "?r = CHR 0x22 # q" using assms(2) by (cases kvs) auto
  have "length kvs \<le> Suc (length ?r)" using print_members_length [of "string_members kvs" html] by simp
  from parse_plain_members [OF assms this, of html rest]
  have "parse_object (Some (parse_value 0)) ?r = Some (JObj (string_members kvs), rest)"
    unfolding q by (simp add: parse_object_def skip_ws_def json_space_def del: parse_value.simps parse_members.simps)
  then show ?thesis by (simp add: parse_step_def skip_ws_def json_space_def del: parse_value.simps(1))
qed

lemma b64_char_plain: "0 \<le> v \<Longrightarrow> v < 64 \<Longrightarrow> plain (b64_char url v)"
proof -
  assume v: "0 \<le> v" "v < 64"
  then have "v \<in> set (upto 0 63)" by auto
  moreover have "list_all (\<lambda>v. plain (b64_char True v) \<and> plain (b64_char False v)) (upto 0 63)" by code_simp
  ultimately show ?thesis by (cases url) (simp_all only: list_all_iff)
qed

lemma base64_plain: "list_all plain (raw_url_encode b)" "list_all plain (btoa b)"
  using bytes_packed [of _ b] b64_char_plain
  by (auto simp: raw_url_encode_def btoa_def list_all_iff comp_def plain_def [of "CHR ''=''"])

section \<open>Logging in\<close>

lemma token_body_decodes:
  assumes "list_all plain pubkey" and "list_all plain challenge"
  shows "decode_token_request (Some (token_body pubkey challenge der)) =
    Some \<lparr>tr_Pubkey = pubkey, tr_Challenge = challenge, tr_Signature = btoa der\<rparr>"
proof -
  let ?kvs = "[(''pubkey'', pubkey), (''challenge'', challenge), (''signature'', btoa der)]"
  have "list_all (\<lambda>(k, v). list_all plain k \<and> list_all plain v) ?kvs"
    using assms base64_plain(2) by (simp add: plain_def)
  from parse_plain_object [OF this, of False "[]"]
  have "parse_first (token_body pubkey challenge der) = Some (JObj (string_members ?kvs))"
    by (intro parse_first_depth [of 1]) (simp_all add: token_body_def bytesToBase64_def)
  moreover have "fold_name ''pubkey'' = ''pubkey''" "fold_name ''challenge'' = ''challenge''" "fold_name ''signature'' = ''signature''"
    by code_simp+
  ultimately show ?thesis
    by (simp add: decode_token_request_def decode_field_def field_vals_def dec_string_def)
qed

lemma challenge_read:
  assumes "w_random w = Some b" and "list_all plain (w_format w (w_now w + challengeExpiry))"
  shows "json_challenge (resp_body (fst (HandleChallenge w r a))) = Some (raw_url_encode b)"
proof -
  let ?kvs = "[(''challenge'', raw_url_encode b), (''expires_at'', w_format w (w_now w + challengeExpiry))]"
  have "list_all (\<lambda>(k, v). list_all plain k \<and> list_all plain v) ?kvs"
    using assms(2) base64_plain(1) by (simp add: plain_def)
  from parse_plain_object [OF this, of True "[CHR 0x0A]"]
  have "parse_depth 1 (encode_json (JObj (string_members ?kvs))) = Some (JObj (string_members ?kvs))"
    by (simp add: parse_depth_def encode_json_def skip_ws_def json_space_def del: parse_value.simps print_json.simps)
  then have "parse_json (encode_json (JObj (string_members ?kvs))) = Some (JObj (string_members ?kvs))"
    by (rule parse_depth_json) simp
  then show ?thesis using assms(1) by (simp add: HandleChallenge_def json_challenge_def Let_def)
qed

lemma raw_url_encode_Nil: "raw_url_encode b = [] \<Longrightarrow> b = []"
  using raw_url_decode_encode [of b] raw_url_decode_encode [of "[]"] by (simp add: raw_url_encode_def)

text \<open>
  C20 Logging in works. Whoever holds the key of a point on the curve, as the page compresses and
  encodes it, gets a session from the page's script: when the browser's signatures verify, the
  server has random bytes, no other request uses up the challenge and it has not expired, then the
  exchange of challenge and token succeeds, sets the session cookie, and until the token expires
  every request with the cookie is authenticated as that key.
\<close>
theorem login_succeeds:
  assumes "pubkey = base64urlEncode (compressPoint x y)" and "DecompressP256 w2 (compressPoint x y) = Some key"
    and "\<And>m. length (sign m) = 64"
    and "\<And>m. w_ecdsa w2 key (sha256_bytes_of m) (unsigned_be (take 32 (sign m))) (unsigned_be (drop 32 (sign m)))"
    and "w_random w1 = Some b1" and "b1 \<noteq> []" and "w_random w2 = Some b2" and "b2 \<noteq> []"
    and "list_all plain (w_format w1 (w_now w1 + challengeExpiry))"
    and "\<And>q. mget (auth_challenges (meanwhile q)) (raw_url_encode b1) = mget (auth_challenges q) (raw_url_encode b1)"
    and "\<And>q. auth_tokenExpiry (meanwhile q) = auth_tokenExpiry q"
    and "w_now w2 \<le> w_now w1 + challengeExpiry" and "w_now w3 \<le> w_now w2 + auth_tokenExpiry a"
    and "req_cookie r3 ''dv_session'' = Some (raw_url_encode b2)" and "req_header r3 ''Authorization'' = []"
  shows "\<exists>resp a'. authenticate sign pubkey w1 meanwhile w2 r a = (Inr resp, a') \<and>
    resp_header resp ''Set-Cookie'' = session_cookie (raw_url_encode b2) (whole_seconds (auth_tokenExpiry a)) \<and>
    req_auth (auth_Middleware w3 a' r3) = pubkey"
proof -
  let ?c = "raw_url_encode b1"
  obtain resp1 a1 where h1: "HandleChallenge w1 r a = (resp1, a1)" by fastforce
  have ok1: "resp_ok resp1" using h1 assms(5) by (auto simp: HandleChallenge_def resp_ok_def initial_response_def Let_def)
  have c: "json_challenge (resp_body resp1) = Some ?c" using challenge_read [OF assms(5,9), of r a] h1 by simp
  have a1: "mget (auth_challenges a1) ?c = Some (w_now w1 + challengeExpiry)" "auth_tokenExpiry a1 = auth_tokenExpiry a"
    using h1 assms(5) by (auto simp: HandleChallenge_def Let_def)
  let ?der = "p1363ToDer (sign ?c)" and ?a = "meanwhile a1"
  let ?q = "\<lparr>tr_Pubkey = pubkey, tr_Challenge = ?c, tr_Signature = btoa ?der\<rparr>"
  let ?r = "r\<lparr>req_body := Some (token_body pubkey ?c ?der)\<rparr>"
  have pk: "pubkey = raw_url_encode (compressPoint x y)" using assms(1) by (simp add: base64urlEncode_raw)
  have decoded: "decode_token_request (req_body ?r) = Some ?q"
    using token_body_decodes [of pubkey ?c ?der] base64_plain(1) pk by simp
  have sig: "check_token_signature w2 ?q = None"
    using assms(2,4) der_round_trip [OF assms(3)] by (simp add: check_token_signature_def pk std_decode_btoa)
  have "pubkey \<noteq> []" "?c \<noteq> []" "btoa ?der \<noteq> []"
    using raw_url_encode_Nil [of "compressPoint x y"] raw_url_encode_Nil [of b1] assms(6) pk
    by (auto simp: compressPoint_def btoa_def p1363ToDer_def Let_def)
  then have g: "grants w2 ?a ?q b2" unfolding grants_def using assms(7,10,12) a1 sig by simp
  obtain resp2 a2 where h2: "HandleToken w2 ?r ?a = (resp2, a2)" by fastforce
  have status: "resp_status resp2 = 200" using HandleToken_ok [of w2 ?r ?a] decoded g h2 by auto
  have a2: "a2 = ?a\<lparr>auth_challenges := mdel ?c (auth_challenges ?a),
      auth_tokens := mput (raw_url_encode b2) (token_entry w2 ?a ?q) (auth_tokens ?a)\<rparr>"
    using HandleToken_granted [OF decoded g] h2 by simp
  have cookie: "resp_header resp2 ''Set-Cookie'' = session_cookie (raw_url_encode b2) (whole_seconds (auth_tokenExpiry a))"
    using h2 decoded g a1(2) assms(11) by (auto simp: HandleToken_def grants_def Let_def not_less)
  have "req_auth (auth_Middleware w3 a2 r3) = pubkey"
    using a2 a1(2) assms(8,11,13-15) raw_url_encode_Nil [of b2]
    by (auto simp: auth_Middleware_def request_token_def extractBearerToken_def extractCookieToken_def has_prefix_def
        ValidateToken_def token_entry_def Let_def)
  moreover have "authenticate sign pubkey w1 meanwhile w2 r a = (Inr resp2, a2)"
    using h1 ok1 c h2 status by (simp add: authenticate_def resp_ok_def Let_def)
  ultimately show ?thesis using cookie by blast
qed

theorem login_succeeds_witness:
  "\<exists>resp a'. authenticate (\<lambda>m. replicate 64 (CHR ''s'')) (base64urlEncode (compressPoint 1 2)) calm_world id calm_world
       empty_request (NewAuthStore hour) = (Inr resp, a') \<and>
     req_auth (auth_Middleware calm_world a'
       (empty_request\<lparr>req_cookie := (\<lambda>k. Some (raw_url_encode (replicate 32 (CHR ''r''))))\<rparr>)) =
       base64urlEncode (compressPoint 1 2)"
proof -
  have "list_all plain (w_format calm_world (w_now calm_world + challengeExpiry))" by code_simp
  moreover have "0 \<le> challengeExpiry" "0 \<le> hour" by code_simp+
  ultimately show ?thesis
    using login_succeeds [of "base64urlEncode (compressPoint 1 2)" 1 2 calm_world "(1, 2)" "\<lambda>m. replicate 64 (CHR ''s'')" calm_world
        "replicate 32 (CHR ''r'')" "replicate 32 (CHR ''r'')" id calm_world "NewAuthStore hour"
        "empty_request\<lparr>req_cookie := (\<lambda>k. Some (raw_url_encode (replicate 32 (CHR ''r''))))\<rparr>" empty_request]
    by (auto simp: calm_world_def DecompressP256_def NewAuthStore_def empty_request_def)
qed

end
