(* ===== verification/Spec2Isabelle.thy ===== *)
theory Spec2Isabelle
  imports Main_Traffic Proxy_Lists Proxy_Planted Serving_Crash Serving_Realms Serving_Reparse Serving_Overflow Login_Pem
begin

text \<open>
  A verification library for dataverse-hub, a server of signed JSON objects written in Go. An object
  is an envelope: an item with its author's public key, an id, a revision and typed relations to
  other objects, the realms it belongs to, and a signature over the canonical bytes of the item. A
  hub stores objects as files, keeps an index in memory and serves JSON, raw and HTML
  representations; a proxy is a hub that keeps its store in step with an upstream root hub.

  \<^bold>\<open>The parts, and the theories that model them\<close> (paths are under \<open>src/\<close>):

  \<^item> \<open>Hub_Prelude\<close>: maps that remember an order of iteration, bytes, named collections of facts.
  \<^item> \<open>Go_Strings\<close>, \<open>Go_Encoding\<close>, \<open>Go_Float\<close>, \<open>Go_Json\<close>, \<open>Go_Time\<close>, \<open>Go_Duration\<close>, \<open>Go_Asn1\<close>,
    \<open>Http_Types\<close>: what the program uses of Go's standard library, from UTF-8 and SHA-256 to
    \<open>encoding/json\<close>'s scanner, its case-insensitive struct decoding, the shortest decimal of a
    float64 and the ASN.1 of a signature.
  \<^item> \<open>Go_World\<close>: the record \<open>world\<close> of everything outside the program at one moment: clock, randomness,
    DNS, elliptic curves, the text of errors, and which file operations fail.
  \<^item> \<open>Object_Model\<close>, \<open>Object_Verify\<close>, \<open>Object_Problem\<close> (\<open>object/\<close>): the data types and their decoding,
    canonical form and signatures, comparison of two versions, problem responses. \<open>Object_Sample\<close>
    has the signed objects of the concrete runs.
  \<^item> \<open>Realm_Core\<close>, \<open>Realm_Shared\<close>, \<open>Realm_Id\<close>, \<open>Realm_Graph\<close>, \<open>Realm_Resolver\<close> (\<open>realm/\<close>): who may read
    and write; realms of the configuration, realms declared by objects, and their union. The
    interface \<open>RealmResolver\<close> is a locale, interpreted on all three.
  \<^item> \<open>Store_Files\<close>, \<open>Store_Index\<close>, \<open>Store_Realms\<close> (\<open>storage/\<close>): the directory as a map from paths to
    contents, under the locale \<open>object_store\<close>; the index, refined to a plain map of objects; and
    the agreement of the index with its graph of realms.
  \<^item> \<open>Auth_Tokens\<close>, \<open>Auth_Ratelimit\<close> (\<open>auth/\<close>): challenges and bearer tokens; two windows per client,
    also under concurrent requests.
  \<^item> \<open>Vhost_Resolver\<close>, \<open>Serving_Origin\<close> (\<open>vhost/\<close>, \<open>serving/vhost_mode.go\<close>): one origin per page.
  \<^item> \<open>Serving_Precondition\<close>, \<open>Serving_Keyedmutex\<close>, \<open>Serving_Content\<close>, \<open>Serving_Paginate\<close>,
    \<open>Serving_Viewer\<close>, \<open>Serving_Projection\<close>, \<open>Serving_Hub\<close>, \<open>Serving_Router\<close> (\<open>serving/\<close>): the handlers
    of the hub in the order they are built up, then the routing table and the chain of middleware.
    The mutex is a step relation over any number of threads.
  \<^item> \<open>Serving_Writes\<close>, \<open>Serving_Realms\<close>, \<open>Serving_Reparse\<close>, \<open>Serving_Overflow\<close>: what single writes and
    whole runs of a hub achieve, who changes the members of a realm, how a stored object can change
    its author, and the revision that no reader can decode.
  \<^item> \<open>Serving_Interleaved\<close>: \<open>PUT\<close> and \<open>GET\<close> cut into the pieces between which another request can run,
    and the schedules of any number of them. \<open>Serving_Serial\<close> orders the writes of a schedule one
    after the other; \<open>Serving_Race\<close> has the schedules in which a reader sees what it may not;
    \<open>Serving_Crash\<close> stops the hub at any moment.
  \<^item> \<open>Serving_Login_Page\<close>, \<open>Login_Client\<close>, \<open>Login_Pem\<close> (\<open>serving/private_page_login.go\<close>): the login page as
    a literal, and what its script computes in the browser: P-256, the encoding of keys and
    signatures, the key file, and the exchange with the handlers of \<open>auth/\<close>.
  \<^item> \<open>Upstream_Client\<close>, \<open>Upstream_Sync\<close>, \<open>Upstream_Drain\<close> (\<open>upstream/\<close>): the client of the root hub with
    its flag of availability, the queue of edits that are still to be pushed, and the goroutine that
    drains it, step by step.
  \<^item> \<open>Proxy_Cache\<close>, \<open>Proxy_Handlers\<close> (\<open>serving/proxy.go\<close> and half of \<open>serving/projection.go\<close>): caching,
    the proxy's handlers, its merged lists, and the goroutines it starts. \<open>Proxy_Runs\<close> has its
    router and shows that each operation is a composition of a few actions; \<open>Proxy_Guarantees\<close>,
    \<open>Proxy_Lists\<close>, \<open>Proxy_Offline\<close> and \<open>Proxy_Queue\<close> draw the conclusions, and \<open>Proxy_Planted\<close> shows
    what a root hub does to the queue with a reference that is a path.
  \<^item> \<open>Main_Config\<close>, \<open>Main_Start\<close> (\<open>config.go\<close>, \<open>main.go\<close>, \<open>cmd/pagehash\<close>): the layers of the configuration,
    and the server that start-up puts together.
  \<^item> \<open>Main_Lifecycle\<close>, \<open>Main_Traffic\<close> (\<open>main.go\<close>): the process with all its goroutines, as a step relation
    from the start over requests, background work, reloads and signals to the exit; how it shuts
    down, and what holds of its traffic with the root hub and of its queue throughout.

  \<^bold>\<open>How state and operations correspond.\<close> A struct is a record, with the file's or type's initials
  before a field that would clash; an operation has the name of its Go function, or \<open>px_\<close> before it
  where the proxy has a method of the same name as the hub. State is passed and returned: a handler
  maps a request and the hub to a response and the hub. A Go map that is iterated is an association
  list without duplicates (\<open>mwf\<close>), so that a theorem about it holds for every order. Pointers that may
  be nil and errors are options and sums with a constructor for each cause; a panic of a slice
  expression is \<open>None\<close>. Revisions and times are integers, checked against their 64-bit range where
  they are parsed.

  \<^bold>\<open>What the properties show.\<close> Over every run of a hub, what is stored was signed, revisions only
  grow, the index is exact, and a realm gets members from its owner only. Listings contain precisely
  what the caller may read, a client that follows the cursors gets every readable object once, and a
  private object looks like a missing one. Tokens are given to keys that signed a fresh
  challenge, and the login page gets one for the key it was given. In every interleaving of
  requests the lock of a reference excludes, leaks nothing and is obtainable, the writes have the
  effect of some serial order, and every request gets its answer. Over every run of a proxy,
  private objects stay on it, nothing is downgraded, an equal revision replaces nothing, and an
  edit accepted offline is kept until it is settled; the process theorems say so from its start to
  its exit, whenever a signal comes, of root hubs that leave the files of the queue alone. A shutdown ends, in the order the code means it to have. A
  restart starts from exactly what is stored. Some theorems state where the code does less than
  its comments or documents say: a forged author, a revision that is accepted and cannot be read
  back, an object that a failed update makes unreadable or a crash hides, readers who see a private
  object while it is written, edits that a rate limit drops, retries without pause, a write that a
  gateway error loses, a file that is uploaded by a page relation, an object that is planted in the
  queue of edits, a panic, a signature that fits
  two revisions, and writers who are no members.

  \<^bold>\<open>Assumptions and bounds.\<close> The server's decompression of points and its ECDSA check, the browser's
  signatures and key derivation, the TOML decoder, chi's pattern matching, the root hub and the
  operating system are parameters: fields of \<open>world\<close> or arguments that the theorems leave arbitrary,
  but for what their hypotheses say. Of the root hub, the two theorems about the traffic of a process
  (\<open>Main_Traffic\<close>) assume that no object it offers has a reference that names a file of the queue or its
  archives (\<open>spares_queue\<close>): the code stores such an object there, so without the assumption both are
  false. The one about accepted edits also assumes that the root hub never answers 202. The theorem
  about a signer who is not the author (\<open>Serving_Reparse\<close>) assumes that the libraries accept one given key
  and signature. SHA-1 and SHA-256 are definitions. The JSON parser
  stops at the depth of 10000 that Go has, so its fuel is part of its behaviour; the loops over
  pages and over shortest decimals have explicit bounds with a lemma or a comment that they are
  enough. \<open>mwf\<close> of a disk says that a path has one content. Where a theorem assumes \<open>indexed\<close>, the
  start-up theorem provides it.

  \<^bold>\<open>Not modelled.\<close> The accept loop and the transport of \<open>net/http\<close>, with header canonicalisation and
  timeouts; the duration of tickers (what they trigger may happen at any step); logging; most error
  messages' wording; of the login page, what touches the document, the browser's database and its
  key objects. The requests of a hub are interleaved for \<open>PUT\<close> and \<open>GET\<close> of an object; its other
  handlers, and the handlers of a proxy, are one step each, their uploads included, between which the goroutines
  they start, the drain and the health checker run in any order. The temporary file, the rename and
  the setting of the time in \<open>Write\<close> are one step.
\<close>

end
